(* ===== verification/Kernmux_Prelude.thy ===== *)
theory Kernmux_Prelude
  imports Main "HOL-Library.Word" "HOL-Library.Char_ord" "HOL-Library.List_Lexorder"
begin

text \<open>
  Shared vocabulary of the development: Rust's fixed-width integers and their checked,
  saturating and wrapping arithmetic; \<open>Result\<close> as a sum with the error on the left;
  \<open>BTreeSet\<close> and \<open>BTreeMap\<close> as sorted duplicate-free lists; the string operations of
  \<open>str\<close> that the daemon uses (a \<open>string\<close> is the list of the UTF-8 bytes); decimal
  printing and parsing with their round trip.  The definitions model the standard library,
  so they carry no source lines of their own.
\<close>

section \<open>Integers\<close>

type_synonym u8 = "8 word"
type_synonym u16 = "16 word"
type_synonym u32 = "32 word"
type_synonym u64 = "64 word"

definition checked_add :: "'a::len word \<Rightarrow> 'a word \<Rightarrow> 'a word option" where
  "checked_add a b = (if unat a + unat b < 2 ^ LENGTH('a) then Some (a + b) else None)"

definition checked_mul :: "'a::len word \<Rightarrow> 'a word \<Rightarrow> 'a word option" where
  "checked_mul a b = (if unat a * unat b < 2 ^ LENGTH('a) then Some (a * b) else None)"

definition saturating_add :: "'a::len word \<Rightarrow> 'a word \<Rightarrow> 'a word" where
  "saturating_add a b = (if unat a + unat b < 2 ^ LENGTH('a) then a + b else - 1)"

definition saturating_sub :: "'a::len word \<Rightarrow> 'a word \<Rightarrow> 'a word" where
  "saturating_sub a b = (if b \<le> a then a - b else 0)"

section \<open>Results\<close>

type_synonym ('a, 'e) result = "'e + 'a"

fun and_then :: "'e + 'a \<Rightarrow> ('a \<Rightarrow> 'e + 'b) \<Rightarrow> 'e + 'b" where
  "and_then (Inl e) f = Inl e"
| "and_then (Inr x) f = f x"

fun map_err :: "('e \<Rightarrow> 'f) \<Rightarrow> 'e + 'a \<Rightarrow> 'f + 'a" where
  "map_err f (Inl e) = Inl (f e)"
| "map_err f (Inr x) = Inr x"

fun map_ok :: "('a \<Rightarrow> 'b) \<Rightarrow> 'e + 'a \<Rightarrow> 'e + 'b" where
  "map_ok f (Inl e) = Inl e"
| "map_ok f (Inr x) = Inr (f x)"

fun ok_or :: "'e \<Rightarrow> 'a option \<Rightarrow> 'e + 'a" where
  "ok_or e None = Inl e"
| "ok_or e (Some x) = Inr x"

fun ok :: "'e + 'a \<Rightarrow> 'a option" where
  "ok (Inl e) = None"
| "ok (Inr x) = Some x"

fun is_ok :: "'e + 'a \<Rightarrow> bool" where
  "is_ok (Inl e) = False"
| "is_ok (Inr x) = True"

text \<open>\<open>Option<Result>::transpose\<close> after a \<open>map\<close>, and \<open>collect\<close> into a \<open>Result\<close>.\<close>

fun traverse_option :: "('a \<Rightarrow> 'e + 'b) \<Rightarrow> 'a option \<Rightarrow> 'e + 'b option" where
  "traverse_option f None = Inr None"
| "traverse_option f (Some x) = map_ok Some (f x)"

fun traverse_list :: "('a \<Rightarrow> 'e + 'b) \<Rightarrow> 'a list \<Rightarrow> 'e + 'b list" where
  "traverse_list f [] = Inr []"
| "traverse_list f (x # xs) = and_then (f x) (\<lambda>y. map_ok ((#) y) (traverse_list f xs))"

definition is_none_or :: "('a \<Rightarrow> bool) \<Rightarrow> 'a option \<Rightarrow> bool" where
  "is_none_or p x = (case x of None \<Rightarrow> True | Some y \<Rightarrow> p y)"

definition is_some_and :: "('a \<Rightarrow> bool) \<Rightarrow> 'a option \<Rightarrow> bool" where
  "is_some_and p x = (case x of None \<Rightarrow> False | Some y \<Rightarrow> p y)"

text \<open>Big-endian bytes.\<close>

definition to_be_bytes :: "u32 \<Rightarrow> u8 list" where
  "to_be_bytes n =
     [of_nat (unat n div 2 ^ 24), of_nat (unat n div 2 ^ 16), of_nat (unat n div 2 ^ 8),
      of_nat (unat n)]"

definition from_be_bytes :: "u8 list \<Rightarrow> nat" where
  "from_be_bytes bytes = foldl (\<lambda>acc b. 256 * acc + unat b) 0 bytes"

section \<open>Ordered collections\<close>

text \<open>Collecting into a \<open>BTreeSet\<close> and iterating it again: sorted, without duplicates.\<close>

definition btree_set :: "'a::linorder list \<Rightarrow> 'a list" where
  "btree_set xs = sort (remdups xs)"

text \<open>Collecting pairs into a \<open>BTreeMap\<close>: the last pair of a key wins.\<close>

definition btree_map_get :: "('k \<times> 'v) list \<Rightarrow> 'k \<Rightarrow> 'v option" where
  "btree_map_get ps k = map_of (rev ps) k"

definition btree_map_values :: "('k::linorder \<times> 'v) list \<Rightarrow> 'v list" where
  "btree_map_values ps =
     List.map_filter (btree_map_get ps) (btree_set (map fst ps))"

section \<open>Strings\<close>

fun join :: "string \<Rightarrow> string list \<Rightarrow> string" where
  "join sep [] = []"
| "join sep [x] = x"
| "join sep (x # y # ys) = x @ sep @ join sep (y # ys)"

fun split_char :: "char \<Rightarrow> string \<Rightarrow> string list" where
  "split_char c [] = [[]]"
| "split_char c (x # xs) =
     (if x = c then [] # split_char c xs
      else (case split_char c xs of [] \<Rightarrow> [[x]] | seg # segs \<Rightarrow> (x # seg) # segs))"

fun split_once :: "char \<Rightarrow> string \<Rightarrow> (string \<times> string) option" where
  "split_once c [] = None"
| "split_once c (x # xs) =
     (if x = c then Some ([], xs)
      else map_option (\<lambda>(a, b). (x # a, b)) (split_once c xs))"

definition starts_with :: "'a list \<Rightarrow> 'a list \<Rightarrow> bool" where
  "starts_with s p \<longleftrightarrow> take (length p) s = p"

definition strip_prefix :: "'a list \<Rightarrow> 'a list \<Rightarrow> 'a list option" where
  "strip_prefix p s = (if starts_with s p then Some (drop (length p) s) else None)"

definition strip_suffix :: "'a list \<Rightarrow> 'a list \<Rightarrow> 'a list option" where
  "strip_suffix p s = map_option rev (strip_prefix (rev p) (rev s))"

definition byte :: "char \<Rightarrow> nat" where
  "byte c = of_char c"

definition is_ascii_digit :: "char \<Rightarrow> bool" where
  "is_ascii_digit c \<longleftrightarrow> 48 \<le> byte c \<and> byte c \<le> 57"

definition is_ascii_uppercase :: "char \<Rightarrow> bool" where
  "is_ascii_uppercase c \<longleftrightarrow> 65 \<le> byte c \<and> byte c \<le> 90"

definition is_ascii_lowercase :: "char \<Rightarrow> bool" where
  "is_ascii_lowercase c \<longleftrightarrow> 97 \<le> byte c \<and> byte c \<le> 122"

definition is_ascii_alphanumeric :: "char \<Rightarrow> bool" where
  "is_ascii_alphanumeric c \<longleftrightarrow>
     is_ascii_digit c \<or> is_ascii_uppercase c \<or> is_ascii_lowercase c"

definition is_lower_hex :: "char \<Rightarrow> bool" where
  "is_lower_hex c \<longleftrightarrow> is_ascii_digit c \<or> (97 \<le> byte c \<and> byte c \<le> 102)"

definition is_ascii_hexdigit :: "char \<Rightarrow> bool" where
  "is_ascii_hexdigit c \<longleftrightarrow> is_lower_hex c \<or> (65 \<le> byte c \<and> byte c \<le> 70)"

definition contains :: "'a list \<Rightarrow> 'a list \<Rightarrow> bool" where
  "contains p s \<longleftrightarrow> list_ex (\<lambda>i. starts_with (drop i s) p) [0..<Suc (length s)]"

section \<open>Decimal numerals\<close>

definition digit_char :: "nat \<Rightarrow> char" where
  "digit_char d = char_of (48 + d)"

function show_nat :: "nat \<Rightarrow> string" where
  "show_nat n = (if n < 10 then [digit_char n]
                 else show_nat (n div 10) @ [digit_char (n mod 10)])"
  by pat_completeness auto
termination
  by (relation "measure id") auto

declare show_nat.simps [simp del]

definition show_word :: "'a::len word \<Rightarrow> string" where
  "show_word w = show_nat (unat w)"

fun parse_digits :: "nat \<Rightarrow> string \<Rightarrow> nat option" where
  "parse_digits acc [] = Some acc"
| "parse_digits acc (c # cs) =
     (if is_ascii_digit c then parse_digits (10 * acc + (byte c - 48)) cs else None)"

text \<open>
  \<open>FromStr\<close> of the unsigned integers: an optional plus sign, at least one digit, a value in
  range.  The range test at the end rejects the same strings as the overflow test that the
  standard library makes at every digit, since the accumulator never decreases.
\<close>

definition parse_unsigned :: "nat \<Rightarrow> string \<Rightarrow> nat option" where
  "parse_unsigned bound s =
     (let ds = (case s of [] \<Rightarrow> [] | c # cs \<Rightarrow> if c = CHR ''+'' then cs else s)
      in if ds = [] then None
         else (case parse_digits 0 ds of
                 None \<Rightarrow> None
               | Some n \<Rightarrow> if n < bound then Some n else None))"

definition parse_word :: "string \<Rightarrow> 'a::len word option" where
  "parse_word s = map_option of_nat (parse_unsigned (2 ^ LENGTH('a)) s)"

section \<open>Lemmas\<close>

named_theorems result_iff \<open>when a chain of fallible steps succeeds\<close>
named_theorems word_checked \<open>what the checked and saturating operations return\<close>

subsection \<open>Integers\<close>

lemma checked_add_eq_Some [word_checked]:
  "checked_add a b = Some c \<longleftrightarrow> unat a + unat b < 2 ^ LENGTH('a) \<and> c = a + b"
  for a b c :: "'a::len word"
  by (auto simp: checked_add_def)

lemma checked_add_eq_None [word_checked]:
  "checked_add a b = None \<longleftrightarrow> 2 ^ LENGTH('a) \<le> unat a + unat b"
  for a b :: "'a::len word"
  by (auto simp: checked_add_def)

lemma unat_add_no_overflow:
  "unat a + unat b < 2 ^ LENGTH('a) \<Longrightarrow> unat (a + b) = unat a + unat b"
  for a b :: "'a::len word"
  by (simp add: unat_word_ariths)

lemma unat_checked_add:
  "checked_add a b = Some c \<Longrightarrow> unat c = unat a + unat b"
  for a b c :: "'a::len word"
  by (auto simp: word_checked unat_add_no_overflow)

lemma unat_checked_mul:
  "checked_mul a b = Some c \<Longrightarrow> unat c = unat a * unat b"
  for a b c :: "'a::len word"
  by (auto simp: checked_mul_def unat_word_ariths split: if_splits)

lemma unat_max_word: "unat (- 1 :: 'a::len word) = 2 ^ LENGTH('a) - 1"
  by (simp add: unsigned_minus_1_eq_mask mask_eq_exp_minus_1)

lemma unat_saturating_add:
  "unat (saturating_add a b) = min (unat a + unat b) (2 ^ LENGTH('a) - 1)"
  for a b :: "'a::len word"
  by (auto simp: saturating_add_def unat_add_no_overflow unat_max_word)

lemma unat_saturating_sub: "unat (saturating_sub a b) = unat a - unat b"
  for a b :: "'a::len word"
  by (auto simp: saturating_sub_def unat_sub word_le_nat_alt)

lemma saturating_add_ge: "a \<le> saturating_add a b" for a b :: "'a::len word"
proof -
  have "unat a < 2 ^ LENGTH('a)" by (rule unsigned_less)
  then have "unat a \<le> 2 ^ LENGTH('a) - 1" by linarith
  then have "unat a \<le> unat (saturating_add a b)" by (simp add: unat_saturating_add)
  then show ?thesis by (simp add: word_le_nat_alt)
qed

lemma unat_not_max: "w \<noteq> - 1 \<longleftrightarrow> unat w + 1 < 2 ^ LENGTH('a)" for w :: "'a::len word"
proof -
  have bound: "unat w < 2 ^ LENGTH('a)" by (rule unsigned_less)
  have max: "w = - 1 \<longleftrightarrow> unat w = 2 ^ LENGTH('a) - 1"
    by (metis unat_max_word word_unat_eq_iff)
  show ?thesis unfolding max using bound by linarith
qed

lemma unat_saturating_succ:
  "w \<noteq> - 1 \<Longrightarrow> unat (saturating_add w 1) = unat w + 1" for w :: "'a::len word"
  by (simp add: unat_saturating_add unat_not_max)

lemma saturating_succ_gt: "w \<noteq> - 1 \<Longrightarrow> w < saturating_add w 1" for w :: "'a::len word"
  by (simp add: word_less_nat_alt unat_saturating_succ)

lemma saturating_succ_eq_iff: "saturating_add w 1 = w \<longleftrightarrow> w = - 1" for w :: "'a::len word"
proof
  assume "saturating_add w 1 = w"
  then show "w = - 1" using saturating_succ_gt [of w] by force
next
  assume "w = - 1"
  then have "unat (saturating_add w 1) = unat w"
    by (simp add: unat_saturating_add unat_max_word)
  then show "saturating_add w 1 = w" by (simp add: word_unat_eq_iff)
qed

subsection \<open>Results\<close>

lemma from_be_to_be: "from_be_bytes (to_be_bytes n) = unat n"
proof -
  define m where "m = unat n"
  have m: "m < 2 ^ 32" using unsigned_less [of n, where 'a = nat] by (simp add: m_def)
  have "from_be_bytes (to_be_bytes n)
      = 256 * (256 * (256 * (m div 2 ^ 24 mod 256) + m div 2 ^ 16 mod 256) + m div 2 ^ 8 mod 256)
        + m mod 256"
    by (simp add: from_be_bytes_def to_be_bytes_def m_def [symmetric] unat_of_nat)
  also have "\<dots> = 256 * (256 * (256 * (m div 256 div 256 div 256) + m div 256 div 256 mod 256)
      + m div 256 mod 256) + m mod 256"
  proof -
    have "m div 256 div 256 div 256 < 256"
      using m by (simp add: div_mult2_eq [symmetric] less_mult_imp_div_less)
    then show ?thesis by (simp add: div_mult2_eq [symmetric])
  qed
  also have "\<dots> = m" by (simp only: mult_div_mod_eq)
  finally show ?thesis by (simp add: m_def)
qed

lemma and_then_eq_Inr [result_iff]:
  "and_then r f = Inr y \<longleftrightarrow> (\<exists>x. r = Inr x \<and> f x = Inr y)"
  by (cases r) auto

lemma and_then_eq_Inl [result_iff]:
  "and_then r f = Inl e \<longleftrightarrow> r = Inl e \<or> (\<exists>x. r = Inr x \<and> f x = Inl e)"
  by (cases r) auto

lemma map_err_eq_Inr [result_iff]: "map_err f r = Inr x \<longleftrightarrow> r = Inr x"
  by (cases r) auto

lemma map_err_eq_Inl [result_iff]: "map_err f r = Inl e \<longleftrightarrow> (\<exists>d. r = Inl d \<and> e = f d)"
  by (cases r) auto

lemma map_ok_eq_Inr [result_iff]: "map_ok f r = Inr y \<longleftrightarrow> (\<exists>x. r = Inr x \<and> y = f x)"
  by (cases r) auto

lemma map_ok_eq_Inl [result_iff]: "map_ok f r = Inl e \<longleftrightarrow> r = Inl e"
  by (cases r) auto

lemma ok_or_eq_Inr [result_iff]: "ok_or e x = Inr y \<longleftrightarrow> x = Some y"
  by (cases x) auto

lemma ok_or_eq_Inl [result_iff]: "ok_or e x = Inl d \<longleftrightarrow> x = None \<and> d = e"
  by (cases x) auto

lemma ok_eq_Some [result_iff]: "ok r = Some x \<longleftrightarrow> r = Inr x"
  by (cases r) auto

lemma is_ok_iff: "is_ok r \<longleftrightarrow> (\<exists>x. r = Inr x)"
  by (cases r) auto

lemma find_SomeD: "find P xs = Some x \<Longrightarrow> x \<in> set xs \<and> P x"
  by (auto simp: find_Some_iff)

lemma find_NoneD: "find P xs = None \<Longrightarrow> x \<in> set xs \<Longrightarrow> \<not> P x"
  by (auto simp: find_None_iff)

lemma find_unique_key:
  "distinct (map f xs) \<Longrightarrow> x \<in> set xs \<Longrightarrow> find (\<lambda>y. f y = f x) xs = Some x"
  by (induction xs) (auto simp: image_iff)

lemma find_key_cong: "(\<And>y. y \<in> set xs \<Longrightarrow> P y = Q y) \<Longrightarrow> find P xs = find Q xs"
  by (induction xs) auto

lemma traverse_option_eq_Inr [result_iff]:
  "traverse_option f x = Inr y \<longleftrightarrow>
     (case x of None \<Rightarrow> y = None | Some a \<Rightarrow> \<exists>b. f a = Inr b \<and> y = Some b)"
  by (cases x) (auto simp: map_ok_eq_Inr)

lemma traverse_list_eq_Inr:
  "traverse_list f xs = Inr ys \<longleftrightarrow> list_all2 (\<lambda>x y. f x = Inr y) xs ys"
  by (induction xs arbitrary: ys)
    (auto simp: result_iff list_all2_Cons1)

lemma is_none_or_simps [simp]:
  "is_none_or p None" "is_none_or p (Some x) = p x"
  by (simp_all add: is_none_or_def)

lemma is_some_and_simps [simp]:
  "\<not> is_some_and p None" "is_some_and p (Some x) = p x"
  by (simp_all add: is_some_and_def)

subsection \<open>Ordered collections\<close>

lemma set_btree_set [simp]: "set (btree_set xs) = set xs"
  by (simp add: btree_set_def)

lemma distinct_btree_set [simp]: "distinct (btree_set xs)"
  by (simp add: btree_set_def)

lemma sorted_btree_set [simp]: "sorted (btree_set xs)"
  by (simp add: btree_set_def)

lemma btree_set_eq_iff: "btree_set xs = btree_set ys \<longleftrightarrow> set xs = set ys"
  by (metis distinct_btree_set set_btree_set sorted_btree_set sorted_distinct_set_unique)

lemma length_btree_set: "length (btree_set xs) = length xs \<longleftrightarrow> distinct xs"
  by (simp add: btree_set_def length_remdups_card_conv card_distinct distinct_card)
    (metis card_distinct distinct_card)

lemma btree_set_Nil_iff [simp]: "btree_set xs = [] \<longleftrightarrow> xs = []"
  by (metis set_btree_set set_empty)

lemma btree_map_get_in: "btree_map_get ps k = Some v \<Longrightarrow> (k, v) \<in> set ps"
  by (auto simp: btree_map_get_def dest: map_of_SomeD)

lemma btree_map_get_None: "btree_map_get ps k = None \<longleftrightarrow> k \<notin> fst ` set ps"
  by (simp add: btree_map_get_def map_of_eq_None_iff)

subsection \<open>Strings\<close>

lemma starts_with_iff: "starts_with s p \<longleftrightarrow> (\<exists>r. s = p @ r)"
  by (auto simp: starts_with_def) (metis append_take_drop_id)

lemma strip_prefix_eq_Some: "strip_prefix p s = Some r \<longleftrightarrow> s = p @ r"
  by (auto simp: strip_prefix_def starts_with_iff)

lemma strip_prefix_append [simp]: "strip_prefix p (p @ r) = Some r"
  by (simp add: strip_prefix_eq_Some)

lemma strip_suffix_eq_Some: "strip_suffix p s = Some r \<longleftrightarrow> s = r @ p"
  by (auto simp: strip_suffix_def strip_prefix_eq_Some)
    (metis rev_append rev_rev_ident)

lemma split_char_not_Nil [simp]: "split_char c s \<noteq> []"
  by (induction s) (auto split: list.splits)

lemma split_char_no_sep: "c \<notin> set s \<Longrightarrow> split_char c s = [s]"
  by (induction s) auto

lemma split_char_append_sep:
  "c \<notin> set s \<Longrightarrow> split_char c (s @ c # t) = s # split_char c t"
  by (induction s) auto

lemma split_char_segment_no_sep: "seg \<in> set (split_char c s) \<Longrightarrow> c \<notin> set seg"
  by (induction s arbitrary: seg) (auto split: if_splits list.splits)

lemma split_char_join:
  "xs \<noteq> [] \<Longrightarrow> \<forall>x \<in> set xs. c \<notin> set x \<Longrightarrow> split_char c (join [c] xs) = xs"
  by (induction "[c]" xs rule: join.induct)
    (auto simp: split_char_no_sep split_char_append_sep)

lemma join_split_char: "join [c] (split_char c s) = s"
proof (induction s)
  case (Cons x xs)
  show ?case
  proof (cases "split_char c xs")
    case (Cons seg segs)
    with Cons.IH show ?thesis by (cases segs) auto
  qed simp
qed simp

lemma split_once_eq_Some:
  "split_once c s = Some (a, b) \<longleftrightarrow> s = a @ c # b \<and> c \<notin> set a"
proof (induction s arbitrary: a)
  case (Cons x xs)
  then show ?case by (cases a) auto
qed simp

subsection \<open>Decimal numerals\<close>

lemma byte_digit_char: "d < 10 \<Longrightarrow> byte (digit_char d) = 48 + d"
  by (simp add: byte_def digit_char_def)

lemma is_ascii_digit_digit_char: "d < 10 \<Longrightarrow> is_ascii_digit (digit_char d)"
  by (simp add: is_ascii_digit_def byte_digit_char)

lemma show_nat_digits: "\<forall>c \<in> set (show_nat n). is_ascii_digit c"
proof (induction n rule: show_nat.induct)
  case (1 n)
  then show ?case
    by (cases "n < 10") (auto simp: show_nat.simps [of n] is_ascii_digit_digit_char)
qed

lemma show_nat_not_Nil [simp]: "show_nat n \<noteq> []"
  by (subst show_nat.simps) simp

lemma parse_digits_append:
  "parse_digits acc (xs @ ys) =
     (case parse_digits acc xs of None \<Rightarrow> None | Some a \<Rightarrow> parse_digits a ys)"
  by (induction xs arbitrary: acc) auto

lemma parse_digits_digit:
  "d < 10 \<Longrightarrow> parse_digits acc [digit_char d] = Some (10 * acc + d)"
  by (simp add: is_ascii_digit_digit_char byte_digit_char)

lemma parse_digits_show_nat: "parse_digits 0 (show_nat n) = Some n"
proof (induction n rule: show_nat.induct)
  case (1 n)
  show ?case
  proof (cases "n < 10")
    case True
    then show ?thesis using parse_digits_digit [of n 0] by (simp add: show_nat.simps [of n])
  next
    case False
    then have "parse_digits 0 (show_nat n) = parse_digits (n div 10) [digit_char (n mod 10)]"
      using "1" by (subst show_nat.simps) (simp add: parse_digits_append)
    also have "\<dots> = Some (10 * (n div 10) + n mod 10)"
      by (rule parse_digits_digit) simp
    finally show ?thesis by simp
  qed
qed

lemma show_nat_inject [simp]: "show_nat m = show_nat n \<longleftrightarrow> m = n"
  by (metis option.inject parse_digits_show_nat)

lemma show_nat_not_plus: "show_nat n = c # cs \<Longrightarrow> c \<noteq> CHR ''+''"
  using show_nat_digits [of n] by (auto simp: is_ascii_digit_def byte_def)

lemma parse_unsigned_show_nat: "n < bound \<Longrightarrow> parse_unsigned bound (show_nat n) = Some n"
  using show_nat_not_plus [of n] parse_digits_show_nat [of n]
  by (cases "show_nat n") (auto simp: parse_unsigned_def Let_def)

lemma parse_word_show_word: "parse_word (show_word w) = Some w"
  by (simp add: parse_word_def show_word_def parse_unsigned_show_nat unsigned_less)

lemma show_word_inject [simp]: "show_word v = show_word w \<longleftrightarrow> v = w"
  by (simp add: show_word_def word_unat_eq_iff)

lemma show_word_digits: "c \<in> set (show_word w) \<Longrightarrow> is_ascii_digit c"
  using show_nat_digits by (auto simp: show_word_def)

lemma show_word_no_comma: "CHR '','' \<notin> set (show_word w)"
  using show_word_digits [of "CHR '',''" w] by (auto simp: is_ascii_digit_def byte_def)

lemma show_word_not_Nil [simp]: "show_word w \<noteq> []"
  by (simp add: show_word_def)

end
