(* ===== verification/Api_V1.thy ===== *)
theory Api_V1
  imports Kernmux_Prelude
begin

text \<open>
  The versioned management contract, \<open>crates/kernmux-api/src/v1.rs\<close>: every request, snapshot,
  operation, event and error type of the API as a record or datatype with the source's fields
  and variants (a field carries the initials of its struct, since record fields share one name
  space), the release-compatibility evaluation and the event-contiguity test.  The newtypes
  \<open>Generation\<close>, \<open>EventSequence\<close> and \<open>InstanceId\<close> are the words they wrap.  JSON encoding is
  done by serde and is not modelled.
\<close>

section \<open>Identifiers\<close>

type_synonym generation = u64
type_synonym event_sequence = u64
type_synonym instance_id = u32
type_synonym operation_id = string

section \<open>Diagnostics and errors\<close>

datatype diagnostic_severity = Info | Warning | Error_Severity | Unknown_Severity

record diagnostic =
  diag_code :: string
  diag_severity :: diagnostic_severity
  diag_message :: string
  diag_detail :: "string option"
  diag_redacted :: bool

datatype error_code =
    InvalidRequest | Unauthorized | Forbidden | NotFound | Conflict | PreconditionFailed
  | Unsupported | BackendUnavailable | Timeout | Internal | Unknown_Error

record api_error =
  err_code :: error_code
  err_message :: string
  err_retryable :: bool
  err_current_generation :: "generation option"
  err_diagnostics :: "diagnostic list"

section \<open>Capabilities and topology\<close>

datatype snapshot_health = Healthy | Indeterminate_Health | Unknown_Health

record kernel_info =
  ki_release :: string
  ki_multikernel_enabled :: bool

datatype capability =
    Cap_Multikernel | Cap_InstanceLifecycle | Cap_DynamicResources | Cap_TransactionRollback
  | Cap_Console | Cap_DeviceAssignment | Cap_SharedMemory | Cap_Unknown

record cpu =
  cpu_logical_id :: u32
  cpu_hardware_id :: u32
  cpu_package_id :: u32
  cpu_core_id :: u32
  cpu_thread_index :: u32
  cpu_numa_node :: u32
  cpu_online :: bool

record numa_node =
  nn_id :: u32
  nn_logical_cpu_ids :: "u32 list"
  nn_total_memory_bytes :: u64
  nn_available_memory_bytes :: u64

record cpu_topology =
  ct_architecture :: string
  ct_cpus :: "cpu list"
  ct_numa_nodes :: "numa_node list"

record host_memory =
  hm_total_bytes :: u64
  hm_host_reserved_bytes :: u64
  hm_assignable_bytes :: u64
  hm_assigned_bytes :: u64

record pci_device =
  pd_pci_id :: string
  pd_pool_name :: string
  pd_vendor_id :: "u32 option"
  pd_device_id :: "u32 option"
  pd_iommu_group :: "u32 option"
  pd_iommu_group_members :: "string list"

record memory_region =
  mr_base :: u64
  mr_bytes :: u64
  mr_numa_node :: u32

record resource_pool =
  rp_cpu_hardware_ids :: "u32 list"
  rp_available_cpu_hardware_ids :: "u32 list"
  rp_memory_regions :: "memory_region list"
  rp_devices :: "pci_device list"
  rp_available_device_ids :: "string list"

section \<open>Instances\<close>

datatype instance_state = Absent | Ready | Loaded | Active | Unknown_State

record resource_allocation =
  ra_cpu_hardware_ids :: "u32 list"
  ra_memory_base :: "u64 option"
  ra_memory_bytes :: u64
  ra_memory_region :: "string option"
  ra_device_ids :: "string list"

record kernel_image =
  ki_present :: bool

record inst =
  in_id :: instance_id
  in_name :: string
  in_generation :: generation
  in_state :: instance_state
  in_resources :: resource_allocation
  in_image :: kernel_image

section \<open>Images and storage\<close>

datatype image_kind = Kernel_Image | Initrd_Image | Unknown_Image

record image_artifact_info =
  ia_schema_version :: u32
  ia_kind :: image_kind
  ia_id :: string
  ia_bytes :: u64

datatype os_image_format = Raw | Qcow2 | Unknown_Format

record os_image_info =
  oi_schema_version :: u32
  oi_id :: string
  oi_label :: string
  oi_format :: os_image_format
  oi_stored_bytes :: u64
  oi_virtual_bytes :: u64
  oi_architecture :: "string option"

datatype storage_rejection_reason =
    NotWholeDevice | VirtualDevice | ReadOnly_Device | ZeroSized | Mounted | HostRoot | Swap
  | HasHolders | PeerAssigned | IncompleteIdentity | Unknown_Reason

record storage_device =
  sd_name :: string
  sd_device_path :: string
  sd_major_minor :: string
  sd_size_bytes :: u64
  sd_whole_device :: bool
  sd_read_only :: bool
  sd_serial :: "string option"
  sd_wwn :: "string option"
  sd_transport :: "string option"
  sd_pci_id :: "string option"
  sd_eligible :: bool
  sd_rejection_reasons :: "storage_rejection_reason list"

record storage_inventory =
  si_generation :: generation
  si_devices :: "storage_device list"

section \<open>Mutations\<close>

record resource_pool_mutation =
  rpm_expected_generation :: generation
  rpm_cpu_hardware_ids :: "u32 list"
  rpm_memory_bytes :: u64

record create_instance_mutation =
  cim_expected_generation :: generation
  cim_id :: instance_id
  cim_name :: string
  cim_cpu_hardware_ids :: "u32 list"
  cim_memory_bytes :: u64

record update_instance_mutation =
  uim_expected_generation :: generation
  uim_cpu_hardware_ids :: "u32 list option"
  uim_memory_bytes :: "u64 option"
  uim_device_ids :: "string list option"
  uim_dry_run :: bool

record load_instance_mutation =
  lim_expected_generation :: generation
  lim_kernel_path :: string
  lim_initrd_path :: "string option"
  lim_command_line :: "string option"

record load_managed_image_mutation =
  lmm_expected_generation :: generation
  lmm_kernel_id :: string
  lmm_initrd_id :: "string option"
  lmm_command_line :: "string option"

record import_image_mutation =
  iim_expected_generation :: generation
  iim_kind :: image_kind
  iim_source_path :: string
  iim_expected_id :: "string option"

record import_os_image_mutation =
  iom_expected_generation :: generation
  iom_source_path :: string
  iom_label :: string
  iom_architecture :: "string option"
  iom_expected_id :: "string option"

record instance_lifecycle_mutation =
  ilm_expected_generation :: generation

record stop_instance_mutation =
  sim_expected_generation :: generation
  sim_force :: bool

section \<open>Operations, events, transactions\<close>

datatype operation_kind =
    InitializeResourcePool | ReleaseResourcePool | CreateInstance | UpdateInstance
  | LoadInstance | StartInstance | StopInstance | UnloadInstance | DeleteInstance
  | OpenConsole | ImportImage | ImportOsImage | Unknown_Operation

datatype operation_state =
    Queued | Running | Succeeded | Failed | Cancelled | Indeterminate | Unknown_Op_State

datatype resource_kind =
    Host_Resource | ResourcePool_Resource | Instance_Resource | Device_Resource
  | Console_Resource | Image_Resource | OsImage_Resource | Unknown_Resource

record resource_reference =
  rr_kind :: resource_kind
  rr_id :: string

record actor =
  actor_uid :: u32
  actor_gid :: u32
  actor_label :: "string option"

record operation =
  op_id :: operation_id
  op_kind :: operation_kind
  op_state :: operation_state
  op_progress_percent :: "u8 option"
  op_expected_generation :: generation
  op_observed_generation :: "generation option"
  op_affected_resources :: "resource_reference list"
  op_error :: "api_error option"
  op_actor :: "actor option"
  op_audit_id :: "string option"
  op_created_at :: string
  op_completed_at :: "string option"

record console_capabilities =
  cc_binary :: bool
  cc_resize :: bool

record console_attachment =
  ca_instance_id :: instance_id
  ca_capabilities :: console_capabilities
  ca_max_frame_bytes :: u32

record console_size =
  cs_columns :: u16
  cs_rows :: u16

datatype console_close_reason =
    ClientDetached | EndOfStream | InstanceStopped | DeviceUnavailable_Close | TransportError
  | Unknown_Close

datatype transaction_state =
    Planned | Applied_Transaction | RolledBack_Transaction | Failed_Transaction
  | Unknown_Transaction

record transaction =
  tx_id :: string
  tx_state :: transaction_state
  tx_generation_before :: "generation option"
  tx_generation_after :: "generation option"
  tx_diagnostics :: "diagnostic list"

datatype event_kind =
    SnapshotChanged | CapabilitiesChanged | InstanceChanged | OperationChanged
  | StreamOverflow | Unknown_Event

record event =
  ev_sequence :: event_sequence
  ev_snapshot_generation :: generation
  ev_kind :: event_kind
  ev_resource :: "resource_reference option"

record event_page =
  ep_events :: "event list"
  ep_overflowed :: bool
  ep_latest_sequence :: event_sequence

definition is_contiguous_after :: "event \<Rightarrow> event \<Rightarrow> bool" where
  "is_contiguous_after self previous \<longleftrightarrow>
     ev_sequence self = saturating_add (ev_sequence previous) 1 \<and>
     ev_snapshot_generation self \<ge> ev_snapshot_generation previous"

section \<open>Host snapshot and response envelope\<close>

record host_snapshot =
  hs_generation :: generation
  hs_health :: snapshot_health
  hs_diagnostics :: "diagnostic list"
  hs_kernel :: kernel_info
  hs_capabilities :: "capability list"
  hs_topology :: cpu_topology
  hs_memory :: host_memory
  hs_resource_pool :: resource_pool
  hs_instances :: "inst list"
  hs_transactions :: "transaction list"
  hs_operations :: "operation list"

datatype 't response =
    Result_Response generation 't
  | Accepted_Response operation
  | Error_Response api_error

section \<open>Release compatibility\<close>

record state_schema_compatibility =
  ss_readable_min :: u32
  ss_readable_max :: u32
  ss_writable_min :: u32
  ss_writable_max :: u32

record release_compatibility_manifest =
  rm_schema_version :: u32
  rm_release_id :: string
  rm_os_id :: string
  rm_os_version_id :: string
  rm_architecture :: string
  rm_kernel_release :: string
  rm_required_capabilities :: "capability list"
  rm_kerf_version :: string
  rm_kernmux_release :: string
  rm_kernmux_api_major :: u32
  rm_daxfs_format :: "u32 option"
  rm_state_schema :: state_schema_compatibility

record host_compatibility_evidence =
  he_os_id :: string
  he_os_version_id :: string
  he_architecture :: string
  he_kernel_release :: string
  he_capabilities :: "capability list"
  he_kerf_version :: string
  he_kernmux_release :: string
  he_kernmux_api_major :: u32
  he_daxfs_format :: "u32 option"
  he_state_schema :: u32

record compatibility_check =
  ck_name :: string
  ck_passed :: bool
  ck_expected :: string
  ck_observed :: string

record host_compatibility_report =
  hr_schema_version :: u32
  hr_release_id :: string
  hr_compatible :: bool
  hr_checks :: "compatibility_check list"

fun capability_name :: "capability \<Rightarrow> string" where
  "capability_name Cap_Multikernel = ''multikernel''"
| "capability_name Cap_InstanceLifecycle = ''instance_lifecycle''"
| "capability_name Cap_DynamicResources = ''dynamic_resources''"
| "capability_name Cap_TransactionRollback = ''transaction_rollback''"
| "capability_name Cap_Console = ''console''"
| "capability_name Cap_DeviceAssignment = ''device_assignment''"
| "capability_name Cap_SharedMemory = ''shared_memory''"
| "capability_name Cap_Unknown = ''unknown''"

text \<open>The \<open>exact!\<close> macro: both sides are printed and compared as strings.\<close>

definition exact_check :: "string \<Rightarrow> string \<Rightarrow> string \<Rightarrow> compatibility_check" where
  "exact_check name expected observed =
     \<lparr>ck_name = name, ck_passed = (expected = observed),
      ck_expected = expected, ck_observed = observed\<rparr>"

definition capability_check :: "capability list \<Rightarrow> capability \<Rightarrow> compatibility_check" where
  "capability_check present c =
     (let known = (c \<noteq> Cap_Unknown)
      in \<lparr>ck_name = ''capability:'' @ capability_name c,
          ck_passed = (known \<and> c \<in> set present),
          ck_expected = ''present'',
          ck_observed = (if \<not> known then ''unsupported''
                         else if c \<in> set present then ''present'' else ''absent'')\<rparr>)"

definition daxfs_check :: "u32 option \<Rightarrow> u32 \<Rightarrow> compatibility_check" where
  "daxfs_check observed required =
     \<lparr>ck_name = ''daxfs_format'', ck_passed = (observed = Some required),
      ck_expected = show_word required,
      ck_observed = (case observed of None \<Rightarrow> ''absent'' | Some v \<Rightarrow> show_word v)\<rparr>"

definition schema_check :: "u32 \<Rightarrow> string \<times> u32 \<times> u32 \<Rightarrow> compatibility_check" where
  "schema_check observed r =
     (case r of (name, lo, hi) \<Rightarrow>
        \<lparr>ck_name = name, ck_passed = (lo \<le> observed \<and> observed \<le> hi),
         ck_expected = show_word lo @ ''..='' @ show_word hi,
         ck_observed = show_word observed\<rparr>)"

definition evaluate ::
  "release_compatibility_manifest \<Rightarrow> host_compatibility_evidence \<Rightarrow> host_compatibility_report"
where
  "evaluate m e =
     (let checks =
        [exact_check ''manifest_schema'' (show_word (1 :: u32)) (show_word (rm_schema_version m)),
         exact_check ''os_id'' (rm_os_id m) (he_os_id e),
         exact_check ''os_version_id'' (rm_os_version_id m) (he_os_version_id e),
         exact_check ''architecture'' (rm_architecture m) (he_architecture e),
         exact_check ''kernel_release'' (rm_kernel_release m) (he_kernel_release e),
         exact_check ''kerf_version'' (rm_kerf_version m) (he_kerf_version e),
         exact_check ''kernmux_release'' (rm_kernmux_release m) (he_kernmux_release e),
         exact_check ''kernmux_api_major'' (show_word (rm_kernmux_api_major m))
           (show_word (he_kernmux_api_major e))]
        @ map (capability_check (he_capabilities e)) (rm_required_capabilities m)
        @ (case rm_daxfs_format m of None \<Rightarrow> [] | Some r \<Rightarrow> [daxfs_check (he_daxfs_format e) r])
        @ map (schema_check (he_state_schema e))
            [(''state_schema_readable'', ss_readable_min (rm_state_schema m),
              ss_readable_max (rm_state_schema m)),
             (''state_schema_writable'', ss_writable_min (rm_state_schema m),
              ss_writable_max (rm_state_schema m))]
      in \<lparr>hr_schema_version = 1, hr_release_id = rm_release_id m,
          hr_compatible = list_all ck_passed checks, hr_checks = checks\<rparr>)"

section \<open>Properties\<close>

text \<open>A host is reported compatible exactly when every clause of the release contract holds:
  manifest schema 1, equal OS, architecture, kernel, Kerf, Kernmux and API versions, every required
  capability known and present, the DAXFS format when one is required, and a state schema within
  both the readable and the writable range.  (The checks compare printed integers; printing is
  injective, so nothing is conflated.)\<close>

theorem evaluate_compatible_iff:
  "hr_compatible (evaluate m e) \<longleftrightarrow>
     rm_schema_version m = 1 \<and> rm_os_id m = he_os_id e \<and>
     rm_os_version_id m = he_os_version_id e \<and> rm_architecture m = he_architecture e \<and>
     rm_kernel_release m = he_kernel_release e \<and> rm_kerf_version m = he_kerf_version e \<and>
     rm_kernmux_release m = he_kernmux_release e \<and>
     rm_kernmux_api_major m = he_kernmux_api_major e \<and>
     set (rm_required_capabilities m) \<subseteq> set (he_capabilities e) - {Cap_Unknown} \<and>
     rm_daxfs_format m \<in> {None, he_daxfs_format e} \<and>
     he_state_schema e \<in> {ss_readable_min (rm_state_schema m)..ss_readable_max (rm_state_schema m)} \<and>
     he_state_schema e \<in> {ss_writable_min (rm_state_schema m)..ss_writable_max (rm_state_schema m)}"
proof -
  have caps: "list_all (ck_passed \<circ> capability_check (he_capabilities e)) cs \<longleftrightarrow>
      set cs \<subseteq> set (he_capabilities e) - {Cap_Unknown}" for cs
    by (auto simp: list_all_iff capability_check_def Let_def)
  show ?thesis
    by (cases "rm_daxfs_format m")
      (auto simp: evaluate_def Let_def list.pred_map caps exact_check_def daxfs_check_def
        schema_check_def)
qed

end
