(* ===== verification/Admission.thy ===== *)
theory Admission
  imports Kernmux_Prelude
begin

text \<open>
  The contract of a guard that hands out permits and takes them back when they are dropped, shared
  by the concurrency limits of the service and by the exclusive console leases: an interface
  locale, and its consequence for every sequence of acquisitions and drops.
\<close>

datatype 'k admission_event = Acquire 'k | Drop 'k

text \<open>
  The guard's state together with the permits that are alive.  A permit that is not alive cannot
  be dropped, so such an event has no effect.
\<close>

fun admission_step :: "('k \<Rightarrow> 's \<Rightarrow> 's option) \<Rightarrow> ('k \<Rightarrow> 's \<Rightarrow> 's) \<Rightarrow> 'k admission_event \<Rightarrow>
    's \<times> 'k list \<Rightarrow> 's \<times> 'k list" where
  "admission_step acquire release (Acquire k) (s, held) =
     (case acquire k s of None \<Rightarrow> (s, held) | Some s' \<Rightarrow> (s', k # held))"
| "admission_step acquire release (Drop k) (s, held) =
     (if k \<in> set held then (release k s, remove1 k held) else (s, held))"

locale bounded_admission =
  fixes acquire :: "'k \<Rightarrow> 's \<Rightarrow> 's option"
    and release :: "'k \<Rightarrow> 's \<Rightarrow> 's"
    and in_use :: "'s \<Rightarrow> 'k \<Rightarrow> nat"
    and limit :: "'s \<Rightarrow> 'k \<Rightarrow> nat"
  assumes acquire_refused: "acquire k s = None \<longleftrightarrow> limit s k \<le> in_use s k"
    and acquire_granted: "acquire k s = Some s' \<Longrightarrow>
      in_use s' = (in_use s)(k := Suc (in_use s k)) \<and> limit s' = limit s"
    and release_frees: "0 < in_use s k \<Longrightarrow>
      in_use (release k s) = (in_use s)(k := in_use s k - 1) \<and> limit (release k s) = limit s"
begin

definition accounted :: "'s \<times> 'k list \<Rightarrow> bool" where
  "accounted st \<longleftrightarrow> (case st of (s, held) \<Rightarrow>
     in_use s = count_list held \<and> (\<forall>k. count_list held k \<le> limit s k))"

lemma count_list_remove1:
  "k \<in> set xs \<Longrightarrow> count_list (remove1 k xs) = (count_list xs)(k := count_list xs k - 1)"
  by (induction xs) (auto simp: fun_eq_iff count_list_0_iff)

lemma step_accounted:
  assumes "accounted st"
  shows "accounted (admission_step acquire release e st) \<and>
    limit (fst (admission_step acquire release e st)) = limit (fst st)"
proof (cases e; cases st)
  fix k s held assume e: "e = Acquire k" and st: "st = (s, held)"
  show ?thesis
  proof (cases "acquire k s")
    case None
    then show ?thesis using assms e st by simp
  next
    case (Some s')
    have "\<not> limit s k \<le> in_use s k" using acquire_refused [of k s] Some by simp
    then show ?thesis
      using acquire_granted [OF Some] assms Some e st by (auto simp: accounted_def fun_eq_iff)
  qed
next
  fix k s held assume e: "e = Drop k" and st: "st = (s, held)"
  show ?thesis
  proof (cases "k \<in> set held")
    case True
    then have "0 < in_use s k"
      using assms st count_list_0_iff [of held k] by (simp add: accounted_def)
    from release_frees [OF this] True show ?thesis
      using assms e st by (auto simp: accounted_def count_list_remove1 intro: le_trans [OF diff_le_self])
  qed (use assms e st in simp)
qed

theorem run_accounted:
  assumes "\<And>k. in_use s k = 0"
  shows "accounted (fold (admission_step acquire release) events (s, [])) \<and>
    limit (fst (fold (admission_step acquire release) events (s, []))) = limit s"
proof (induction events rule: rev_induct)
  case Nil
  then show ?case using assms by (simp add: accounted_def fun_eq_iff)
next
  case (snoc e events)
  then show ?case using step_accounted by simp
qed

end

end
