(* ===== verification/Security.thy ===== *)
theory Security
  imports Api_V1 Admission
begin

text \<open>
  Authentication, authorization, concurrency limits and audit records,
  \<open>crates/kernmux-daemon/src/security.rs\<close>.  Reading the peer credentials of a socket is a system
  call and enters as its result; emitting an audit record is a call of the tracing library, so
  only the record itself is modelled.
\<close>

section \<open>Peers and roles\<close>

record peer_credentials =
  pc_pid :: "32 word"
  pc_uid :: u32
  pc_gid :: u32

record peer_identity =
  pi_pid :: "32 word"
  pi_actor :: actor

definition service_error :: "error_code \<Rightarrow> string \<Rightarrow> bool \<Rightarrow> api_error" where
  "service_error code message retryable =
     \<lparr>err_code = code, err_message = message, err_retryable = retryable,
      err_current_generation = None, err_diagnostics = []\<rparr>"

definition from_socket :: "'io + peer_credentials \<Rightarrow> api_error + peer_identity" where
  "from_socket credentials =
     and_then
       (map_err (\<lambda>_. service_error BackendUnavailable ''peer credentials are unavailable'' False)
          credentials)
       (\<lambda>c. Inr \<lparr>pi_pid = pc_pid c,
                 pi_actor = \<lparr>actor_uid = pc_uid c, actor_gid = pc_gid c, actor_label = None\<rparr>\<rparr>)"

datatype request_class = ReadOnly | Mutation | Console | Administration

datatype role = Reader | Operator | Administrator

text \<open>The derived order of \<open>Role\<close>: the order of its variants.\<close>

instantiation role :: linorder
begin

fun rank_role :: "role \<Rightarrow> nat" where
  "rank_role Reader = 0"
| "rank_role Operator = 1"
| "rank_role Administrator = 2"

definition less_eq_role :: "role \<Rightarrow> role \<Rightarrow> bool" where
  "less_eq_role a b \<longleftrightarrow> rank_role a \<le> rank_role b"

definition less_role :: "role \<Rightarrow> role \<Rightarrow> bool" where
  "less_role a b \<longleftrightarrow> rank_role a < rank_role b"

instance
proof
  fix a b c :: role
  show "a < b \<longleftrightarrow> a \<le> b \<and> \<not> b \<le> a" by (auto simp: less_eq_role_def less_role_def)
  show "a \<le> a" by (simp add: less_eq_role_def)
  show "a \<le> b \<Longrightarrow> b \<le> c \<Longrightarrow> a \<le> c" by (simp add: less_eq_role_def)
  show "a \<le> b \<Longrightarrow> b \<le> a \<Longrightarrow> a = b" by (cases a; cases b) (simp_all add: less_eq_role_def)
  show "a \<le> b \<or> b \<le> a" by (auto simp: less_eq_role_def)
qed

end

section \<open>Authorization\<close>

record authorization_policy =
  ap_reader_uids :: "u32 set"
  ap_reader_gids :: "u32 set"
  ap_operator_uids :: "u32 set"
  ap_operator_gids :: "u32 set"
  ap_administrator_uids :: "u32 set"
  ap_administrator_gids :: "u32 set"
  ap_allow_unprivileged_reads :: bool

definition deny_by_default :: authorization_policy where
  "deny_by_default =
     \<lparr>ap_reader_uids = {}, ap_reader_gids = {}, ap_operator_uids = {}, ap_operator_gids = {},
      ap_administrator_uids = {}, ap_administrator_gids = {}, ap_allow_unprivileged_reads = False\<rparr>"

definition with_unprivileged_reads :: "bool \<Rightarrow> authorization_policy \<Rightarrow> authorization_policy" where
  "with_unprivileged_reads allowed p = p\<lparr>ap_allow_unprivileged_reads := allowed\<rparr>"

definition with_reader_uid :: "u32 \<Rightarrow> authorization_policy \<Rightarrow> authorization_policy" where
  "with_reader_uid uid p = p\<lparr>ap_reader_uids := insert uid (ap_reader_uids p)\<rparr>"

definition with_reader_gid :: "u32 \<Rightarrow> authorization_policy \<Rightarrow> authorization_policy" where
  "with_reader_gid gid p = p\<lparr>ap_reader_gids := insert gid (ap_reader_gids p)\<rparr>"

definition with_operator_uid :: "u32 \<Rightarrow> authorization_policy \<Rightarrow> authorization_policy" where
  "with_operator_uid uid p = p\<lparr>ap_operator_uids := insert uid (ap_operator_uids p)\<rparr>"

definition with_operator_gid :: "u32 \<Rightarrow> authorization_policy \<Rightarrow> authorization_policy" where
  "with_operator_gid gid p = p\<lparr>ap_operator_gids := insert gid (ap_operator_gids p)\<rparr>"

definition with_administrator_uid :: "u32 \<Rightarrow> authorization_policy \<Rightarrow> authorization_policy" where
  "with_administrator_uid uid p = p\<lparr>ap_administrator_uids := insert uid (ap_administrator_uids p)\<rparr>"

definition with_administrator_gid :: "u32 \<Rightarrow> authorization_policy \<Rightarrow> authorization_policy" where
  "with_administrator_gid gid p = p\<lparr>ap_administrator_gids := insert gid (ap_administrator_gids p)\<rparr>"

definition role_of :: "authorization_policy \<Rightarrow> actor \<Rightarrow> role option" where
  "role_of p a =
     (if actor_uid a = 0 \<or> actor_uid a \<in> ap_administrator_uids p \<or>
         actor_gid a \<in> ap_administrator_gids p
      then Some Administrator
      else if actor_uid a \<in> ap_operator_uids p \<or> actor_gid a \<in> ap_operator_gids p
      then Some Operator
      else if actor_uid a \<in> ap_reader_uids p \<or> actor_gid a \<in> ap_reader_gids p
      then Some Reader
      else None)"

definition forbidden :: api_error where
  "forbidden = service_error Forbidden ''peer is not authorized for this request'' False"

definition authorize :: "authorization_policy \<Rightarrow> actor \<Rightarrow> request_class \<Rightarrow> api_error + role" where
  "authorize p a c =
     (let role = role_of p a;
          allowed = (case c of
              ReadOnly \<Rightarrow> role \<noteq> None \<or> ap_allow_unprivileged_reads p
            | Mutation \<Rightarrow> is_some_and (\<lambda>r. r \<ge> Operator) role
            | Console \<Rightarrow> is_some_and (\<lambda>r. r \<ge> Operator) role
            | Administration \<Rightarrow> role = Some Administrator)
      in if allowed then Inr (case role of Some r \<Rightarrow> r | None \<Rightarrow> Reader) else Inl forbidden)"

section \<open>Concurrency limits\<close>

datatype limit_kind = Connection_Limit | Mutation_Limit | Console_Limit

record service_limits =
  sl_connections :: nat
  sl_mutations :: nat
  sl_consoles :: nat

definition validate_limits :: "service_limits \<Rightarrow> api_error + service_limits" where
  "validate_limits l =
     (if sl_connections l = 0 \<or> sl_mutations l = 0 \<or> sl_consoles l = 0
      then Inl (service_error Internal ''service concurrency limits are invalid'' False)
      else Inr l)"

record limit_state =
  ls_connections :: nat
  ls_mutations :: nat
  ls_consoles :: nat

record service_limiter =
  lm_state :: limit_state
  lm_limits :: service_limits

definition new_limiter :: "service_limits \<Rightarrow> api_error + service_limiter" where
  "new_limiter limits =
     map_ok (\<lambda>l. \<lparr>lm_state = \<lparr>ls_connections = 0, ls_mutations = 0, ls_consoles = 0\<rparr>,
                  lm_limits = l\<rparr>)
       (validate_limits limits)"

text \<open>The counter and the limit of a kind, and writing through the reference to the counter.\<close>

fun limit_current :: "limit_state \<Rightarrow> limit_kind \<Rightarrow> nat" where
  "limit_current s Connection_Limit = ls_connections s"
| "limit_current s Mutation_Limit = ls_mutations s"
| "limit_current s Console_Limit = ls_consoles s"

fun limit_of :: "service_limits \<Rightarrow> limit_kind \<Rightarrow> nat" where
  "limit_of l Connection_Limit = sl_connections l"
| "limit_of l Mutation_Limit = sl_mutations l"
| "limit_of l Console_Limit = sl_consoles l"

fun set_current :: "limit_kind \<Rightarrow> nat \<Rightarrow> limit_state \<Rightarrow> limit_state" where
  "set_current Connection_Limit n s = s\<lparr>ls_connections := n\<rparr>"
| "set_current Mutation_Limit n s = s\<lparr>ls_mutations := n\<rparr>"
| "set_current Console_Limit n s = s\<lparr>ls_consoles := n\<rparr>"

definition acquire_permit :: "limit_kind \<Rightarrow> service_limiter \<Rightarrow> api_error + service_limiter" where
  "acquire_permit kind self =
     (let current = limit_current (lm_state self) kind; limit = limit_of (lm_limits self) kind
      in if current \<ge> limit
         then Inl (service_error BackendUnavailable ''service concurrency limit reached'' True)
         else Inr (self\<lparr>lm_state := set_current kind (current + 1) (lm_state self)\<rparr>))"

definition drop_permit :: "limit_kind \<Rightarrow> service_limiter \<Rightarrow> service_limiter" where
  "drop_permit kind self =
     self\<lparr>lm_state := set_current kind (limit_current (lm_state self) kind - 1) (lm_state self)\<rparr>"

section \<open>Audit records\<close>

datatype audit_action =
    ReadInventory | ManageImages | MutateLifecycle | MutateResourcePool | CancelOperation
  | AttachConsole | ChangePolicy

datatype audit_decision = Allowed | Denied | Failed_Decision

record audit_event =
  ae_actor :: actor
  ae_peer_pid :: "32 word"
  ae_action :: audit_action
  ae_resource :: "resource_reference option"
  ae_decision :: audit_decision
  ae_operation_id :: "operation_id option"
  ae_audit_id :: "string option"

section \<open>Lemmas\<close>

lemma limit_current_set [simp]:
  "limit_current (set_current k n s) = (limit_current s)(k := n)"
proof
  fix j
  show "limit_current (set_current k n s) j = ((limit_current s)(k := n)) j"
    by (cases k; cases j) simp_all
qed

text \<open>The service limiter is a bounded guard: one budget for each kind.\<close>

interpretation limiter: bounded_admission
  "\<lambda>k s. ok (acquire_permit k s)" drop_permit
  "\<lambda>s. limit_current (lm_state s)" "\<lambda>s. limit_of (lm_limits s)"
  by unfold_locales
    (auto simp: acquire_permit_def drop_permit_def Let_def split: if_splits)

lemma new_limiter_zero:
  "new_limiter limits = Inr limiter \<Longrightarrow> limit_current (lm_state limiter) k = 0 \<and> lm_limits limiter = limits"
  by (cases k) (auto simp: new_limiter_def validate_limits_def split: if_splits)

lemma is_ok_if: "is_ok (if b then Inr x else Inl y) = b"
  by simp

lemma role_of_ge_operator:
  "is_some_and (\<lambda>r. r \<ge> Operator) r \<longleftrightarrow> r = Some Operator \<or> r = Some Administrator"
  by (cases r; cases "the r") (auto simp: less_eq_role_def)

section \<open>Properties\<close>

text \<open>The authorization decision in full.  Root and administrators may do everything,
  operators everything but administration, readers only read, and anybody else may read exactly
  when the policy allows unprivileged reads; every refusal is the same redacted error.\<close>

theorem authorize_decision:
  "authorize p a c =
     (let administrator = actor_uid a = 0 \<or> actor_uid a \<in> ap_administrator_uids p \<or>
            actor_gid a \<in> ap_administrator_gids p;
          operator = actor_uid a \<in> ap_operator_uids p \<or> actor_gid a \<in> ap_operator_gids p;
          reader = actor_uid a \<in> ap_reader_uids p \<or> actor_gid a \<in> ap_reader_gids p
      in if administrator then Inr Administrator
         else if operator \<and> c \<noteq> Administration then Inr Operator
         else if c = ReadOnly \<and> (reader \<or> ap_allow_unprivileged_reads p) then Inr Reader
         else Inl forbidden)"
  by (cases c) (auto simp: authorize_def role_of_def role_of_ge_operator Let_def)

text \<open>C13: The concurrency limits hold exactly.  After any sequence of acquisitions and drops on a
  new limiter, the counter of each kind is the number of permits alive, which never exceeds the
  configured limit, and the next acquisition is refused exactly when the limit is reached.\<close>

theorem service_limits_exact:
  assumes "new_limiter limits = Inr limiter"
    and "fold (admission_step (\<lambda>k s. ok (acquire_permit k s)) drop_permit) events (limiter, [])
      = (now, held)"
  shows "limit_current (lm_state now) k = count_list held k \<and>
    count_list held k \<le> limit_of limits k \<and>
    (is_ok (acquire_permit k now) \<longleftrightarrow> count_list held k < limit_of limits k)"
proof -
  note zero = new_limiter_zero [OF assms(1)]
  have "limiter.accounted (now, held)" and "limit_of (lm_limits now) = limit_of limits"
    using limiter.run_accounted [of limiter events] zero assms(2) by simp_all
  then show ?thesis
    by (auto simp: limiter.accounted_def acquire_permit_def Let_def)
qed

theorem service_limits_exact_witness:
  "new_limiter \<lparr>sl_connections = 2, sl_mutations = 1, sl_consoles = 1\<rparr>
     = Inr \<lparr>lm_state = \<lparr>ls_connections = 0, ls_mutations = 0, ls_consoles = 0\<rparr>,
            lm_limits = \<lparr>sl_connections = 2, sl_mutations = 1, sl_consoles = 1\<rparr>\<rparr> \<and>
   \<not> is_ok (acquire_permit Mutation_Limit
     \<lparr>lm_state = \<lparr>ls_connections = 0, ls_mutations = 1, ls_consoles = 0\<rparr>,
      lm_limits = \<lparr>sl_connections = 2, sl_mutations = 1, sl_consoles = 1\<rparr>\<rparr>)"
proof -
  let ?limits = "\<lparr>sl_connections = 2, sl_mutations = 1, sl_consoles = 1\<rparr>"
  let ?now = "\<lparr>lm_state = \<lparr>ls_connections = 0, ls_mutations = 1, ls_consoles = 0\<rparr>,
      lm_limits = ?limits\<rparr>"
  have new: "new_limiter ?limits
      = Inr \<lparr>lm_state = \<lparr>ls_connections = 0, ls_mutations = 0, ls_consoles = 0\<rparr>, lm_limits = ?limits\<rparr>"
    by (simp add: new_limiter_def validate_limits_def)
  have "fold (admission_step (\<lambda>k s. ok (acquire_permit k s)) drop_permit)
      [Acquire Mutation_Limit, Acquire Mutation_Limit]
      (\<lparr>lm_state = \<lparr>ls_connections = 0, ls_mutations = 0, ls_consoles = 0\<rparr>, lm_limits = ?limits\<rparr>, [])
      = (?now, [Mutation_Limit])"
    by (simp add: acquire_permit_def)
  from service_limits_exact [OF new this, of Mutation_Limit] new show ?thesis by simp
qed

end
