(* ===== verification/Host_Files.thy ===== *)
theory Host_Files
  imports Kernmux_Prelude
begin

text \<open>
  What the daemon reads from the host: text in UTF-8 with the Unicode operations of \<open>str\<close>, paths,
  and a view of the file system at one moment, in which every call of \<open>std::fs\<close> that the sources
  make is a function that gives its result or the error number.  The definitions model the standard
  library and carry no source lines of their own.
\<close>

section \<open>White space\<close>

text \<open>The UTF-8 encodings of the Unicode white space characters, which \<open>str::trim\<close> removes.\<close>

definition utf8_whitespace :: "nat list list" where
  "utf8_whitespace =
     [[9], [10], [11], [12], [13], [32], [0xC2, 0x85], [0xC2, 0xA0], [0xE1, 0x9A, 0x80]]
     @ map (\<lambda>b. [0xE2, 0x80, b]) [0x80..<0x8B]
     @ [[0xE2, 0x80, 0xA8], [0xE2, 0x80, 0xA9], [0xE2, 0x80, 0xAF], [0xE2, 0x81, 0x9F],
        [0xE3, 0x80, 0x80]]"

definition leading_whitespace :: "string \<Rightarrow> nat" where
  "leading_whitespace s =
     (case find (starts_with (map byte s)) utf8_whitespace of None \<Rightarrow> 0 | Some w \<Rightarrow> length w)"

definition trailing_whitespace :: "string \<Rightarrow> nat" where
  "trailing_whitespace s =
     (case find (\<lambda>w. starts_with (rev (map byte s)) (rev w)) utf8_whitespace of
        None \<Rightarrow> 0 | Some w \<Rightarrow> length w)"

lemma leading_whitespace_le: "leading_whitespace s \<le> length s"
proof (cases "find (starts_with (map byte s)) utf8_whitespace")
  case (Some w)
  then have "starts_with (map byte s) w" by (simp add: find_SomeD)
  then show ?thesis using Some by (auto simp: leading_whitespace_def starts_with_def dest: arg_cong [of _ _ length])
qed (simp add: leading_whitespace_def)

lemma trailing_whitespace_le: "trailing_whitespace s \<le> length s"
proof (cases "find (\<lambda>w. starts_with (rev (map byte s)) (rev w)) utf8_whitespace")
  case (Some w)
  then have "starts_with (rev (map byte s)) (rev w)" by (auto dest: find_SomeD)
  then show ?thesis using Some by (auto simp: trailing_whitespace_def starts_with_def dest: arg_cong [of _ _ length])
qed (simp add: trailing_whitespace_def)

lemma whitespace_decreases:
  "0 < leading_whitespace s \<Longrightarrow> length s - leading_whitespace s < length s"
  "0 < trailing_whitespace s \<Longrightarrow> length s - trailing_whitespace s < length s"
  using leading_whitespace_le [of s] trailing_whitespace_le [of s] by linarith+

function trim_start :: "string \<Rightarrow> string" where
  "trim_start s = (if leading_whitespace s = 0 then s else trim_start (drop (leading_whitespace s) s))"
  by pat_completeness auto
termination
  by (relation "measure length") (auto simp: whitespace_decreases)

function trim_end :: "string \<Rightarrow> string" where
  "trim_end s =
     (if trailing_whitespace s = 0 then s else trim_end (take (length s - trailing_whitespace s) s))"
  by pat_completeness auto
termination
  by (relation "measure length") (auto simp: whitespace_decreases)

declare trim_start.simps [simp del] trim_end.simps [simp del]

definition trim :: "string \<Rightarrow> string" where
  "trim s = trim_end (trim_start s)"

text \<open>
  The pieces between white space.  A white space character starts with a byte that occurs only at
  the start of a character, so stepping over bytes finds the same characters.
\<close>

function whitespace_pieces :: "string \<Rightarrow> string \<Rightarrow> string list" where
  "whitespace_pieces acc s =
     (case s of
        [] \<Rightarrow> [rev acc]
      | c # cs \<Rightarrow>
          if leading_whitespace s = 0 then whitespace_pieces (c # acc) cs
          else rev acc # whitespace_pieces [] (drop (leading_whitespace s) s))"
  by pat_completeness auto
termination
  by (relation "measure (\<lambda>(acc, s). length s)") (auto simp del: length_Cons simp: whitespace_decreases)

declare whitespace_pieces.simps [simp del]

definition split_whitespace :: "string \<Rightarrow> string list" where
  "split_whitespace s = filter (\<lambda>w. w \<noteq> []) (whitespace_pieces [] s)"

section \<open>Lines and blocks\<close>

definition chop_return :: "string \<Rightarrow> string" where
  "chop_return s = (case strip_suffix [CHR 0x0D] s of Some line \<Rightarrow> line | None \<Rightarrow> s)"

definition str_lines :: "string \<Rightarrow> string list" where
  "str_lines s =
     (let pieces = split_char CHR 0x0A s in
      map chop_return (butlast pieces) @ (if last pieces = [] then [] else [last pieces]))"

text \<open>\<open>split("\n\n")\<close>\<close>

fun split_blank_lines :: "string \<Rightarrow> string list" where
  "split_blank_lines [] = [[]]"
| "split_blank_lines [c] = [[c]]"
| "split_blank_lines (c # d # cs) =
     (if c = CHR 0x0A \<and> d = CHR 0x0A then [] # split_blank_lines cs
      else (case split_blank_lines (d # cs) of [] \<Rightarrow> [[c]] | piece # pieces \<Rightarrow> (c # piece) # pieces))"

section \<open>UTF-8\<close>

definition continuation :: "nat \<Rightarrow> bool" where
  "continuation b \<longleftrightarrow> 0x80 \<le> b \<and> b < 0xC0"

text \<open>
  The first character of a byte sequence and its length, or that it is invalid and how many bytes
  the decoder skips, as in \<open>Utf8Chunks\<close> of the standard library.
\<close>

fun utf8_chunk :: "nat list \<Rightarrow> bool \<times> nat" where
  "utf8_chunk [] = (False, 1)"
| "utf8_chunk (a # rest) =
     (let second = (\<lambda>lo hi. rest \<noteq> [] \<and> lo \<le> hd rest \<and> hd rest \<le> hi);
          third = length rest > 1 \<and> continuation (rest ! 1);
          fourth = length rest > 2 \<and> continuation (rest ! 2);
          three = (\<lambda>lo hi. if \<not> second lo hi then (False, 1) else if \<not> third then (False, 2) else (True, 3));
          four = (\<lambda>lo hi. if \<not> second lo hi then (False, 1) else if \<not> third then (False, 2)
                          else if \<not> fourth then (False, 3) else (True, 4))
      in if a < 0x80 then (True, 1)
         else if 0xC2 \<le> a \<and> a \<le> 0xDF then (if second 0x80 0xBF then (True, 2) else (False, 1))
         else if a = 0xE0 then three 0xA0 0xBF
         else if a = 0xED then three 0x80 0x9F
         else if 0xE1 \<le> a \<and> a \<le> 0xEF then three 0x80 0xBF
         else if a = 0xF0 then four 0x90 0xBF
         else if 0xF1 \<le> a \<and> a \<le> 0xF3 then four 0x80 0xBF
         else if a = 0xF4 then four 0x80 0x8F
         else (False, 1))"

lemma utf8_chunk_pos: "0 < snd (utf8_chunk bs)"
  by (cases bs) (auto simp: Let_def)

lemma utf8_chunk_decreases: "s \<noteq> [] \<Longrightarrow> length s - snd (utf8_chunk bs) < length s"
  using utf8_chunk_pos [of bs] by (simp add: diff_less)

function utf8_valid :: "nat list \<Rightarrow> bool" where
  "utf8_valid bs =
     (if bs = [] then True else fst (utf8_chunk bs) \<and> utf8_valid (drop (snd (utf8_chunk bs)) bs))"
  by pat_completeness auto
termination
  by (relation "measure length") (auto simp: utf8_chunk_decreases)

declare utf8_valid.simps [simp del]

definition REPLACEMENT_CHARACTER :: string where
  "REPLACEMENT_CHARACTER = [CHR 0xEF, CHR 0xBF, CHR 0xBD]"

function to_string_lossy :: "string \<Rightarrow> string" where
  "to_string_lossy s =
     (if s = [] then []
      else (case utf8_chunk (map byte s) of (valid, n) \<Rightarrow>
        (if valid then take n s else REPLACEMENT_CHARACTER) @ to_string_lossy (drop n s)))"
  by pat_completeness auto
termination
  by (relation "measure length") (auto dest!: sym [of "(_, _)"], metis snd_conv utf8_chunk_decreases)

declare to_string_lossy.simps [simp del]

definition to_str :: "string \<Rightarrow> string option" where
  "to_str s = (if utf8_valid (map byte s) then Some s else None)"

section \<open>Paths\<close>

definition path_join :: "string \<Rightarrow> string \<Rightarrow> string" where
  "path_join base relative =
     (if base = [] \<or> last base = CHR ''/'' then base @ relative else base @ ''/'' @ relative)"

text \<open>
  \<open>Path::starts_with\<close> compares components; on canonical absolute paths these are the segments
  between the slashes.
\<close>

definition path_components :: "string \<Rightarrow> string list" where
  "path_components p = filter (\<lambda>c. c \<noteq> []) (split_char CHR ''/'' p)"

definition path_starts_with :: "string \<Rightarrow> string \<Rightarrow> bool" where
  "path_starts_with p root \<longleftrightarrow> starts_with (path_components p) (path_components root)"

text \<open>The last component, unless it is the parent directory.\<close>

definition path_file_name :: "string \<Rightarrow> string option" where
  "path_file_name p =
     (let cs = filter (\<lambda>c. c \<noteq> ''.'') (path_components p) in
      if cs = [] \<or> last cs = ''..'' then None else Some (last cs))"

section \<open>Options in lists\<close>

fun somes :: "'a option list \<Rightarrow> 'a list" where
  "somes [] = []"
| "somes (None # xs) = somes xs"
| "somes (Some x # xs) = x # somes xs"

section \<open>The file system at one moment\<close>

definition ENOENT :: nat where "ENOENT = 2"

text \<open>
  Directory entries come in the order of the directory, each possibly an error.  \<open>fv_is_dir\<close> is the
  type of an entry without following links.
\<close>

record file_view =
  fv_read :: "string \<Rightarrow> nat + string"
  fv_read_dir :: "string \<Rightarrow> nat + (nat + string) list"
  fv_is_dir :: "string \<Rightarrow> nat + bool"
  fv_canonicalize :: "string \<Rightarrow> nat + string"
  fv_exists :: "string \<Rightarrow> bool"
  fv_read_link :: "string \<Rightarrow> nat + string"

datatype read_error = Os_Error nat | Not_Utf8

definition read_to_string :: "file_view \<Rightarrow> string \<Rightarrow> read_error + string" where
  "read_to_string v path =
     and_then (map_err Os_Error (fv_read v path)) (\<lambda>s. ok_or Not_Utf8 (to_str s))"

section \<open>Lemmas\<close>

lemma utf8_whitespace_ends:
  "w \<in> set utf8_whitespace \<Longrightarrow> w \<noteq> [] \<and>
     hd w \<in> set [9, 10, 11, 12, 13, 32, 0xC2, 0xE1, 0xE2, 0xE3] \<and>
     (last w \<in> set [9, 10, 11, 12, 13, 32] \<or> 128 \<le> last w)"
proof -
  have "list_all (\<lambda>w. w \<noteq> [] \<and> hd w \<in> set [9, 10, 11, 12, 13, 32, 0xC2, 0xE1, 0xE2, 0xE3] \<and>
     (last w \<in> set [9, 10, 11, 12, 13, 32] \<or> 128 \<le> last w)) utf8_whitespace" by code_simp
  then show "w \<in> set utf8_whitespace \<Longrightarrow> ?thesis" unfolding list_all_iff by blast
qed

lemma starts_with_hd: "starts_with s p \<Longrightarrow> p \<noteq> [] \<Longrightarrow> s \<noteq> [] \<and> hd s = hd p"
  by (cases p; cases s) (auto simp: starts_with_def)

lemma byte_alphanumeric: "is_ascii_alphanumeric c \<Longrightarrow> 48 \<le> byte c \<and> byte c \<le> 122"
  by (auto simp: is_ascii_alphanumeric_def is_ascii_digit_def is_ascii_uppercase_def is_ascii_lowercase_def)

lemma leading_whitespace_alphanumeric:
  assumes "is_ascii_alphanumeric c" shows "leading_whitespace (c # s) = 0"
proof (cases "find (starts_with (map byte (c # s))) utf8_whitespace")
  case (Some w)
  then have "w \<in> set utf8_whitespace" "starts_with (map byte (c # s)) w" by (auto dest: find_SomeD)
  then have "hd w = byte c" "hd w \<in> set [9, 10, 11, 12, 13, 32, 0xC2, 0xE1, 0xE2, 0xE3]"
    using utf8_whitespace_ends [of w] starts_with_hd [of _ w] by fastforce+
  then show ?thesis using byte_alphanumeric [OF assms] by auto
qed (simp add: leading_whitespace_def)

lemma trailing_whitespace_alphanumeric:
  assumes "is_ascii_alphanumeric c" shows "trailing_whitespace (s @ [c]) = 0"
proof (cases "find (\<lambda>w. starts_with (rev (map byte (s @ [c]))) (rev w)) utf8_whitespace")
  case (Some w)
  then have w: "w \<in> set utf8_whitespace" "starts_with (rev (map byte (s @ [c]))) (rev w)"
    by (auto dest: find_SomeD)
  then have "last w = byte c" "last w \<in> set [9, 10, 11, 12, 13, 32] \<or> 128 \<le> last w"
    using utf8_whitespace_ends [of w] starts_with_hd [OF w(2)] by (auto simp: hd_rev)
  then show ?thesis using byte_alphanumeric [OF assms] by auto
qed (simp add: trailing_whitespace_def)

lemma trim_alphanumeric:
  assumes "s \<noteq> []" "is_ascii_alphanumeric (hd s)" "is_ascii_alphanumeric (last s)"
  shows "trim s = s"
proof -
  have "leading_whitespace s = 0" using assms leading_whitespace_alphanumeric [of "hd s" "tl s"] by simp
  moreover have "trailing_whitespace s = 0"
    using assms trailing_whitespace_alphanumeric [of "last s" "butlast s"] by simp
  ultimately show ?thesis by (simp add: trim_def trim_start.simps [of s] trim_end.simps [of s])
qed

end
