(* ===== verification/Transport.thy ===== *)
theory Transport
  imports Security Host_Files
begin

text \<open>
  The local HTTP transport, \<open>crates/kernmux-daemon/src/transport.rs\<close>: what happens to one request
  between the socket and the API dispatcher.  The HTTP library delivers a parsed request and sends
  the response; a header is absent, present but not readable as text, or text.  The dispatcher
  behind the trait \<open>LocalApi\<close> is the record \<open>local_api\<close>, whose operations act on a state \<open>'s\<close>.  The
  handlers run on a blocking thread: an inner \<open>None\<close> is a thread that panicked, an outer \<open>None\<close> one
  that never returns.  The audit records that a request emits are part of its outcome.
\<close>

section \<open>Requests and responses\<close>

datatype http_method = GET | PUT | POST | PATCH | DELETE | Other_Method string

type_synonym status_code = nat

record route_security =
  sec_class :: request_class
  sec_audit_action :: audit_action

record local_request =
  req_method :: http_method
  req_path :: string
  req_query :: "string option"
  req_request_id :: "string option"
  req_body :: "u8 list"

record local_response =
  res_status :: status_code
  res_content_type :: string
  res_body :: "u8 list"

record 'h local_upgrade =
  up_protocol :: string
  up_handler :: 'h

text \<open>The trait \<open>LocalApi\<close>, and what dropping a prepared upgrade releases.\<close>

record ('s, 'h) local_api =
  api_route :: "http_method \<Rightarrow> string \<Rightarrow> route_security option"
  api_handle :: "local_request \<Rightarrow> peer_identity \<Rightarrow> 's \<Rightarrow> local_response option \<times> 's"
  api_prepare_upgrade :: "local_request \<Rightarrow> peer_identity \<Rightarrow> 's \<Rightarrow>
    ((api_error + 'h local_upgrade) option \<times> 's) option"
  api_drop_upgrade :: "'h local_upgrade \<Rightarrow> 's \<Rightarrow> 's"

record incoming_request =
  inc_method :: http_method
  inc_path :: string
  inc_query :: "string option"
  inc_header :: "string \<Rightarrow> string option option"
  inc_body :: "u8 list option"

record http_response =
  http_status :: status_code
  http_headers :: "(string \<times> string) list"
  http_body :: "u8 list"

definition transport_error :: "error_code \<Rightarrow> string \<Rightarrow> bool \<Rightarrow> api_error" where
  "transport_error code message retryable =
     \<lparr>err_code = code, err_message = message, err_retryable = retryable,
      err_current_generation = None, err_diagnostics = []\<rparr>"

definition internal_error :: "string \<Rightarrow> api_error" where
  "internal_error message = transport_error Internal message False"

fun status_for_error :: "error_code \<Rightarrow> status_code" where
  "status_for_error InvalidRequest = 400"
| "status_for_error Unauthorized = 401"
| "status_for_error Forbidden = 403"
| "status_for_error NotFound = 404"
| "status_for_error Conflict = 409"
| "status_for_error PreconditionFailed = 412"
| "status_for_error Unsupported = 501"
| "status_for_error BackendUnavailable = 503"
| "status_for_error Timeout = 504"
| "status_for_error Internal = 500"
| "status_for_error Unknown_Error = 500"

text \<open>
  \<open>LocalResponse::json\<close>; the argument is the result of the JSON encoder.  The fallback body is a
  constant of the source.
\<close>

definition json_response :: "status_code \<Rightarrow> u8 list option \<Rightarrow> api_error + local_response" where
  "json_response status encoded =
     (case encoded of
        Some body \<Rightarrow> Inr \<lparr>res_status = status, res_content_type = ''application/json'', res_body = body\<rparr>
      | None \<Rightarrow> Inl (internal_error ''response serialization failed''))"

definition fallback_body :: "u8 list" where
  "fallback_body = map (\<lambda>c. of_nat (byte c))
     (''{'' @ [CHR 0x22] @ ''kind'' @ [CHR 0x22] @ '':'' @ [CHR 0x22] @ ''error'' @ [CHR 0x22] @ '','' @
      [CHR 0x22] @ ''error'' @ [CHR 0x22] @ '':{'' @ [CHR 0x22] @ ''code'' @ [CHR 0x22] @ '':'' @
      [CHR 0x22] @ ''internal'' @ [CHR 0x22] @ '','' @ [CHR 0x22] @ ''message'' @ [CHR 0x22] @ '':'' @
      [CHR 0x22] @ ''response serialization failed'' @ [CHR 0x22] @ '','' @
      [CHR 0x22] @ ''retryable'' @ [CHR 0x22] @ '':false}}'')"

definition fallback_response :: local_response where
  "fallback_response =
     \<lparr>res_status = 500, res_content_type = ''application/json'', res_body = fallback_body\<rparr>"

definition envelope_response :: "(api_error \<Rightarrow> u8 list option) \<Rightarrow> status_code \<Rightarrow> api_error \<Rightarrow> local_response" where
  "envelope_response encode_error status e =
     (case json_response status (encode_error e) of Inr r \<Rightarrow> r | Inl _ \<Rightarrow> fallback_response)"

definition api_error_response :: "(api_error \<Rightarrow> u8 list option) \<Rightarrow> api_error \<Rightarrow> local_response" where
  "api_error_response encode_error e = envelope_response encode_error (status_for_error (err_code e)) e"

definition to_http_response :: "local_response \<Rightarrow> http_response" where
  "to_http_response response =
     \<lparr>http_status = res_status response,
      http_headers = [(''content-type'', res_content_type response), (''cache-control'', ''no-store'')],
      http_body = res_body response\<rparr>"

definition error_response :: "(api_error \<Rightarrow> u8 list option) \<Rightarrow> status_code \<Rightarrow> api_error \<Rightarrow> http_response" where
  "error_response encode_error status e = to_http_response (envelope_response encode_error status e)"

section \<open>Request identifiers and audit records\<close>

definition request_id_ok :: "string \<Rightarrow> bool" where
  "request_id_ok v \<longleftrightarrow> v \<noteq> [] \<and> length v \<le> 128 \<and>
     list_all (\<lambda>c. is_ascii_alphanumeric c \<or> c \<in> {CHR ''.'', CHR ''_'', CHR ''-''}) v"

definition request_id :: "(string \<Rightarrow> string option option) \<Rightarrow> api_error + string option" where
  "request_id headers =
     (case headers ''x-request-id'' of
        None \<Rightarrow> Inr None
      | Some text \<Rightarrow>
          (case text of
             Some v \<Rightarrow> if request_id_ok v then Inr (Some v)
                       else Inl (transport_error InvalidRequest ''request ID is invalid'' False)
           | None \<Rightarrow> Inl (transport_error InvalidRequest ''request ID is invalid'' False)))"

definition audit :: "peer_identity \<Rightarrow> route_security \<Rightarrow> audit_decision \<Rightarrow> string option \<Rightarrow> audit_event" where
  "audit peer route decision audit_id =
     \<lparr>ae_actor = pi_actor peer, ae_peer_pid = pi_pid peer, ae_action = sec_audit_action route,
      ae_resource = None, ae_decision = decision, ae_operation_id = None, ae_audit_id = audit_id\<rparr>"

section \<open>Handling a request\<close>

text \<open>The response, the upgrade to hand the stream to, the audit records, and the state.\<close>

type_synonym ('s, 'h) outcome = "http_response \<times> 'h local_upgrade option \<times> audit_event list \<times> 's"

definition eq_ignore_ascii_case :: "string \<Rightarrow> string \<Rightarrow> bool" where
  "eq_ignore_ascii_case a b \<longleftrightarrow>
     map (\<lambda>c. if is_ascii_uppercase c then byte c + 32 else byte c) a =
     map (\<lambda>c. if is_ascii_uppercase c then byte c + 32 else byte c) b"

definition requested_protocol :: "(string \<Rightarrow> string option option) \<Rightarrow> string option" where
  "requested_protocol headers =
     (case headers ''upgrade'' of
        Some (Some v) \<Rightarrow> if v \<noteq> [] \<and> length v \<le> 64 then Some v else None
      | _ \<Rightarrow> None)"

definition connection_upgrades :: "(string \<Rightarrow> string option option) \<Rightarrow> bool" where
  "connection_upgrades headers =
     (case headers ''connection'' of
        Some (Some v) \<Rightarrow> list_ex (\<lambda>token. eq_ignore_ascii_case (trim token) ''upgrade'') (split_char CHR '','' v)
      | _ \<Rightarrow> False)"

definition handle_upgrade_request :: "('s, 'h) local_api \<Rightarrow> (api_error \<Rightarrow> u8 list option) \<Rightarrow> incoming_request \<Rightarrow>
    peer_identity \<Rightarrow> route_security \<Rightarrow> string option \<Rightarrow> 's \<Rightarrow> ('s, 'h) outcome option" where
  "handle_upgrade_request api encode_error request peer route rid s =
     (let failed = (\<lambda>status e s.
            Some (error_response encode_error status e, None, [audit peer route Failed_Decision rid], s)) in
      if requested_protocol (inc_header request) = None \<or> \<not> connection_upgrades (inc_header request)
      then failed 426 (transport_error InvalidRequest
             ''console route requires an HTTP protocol upgrade'' False) s
      else (case api_prepare_upgrade api
              \<lparr>req_method = inc_method request, req_path = inc_path request, req_query = inc_query request,
               req_request_id = rid, req_body = []\<rparr> peer s of
          None \<Rightarrow> None
        | Some (Some (Inr upgrade), s') \<Rightarrow>
            if requested_protocol (inc_header request) = Some (up_protocol upgrade)
            then Some (\<lparr>http_status = 101,
                        http_headers = [(''connection'', ''upgrade''), (''upgrade'', up_protocol upgrade)],
                        http_body = []\<rparr>, Some upgrade, [audit peer route Allowed rid], s')
            else failed 400 (transport_error InvalidRequest
                   ''console upgrade protocol is unsupported'' False) (api_drop_upgrade api upgrade s')
        | Some (Some (Inl e), s') \<Rightarrow> failed (status_for_error (err_code e)) e s'
        | Some (None, s') \<Rightarrow>
            failed 500 (internal_error ''console attachment handler terminated unexpectedly'') s'))"

definition collect_body :: "nat \<Rightarrow> u8 list option \<Rightarrow> u8 list option" where
  "collect_body max_request_bytes body =
     (case body of
        None \<Rightarrow> None
      | Some bytes \<Rightarrow> if length bytes \<le> max_request_bytes then Some bytes else None)"

definition handle_request :: "('s, 'h) local_api \<Rightarrow> (api_error \<Rightarrow> u8 list option) \<Rightarrow> authorization_policy \<Rightarrow>
    nat \<Rightarrow> incoming_request \<Rightarrow> peer_identity \<Rightarrow> 's \<Rightarrow> ('s, 'h) outcome option" where
  "handle_request api encode_error policy max_request_bytes request peer s =
     (case api_route api (inc_method request) (inc_path request) of
        None \<Rightarrow> Some (error_response encode_error 404
                        (transport_error NotFound ''API route was not found'' False), None, [], s)
      | Some route \<Rightarrow>
          (case request_id (inc_header request) of
             Inl e \<Rightarrow> Some (error_response encode_error 400 e, None, [audit peer route Failed_Decision None], s)
           | Inr rid \<Rightarrow>
               (case authorize policy (pi_actor peer) (sec_class route) of
                  Inl e \<Rightarrow> Some (error_response encode_error 403 e, None, [audit peer route Denied rid], s)
                | Inr _ \<Rightarrow>
                    if sec_class route = Console
                    then handle_upgrade_request api encode_error request peer route rid s
                    else (case collect_body max_request_bytes (inc_body request) of
                        None \<Rightarrow> Some (error_response encode_error 413
                                  (transport_error InvalidRequest ''request body exceeds its limit'' False),
                                None, [audit peer route Failed_Decision rid], s)
                      | Some body \<Rightarrow>
                          (case api_handle api
                                  \<lparr>req_method = inc_method request, req_path = inc_path request,
                                   req_query = inc_query request, req_request_id = rid, req_body = body\<rparr>
                                  peer s of
                             (Some response, s') \<Rightarrow>
                               Some (to_http_response response, None, [audit peer route Allowed rid], s')
                           | (None, s') \<Rightarrow>
                               Some (error_response encode_error 500
                                   (internal_error ''API request handler terminated unexpectedly''),
                                 None, [audit peer route Failed_Decision rid], s'))))))"

text \<open>A request leaves the dispatcher alone, is handled, or prepares an upgrade.\<close>

lemma handle_request_cases:
  assumes "handle_request api enc policy limit request peer s = Some (response, upgrade, audits, s')"
  obtains "s' = s" "upgrade = None"
  | rq where "s' = snd (api_handle api rq peer s)" "upgrade = None"
  | rq result s1 where "api_prepare_upgrade api rq peer s = Some (result, s1)"
      "(\<forall>u. result \<noteq> Some (Inr u)) \<and> upgrade = None \<and> s' = s1 \<or>
       (\<exists>u. result = Some (Inr u) \<and> (upgrade = Some u \<and> s' = s1 \<or>
          upgrade = None \<and> s' = api_drop_upgrade api u s1))"
  using assms unfolding handle_request_def handle_upgrade_request_def Let_def
  by (auto split: option.splits sum.splits if_splits prod.splits) (metis snd_conv)+

section \<open>The listener\<close>

record transport_config =
  tc_socket_path :: string
  tc_socket_mode :: u32
  tc_max_request_bytes :: nat
  tc_max_header_bytes :: nat

definition DEFAULT_MAX_REQUEST_BYTES :: nat where
  "DEFAULT_MAX_REQUEST_BYTES = 1024 * 1024"

definition system_default_transport :: transport_config where
  "system_default_transport =
     \<lparr>tc_socket_path = ''/run/kernmux/kernmuxd.sock'', tc_socket_mode = 0x1B0,
      tc_max_request_bytes = DEFAULT_MAX_REQUEST_BYTES, tc_max_header_bytes = 32 * 1024\<rparr>"

definition validate_transport :: "transport_config \<Rightarrow> api_error + unit" where
  "validate_transport config =
     (if tc_max_request_bytes config = 0 \<or> tc_max_header_bytes config < 8192 \<or>
         and (tc_socket_mode config) (not 0x1FF) \<noteq> 0
      then Inl (internal_error ''local transport configuration is invalid'')
      else Inr ())"

datatype listener_error =
    Listener_Configuration api_error
  | Listener_Bind nat
  | Listener_Permissions nat
  | Listener_Accept nat

fun listener_error_message :: "(nat \<Rightarrow> string) \<Rightarrow> listener_error \<Rightarrow> string" where
  "listener_error_message io (Listener_Configuration e) = err_message e"
| "listener_error_message io (Listener_Bind errno) = ''failed to bind local API socket: '' @ io errno"
| "listener_error_message io (Listener_Permissions errno) = ''failed to secure local API socket: '' @ io errno"
| "listener_error_message io (Listener_Accept errno) = ''failed to accept local API peer: '' @ io errno"

text \<open>
  Files by path, each with its device and inode and its mode.  A bound server knows the path and the
  identity of its socket.  The results of the system calls are arguments: the file that the bind
  makes, with the mode that the umask leaves it, where binding an existing path fails whatever the
  argument says; whether the mode can be set and the file inspected; and whether the removal after a
  failure, whose result the code discards, takes effect.
\<close>

type_synonym file_identity = "u64 \<times> u64"

record socket_file =
  sf_identity :: file_identity
  sf_mode :: u32

type_synonym sockets = "string \<Rightarrow> socket_file option"

definition EADDRINUSE :: nat where "EADDRINUSE = 98"

definition set_socket_mode :: "string \<Rightarrow> u32 \<Rightarrow> sockets \<Rightarrow> sockets" where
  "set_socket_mode path mode fs = fs(path := map_option (\<lambda>f. f\<lparr>sf_mode := mode\<rparr>) (fs path))"

definition remove_socket :: "bool \<Rightarrow> string \<Rightarrow> sockets \<Rightarrow> sockets" where
  "remove_socket removed path fs = (if removed then fs(path := None) else fs)"

record bound_server =
  bs_config :: transport_config
  bs_identity :: file_identity

definition bind_server :: "nat + socket_file \<Rightarrow> nat + unit \<Rightarrow> nat + unit \<Rightarrow> bool \<Rightarrow> transport_config \<Rightarrow> sockets \<Rightarrow>
    (listener_error + bound_server) \<times> sockets" where
  "bind_server bound permissions inspected removed config fs =
     (let path = tc_socket_path config in
      case validate_transport config of
        Inl e \<Rightarrow> (Inl (Listener_Configuration e), fs)
      | Inr _ \<Rightarrow>
          if fs path \<noteq> None then (Inl (Listener_Bind EADDRINUSE), fs)
          else (case bound of
              Inl errno \<Rightarrow> (Inl (Listener_Bind errno), fs)
            | Inr made \<Rightarrow>
                let fs = fs(path \<mapsto> made) in
                (case permissions of
                   Inl errno \<Rightarrow> (Inl (Listener_Permissions errno), remove_socket removed path fs)
                 | Inr _ \<Rightarrow>
                     let fs = set_socket_mode path (tc_socket_mode config) fs in
                     (case inspected of
                        Inl errno \<Rightarrow> (Inl (Listener_Permissions errno), remove_socket removed path fs)
                      | Inr _ \<Rightarrow> (Inr \<lparr>bs_config = config, bs_identity = sf_identity made\<rparr>, fs)))))"

definition drop_server :: "bool \<Rightarrow> bound_server \<Rightarrow> sockets \<Rightarrow> sockets" where
  "drop_server removed server fs =
     (let path = tc_socket_path (bs_config server) in
      if map_option sf_identity (fs path) = Some (bs_identity server)
      then remove_socket removed path fs else fs)"

text \<open>Admission of a connection: the peer to serve it for, while the permit is held.\<close>

definition accept :: "'io + peer_credentials \<Rightarrow> service_limiter \<Rightarrow> peer_identity option \<times> service_limiter" where
  "accept credentials limiter =
     (case acquire_permit Connection_Limit limiter of
        Inl _ \<Rightarrow> (None, limiter)
      | Inr admitted \<Rightarrow>
          (case from_socket credentials of
             Inl _ \<Rightarrow> (None, drop_permit Connection_Limit admitted)
           | Inr peer \<Rightarrow> (Some peer, admitted)))"

lemmas bind_server_defs = bind_server_def set_socket_mode_def remove_socket_def Let_def

text \<open>A socket that is bound has the configured mode and no other file has changed; one that is
  refused leaves the files as they were, unless the socket had been made and could not be removed.\<close>

lemma bind_server_bound:
  assumes "bind_server bound permissions inspected removed config fs = (Inr server, fs')"
  shows "validate_transport config = Inr ()" and "fs (tc_socket_path config) = None"
    and "bs_config server = config"
    and "fs' = fs(tc_socket_path config \<mapsto>
      \<lparr>sf_identity = bs_identity server, sf_mode = tc_socket_mode config\<rparr>)"
  using assms by (auto simp: bind_server_defs split: sum.splits if_splits)

lemma listener_owns_its_socket:
  assumes "bind_server bound permissions inspected removed config fs = (result, fs')"
  shows "path \<noteq> tc_socket_path config \<Longrightarrow> fs' path = fs path"
    and "fs (tc_socket_path config) \<noteq> None \<Longrightarrow> fs' = fs \<and> \<not> is_ok result"
    and "result = Inl e \<Longrightarrow> removed \<Longrightarrow> fs' = fs"
    and "result = Inr server \<Longrightarrow> drop_server True server fs' = fs"
  using assms
  by (auto simp: bind_server_defs drop_server_def fun_upd_idem simp del: not_None_eq
      split: sum.splits if_splits)

lemma accept_releases:
  assumes "accept credentials limiter = (peer, limiter')"
  shows "limit_current (lm_state limiter') Connection_Limit
    = limit_current (lm_state limiter) Connection_Limit + (if peer = None then 0 else 1)"
  using assms
  by (auto simp: accept_def acquire_permit_def drop_permit_def Let_def split: sum.splits if_splits)

section \<open>The contract of a dispatcher\<close>

text \<open>A peer that the policy lets at most read.\<close>

definition at_most_reader :: "authorization_policy \<Rightarrow> peer_identity \<Rightarrow> bool" where
  "at_most_reader policy peer \<longleftrightarrow> role_of policy (pi_actor peer) \<in> {None, Some Reader}"

lemma at_most_reader_refused:
  "at_most_reader policy peer \<Longrightarrow> c \<noteq> ReadOnly \<Longrightarrow> \<not> is_ok (authorize policy (pi_actor peer) c)"
  by (cases c) (auto simp: at_most_reader_def authorize_def less_eq_role_def)

text \<open>
  A conversation: the requests of peers, one after the other, each with what the environment
  answers during it.
\<close>

fun converse :: "('w \<Rightarrow> ('s, 'h) local_api) \<Rightarrow> (api_error \<Rightarrow> u8 list option) \<Rightarrow> authorization_policy \<Rightarrow> nat \<Rightarrow>
    ('w \<times> peer_identity \<times> incoming_request) list \<Rightarrow> 's \<Rightarrow> 's option" where
  "converse api enc policy limit [] s = Some s"
| "converse api enc policy limit ((w, peer, request) # rest) s =
     (case handle_request (api w) enc policy limit request peer s of
        None \<Rightarrow> None
      | Some (_, _, _, s') \<Rightarrow> converse api enc policy limit rest s')"

text \<open>
  What the transport's guarantee for unprivileged peers rests on: a relation \<open>quiet\<close> that says that
  nothing a mutation could change has changed, and that handling a request on a read-only route is
  quiet.  The argument \<open>w\<close> of the dispatcher stands for what the environment answers during one
  request, which may be different for the next one.
\<close>

locale local_service =
  fixes api :: "'w \<Rightarrow> ('s, 'h) local_api" and quiet :: "'s \<Rightarrow> 's \<Rightarrow> bool"
  assumes quiet_refl: "quiet s s"
    and quiet_trans: "quiet s t \<Longrightarrow> quiet t u \<Longrightarrow> quiet s u"
    and reads_quiet: "api_route (api w) (req_method rq) (req_path rq) = Some route \<Longrightarrow>
      sec_class route = ReadOnly \<Longrightarrow> quiet s (snd (api_handle (api w) rq peer s))"
begin

lemma reader_quiet:
  assumes "at_most_reader policy peer"
    and "handle_request (api w) enc policy limit request peer s = Some (response, upgrade, audits, s')"
  shows "quiet s s' \<and> upgrade = None"
proof (cases "api_route (api w) (inc_method request) (inc_path request)")
  case None
  then show ?thesis using assms(2) quiet_refl by (auto simp: handle_request_def)
next
  case (Some route)
  show ?thesis
  proof (cases "sec_class route = ReadOnly")
    case True
    have "quiet s (snd (api_handle (api w) rq peer s))"
      if "req_method rq = inc_method request" "req_path rq = inc_path request" for rq
      using reads_quiet [of w rq route] that Some True by simp
    then show ?thesis
      using assms(2) Some True quiet_refl
      by (auto simp: handle_request_def split: sum.splits option.splits prod.splits)
        (metis local_request.select_convs(1,2) snd_conv)+
  next
    case False
    then have "\<not> is_ok (authorize policy (pi_actor peer) (sec_class route))"
      using at_most_reader_refused [OF assms(1)] by simp
    then show ?thesis
      using assms(2) Some quiet_refl
      by (auto simp: handle_request_def is_ok_iff split: sum.splits)
  qed
qed

lemma readers_quiet:
  assumes "\<forall>(w, peer, request) \<in> set requests. at_most_reader policy peer"
    and "converse api enc policy limit requests s = Some s'"
  shows "quiet s s'"
  using assms
proof (induction requests arbitrary: s)
  case Nil
  then show ?case by (simp add: quiet_refl)
next
  case (Cons step rest)
  obtain w peer request where step: "step = (w, peer, request)" by (cases step)
  with Cons.prems obtain response upgrade audits t where
    h: "handle_request (api w) enc policy limit request peer s = Some (response, upgrade, audits, t)"
    and rest: "converse api enc policy limit rest t = Some s'"
    by (auto split: option.splits)
  have "quiet s t" using reader_quiet [OF _ h] Cons.prems(1) step by auto
  moreover have "quiet t s'" using Cons.IH [OF _ rest] Cons.prems(1) by simp
  ultimately show ?case by (rule quiet_trans)
qed

end

section \<open>Properties\<close>

text \<open>C17: Complete mediation and exactly one audit record.  A request without a route touches
  nothing and leaves no record.  A request with a route leaves exactly one record, with the action
  of the route and the identity of the peer.  The record says denied exactly when the request
  identifier was acceptable and the policy refuses the class of the route, and then nothing was
  touched and the answer is the refusal.  The dispatcher's state can only have changed when the
  identifier was acceptable, the policy allows the class, and the body was within the limit unless
  the route is a console; a stream is only handed over on an allowed console route.\<close>

theorem requests_mediated:
  assumes "handle_request api enc policy limit request peer s = Some (response, upgrade, audits, s')"
  shows "case api_route api (inc_method request) (inc_path request) of
      None \<Rightarrow> audits = [] \<and> upgrade = None \<and> s' = s
    | Some route \<Rightarrow> \<exists>decision rid. audits = [audit peer route decision rid] \<and>
        (decision = Denied \<longleftrightarrow> is_ok (request_id (inc_header request)) \<and>
           authorize policy (pi_actor peer) (sec_class route) = Inl forbidden) \<and>
        (decision = Denied \<longrightarrow> s' = s \<and> upgrade = None \<and>
           response = error_response enc 403 forbidden) \<and>
        (s' \<noteq> s \<or> upgrade \<noteq> None \<longrightarrow> request_id (inc_header request) = Inr rid \<and>
           is_ok (authorize policy (pi_actor peer) (sec_class route)) \<and>
           (sec_class route = Console \<or> collect_body limit (inc_body request) \<noteq> None)) \<and>
        (upgrade \<noteq> None \<longrightarrow> sec_class route = Console \<and> decision = Allowed \<and> http_status response = 101)"
proof -
  have auth: "authorize policy (pi_actor peer) c = Inl e \<Longrightarrow> e = forbidden" for c e
    by (auto simp: authorize_def Let_def split: if_splits)
  show ?thesis
    using assms unfolding handle_request_def handle_upgrade_request_def Let_def
    by (auto simp: is_ok_iff dest: auth
        split: option.splits sum.splits if_splits prod.splits)
qed

definition demo_peer :: "u32 \<Rightarrow> peer_identity" where
  "demo_peer uid = \<lparr>pi_pid = 4711, pi_actor = \<lparr>actor_uid = uid, actor_gid = 100, actor_label = None\<rparr>\<rparr>"

definition demo_api :: "(nat, unit) local_api" where
  "demo_api =
     \<lparr>api_route = (\<lambda>m p. if m = PUT \<and> p = ''/1.0/resource-pool''
        then Some \<lparr>sec_class = Mutation, sec_audit_action = MutateResourcePool\<rparr> else None),
      api_handle = (\<lambda>rq peer n. (Some fallback_response, Suc n)),
      api_prepare_upgrade = (\<lambda>rq peer n. Some (None, n)), api_drop_upgrade = (\<lambda>u n. n)\<rparr>"

definition demo_request :: incoming_request where
  "demo_request = \<lparr>inc_method = PUT, inc_path = ''/1.0/resource-pool'', inc_query = None,
     inc_header = (\<lambda>_. None), inc_body = Some []\<rparr>"

theorem requests_mediated_witness:
  "\<exists>response upgrade audits s'.
     handle_request demo_api (\<lambda>_. None) deny_by_default 16 demo_request (demo_peer 1000) 0
       = Some (response, upgrade, audits, s') \<and> length audits = 1 \<and> s' = 0"
proof -
  have "\<exists>response upgrade audits s'.
     handle_request demo_api (\<lambda>_. None) deny_by_default 16 demo_request (demo_peer 1000) 0
       = Some (response, upgrade, audits, s')"
    by (simp add: handle_request_def demo_api_def demo_request_def request_id_def authorize_def role_of_def
        deny_by_default_def demo_peer_def)
  then obtain response upgrade audits s' where
    run: "handle_request demo_api (\<lambda>_. None) deny_by_default 16 demo_request (demo_peer 1000) 0
       = Some (response, upgrade, audits, s')" by blast
  have "\<not> is_ok (authorize deny_by_default (pi_actor (demo_peer 1000)) Mutation)"
    by (simp add: authorize_def role_of_def deny_by_default_def demo_peer_def)
  with requests_mediated [OF run] run show ?thesis
    by (auto simp: demo_api_def demo_request_def)
qed

end
