(* ===== verification/Image_Store.thy ===== *)
theory Image_Store
  imports Api_V1 Host_Files "HOL-Library.Product_Lexorder"
begin

text \<open>
  The content-addressed image store and its catalog, \<open>crates/kernmux-daemon/src/image_store.rs\<close>.

  The directories below the store root are the state \<open>store_fs\<close>: the blobs and, for each kind, the
  metadata files, by file name and in directory order, together with the source files that a
  request may name.  Every call of the operating system may fail: \<open>fs_faults\<close> is consumed one entry
  for each call, and an entry \<open>Some errno\<close> makes that call fail, so a theorem about all states is a
  theorem about all placements of I/O failures.  The reads that hash an existing blob report the same
  operation and change nothing, so that they share one entry, as do the two calls that synchronise a
  directory.  SHA-256 and the JSON encoding of metadata are
  library code and are the parameters in \<open>store_env\<close>.  A regular file is read in full buffers.
\<close>

section \<open>Artifacts\<close>

datatype artifact_kind = Art_Kernel | Art_Initrd | Art_OsImage

fun kind_directory :: "artifact_kind \<Rightarrow> string" where
  "kind_directory Art_Kernel = ''kernel''"
| "kind_directory Art_Initrd = ''initrd''"
| "kind_directory Art_OsImage = ''os-image''"

type_synonym artifact_id = string

record os_image_record =
  or_label :: string
  or_format :: os_image_format
  or_virtual_bytes :: u64
  or_architecture :: "string option"

record artifact_record =
  ar_schema_version :: u32
  ar_kind :: artifact_kind
  ar_id :: artifact_id
  ar_bytes :: u64
  ar_os_image :: "os_image_record option"

datatype image_store_error =
    InvalidSizeLimit
  | InvalidArtifactId string
  | SourceNotRegular
  | EmptyArtifact
  | InvalidDiskImage string
  | InvalidOsImageMetadata string
  | TooLarge u64
  | DigestMismatch artifact_id artifact_id
  | Store_NotFound
  | Corrupt string
  | MetadataEncoding string
  | Store_Io string nat

definition sha256_prefix :: string where
  "sha256_prefix = ''sha256:''"

definition canonical_digest :: "string \<Rightarrow> bool" where
  "canonical_digest digest \<longleftrightarrow> length digest = 64 \<and> list_all is_lower_hex digest"

definition parse_artifact_id :: "string \<Rightarrow> image_store_error + artifact_id" where
  "parse_artifact_id value =
     (case strip_prefix sha256_prefix value of
        None \<Rightarrow> Inl (InvalidArtifactId value)
      | Some digest \<Rightarrow> if canonical_digest digest then Inr value else Inl (InvalidArtifactId value))"

definition hex_digit :: "nat \<Rightarrow> char" where
  "hex_digit d = (if d < 10 then char_of (48 + d) else char_of (87 + d))"

definition from_digest :: "u8 list \<Rightarrow> artifact_id" where
  "from_digest digest =
     sha256_prefix @ concat (map (\<lambda>b. [hex_digit (unat b div 16), hex_digit (unat b mod 16)]) digest)"

definition digest_of :: "artifact_id \<Rightarrow> string" where
  "digest_of i = drop (length sha256_prefix) i"

section \<open>Operator metadata\<close>

text \<open>\<open>value.trim() == value\<close>: no white space character begins or ends the text.\<close>

definition is_trimmed :: "string \<Rightarrow> bool" where
  "is_trimmed s \<longleftrightarrow>
     (let bytes = map byte s in
      list_all (\<lambda>w. \<not> starts_with bytes w \<and> \<not> starts_with (rev bytes) (rev w)) utf8_whitespace)"

text \<open>\<open>char::is_control\<close> on the encoded bytes: U+0000 to U+001F, U+007F, and U+0080 to U+009F.\<close>

fun has_control :: "string \<Rightarrow> bool" where
  "has_control [] = False"
| "has_control (c # cs) \<longleftrightarrow>
     byte c < 32 \<or> byte c = 127 \<or>
     (byte c = 0xC2 \<and> (case cs of [] \<Rightarrow> False | d # _ \<Rightarrow> 0x80 \<le> byte d \<and> byte d \<le> 0x9F)) \<or>
     has_control cs"

definition valid_label :: "string \<Rightarrow> bool" where
  "valid_label s \<longleftrightarrow> s \<noteq> [] \<and> length s \<le> 128 \<and> is_trimmed s \<and> \<not> has_control s"

definition validate_label :: "string \<Rightarrow> image_store_error + unit" where
  "validate_label s =
     (if valid_label s then Inr ()
      else Inl (InvalidOsImageMetadata
        ''OS image label must be 1-128 printable characters without surrounding whitespace''))"

definition valid_architecture :: "string \<Rightarrow> bool" where
  "valid_architecture s \<longleftrightarrow> s \<noteq> [] \<and> length s \<le> 64 \<and>
     list_all (\<lambda>c. is_ascii_alphanumeric c \<or> c \<in> {CHR ''-'', CHR ''_'', CHR ''.''}) s"

definition validate_architecture :: "string \<Rightarrow> image_store_error + string" where
  "validate_architecture s =
     (if valid_architecture s then Inr s
      else Inl (InvalidOsImageMetadata ''OS image architecture is invalid''))"

section \<open>The file system\<close>

datatype file_type = Regular | Symlink | Directory

record store_file =
  f_type :: file_type
  f_writable :: bool
  f_bytes :: "u8 list"

record store_fs =
  fs_blobs :: "(string \<times> store_file) list"
  fs_records :: "artifact_kind \<Rightarrow> (string \<times> store_file) list"
  fs_sources :: "string \<Rightarrow> store_file option"
  fs_faults :: "nat option list"

type_synonym 'a store_io = "store_fs \<Rightarrow> (image_store_error + 'a) \<times> store_fs"

record store_env =
  env_root :: string
  env_sha256 :: "u8 list \<Rightarrow> u8 list"
  env_to_json :: "artifact_record \<Rightarrow> string + u8 list"
  env_from_json :: "u8 list \<Rightarrow> artifact_record option"
  env_max_artifact_bytes :: u64

definition bind_io :: "'a store_io \<Rightarrow> ('a \<Rightarrow> 'b store_io) \<Rightarrow> 'b store_io" where
  "bind_io m k fs = (case m fs of (Inl e, fs') \<Rightarrow> (Inl e, fs') | (Inr x, fs') \<Rightarrow> k x fs')"

definition lift_io :: "image_store_error + 'a \<Rightarrow> 'a store_io" where
  "lift_io r fs = (r, fs)"

definition next_fault :: "store_fs \<Rightarrow> nat option \<times> store_fs" where
  "next_fault fs =
     (case fs_faults fs of
        [] \<Rightarrow> (None, fs)
      | fault # faults \<Rightarrow> (fault, fs\<lparr>fs_faults := faults\<rparr>))"

text \<open>One system call that reads the state: an injected fault, or the call's own answer.\<close>

definition attempt :: "string \<Rightarrow> (store_fs \<Rightarrow> nat + 'a) \<Rightarrow> 'a store_io" where
  "attempt operation call fs =
     (case next_fault fs of
        (Some errno, fs') \<Rightarrow> (Inl (Store_Io operation errno), fs')
      | (None, fs') \<Rightarrow> (map_err (Store_Io operation) (call fs'), fs'))"

definition attempt_ok :: "string \<Rightarrow> unit store_io" where
  "attempt_ok operation = attempt operation (\<lambda>_. Inr ())"

definition ELOOP :: nat where "ELOOP = 40"
definition EEXIST :: nat where "EEXIST = 17"

definition open_no_follow :: "store_file option \<Rightarrow> nat + store_file" where
  "open_no_follow f =
     (case f of
        None \<Rightarrow> Inl ENOENT
      | Some file \<Rightarrow> if f_type file = Symlink then Inl ELOOP else Inr file)"

definition require_read_only_file :: "store_file \<Rightarrow> string \<Rightarrow> image_store_error + unit" where
  "require_read_only_file file label =
     (if f_type file \<noteq> Regular then Inl (Corrupt (label @ '' is not a regular file''))
      else if f_writable file then Inl (Corrupt (label @ '' is writable''))
      else Inr ())"

definition sync_read_only :: "string \<Rightarrow> unit store_io" where
  "sync_read_only operation =
     bind_io (attempt_ok operation) (\<lambda>_. bind_io (attempt_ok operation) (\<lambda>_. attempt_ok operation))"

definition sync_directory :: "string \<Rightarrow> unit store_io" where
  "sync_directory operation = attempt_ok operation"

definition read_only_file :: "u8 list \<Rightarrow> store_file" where
  "read_only_file bytes = \<lparr>f_type = Regular, f_writable = False, f_bytes = bytes\<rparr>"

definition record_name :: "artifact_id \<Rightarrow> string" where
  "record_name i = digest_of i @ ''.json''"

text \<open>The directories of the layout below the store root.\<close>

definition blob_directory :: "string \<Rightarrow> string" where
  "blob_directory root = root @ ''/blobs/sha256''"

definition record_directory :: "string \<Rightarrow> artifact_kind \<Rightarrow> string" where
  "record_directory root kind = root @ ''/records/'' @ kind_directory kind @ ''/sha256''"

definition temporary_directory :: "string \<Rightarrow> string" where
  "temporary_directory root = root @ ''/.tmp''"

definition blob_path :: "string \<Rightarrow> artifact_id \<Rightarrow> string" where
  "blob_path root i = blob_directory root @ ''/'' @ digest_of i"

definition record_path :: "string \<Rightarrow> artifact_kind \<Rightarrow> artifact_id \<Rightarrow> string" where
  "record_path root kind i = record_directory root kind @ ''/'' @ record_name i"

section \<open>Disk images\<close>

definition be_value :: "u8 list \<Rightarrow> nat" where
  "be_value bytes = foldl (\<lambda>acc b. 256 * acc + unat b) 0 bytes"

definition header_field :: "nat \<Rightarrow> nat \<Rightarrow> u8 list \<Rightarrow> u8 list" where
  "header_field a b header = take (b - a) (drop a header)"

definition inspect_disk_image :: "u8 list \<Rightarrow> (os_image_format \<times> u64) store_io" where
  "inspect_disk_image bytes =
     (let stored_bytes = length bytes; header_bytes = min stored_bytes 520 in
      if stored_bytes = 0 then lift_io (Inl EmptyArtifact)
      else bind_io (attempt ''read OS image header'' (\<lambda>_. Inr (take header_bytes bytes))) (\<lambda>header.
        lift_io
          (if header_bytes < 4 \<or> header_field 0 4 header \<noteq> [0x51, 0x46, 0x49, 0xfb] then
             (let has_mbr = header_bytes \<ge> 512 \<and> header_field 510 512 header = [0x55, 0xaa];
                  has_gpt = header_bytes \<ge> 520 \<and>
                    header_field 512 520 header = map (\<lambda>c. of_nat (byte c)) ''EFI PART''
              in if has_mbr \<or> has_gpt then Inr (Raw, of_nat stored_bytes)
                 else Inl (InvalidDiskImage ''raw image has no MBR or GPT disk signature''))
           else if header_bytes < 32 then Inl (InvalidDiskImage ''qcow2 header is truncated'')
           else
             (let version = be_value (header_field 4 8 header);
                  cluster_bits = be_value (header_field 20 24 header);
                  virtual_bytes = be_value (header_field 24 32 header)
              in if \<not> (1 \<le> version \<and> version \<le> 3) then
                   Inl (InvalidDiskImage (''qcow2 version '' @ show_nat version @ '' is unsupported''))
                 else if \<not> (9 \<le> cluster_bits \<and> cluster_bits \<le> 21) then
                   Inl (InvalidDiskImage ''qcow2 cluster size is invalid'')
                 else if virtual_bytes = 0 then
                   Inl (InvalidDiskImage ''qcow2 virtual size is zero'')
                 else Inr (Qcow2, of_nat virtual_bytes)))))"

section \<open>The store\<close>

definition COPY_BUFFER_BYTES :: nat where "COPY_BUFFER_BYTES = 64 * 1024"
definition MAX_RECORD_BYTES :: nat where "MAX_RECORD_BYTES = 4096"
definition RECORD_SCHEMA_VERSION :: u32 where "RECORD_SCHEMA_VERSION = 1"

text \<open>
  \<open>copy_and_hash\<close>: the bytes hashed and written so far, their count, and what is left to read.  The
  last read returns no byte.
\<close>

function copy_loop :: "u64 \<Rightarrow> u8 list \<Rightarrow> u64 \<Rightarrow> u8 list \<Rightarrow> (u8 list \<times> u64) store_io" where
  "copy_loop limit copied bytes rest =
     bind_io (attempt_ok ''read source artifact'') (\<lambda>_.
       if rest = [] then lift_io (Inr (copied, bytes))
       else (let chunk = take COPY_BUFFER_BYTES rest in
         case checked_add bytes (of_nat (length chunk)) of
           None \<Rightarrow> lift_io (Inl (TooLarge limit))
         | Some bytes' \<Rightarrow>
             if bytes' > limit then lift_io (Inl (TooLarge limit))
             else bind_io (attempt_ok ''write temporary blob'')
                    (\<lambda>_. copy_loop limit (copied @ chunk) bytes' (drop COPY_BUFFER_BYTES rest))))"
  by pat_completeness auto
termination
  by (relation "measure (\<lambda>(limit, copied, bytes, rest). length rest)")
    (auto simp: COPY_BUFFER_BYTES_def)

declare copy_loop.simps [simp del]

definition copy_and_hash :: "store_env \<Rightarrow> u8 list \<Rightarrow> (artifact_id \<times> u64 \<times> u8 list) store_io" where
  "copy_and_hash env input =
     bind_io (copy_loop (env_max_artifact_bytes env) [] 0 input) (\<lambda>(copied, bytes).
       lift_io (if bytes = 0 then Inl EmptyArtifact
                else Inr (from_digest (env_sha256 env copied), bytes, copied)))"

definition verify_blob :: "store_env \<Rightarrow> artifact_record \<Rightarrow> unit store_io" where
  "verify_blob env r =
     bind_io (attempt ''open immutable blob''
                (\<lambda>fs. open_no_follow (map_of (fs_blobs fs) (digest_of (ar_id r))))) (\<lambda>blob.
     bind_io (attempt_ok ''inspect immutable blob'') (\<lambda>_.
     bind_io (lift_io (require_read_only_file blob ''immutable blob'')) (\<lambda>_.
       if of_nat (length (f_bytes blob)) \<noteq> ar_bytes r
       then lift_io (Inl (Corrupt ''immutable blob size disagrees with metadata''))
       else bind_io (attempt_ok ''verify immutable blob'') (\<lambda>_.
         lift_io (if from_digest (env_sha256 env (f_bytes blob)) \<noteq> ar_id r
                  then Inl (Corrupt ''immutable blob digest does not match its ID'')
                  else Inr ())))))"

fun metadata_inconsistent :: "artifact_kind \<Rightarrow> os_image_record option \<Rightarrow> bool" where
  "metadata_inconsistent Art_OsImage os \<longleftrightarrow>
     is_none_or (\<lambda>m. or_virtual_bytes m = 0 \<or> or_format m = Unknown_Format \<or>
        \<not> valid_label (or_label m) \<or>
        is_some_and (\<lambda>a. \<not> valid_architecture a) (or_architecture m)) os"
| "metadata_inconsistent _ os \<longleftrightarrow> os \<noteq> None"

definition read_record ::
  "store_env \<Rightarrow> store_file option \<Rightarrow> artifact_kind \<Rightarrow> artifact_id \<Rightarrow> artifact_record store_io" where
  "read_record env entry expected_kind expected_id =
     bind_io (attempt ''open artifact metadata'' (\<lambda>_. open_no_follow entry)) (\<lambda>f.
     bind_io (attempt_ok ''inspect artifact metadata'') (\<lambda>_.
     bind_io (lift_io (require_read_only_file f ''artifact metadata'')) (\<lambda>_.
       if length (f_bytes f) > MAX_RECORD_BYTES
       then lift_io (Inl (Corrupt ''artifact metadata is oversized''))
       else bind_io (attempt_ok ''read artifact metadata'') (\<lambda>_.
         lift_io (case env_from_json env (f_bytes f) of
             None \<Rightarrow> Inl (Corrupt ''artifact metadata is malformed'')
           | Some r \<Rightarrow>
               if ar_schema_version r \<noteq> RECORD_SCHEMA_VERSION \<or> ar_kind r \<noteq> expected_kind \<or>
                  ar_id r \<noteq> expected_id \<or> ar_bytes r = 0 \<or>
                  metadata_inconsistent (ar_kind r) (ar_os_image r)
               then Inl (Corrupt ''artifact metadata fields are inconsistent'')
               else Inr r)))))"

text \<open>\<open>fs::hard_link\<close> of a temporary file: it fails when the destination exists.\<close>

definition hard_link :: "(store_fs \<Rightarrow> bool) \<Rightarrow> (store_fs \<Rightarrow> store_fs) \<Rightarrow> store_fs \<Rightarrow> (nat + unit) \<times> store_fs" where
  "hard_link destination_exists add fs0 =
     (case next_fault fs0 of
        (Some errno, fs) \<Rightarrow> (Inl errno, fs)
      | (None, fs) \<Rightarrow> if destination_exists fs then (Inl EEXIST, fs) else (Inr (), add fs))"

definition add_blob :: "artifact_record \<Rightarrow> u8 list \<Rightarrow> store_fs \<Rightarrow> store_fs" where
  "add_blob r temporary fs =
     fs\<lparr>fs_blobs := fs_blobs fs @ [(digest_of (ar_id r), read_only_file temporary)]\<rparr>"

definition publish_blob :: "store_env \<Rightarrow> u8 list \<Rightarrow> artifact_record \<Rightarrow> unit store_io" where
  "publish_blob env temporary r fs0 =
     (case hard_link (\<lambda>fs. map_of (fs_blobs fs) (digest_of (ar_id r)) \<noteq> None) (add_blob r temporary) fs0 of
        (Inr _, fs) \<Rightarrow> sync_directory ''sync blob directory'' fs
      | (Inl errno, fs) \<Rightarrow>
          if errno = EEXIST then verify_blob env r fs
          else (Inl (Store_Io ''publish immutable blob'' errno), fs))"

definition add_record :: "artifact_record \<Rightarrow> u8 list \<Rightarrow> store_fs \<Rightarrow> store_fs" where
  "add_record r bytes fs =
     fs\<lparr>fs_records := (fs_records fs)(ar_kind r :=
        fs_records fs (ar_kind r) @ [(record_name (ar_id r), read_only_file bytes)])\<rparr>"

definition compare_record :: "store_env \<Rightarrow> artifact_record \<Rightarrow> unit store_io" where
  "compare_record env r fs =
     bind_io (read_record env (map_of (fs_records fs (ar_kind r)) (record_name (ar_id r))) (ar_kind r) (ar_id r))
       (\<lambda>existing. lift_io (if existing = r then Inr ()
          else Inl (Corrupt ''artifact metadata disagrees with imported bytes''))) fs"

definition link_record :: "store_env \<Rightarrow> u8 list \<Rightarrow> artifact_record \<Rightarrow> unit store_io" where
  "link_record env bytes r fs0 =
     (case hard_link (\<lambda>fs. map_of (fs_records fs (ar_kind r)) (record_name (ar_id r)) \<noteq> None)
             (add_record r bytes) fs0 of
        (Inr _, fs) \<Rightarrow> sync_directory ''sync record directory'' fs
      | (Inl errno, fs) \<Rightarrow>
          if errno = EEXIST then compare_record env r fs
          else (Inl (Store_Io ''publish artifact metadata'' errno), fs))"

definition publish_record :: "store_env \<Rightarrow> artifact_record \<Rightarrow> unit store_io" where
  "publish_record env r =
     bind_io (lift_io (map_err MetadataEncoding (env_to_json env r))) (\<lambda>bytes.
     bind_io (attempt_ok ''create temporary metadata'') (\<lambda>_.
     bind_io (attempt_ok ''write temporary metadata'') (\<lambda>_.
     bind_io (sync_read_only ''sync temporary metadata'') (\<lambda>_. link_record env bytes r))))"

text \<open>The part that the two imports share: copy, check the expected digest, publish.\<close>

definition publish_artifact :: "store_env \<Rightarrow> u8 list \<Rightarrow> artifact_record \<Rightarrow> artifact_record store_io" where
  "publish_artifact env temporary r =
     bind_io (publish_blob env temporary r) (\<lambda>_. bind_io (publish_record env r) (\<lambda>_. lift_io (Inr r)))"

definition import_bytes ::
  "store_env \<Rightarrow> artifact_kind \<Rightarrow> u8 list \<Rightarrow> os_image_record option \<Rightarrow> artifact_id option \<Rightarrow>
   artifact_record store_io" where
  "import_bytes env kind input os expected_id =
     bind_io (attempt_ok ''create temporary blob'') (\<lambda>_.
     bind_io (copy_and_hash env input) (\<lambda>(i, bytes, copied).
       if is_some_and (\<lambda>expected. expected \<noteq> i) expected_id
       then lift_io (Inl (DigestMismatch (the expected_id) i))
       else bind_io (sync_read_only ''sync temporary blob'') (\<lambda>_.
         publish_artifact env copied
           \<lparr>ar_schema_version = RECORD_SCHEMA_VERSION, ar_kind = kind, ar_id = i,
            ar_bytes = bytes, ar_os_image = os\<rparr>)))"

definition import_path :: "store_env \<Rightarrow> artifact_kind \<Rightarrow> string \<Rightarrow> artifact_id option \<Rightarrow>
    artifact_record store_io" where
  "import_path env kind source expected_id =
     bind_io (attempt ''open source artifact'' (\<lambda>fs. open_no_follow (fs_sources fs source))) (\<lambda>input.
     bind_io (attempt_ok ''inspect source artifact'') (\<lambda>_.
       if f_type input \<noteq> Regular then lift_io (Inl SourceNotRegular)
       else import_bytes env kind (f_bytes input) None expected_id))"

definition import_os_image :: "store_env \<Rightarrow> string \<Rightarrow> string \<Rightarrow> string option \<Rightarrow> artifact_id option \<Rightarrow>
    artifact_record store_io" where
  "import_os_image env source label architecture expected_id =
     bind_io (lift_io (validate_label label)) (\<lambda>_.
     bind_io (lift_io (traverse_option validate_architecture architecture)) (\<lambda>architecture.
     bind_io (attempt ''open source OS image'' (\<lambda>fs. open_no_follow (fs_sources fs source))) (\<lambda>input.
     bind_io (attempt_ok ''inspect source OS image'') (\<lambda>_.
       if f_type input \<noteq> Regular then lift_io (Inl SourceNotRegular)
       else bind_io (inspect_disk_image (f_bytes input)) (\<lambda>(format, virtual_bytes).
         bind_io (attempt_ok ''rewind source OS image'') (\<lambda>_.
           import_bytes env Art_OsImage (f_bytes input)
             (Some \<lparr>or_label = label, or_format = format, or_virtual_bytes = virtual_bytes,
                    or_architecture = architecture\<rparr>) expected_id))))))"

definition get_artifact ::
  "store_env \<Rightarrow> artifact_kind \<Rightarrow> artifact_id \<Rightarrow> artifact_record option store_io" where
  "get_artifact env kind i fs0 =
     (case next_fault fs0 of
        (Some errno, fs) \<Rightarrow>
          if errno = ENOENT then (Inr None, fs)
          else (Inl (Store_Io ''inspect artifact metadata'' errno), fs)
      | (None, fs) \<Rightarrow>
          (case map_of (fs_records fs kind) (record_name i) of
             None \<Rightarrow> (Inr None, fs)
           | Some entry \<Rightarrow>
               bind_io (lift_io (require_read_only_file entry ''artifact metadata'')) (\<lambda>_.
               bind_io (read_record env (Some entry) kind i) (\<lambda>r.
               bind_io (verify_blob env r) (\<lambda>_. lift_io (Inr (Some r))))) fs))"

definition resolve_artifact :: "store_env \<Rightarrow> artifact_kind \<Rightarrow> artifact_id \<Rightarrow> string store_io" where
  "resolve_artifact env kind i =
     bind_io (get_artifact env kind i) (\<lambda>found.
       lift_io (map_ok (\<lambda>r. blob_path (env_root env) (ar_id r)) (ok_or Store_NotFound found)))"

definition list_entry ::
  "store_env \<Rightarrow> artifact_kind \<Rightarrow> string \<times> store_file \<Rightarrow> artifact_record store_io" where
  "list_entry env kind e =
     (case e of (name, entry) \<Rightarrow>
      bind_io (attempt_ok ''read catalog entry'') (\<lambda>_.
      bind_io (attempt_ok ''inspect catalog entry'') (\<lambda>_.
      bind_io (lift_io (require_read_only_file entry ''artifact metadata'')) (\<lambda>_.
      bind_io (lift_io (ok_or (Corrupt ''artifact metadata filename is invalid'')
                          (strip_suffix ''.json'' name))) (\<lambda>stem.
      bind_io (lift_io (map_err (\<lambda>_. Corrupt ''artifact metadata filename is invalid'')
                          (parse_artifact_id (sha256_prefix @ stem)))) (\<lambda>i.
      bind_io (read_record env (Some entry) kind i) (\<lambda>r.
      bind_io (verify_blob env r) (\<lambda>_. lift_io (Inr r)))))))))"

fun for_each_io :: "('a \<Rightarrow> 'b store_io) \<Rightarrow> 'a list \<Rightarrow> 'b list store_io" where
  "for_each_io body [] = lift_io (Inr [])"
| "for_each_io body (x # xs) =
     bind_io (body x) (\<lambda>y. bind_io (for_each_io body xs) (\<lambda>ys. lift_io (Inr (y # ys))))"

definition list_kind :: "store_env \<Rightarrow> artifact_kind \<Rightarrow> artifact_record list store_io" where
  "list_kind env kind =
     bind_io (attempt ''read artifact catalog'' (\<lambda>fs. Inr (fs_records fs kind)))
       (for_each_io (list_entry env kind))"

fun kind_rank :: "artifact_kind \<Rightarrow> nat" where
  "kind_rank Art_Kernel = 0"
| "kind_rank Art_Initrd = 1"
| "kind_rank Art_OsImage = 2"

text \<open>
  The derived order of a record compares the schema version, the kind and the ID first; verified
  records of one kind have the file's ID, so the remaining fields never decide.
\<close>

definition list_artifacts :: "store_env \<Rightarrow> artifact_record list store_io" where
  "list_artifacts env =
     bind_io (for_each_io (list_kind env) [Art_Kernel, Art_Initrd, Art_OsImage]) (\<lambda>records.
       lift_io (Inr (sort_key (\<lambda>r. (ar_schema_version r, kind_rank (ar_kind r), ar_id r))
                       (concat records))))"

text \<open>Opening a store: each directory of the layout is created and then inspected.\<close>

definition prepare_layout :: "(string \<Rightarrow> bool) \<Rightarrow> string \<Rightarrow> unit store_io" where
  "prepare_layout is_dir root =
     bind_io (for_each_io (\<lambda>directory.
         bind_io (attempt_ok ''create image store directory'') (\<lambda>_.
         bind_io (attempt_ok ''inspect image store directory'') (\<lambda>_.
           lift_io (if is_dir directory then Inr ()
                    else Inl (Corrupt ''image store path is not a directory'')))))
       [root, blob_directory root, record_directory root Art_Kernel, record_directory root Art_Initrd,
        record_directory root Art_OsImage, temporary_directory root]) (\<lambda>_. lift_io (Inr ()))"

definition new_store :: "(string \<Rightarrow> bool) \<Rightarrow> string \<Rightarrow> u64 \<Rightarrow> (string \<times> u64) store_io" where
  "new_store is_dir root max_artifact_bytes =
     (if max_artifact_bytes = 0 then lift_io (Inl InvalidSizeLimit)
      else bind_io (prepare_layout is_dir root) (\<lambda>_. lift_io (Inr (root, max_artifact_bytes))))"

text \<open>\<open>Display\<close> of an error; the text of an operating-system error is the parameter.\<close>

fun store_error_message :: "(nat \<Rightarrow> string) \<Rightarrow> image_store_error \<Rightarrow> string" where
  "store_error_message io InvalidSizeLimit = ''artifact size limit must be positive''"
| "store_error_message io (InvalidArtifactId v) = ''artifact ID '' @ [CHR 0x27] @ v @ [CHR 0x27] @ '' is not canonical SHA-256''"
| "store_error_message io SourceNotRegular = ''artifact source is not a regular file''"
| "store_error_message io EmptyArtifact = ''artifact source is empty''"
| "store_error_message io (InvalidDiskImage d) = ''invalid OS disk image: '' @ d"
| "store_error_message io (InvalidOsImageMetadata d) = d"
| "store_error_message io (TooLarge limit) = ''artifact exceeds the '' @ show_nat (unat limit) @ ''-byte size limit''"
| "store_error_message io (DigestMismatch expected actual) =
     ''artifact digest '' @ actual @ '' does not match expected '' @ expected"
| "store_error_message io Store_NotFound = ''artifact was not found''"
| "store_error_message io (Corrupt d) = ''image store is corrupt: '' @ d"
| "store_error_message io (MetadataEncoding d) = ''artifact metadata could not be encoded: '' @ d"
| "store_error_message io (Store_Io operation errno) = operation @ '': '' @ io errno"

section \<open>The catalog\<close>

record image_catalog_snapshot =
  ics_generation :: generation
  ics_artifacts :: "artifact_record list"

record image_catalog =
  cat_generation :: generation
  cat_observed :: "artifact_record list option"

datatype image_catalog_error =
    Catalog_StaleGeneration generation generation
  | GenerationExhausted
  | Catalog_Store image_store_error

fun catalog_error_message :: "(nat \<Rightarrow> string) \<Rightarrow> image_catalog_error \<Rightarrow> string" where
  "catalog_error_message io (Catalog_StaleGeneration expected actual) =
     ''image catalog generation changed from '' @ show_nat (unat expected) @ '' to '' @ show_nat (unat actual)"
| "catalog_error_message io GenerationExhausted = ''image catalog generation is exhausted''"
| "catalog_error_message io (Catalog_Store e) = store_error_message io e"

definition new_catalog :: image_catalog where
  "new_catalog = \<lparr>cat_generation = 0, cat_observed = None\<rparr>"

definition catalog_refresh :: "store_env \<Rightarrow> image_catalog \<times> store_fs \<Rightarrow>
    (image_catalog_error + image_catalog_snapshot) \<times> image_catalog \<times> store_fs" where
  "catalog_refresh env st =
     (case st of (cat, fs) \<Rightarrow>
      case list_artifacts env fs of
        (Inl e, fs) \<Rightarrow> (Inl (Catalog_Store e), cat, fs)
      | (Inr artifacts, fs) \<Rightarrow>
          if cat_observed cat \<noteq> Some artifacts then
            (case checked_add (cat_generation cat) 1 of
               None \<Rightarrow> (Inl GenerationExhausted, cat, fs)
             | Some g \<Rightarrow>
                 (Inr \<lparr>ics_generation = g, ics_artifacts = artifacts\<rparr>,
                  \<lparr>cat_generation = g, cat_observed = Some artifacts\<rparr>, fs))
          else (Inr \<lparr>ics_generation = cat_generation cat, ics_artifacts = artifacts\<rparr>, cat, fs))"

text \<open>The two guarded imports of the catalog differ in the import of the store that they call.\<close>

definition catalog_import :: "store_env \<Rightarrow> generation \<Rightarrow> artifact_record store_io \<Rightarrow>
    image_catalog \<times> store_fs \<Rightarrow>
    (image_catalog_error + artifact_record \<times> image_catalog_snapshot) \<times> image_catalog \<times> store_fs" where
  "catalog_import env expected_generation import st =
     (case catalog_refresh env st of
        (Inl e, st) \<Rightarrow> (Inl e, st)
      | (Inr before, cat, fs) \<Rightarrow>
          if expected_generation \<noteq> ics_generation before then
            (Inl (Catalog_StaleGeneration expected_generation (ics_generation before)), cat, fs)
          else (case import fs of
              (Inl e, fs) \<Rightarrow> (Inl (Catalog_Store e), cat, fs)
            | (Inr artifact, fs) \<Rightarrow>
                (case catalog_refresh env (cat, fs) of
                   (Inl e, st) \<Rightarrow> (Inl e, st)
                 | (Inr after, st) \<Rightarrow> (Inr (artifact, after), st))))"

definition catalog_import_path where
  "catalog_import_path env expected_generation kind source expected_id =
     catalog_import env expected_generation (import_path env kind source expected_id)"

definition catalog_import_os_image where
  "catalog_import_os_image env expected_generation source label architecture expected_id =
     catalog_import env expected_generation
       (import_os_image env source label architecture expected_id)"

definition catalog_resolve :: "store_env \<Rightarrow> artifact_kind \<Rightarrow> artifact_id \<Rightarrow> image_catalog \<times> store_fs \<Rightarrow>
    (image_catalog_error + string) \<times> image_catalog \<times> store_fs" where
  "catalog_resolve env kind i st =
     (case catalog_refresh env st of
        (Inl e, st) \<Rightarrow> (Inl e, st)
      | (Inr _, cat, fs) \<Rightarrow>
          (case resolve_artifact env kind i fs of
             (r, fs) \<Rightarrow> (map_err Catalog_Store r, cat, fs)))"

section \<open>Lemmas\<close>

text \<open>What is on disk, apart from the faults still to come.\<close>

definition same_disk :: "store_fs \<Rightarrow> store_fs \<Rightarrow> bool" where
  "same_disk a b \<longleftrightarrow> fs_blobs b = fs_blobs a \<and> fs_records b = fs_records a \<and> fs_sources b = fs_sources a"

lemma same_disk_refl [simp]: "same_disk a a"
  by (simp add: same_disk_def)

lemma same_disk_trans: "same_disk a b \<Longrightarrow> same_disk b c \<Longrightarrow> same_disk a c"
  by (simp add: same_disk_def)

lemma next_fault_same: "next_fault fs = (fault, fs') \<Longrightarrow> same_disk fs fs'"
  by (auto simp: next_fault_def same_disk_def split: list.splits)

text \<open>
  A transitive relation between disk states that does not look at the faults: steps that respect it
  compose, and every step that only reads obeys it.
\<close>

locale disk_order =
  fixes R :: "store_fs \<Rightarrow> store_fs \<Rightarrow> bool"
  assumes from_same: "same_disk a b \<Longrightarrow> R a b"
    and R_trans: "R a b \<Longrightarrow> R b c \<Longrightarrow> R a c"
begin

definition obeys :: "'a store_io \<Rightarrow> bool" where
  "obeys m \<longleftrightarrow> (\<forall>fs. R fs (snd (m fs)))"

lemma obeysD: "obeys m \<Longrightarrow> m fs = (r, fs') \<Longrightarrow> R fs fs'"
  unfolding obeys_def by (metis snd_conv)

lemma obeys_lift: "obeys (lift_io r)"
  by (simp add: obeys_def lift_io_def from_same)

lemma obeys_bind:
  assumes "obeys m" and "\<And>x. obeys (k x)"
  shows "obeys (bind_io m k)"
  unfolding obeys_def
proof
  fix fs
  obtain r fs' where m: "m fs = (r, fs')" by (cases "m fs")
  have R1: "R fs fs'" by (rule obeysD [OF assms(1) m])
  show "R fs (snd (bind_io m k fs))"
  proof (cases r)
    case (Inl e)
    then show ?thesis using m R1 by (simp add: bind_io_def)
  next
    case (Inr x)
    have "R fs' (snd (k x fs'))" using assms(2) [of x] by (simp add: obeys_def)
    then show ?thesis using m Inr R1 by (simp add: bind_io_def R_trans [OF R1])
  qed
qed

lemma obeys_attempt: "obeys (attempt operation call)"
  unfolding obeys_def attempt_def
  by (auto split: prod.split option.split dest: next_fault_same intro: from_same)

lemma obeys_attempt_ok: "obeys (attempt_ok operation)"
  by (simp add: attempt_ok_def obeys_attempt)

lemma obeys_if: "obeys a \<Longrightarrow> obeys b \<Longrightarrow> obeys (if c then a else b)"
  by simp

lemmas obeys_intros = obeys_lift obeys_bind obeys_attempt obeys_attempt_ok obeys_if

lemma obeys_sync: "obeys (sync_read_only operation)" "obeys (sync_directory operation)"
  unfolding sync_read_only_def sync_directory_def by (intro obeys_intros)+

lemma obeys_verify: "obeys (verify_blob env r)"
  unfolding verify_blob_def by (intro obeys_intros)

lemma obeys_read_record: "obeys (read_record env entry kind i)"
  unfolding read_record_def by (intro obeys_intros)

lemma obeys_copy_loop: "obeys (copy_loop limit copied bytes rest)"
proof (induction limit copied bytes rest rule: copy_loop.induct)
  case (1 limit copied bytes rest)
  show ?case
  proof (cases "checked_add bytes (of_nat (length (take COPY_BUFFER_BYTES rest)) :: u64)")
    case None
    then show ?thesis by (subst copy_loop.simps) (auto simp: Let_def intro!: obeys_intros)
  next
    case (Some bytes')
    then have "rest \<noteq> [] \<Longrightarrow> \<not> limit < bytes' \<Longrightarrow> obeys (copy_loop limit
        (copied @ take COPY_BUFFER_BYTES rest) bytes' (drop COPY_BUFFER_BYTES rest))"
      using 1 by auto
    with Some show ?thesis
      by (subst copy_loop.simps)
        (cases "rest = []"; cases "limit < bytes'"; auto simp: Let_def intro!: obeys_intros)
  qed
qed

lemma obeys_copy_and_hash: "obeys (copy_and_hash env input)"
  unfolding copy_and_hash_def by (intro obeys_intros obeys_copy_loop) (auto intro: obeys_lift)

lemma obeys_inspect: "obeys (inspect_disk_image bytes)"
  unfolding inspect_disk_image_def Let_def by (intro obeys_intros)

lemma obeys_get: "obeys (get_artifact env kind i)"
  unfolding obeys_def
proof
  fix fs
  obtain fault fs1 where nf: "next_fault fs = (fault, fs1)" by (cases "next_fault fs")
  have R1: "R fs fs1" using next_fault_same [OF nf] by (rule from_same)
  have "obeys (bind_io (lift_io (require_read_only_file entry ''artifact metadata'')) (\<lambda>_.
      bind_io (read_record env (Some entry) kind i) (\<lambda>r.
      bind_io (verify_blob env r) (\<lambda>_. lift_io (Inr (Some r))))))" for entry
    by (intro obeys_intros obeys_read_record obeys_verify)
  then show "R fs (snd (get_artifact env kind i fs))"
    using nf R1 R_trans [OF R1] by (auto simp: get_artifact_def obeys_def split: option.split)
qed

lemma obeys_for_each: "(\<And>x. obeys (body x)) \<Longrightarrow> obeys (for_each_io body xs)"
  by (induction xs) (auto intro!: obeys_intros)

lemma obeys_list: "obeys (list_artifacts env)"
proof -
  have "obeys (list_entry env kind e)" for kind e
    unfolding list_entry_def
    by (cases e) (auto intro!: obeys_intros obeys_read_record obeys_verify)
  then have "obeys (list_kind env kind)" for kind
    unfolding list_kind_def by (intro obeys_intros obeys_for_each)
  then show ?thesis
    unfolding list_artifacts_def by (intro obeys_intros obeys_for_each)
qed

end

interpretation same: disk_order same_disk
  by unfold_locales (auto simp: same_disk_def)

text \<open>Files are only ever added: every file of the store keeps its name and contents.\<close>

definition grows :: "store_fs \<Rightarrow> store_fs \<Rightarrow> bool" where
  "grows a b \<longleftrightarrow> map_of (fs_blobs a) \<subseteq>\<^sub>m map_of (fs_blobs b) \<and>
     (\<forall>kind. map_of (fs_records a kind) \<subseteq>\<^sub>m map_of (fs_records b kind)) \<and>
     fs_sources b = fs_sources a"

interpretation growing: disk_order grows
  by unfold_locales (auto simp: grows_def same_disk_def intro: map_le_trans)

lemma map_le_snoc: "map_of xs \<subseteq>\<^sub>m map_of (xs @ [(k, v)])"
  by (auto simp: map_le_def map_of_append map_add_def)

lemma hard_link_Inl: "hard_link ex add fs = (Inl errno, fs') \<Longrightarrow> same_disk fs fs'"
  by (auto simp: hard_link_def dest: next_fault_same split: prod.splits option.splits if_splits)

lemma hard_link_Inr:
  assumes "hard_link ex add fs = (Inr u, fs')"
  obtains fs1 where "same_disk fs fs1" and "\<not> ex fs1" and "fs' = add fs1"
  using assms by (auto simp: hard_link_def dest: next_fault_same split: prod.splits option.splits if_splits)

text \<open>The three outcomes of a publication: the link failed, it was made, or the file existed.\<close>

lemma publish_blob_cases:
  assumes "publish_blob env temporary r fs = (res, fs')"
  obtains (fault) errno where "res = Inl (Store_Io ''publish immutable blob'' errno)" and "same_disk fs fs'"
  | (linked) fs1 where "same_disk fs fs1" and "map_of (fs_blobs fs1) (digest_of (ar_id r)) = None"
      and "sync_directory ''sync blob directory'' (add_blob r temporary fs1) = (res, fs')"
  | (exists) fs1 where "same_disk fs fs1" and "verify_blob env r fs1 = (res, fs')"
proof -
  obtain l fs1 where l: "hard_link (\<lambda>fs. map_of (fs_blobs fs) (digest_of (ar_id r)) \<noteq> None)
      (add_blob r temporary) fs = (l, fs1)" by fastforce
  show thesis
  proof (cases l)
    case (Inl errno)
    have "same_disk fs fs1" using hard_link_Inl l Inl by metis
    then show thesis using assms l Inl fault exists by (auto simp: publish_blob_def split: if_splits)
  next
    case (Inr u)
    then show thesis
      using assms l linked by (auto simp: publish_blob_def elim!: hard_link_Inr)
  qed
qed

lemma link_record_cases:
  assumes "link_record env bytes r fs = (res, fs')"
  obtains (fault) errno where "res = Inl (Store_Io ''publish artifact metadata'' errno)" and "same_disk fs fs'"
  | (linked) fs1 where "same_disk fs fs1"
      and "map_of (fs_records fs1 (ar_kind r)) (record_name (ar_id r)) = None"
      and "sync_directory ''sync record directory'' (add_record r bytes fs1) = (res, fs')"
  | (exists) fs1 where "same_disk fs fs1" and "compare_record env r fs1 = (res, fs')"
proof -
  obtain l fs1 where l: "hard_link (\<lambda>fs. map_of (fs_records fs (ar_kind r)) (record_name (ar_id r)) \<noteq> None)
      (add_record r bytes) fs = (l, fs1)" by fastforce
  show thesis
  proof (cases l)
    case (Inl errno)
    have "same_disk fs fs1" using hard_link_Inl l Inl by metis
    then show thesis using assms l Inl fault exists by (auto simp: link_record_def split: if_splits)
  next
    case (Inr u)
    then show thesis
      using assms l linked by (auto simp: link_record_def elim!: hard_link_Inr)
  qed
qed

lemma compare_record_same: "same.obeys (compare_record env r)"
proof -
  have "same.obeys (bind_io (read_record env e (ar_kind r) (ar_id r)) (\<lambda>existing. lift_io (if existing = r
      then Inr () else Inl (Corrupt ''artifact metadata disagrees with imported bytes''))))" for e
    by (intro same.obeys_intros same.obeys_read_record)
  then show ?thesis unfolding same.obeys_def compare_record_def by blast
qed

lemma grows_add: "grows fs (add_blob r temporary fs)" "grows fs (add_record r bytes fs)"
  by (simp_all add: add_blob_def add_record_def grows_def map_le_snoc del: map_of_append)

lemma grows_publish_blob: "growing.obeys (publish_blob env temporary r)"
  unfolding growing.obeys_def
proof
  fix fs
  obtain res fs' where p: "publish_blob env temporary r fs = (res, fs')"
    by (cases "publish_blob env temporary r fs")
  then have "grows fs fs'"
  proof (cases rule: publish_blob_cases)
    case (linked fs1)
    then show ?thesis
      using growing.from_same growing.R_trans grows_add(1) growing.obeysD [OF growing.obeys_sync(2)] by meson
  next
    case (exists fs1)
    then show ?thesis
      using same.obeysD [OF same.obeys_verify] same_disk_trans growing.from_same by blast
  qed (rule growing.from_same)
  then show "grows fs (snd (publish_blob env temporary r fs))" by (simp add: p)
qed

lemma grows_link_record: "growing.obeys (link_record env bytes r)"
  unfolding growing.obeys_def
proof
  fix fs
  obtain res fs' where p: "link_record env bytes r fs = (res, fs')" by (cases "link_record env bytes r fs")
  then have "grows fs fs'"
  proof (cases rule: link_record_cases)
    case (linked fs1)
    then show ?thesis
      using growing.from_same growing.R_trans grows_add(2) growing.obeysD [OF growing.obeys_sync(2)] by meson
  next
    case (exists fs1)
    then show ?thesis
      using same.obeysD [OF compare_record_same] same_disk_trans growing.from_same by blast
  qed (rule growing.from_same)
  then show "grows fs (snd (link_record env bytes r fs))" by (simp add: p)
qed

lemma grows_publish_record: "growing.obeys (publish_record env r)"
  unfolding publish_record_def
  by (intro growing.obeys_intros growing.obeys_sync grows_link_record)

lemma grows_import_bytes: "growing.obeys (import_bytes env kind input os expected_id)"
  unfolding import_bytes_def publish_artifact_def case_prod_unfold
  by (intro growing.obeys_intros growing.obeys_sync growing.obeys_copy_and_hash
      grows_publish_blob grows_publish_record)

lemma grows_import_path: "growing.obeys (import_path env kind source expected_id)"
  unfolding import_path_def by (intro growing.obeys_intros grows_import_bytes)

lemma grows_import_os_image:
  "growing.obeys (import_os_image env source label architecture expected_id)"
  unfolding import_os_image_def case_prod_unfold
  by (intro growing.obeys_intros growing.obeys_inspect grows_import_bytes)

subsection \<open>What a successful call established\<close>

lemma bind_io_Inr [result_iff]:
  "bind_io m k fs = (Inr y, fs'') \<longleftrightarrow> (\<exists>x fs'. m fs = (Inr x, fs') \<and> k x fs' = (Inr y, fs''))"
  by (auto simp: bind_io_def split: prod.splits sum.splits)

lemma lift_io_eq [result_iff]: "lift_io r fs = (x, fs') \<longleftrightarrow> r = x \<and> fs' = fs"
  by (auto simp: lift_io_def)

lemma attempt_Inr:
  "attempt operation call fs = (Inr x, fs') \<Longrightarrow> same_disk fs fs' \<and> call fs' = Inr x"
  by (auto simp: attempt_def result_iff dest: next_fault_same split: prod.splits option.splits)

lemma attempt_ok_Inr: "attempt_ok operation fs = (r, fs') \<Longrightarrow> same_disk fs fs'"
  using same.obeysD [OF same.obeys_attempt_ok] .

lemma require_read_only_Inr:
  "require_read_only_file f label = Inr u \<longleftrightarrow> f_type f = Regular \<and> \<not> f_writable f"
  by (auto simp: require_read_only_file_def)

lemma open_no_follow_Inr: "open_no_follow f = Inr x \<longleftrightarrow> f = Some x \<and> f_type x \<noteq> Symlink"
  by (auto simp: open_no_follow_def split: option.splits)

text \<open>The blob of a record is in place: immutable, of the recorded size, with the recorded digest.\<close>

definition blob_verified :: "store_env \<Rightarrow> store_fs \<Rightarrow> artifact_record \<Rightarrow> bool" where
  "blob_verified env fs r \<longleftrightarrow> (case map_of (fs_blobs fs) (digest_of (ar_id r)) of
     None \<Rightarrow> False
   | Some blob \<Rightarrow> f_type blob = Regular \<and> \<not> f_writable blob \<and>
       of_nat (length (f_bytes blob)) = ar_bytes r \<and>
       from_digest (env_sha256 env (f_bytes blob)) = ar_id r)"

lemma blob_verified_grows: "grows a b \<Longrightarrow> blob_verified env a r \<Longrightarrow> blob_verified env b r"
  by (auto simp: blob_verified_def grows_def map_le_def dom_def split: option.splits)

lemma same_disk_grows: "same_disk a b \<Longrightarrow> grows a b"
  by (rule growing.from_same)

lemma blob_verified_same: "same_disk a b \<Longrightarrow> blob_verified env b r = blob_verified env a r"
  by (simp add: blob_verified_def same_disk_def)

lemma verify_blob_Inr:
  assumes "verify_blob env r fs = (Inr u, fs')"
  shows "same_disk fs fs' \<and> blob_verified env fs r"
proof -
  have disk: "same_disk fs fs'" by (rule same.obeysD [OF same.obeys_verify assms])
  from assms obtain blob fs1 where blob: "attempt ''open immutable blob''
      (\<lambda>fs. open_no_follow (map_of (fs_blobs fs) (digest_of (ar_id r)))) fs = (Inr blob, fs1)"
    and rest: "f_type blob = Regular" "\<not> f_writable blob"
      "of_nat (length (f_bytes blob)) = ar_bytes r"
      "from_digest (env_sha256 env (f_bytes blob)) = ar_id r"
    unfolding verify_blob_def
    by (auto simp: result_iff require_read_only_Inr split: if_splits)
  from attempt_Inr [OF blob] have "map_of (fs_blobs fs) (digest_of (ar_id r)) = Some blob"
    by (auto simp: open_no_follow_Inr same_disk_def)
  with disk rest show ?thesis by (simp add: blob_verified_def)
qed

definition record_valid :: "artifact_kind \<Rightarrow> artifact_id \<Rightarrow> artifact_record \<Rightarrow> bool" where
  "record_valid kind i r \<longleftrightarrow>
     ar_schema_version r = RECORD_SCHEMA_VERSION \<and> ar_kind r = kind \<and> ar_id r = i \<and>
     ar_bytes r \<noteq> 0 \<and> \<not> metadata_inconsistent kind (ar_os_image r)"

text \<open>A metadata file from which a record can be read.\<close>

definition record_file :: "store_env \<Rightarrow> store_file \<Rightarrow> artifact_record \<Rightarrow> bool" where
  "record_file env f r \<longleftrightarrow> f_type f = Regular \<and> \<not> f_writable f \<and>
     length (f_bytes f) \<le> MAX_RECORD_BYTES \<and> env_from_json env (f_bytes f) = Some r"

lemma read_record_Inr:
  assumes "read_record env entry kind i fs = (Inr r, fs')"
  shows "same_disk fs fs' \<and> record_valid kind i r \<and> (\<exists>f. entry = Some f \<and> record_file env f r)"
proof -
  have disk: "same_disk fs fs'" by (rule same.obeysD [OF same.obeys_read_record assms])
  from assms obtain f fs1 where f: "attempt ''open artifact metadata'' (\<lambda>_. open_no_follow entry) fs
      = (Inr f, fs1)"
    and rest: "f_type f = Regular" "\<not> f_writable f" "length (f_bytes f) \<le> MAX_RECORD_BYTES"
      "env_from_json env (f_bytes f) = Some r" "record_valid kind i r"
    unfolding read_record_def
    by (auto simp: result_iff require_read_only_Inr record_valid_def split: if_splits option.splits)
  from attempt_Inr [OF f] have "entry = Some f" by (simp add: open_no_follow_Inr)
  with disk rest show ?thesis by (auto simp: record_file_def)
qed

lemma copy_loop_Inr:
  assumes "copy_loop limit copied bytes rest fs = (Inr (c, b), fs')"
  shows "c = copied @ rest \<and> unat b = unat bytes + length rest \<and> (bytes \<le> limit \<longrightarrow> b \<le> limit)"
  using assms
proof (induction limit copied bytes rest arbitrary: fs rule: copy_loop.induct)
  case (1 limit copied bytes rest)
  let ?chunk = "take COPY_BUFFER_BYTES rest"
  show ?case
  proof (cases "rest = []")
    case True
    with "1.prems" show ?thesis
      by (subst (asm) copy_loop.simps) (auto simp: result_iff)
  next
    case False
    with "1.prems" obtain bytes' fs1 where step: "checked_add bytes (of_nat (length ?chunk)) = Some bytes'"
      "bytes' \<le> limit"
      "copy_loop limit (copied @ ?chunk) bytes' (drop COPY_BUFFER_BYTES rest) fs1 = (Inr (c, b), fs')"
      by (subst (asm) copy_loop.simps)
        (auto simp: result_iff Let_def not_less split: option.splits if_splits)
    have "unat (of_nat (length ?chunk) :: u64) = length ?chunk"
      by (simp add: unat_of_nat COPY_BUFFER_BYTES_def min_def)
    then have "unat bytes' = unat bytes + length ?chunk"
      using unat_checked_add [OF step(1)] by simp
    moreover have "c = (copied @ ?chunk) @ drop COPY_BUFFER_BYTES rest \<and>
        unat b = unat bytes' + length (drop COPY_BUFFER_BYTES rest) \<and> (bytes' \<le> limit \<longrightarrow> b \<le> limit)"
      using False step by (intro "1.IH" [OF _ _ step(1)]) auto
    ultimately show ?thesis using step(2) by auto
  qed
qed

lemma copy_and_hash_Inr:
  assumes "copy_and_hash env input fs = (Inr (i, bytes, copied), fs')"
  shows "same_disk fs fs' \<and> copied = input \<and> i = from_digest (env_sha256 env input) \<and>
    unat bytes = length input \<and> bytes \<noteq> 0 \<and> bytes \<le> env_max_artifact_bytes env"
proof -
  have disk: "same_disk fs fs'" by (rule same.obeysD [OF same.obeys_copy_and_hash assms])
  from assms obtain c b fs1 where loop: "copy_loop (env_max_artifact_bytes env) [] 0 input fs = (Inr (c, b), fs1)"
    "b \<noteq> 0" "i = from_digest (env_sha256 env c)" "bytes = b" "copied = c"
    unfolding copy_and_hash_def by (auto simp: result_iff split: if_splits)
  from copy_loop_Inr [OF loop(1)] loop disk show ?thesis by simp
qed

lemma publish_blob_Inr:
  assumes "publish_blob env temporary r fs = (Inr u, fs')"
    and "of_nat (length temporary) = ar_bytes r" and "from_digest (env_sha256 env temporary) = ar_id r"
  shows "blob_verified env fs' r"
  using assms(1)
proof (cases rule: publish_blob_cases)
  case (linked fs1)
  from same.obeysD [OF same.obeys_sync(2) linked(3)] linked(2) assms(2,3) show ?thesis
    by (simp add: blob_verified_def same_disk_def map_add_def read_only_file_def add_blob_def)
next
  case (exists fs1)
  then show ?thesis using verify_blob_Inr blob_verified_same by blast
qed simp

definition record_stored :: "store_env \<Rightarrow> store_fs \<Rightarrow> artifact_record \<Rightarrow> bool" where
  "record_stored env fs r \<longleftrightarrow> (\<exists>f. map_of (fs_records fs (ar_kind r)) (record_name (ar_id r)) = Some f \<and>
     record_file env f r)"

lemma link_record_Inr:
  assumes "link_record env bytes r fs = (Inr u, fs')"
    and "env_from_json env bytes = Some r" and "length bytes \<le> MAX_RECORD_BYTES"
  shows "record_stored env fs' r"
  using assms(1)
proof (cases rule: link_record_cases)
  case (linked fs1)
  from same.obeysD [OF same.obeys_sync(2) linked(3)] linked(2) assms(2,3) show ?thesis
    by (simp add: record_stored_def same_disk_def map_add_def read_only_file_def record_file_def add_record_def)
next
  case (exists fs1)
  let ?entry = "map_of (fs_records fs1 (ar_kind r)) (record_name (ar_id r))"
  from exists have "read_record env ?entry (ar_kind r) (ar_id r) fs1 = (Inr r, fs')"
    by (auto simp: compare_record_def result_iff split: if_splits)
  from read_record_Inr [OF this] show ?thesis by (auto simp: record_stored_def same_disk_def)
qed simp

text \<open>What is assumed of the JSON encoding of one record: it is read back, and it is small.\<close>

definition json_faithful :: "store_env \<Rightarrow> artifact_record \<Rightarrow> bool" where
  "json_faithful env r \<longleftrightarrow> (case env_to_json env r of
     Inl _ \<Rightarrow> True
   | Inr bytes \<Rightarrow> env_from_json env bytes = Some r \<and> length bytes \<le> MAX_RECORD_BYTES)"

lemma publish_record_Inr:
  assumes "publish_record env r fs = (Inr u, fs')" and "json_faithful env r"
  shows "record_stored env fs' r"
  using assms link_record_Inr
  by (auto simp: publish_record_def result_iff json_faithful_def split: sum.splits)

lemma import_bytes_Inr:
  assumes "import_bytes env kind input os expected_id fs = (Inr r, fs')"
  shows "r = \<lparr>ar_schema_version = RECORD_SCHEMA_VERSION, ar_kind = kind,
      ar_id = from_digest (env_sha256 env input), ar_bytes = of_nat (length input), ar_os_image = os\<rparr>"
    and "length input = unat (ar_bytes r)" and "ar_bytes r \<noteq> 0"
    and "ar_bytes r \<le> env_max_artifact_bytes env"
    and "is_none_or (\<lambda>expected. ar_id r = expected) expected_id"
    and "blob_verified env fs' r" and "json_faithful env r \<Longrightarrow> record_stored env fs' r"
proof -
  from assms obtain i bytes copied fs1 fs2 fs3 fs4 fs5 u v where
    copy: "copy_and_hash env input fs1 = (Inr (i, bytes, copied), fs2)"
    and exp: "\<not> is_some_and (\<lambda>expected. expected \<noteq> i) expected_id"
    and r: "r = \<lparr>ar_schema_version = RECORD_SCHEMA_VERSION, ar_kind = kind, ar_id = i,
      ar_bytes = bytes, ar_os_image = os\<rparr>"
    and blob: "publish_blob env copied r fs3 = (Inr u, fs4)"
    and rec: "publish_record env r fs4 = (Inr v, fs')"
    unfolding import_bytes_def publish_artifact_def by (auto simp: result_iff split: if_splits)
  note c = copy_and_hash_Inr [OF copy]
  have "of_nat (unat bytes) = bytes" by simp
  with c have bytes: "bytes = of_nat (length input)" by simp
  show "r = \<lparr>ar_schema_version = RECORD_SCHEMA_VERSION, ar_kind = kind,
      ar_id = from_digest (env_sha256 env input), ar_bytes = of_nat (length input), ar_os_image = os\<rparr>"
    using r c bytes by simp
  show "length input = unat (ar_bytes r)" "ar_bytes r \<noteq> 0" "ar_bytes r \<le> env_max_artifact_bytes env"
    using r c by simp_all
  show "is_none_or (\<lambda>expected. ar_id r = expected) expected_id"
    using exp r by (cases expected_id) auto
  have "blob_verified env fs4 r"
    by (rule publish_blob_Inr [OF blob]) (use c r bytes in simp_all)
  then show "blob_verified env fs' r"
    by (rule blob_verified_grows [OF growing.obeysD [OF grows_publish_record rec]])
  show "json_faithful env r \<Longrightarrow> record_stored env fs' r"
    by (rule publish_record_Inr [OF rec])
qed

lemma no_faults:
  assumes "fs_faults fs = []"
  shows "attempt operation call fs = (map_err (Store_Io operation) (call fs), fs)"
    and "attempt_ok operation fs = (Inr (), fs)" and "next_fault fs = (None, fs)"
  using assms by (simp_all add: attempt_def attempt_ok_def next_fault_def)

lemma verify_blob_succeeds:
  assumes "fs_faults fs = []" and "blob_verified env fs r"
  shows "verify_blob env r fs = (Inr (), fs)"
  using assms
  by (auto simp: verify_blob_def bind_io_def lift_io_def no_faults blob_verified_def
      open_no_follow_def require_read_only_file_def split: option.splits)

lemma read_record_succeeds:
  assumes "fs_faults fs = []" and "record_file env f r" and "record_valid kind i r"
  shows "read_record env (Some f) kind i fs = (Inr r, fs)"
  using assms
  by (auto simp: read_record_def bind_io_def lift_io_def no_faults record_file_def record_valid_def
      open_no_follow_def require_read_only_file_def)

lemma get_artifact_succeeds:
  assumes "fs_faults fs = []" and "record_stored env fs r" and "record_valid (ar_kind r) (ar_id r) r"
    and "blob_verified env fs r"
  shows "get_artifact env (ar_kind r) (ar_id r) fs = (Inr (Some r), fs)"
proof -
  obtain f where f: "map_of (fs_records fs (ar_kind r)) (record_name (ar_id r)) = Some f"
    "record_file env f r" using assms(2) by (auto simp: record_stored_def)
  then have "require_read_only_file f label = Inr ()" for label
    by (simp add: record_file_def require_read_only_file_def)
  with f assms show ?thesis
    by (simp add: get_artifact_def no_faults bind_io_def lift_io_def read_record_succeeds
        verify_blob_succeeds)
qed

text \<open>A record whose fields contradict each other is refused when it is read.\<close>

lemma get_artifact_corrupt:
  assumes "fs_faults fs = []" and "record_stored env fs r"
    and "metadata_inconsistent (ar_kind r) (ar_os_image r)"
  shows "get_artifact env (ar_kind r) (ar_id r) fs
    = (Inl (Corrupt ''artifact metadata fields are inconsistent''), fs)"
proof -
  obtain f where f: "map_of (fs_records fs (ar_kind r)) (record_name (ar_id r)) = Some f"
    "record_file env f r" using assms(2) by (auto simp: record_stored_def)
  have "read_record env (Some f) (ar_kind r) (ar_id r) fs
      = (Inl (Corrupt ''artifact metadata fields are inconsistent''), fs)"
    using f(2) assms(1,3)
    by (simp add: read_record_def bind_io_def lift_io_def no_faults record_file_def
        open_no_follow_def require_read_only_file_def)
  with f assms show ?thesis
    by (simp add: get_artifact_def no_faults bind_io_def lift_io_def record_file_def
        require_read_only_file_def)
qed

subsection \<open>Every record has its blob\<close>

definition blob_present :: "store_fs \<Rightarrow> string \<Rightarrow> bool" where
  "blob_present fs digest \<longleftrightarrow> map_of (fs_blobs fs) digest \<noteq> None"

definition records_backed :: "store_fs \<Rightarrow> bool" where
  "records_backed fs \<longleftrightarrow> (\<forall>kind name f. map_of (fs_records fs kind) name = Some f \<longrightarrow>
     (\<exists>digest. name = digest @ ''.json'' \<and> blob_present fs digest))"

interpretation backed: disk_order "\<lambda>a b. records_backed a \<longrightarrow> records_backed b"
  by unfold_locales (auto simp: records_backed_def blob_present_def same_disk_def)

lemma publish_blob_effect:
  assumes "publish_blob env temporary r fs = (res, fs')"
  shows "fs_records fs' = fs_records fs \<and> (is_ok res \<longrightarrow> blob_present fs' (digest_of (ar_id r)))"
  using assms
proof (cases rule: publish_blob_cases)
  case (fault errno)
  then show ?thesis by (simp add: same_disk_def)
next
  case (linked fs1)
  from same.obeysD [OF same.obeys_sync(2) linked(3)] linked(1) show ?thesis
    by (simp add: same_disk_def blob_present_def map_add_def add_blob_def split: option.split)
next
  case (exists fs1)
  have "is_ok res \<Longrightarrow> blob_verified env fs1 r"
    using verify_blob_Inr exists(2) by (cases res) auto
  then show ?thesis
    using same.obeysD [OF same.obeys_verify exists(2)] exists(1)
    by (auto simp: same_disk_def blob_present_def blob_verified_def split: option.splits)
qed

lemma blob_present_grows: "grows a b \<Longrightarrow> blob_present a d \<Longrightarrow> blob_present b d"
  by (auto simp: blob_present_def grows_def map_le_def dom_def)

lemma backed_publish_blob: "backed.obeys (publish_blob env temporary r)"
  unfolding backed.obeys_def
proof (intro allI impI)
  fix fs assume "records_backed fs"
  obtain res fs' where p: "publish_blob env temporary r fs = (res, fs')"
    by (cases "publish_blob env temporary r fs")
  have "grows fs fs'" by (rule growing.obeysD [OF grows_publish_blob p])
  from blob_present_grows [OF this] \<open>records_backed fs\<close> have "records_backed fs'"
    unfolding records_backed_def publish_blob_effect [OF p, THEN conjunct1] by blast
  then show "records_backed (snd (publish_blob env temporary r fs))" by (simp add: p)
qed

lemma backed_link_record:
  assumes "records_backed fs" and "blob_present fs (digest_of (ar_id r))"
    and "link_record env bytes r fs = (res, fs')"
  shows "records_backed fs'"
  using assms(3)
proof (cases rule: link_record_cases)
  case (fault errno)
  then show ?thesis using assms(1) backed.from_same by blast
next
  case (linked fs1)
  have "records_backed (add_record r bytes fs1)"
    using linked(1) assms(1,2)
    by (auto simp: records_backed_def blob_present_def record_name_def map_add_def add_record_def
        same_disk_def split: if_splits option.splits)
  then show ?thesis using backed.obeysD [OF backed.obeys_sync(2) linked(3)] by blast
next
  case (exists fs1)
  then show ?thesis
    using assms(1) backed.from_same same.obeysD [OF compare_record_same] by blast
qed

lemma backed_publish_record:
  assumes "records_backed fs" and "blob_present fs (digest_of (ar_id r))"
    and "publish_record env r fs = (res, fs')"
  shows "records_backed fs'"
proof (cases "map_err MetadataEncoding (env_to_json env r)")
  case (Inl e)
  then show ?thesis using assms by (simp add: publish_record_def bind_io_def lift_io_def)
next
  case (Inr bytes)
  define prepare where "prepare = bind_io (attempt_ok ''create temporary metadata'') (\<lambda>_.
    bind_io (attempt_ok ''write temporary metadata'') (\<lambda>_. sync_read_only ''sync temporary metadata''))"
  have "publish_record env r fs = bind_io prepare (\<lambda>_. link_record env bytes r) fs"
    using Inr by (simp add: publish_record_def prepare_def bind_io_def lift_io_def
        split: prod.split sum.split)
  moreover obtain p fs1 where p: "prepare fs = (p, fs1)" by (cases "prepare fs")
  have "same.obeys prepare"
    unfolding prepare_def by (intro same.obeys_intros same.obeys_sync)
  from same.obeysD [OF this p] have disk: "same_disk fs fs1" .
  then have "records_backed fs1" "blob_present fs1 (digest_of (ar_id r))"
    using assms(1,2) backed.from_same [of fs fs1] by (auto simp: blob_present_def same_disk_def)
  ultimately show ?thesis
    using assms(3) p backed_link_record [of fs1 r env bytes res fs'] by (cases p) (auto simp: bind_io_def)
qed

lemma backed_publish_artifact: "backed.obeys (publish_artifact env temporary r)"
  unfolding backed.obeys_def
proof (intro allI impI)
  fix fs assume fs: "records_backed fs"
  obtain res fs1 where p: "publish_blob env temporary r fs = (res, fs1)"
    by (cases "publish_blob env temporary r fs")
  have fs1: "records_backed fs1" using backed.obeysD [OF backed_publish_blob p] fs by blast
  obtain q fs2 where q: "publish_record env r fs1 = (q, fs2)" by (cases "publish_record env r fs1")
  show "records_backed (snd (publish_artifact env temporary r fs))"
  proof (cases res)
    case (Inl e)
    then show ?thesis using p fs1 by (simp add: publish_artifact_def bind_io_def)
  next
    case (Inr u)
    have "blob_present fs1 (digest_of (ar_id r))" using publish_blob_effect [OF p] Inr by simp
    from backed_publish_record [OF fs1 this q] p q Inr show ?thesis
      by (cases q) (simp_all add: publish_artifact_def bind_io_def lift_io_def)
  qed
qed

lemma backed_import_bytes: "backed.obeys (import_bytes env kind input os expected_id)"
  unfolding import_bytes_def case_prod_unfold
  by (intro backed.obeys_intros backed.obeys_sync backed.obeys_copy_and_hash backed_publish_artifact)

lemma backed_import_path: "backed.obeys (import_path env kind source expected_id)"
  unfolding import_path_def by (intro backed.obeys_intros backed_import_bytes)

lemma backed_import_os_image:
  "backed.obeys (import_os_image env source label architecture expected_id)"
  unfolding import_os_image_def case_prod_unfold
  by (intro backed.obeys_intros backed.obeys_inspect backed_import_bytes)

subsection \<open>Imports, listing and the catalog\<close>

lemma import_path_Inr:
  assumes "import_path env kind source expected_id fs = (Inr r, fs')"
  obtains input fs1 where "fs_sources fs source = Some input" and "f_type input = Regular"
    and "import_bytes env kind (f_bytes input) None expected_id fs1 = (Inr r, fs')"
proof -
  from assms obtain input fs1 fs2 where
    op: "attempt ''open source artifact'' (\<lambda>fs. open_no_follow (fs_sources fs source)) fs = (Inr input, fs1)"
    and rest: "f_type input = Regular" "import_bytes env kind (f_bytes input) None expected_id fs2 = (Inr r, fs')"
    unfolding import_path_def by (auto simp: result_iff split: if_splits)
  from attempt_Inr [OF op] have "fs_sources fs source = Some input"
    by (auto simp: open_no_follow_Inr same_disk_def)
  then show thesis using rest by (rule that)
qed

lemma be_value_fold: "foldl (\<lambda>acc b. 256 * acc + unat b) a bs < (a + 1) * 256 ^ length bs"
  for bs :: "u8 list"
proof (induction bs arbitrary: a)
  case (Cons b bs)
  have "unat b < 256" using unsigned_less [of b, where 'a = nat] by simp
  then have "(256 * a + unat b + 1) * 256 ^ length bs \<le> ((a + 1) * 256) * 256 ^ length bs"
    by (intro mult_right_mono) auto
  from less_le_trans [OF Cons [of "256 * a + unat b"] this] show ?case by (simp add: algebra_simps)
qed simp

lemma be_value_bound: "be_value bs < 256 ^ length bs"
  using be_value_fold [of 0 bs] by (simp add: be_value_def)

lemma virtual_size_nonzero:
  assumes "be_value (header_field 24 32 h) \<noteq> 0"
  shows "(of_nat (be_value (header_field 24 32 h)) :: u64) \<noteq> 0"
proof -
  have "be_value (header_field 24 32 h) < 256 ^ length (header_field 24 32 h)" by (rule be_value_bound)
  also have "\<dots> \<le> 256 ^ 8" by (intro power_increasing) (simp_all add: header_field_def)
  finally have "unat (of_nat (be_value (header_field 24 32 h)) :: u64) = be_value (header_field 24 32 h)"
    by (simp add: unat_of_nat)
  with assms show ?thesis by (metis unsigned_0)
qed

lemma inspect_disk_image_Inr:
  assumes "inspect_disk_image bytes fs = (Inr (format, virtual_bytes), fs')"
  shows "format \<noteq> Unknown_Format \<and> (virtual_bytes = 0 \<longrightarrow> (of_nat (length bytes) :: u64) = 0)"
  using assms virtual_size_nonzero unfolding inspect_disk_image_def Let_def
  by (auto simp: result_iff split: if_splits)

lemma import_os_image_Inr:
  assumes "import_os_image env source label architecture expected_id fs = (Inr r, fs')"
  obtains input os fs1 where "fs_sources fs source = Some input" and "f_type input = Regular"
    and "import_bytes env Art_OsImage (f_bytes input) (Some os) expected_id fs1 = (Inr r, fs')"
    and "\<not> metadata_inconsistent Art_OsImage (Some os)" and "or_label os = label"
proof -
  from assms obtain input fs1 fs2 fs3 fs4 format virtual_bytes arch os where
    op: "attempt ''open source OS image'' (\<lambda>fs. open_no_follow (fs_sources fs source)) fs = (Inr input, fs1)"
    and label: "valid_label label"
    and arch: "traverse_option validate_architecture architecture = Inr arch"
    and type: "f_type input = Regular"
    and inspect: "inspect_disk_image (f_bytes input) fs2 = (Inr (format, virtual_bytes), fs3)"
    and os: "os = \<lparr>or_label = label, or_format = format, or_virtual_bytes = virtual_bytes,
      or_architecture = arch\<rparr>"
    and bytes: "import_bytes env Art_OsImage (f_bytes input) (Some os) expected_id fs4 = (Inr r, fs')"
    unfolding import_os_image_def
    by (auto simp: result_iff validate_label_def split: if_splits)
  from attempt_Inr [OF op] have source: "fs_sources fs source = Some input"
    by (auto simp: open_no_follow_Inr same_disk_def)
  have "is_some_and (\<lambda>a. \<not> valid_architecture a) arch = False"
    using arch by (cases architecture) (auto simp: validate_architecture_def split: if_splits)
  moreover have "virtual_bytes \<noteq> 0"
    using inspect_disk_image_Inr [OF inspect] import_bytes_Inr(1,3) [OF bytes] by auto
  ultimately have "\<not> metadata_inconsistent Art_OsImage (Some os)"
    using label inspect_disk_image_Inr [OF inspect] by (simp add: os)
  moreover have "or_label os = label" by (simp add: os)
  ultimately show thesis by (rule that [OF source type bytes])
qed

text \<open>The two entry points through which a source file reaches the store.\<close>

definition store_import :: "store_env \<Rightarrow> string \<Rightarrow> artifact_id option \<Rightarrow> artifact_record store_io \<Rightarrow> bool" where
  "store_import env source expected_id import \<longleftrightarrow>
     (\<exists>kind. import = import_path env kind source expected_id) \<or>
     (\<exists>label architecture. import = import_os_image env source label architecture expected_id)"

text \<open>An operating system image stored through \<open>import_path\<close>, which records no image metadata.\<close>

definition lacks_metadata :: "artifact_record \<Rightarrow> bool" where
  "lacks_metadata r \<longleftrightarrow> ar_kind r = Art_OsImage \<and> ar_os_image r = None"

lemma import_path_record:
  assumes "import_path env kind source expected_id fs = (Inr r, fs')"
  shows "ar_kind r = kind" "ar_os_image r = None"
proof -
  obtain bytes fs1 where "import_bytes env kind bytes None expected_id fs1 = (Inr r, fs')"
    by (rule import_path_Inr [OF assms]) blast
  note import_bytes_Inr(1) [OF this]
  then show "ar_kind r = kind" "ar_os_image r = None" by simp_all
qed

lemma import_os_image_record:
  assumes "import_os_image env source label architecture expected_id fs = (Inr r, fs')"
  shows "ar_kind r = Art_OsImage" "\<not> lacks_metadata r"
proof -
  obtain bytes os fs1 where "import_bytes env Art_OsImage bytes (Some os) expected_id fs1 = (Inr r, fs')"
    by (rule import_os_image_Inr [OF assms]) blast
  note import_bytes_Inr(1) [OF this]
  then show "ar_kind r = Art_OsImage" "\<not> lacks_metadata r" by (simp_all add: lacks_metadata_def)
qed

lemma store_import_Inr:
  assumes "store_import env source expected_id import" and "import fs = (Inr r, fs')"
  obtains input kind os fs1 where "fs_sources fs source = Some input" and "f_type input = Regular"
    and "import_bytes env kind (f_bytes input) os expected_id fs1 = (Inr r, fs')"
    and "\<not> lacks_metadata r \<longrightarrow> record_valid (ar_kind r) (ar_id r) r"
proof -
  from assms consider
      (path) kind where "import_path env kind source expected_id fs = (Inr r, fs')"
    | (os) label architecture where
        "import_os_image env source label architecture expected_id fs = (Inr r, fs')"
    unfolding store_import_def by blast
  then show thesis
  proof cases
    case path
    then obtain input fs1 where i: "fs_sources fs source = Some input" "f_type input = Regular"
      "import_bytes env kind (f_bytes input) None expected_id fs1 = (Inr r, fs')" by (rule import_path_Inr)
    have "\<not> lacks_metadata r \<longrightarrow> record_valid (ar_kind r) (ar_id r) r"
      using import_bytes_Inr(1,3) [OF i(3)] by (cases kind) (simp_all add: record_valid_def lacks_metadata_def)
    with i show thesis by (rule that)
  next
    case os
    then obtain input os fs1 where i: "fs_sources fs source = Some input" "f_type input = Regular"
      "import_bytes env Art_OsImage (f_bytes input) (Some os) expected_id fs1 = (Inr r, fs')"
      and m: "\<not> metadata_inconsistent Art_OsImage (Some os)" by (rule import_os_image_Inr)
    have "record_valid (ar_kind r) (ar_id r) r"
      using import_bytes_Inr(1,3) [OF i(3)] m by (simp add: record_valid_def)
    with i show thesis using that by blast
  qed
qed

lemma store_import_grows: "store_import env source expected_id import \<Longrightarrow> growing.obeys import"
  using grows_import_path grows_import_os_image unfolding store_import_def by blast

lemma store_import_backed: "store_import env source expected_id import \<Longrightarrow> backed.obeys import"
  using backed_import_path backed_import_os_image unfolding store_import_def by blast

lemma import_stores:
  assumes "store_import env source expected_id import" and "import fs = (Inr r, fs')"
    and "json_faithful env r"
  shows "record_stored env fs' r \<and> blob_verified env fs' r \<and>
    (\<not> lacks_metadata r \<longrightarrow> record_valid (ar_kind r) (ar_id r) r)"
  by (rule store_import_Inr [OF assms(1,2)]) (use import_bytes_Inr(6,7) assms(3) in blast)

lemma for_each_io_Inr:
  assumes "for_each_io body xs fs = (Inr ys, fs')" and "\<And>x. same.obeys (body x)"
  shows "list_all2 (\<lambda>x y. \<exists>fs1 fs2. same_disk fs fs1 \<and> body x fs1 = (Inr y, fs2)) xs ys"
  using assms(1)
proof (induction xs arbitrary: ys fs)
  case (Cons x xs)
  then obtain y ys' fs1 where step: "body x fs = (Inr y, fs1)" "for_each_io body xs fs1 = (Inr ys', fs')"
    "ys = y # ys'" by (auto simp: result_iff)
  have "same_disk fs fs1" using same.obeysD [OF assms(2) step(1)] .
  with Cons.IH [OF step(2)] have
    "list_all2 (\<lambda>x y. \<exists>fs1 fs2. same_disk fs fs1 \<and> body x fs1 = (Inr y, fs2)) xs ys'"
    by (elim list_all2_mono) (metis same_disk_trans)
  with step show ?case by (auto intro: same_disk_refl)
qed (simp add: result_iff)

text \<open>A metadata file and the record that a listing returns for it.\<close>

definition lists_entry :: "store_env \<Rightarrow> store_fs \<Rightarrow> artifact_kind \<Rightarrow> string \<times> store_file \<Rightarrow>
    artifact_record \<Rightarrow> bool" where
  "lists_entry env fs kind e r \<longleftrightarrow> fst e = record_name (ar_id r) \<and> record_file env (snd e) r \<and>
     canonical_digest (digest_of (ar_id r)) \<and> record_valid kind (ar_id r) r \<and> blob_verified env fs r"

lemma list_entry_Inr:
  assumes "list_entry env kind e fs = (Inr r, fs')"
  shows "lists_entry env fs kind e r"
proof -
  obtain name f where e: "e = (name, f)" by (cases e)
  from assms obtain fs1 fs2 fs3 stem i where
    at: "attempt_ok ''read catalog entry'' fs = (Inr (), fs1)"
      "attempt_ok ''inspect catalog entry'' fs1 = (Inr (), fs2)"
    and name: "strip_suffix ''.json'' name = Some stem" "parse_artifact_id (sha256_prefix @ stem) = Inr i"
    and rd: "read_record env (Some f) kind i fs2 = (Inr r, fs3)"
    and vb: "verify_blob env r fs3 = (Inr (), fs')"
    unfolding list_entry_def e by (auto simp: result_iff)
  have i: "i = sha256_prefix @ stem" "canonical_digest stem"
    using name(2) by (auto simp: parse_artifact_id_def split: if_splits)
  note r = read_record_Inr [OF rd]
  have "same_disk fs fs3"
    using attempt_ok_Inr [OF at(1)] attempt_ok_Inr [OF at(2)] r same_disk_trans by metis
  then have "blob_verified env fs r" using verify_blob_Inr [OF vb] blob_verified_same by blast
  moreover have "ar_id r = i" using r by (simp add: record_valid_def)
  ultimately show ?thesis
    using r i name(1)
    by (auto simp: lists_entry_def e record_name_def digest_of_def strip_suffix_eq_Some)
qed

lemma same_list_entry: "same.obeys (list_entry env kind e)"
  unfolding list_entry_def
  by (cases e) (auto intro!: same.obeys_intros same.obeys_read_record same.obeys_verify)

lemma list_kind_Inr:
  assumes "list_kind env kind fs = (Inr rs, fs')"
  shows "list_all2 (lists_entry env fs kind) (fs_records fs kind) rs"
proof -
  from assms obtain es fs1 where
    at: "attempt ''read artifact catalog'' (\<lambda>fs. Inr (fs_records fs kind)) fs = (Inr es, fs1)"
    and each: "for_each_io (list_entry env kind) es fs1 = (Inr rs, fs')"
    unfolding list_kind_def by (auto simp: result_iff)
  from attempt_Inr [OF at] have disk: "same_disk fs fs1" and es: "es = fs_records fs kind"
    by (auto simp: same_disk_def)
  from for_each_io_Inr [OF each same_list_entry] show ?thesis
    unfolding es
  proof (rule list_all2_mono)
    fix e r assume "\<exists>a b. same_disk fs1 a \<and> list_entry env kind e a = (Inr r, b)"
    then obtain a b where a: "same_disk fs1 a" "list_entry env kind e a = (Inr r, b)" by blast
    show "lists_entry env fs kind e r"
      using list_entry_Inr [OF a(2)] blob_verified_same [OF same_disk_trans [OF disk a(1)]]
      by (simp add: lists_entry_def)
  qed
qed

lemma list_artifacts_Inr:
  assumes "list_artifacts env fs = (Inr rs, fs')"
  obtains ks ins os where
    "list_all2 (lists_entry env fs Art_Kernel) (fs_records fs Art_Kernel) ks"
    "list_all2 (lists_entry env fs Art_Initrd) (fs_records fs Art_Initrd) ins"
    "list_all2 (lists_entry env fs Art_OsImage) (fs_records fs Art_OsImage) os"
    "rs = sort_key (\<lambda>r. (ar_schema_version r, kind_rank (ar_kind r), ar_id r)) (ks @ ins @ os)"
proof -
  from assms obtain records where
    each: "for_each_io (list_kind env) [Art_Kernel, Art_Initrd, Art_OsImage] fs = (Inr records, fs')"
    and rs: "rs = sort_key (\<lambda>r. (ar_schema_version r, kind_rank (ar_kind r), ar_id r)) (concat records)"
    unfolding list_artifacts_def by (auto simp: result_iff)
  have "same.obeys (list_kind env kind)" for kind
    unfolding list_kind_def by (intro same.obeys_intros same.obeys_for_each same_list_entry)
  note each = for_each_io_Inr [OF each this]
  have kind: "list_all2 (lists_entry env fs kind) (fs_records fs kind) xs"
    if "\<exists>a b. same_disk fs a \<and> list_kind env kind a = (Inr xs, b)" for kind xs
  proof -
    from that obtain a b where a: "same_disk fs a" "list_kind env kind a = (Inr xs, b)" by blast
    have "lists_entry env a kind = lists_entry env fs kind"
      using blob_verified_same [OF a(1)] by (intro ext) (simp add: lists_entry_def)
    with list_kind_Inr [OF a(2)] a(1) show ?thesis by (simp add: same_disk_def)
  qed
  from each obtain ks ins os where records: "records = [ks, ins, os]"
    and kinds: "\<exists>a b. same_disk fs a \<and> list_kind env Art_Kernel a = (Inr ks, b)"
      "\<exists>a b. same_disk fs a \<and> list_kind env Art_Initrd a = (Inr ins, b)"
      "\<exists>a b. same_disk fs a \<and> list_kind env Art_OsImage a = (Inr os, b)"
    unfolding list_all2_Cons1 list_all2_Nil by blast
  show thesis
    by (rule that [OF kinds [THEN kind]]) (use rs records in simp)
qed

lemma lists_entry_record_file:
  "lists_entry env fs kind (record_name i, f) r \<Longrightarrow> record_file env f r' \<Longrightarrow> r = r'"
  by (auto simp: lists_entry_def record_file_def)

text \<open>What one successful listing says about the metadata files of the store.\<close>

lemma list_artifacts_entries:
  assumes "list_artifacts env fs = (Inr rs, fs')"
  shows "e \<in> set (fs_records fs kind) \<Longrightarrow> \<exists>r\<in>set rs. lists_entry env fs kind e r"
    and "r \<in> set rs \<Longrightarrow> \<exists>e\<in>set (fs_records fs (ar_kind r)). lists_entry env fs (ar_kind r) e r"
    and "length rs = length (fs_records fs Art_Kernel) + length (fs_records fs Art_Initrd)
      + length (fs_records fs Art_OsImage)"
    and "sorted (map (\<lambda>r. (ar_schema_version r, kind_rank (ar_kind r), ar_id r)) rs)"
proof -
  obtain ks ins os where
    each: "list_all2 (lists_entry env fs Art_Kernel) (fs_records fs Art_Kernel) ks"
      "list_all2 (lists_entry env fs Art_Initrd) (fs_records fs Art_Initrd) ins"
      "list_all2 (lists_entry env fs Art_OsImage) (fs_records fs Art_OsImage) os"
    and rs: "rs = sort_key (\<lambda>r. (ar_schema_version r, kind_rank (ar_kind r), ar_id r)) (ks @ ins @ os)"
    by (rule list_artifacts_Inr [OF assms])
  have left: "\<exists>r\<in>set ys. lists_entry env fs kind e r"
    if "list_all2 (lists_entry env fs kind) xs ys" "e \<in> set xs" for kind xs ys and e
    using that by (induction rule: list_all2_induct) auto
  have right: "\<exists>e\<in>set xs. lists_entry env fs (ar_kind r) e r"
    if "list_all2 (lists_entry env fs kind) xs ys" "r \<in> set ys" for kind xs ys r
    using that
    by (induction rule: list_all2_induct) (auto simp: lists_entry_def record_valid_def)
  have kind: "ar_kind r = kind" if "list_all2 (lists_entry env fs kind) xs ys" "r \<in> set ys" for kind xs ys r
    using that by (induction rule: list_all2_induct) (auto simp: lists_entry_def record_valid_def)
  show "\<exists>r\<in>set rs. lists_entry env fs kind e r" if "e \<in> set (fs_records fs kind)"
    using that each [THEN left, of e] by (cases kind) (auto simp: rs)
  show "\<exists>e\<in>set (fs_records fs (ar_kind r)). lists_entry env fs (ar_kind r) e r" if "r \<in> set rs"
    using that each [THEN right, of r] each [THEN kind, of r] by (auto simp: rs)
  show "length rs = length (fs_records fs Art_Kernel) + length (fs_records fs Art_Initrd)
      + length (fs_records fs Art_OsImage)"
    using each [THEN list_all2_lengthD] by (simp add: rs)
  show "sorted (map (\<lambda>r. (ar_schema_version r, kind_rank (ar_kind r), ar_id r)) rs)"
    by (simp add: rs)
qed

lemma list_artifacts_same: "list_artifacts env fs = (res, fs') \<Longrightarrow> same_disk fs fs'"
  by (rule same.obeysD [OF same.obeys_list])

subsection \<open>The catalog\<close>

lemma catalog_refresh_same: "catalog_refresh env (cat, fs) = (res, cat', fs') \<Longrightarrow> same_disk fs fs'"
  using list_artifacts_same [of env fs]
  by (auto simp: catalog_refresh_def split: prod.splits sum.splits if_splits option.splits)

lemma catalog_refresh_Inr:
  assumes "catalog_refresh env (cat, fs) = (Inr snap, cat', fs')"
  shows "list_artifacts env fs = (Inr (ics_artifacts snap), fs')"
    and "cat_generation cat' = ics_generation snap" and "cat_observed cat' = Some (ics_artifacts snap)"
    and "unat (ics_generation snap) = unat (cat_generation cat) +
      (if cat_observed cat = Some (ics_artifacts snap) then 0 else 1)"
  using assms
  by (auto simp: catalog_refresh_def unat_checked_add split: prod.splits sum.splits if_splits option.splits)

lemma catalog_refresh_Inl: "catalog_refresh env (cat, fs) = (Inl e, cat', fs') \<Longrightarrow> cat' = cat"
  by (auto simp: catalog_refresh_def split: prod.splits sum.splits if_splits option.splits)

lemma catalog_refresh_not_stale:
  "catalog_refresh env st \<noteq> (Inl (Catalog_StaleGeneration e c), st')"
  by (cases st) (auto simp: catalog_refresh_def split: prod.splits sum.splits if_splits option.splits)

lemma catalog_import_Inr:
  assumes "catalog_import env expected import (cat, fs) = (Inr (r, snap), cat', fs')"
  obtains before cat1 fs1 fs2 where "catalog_refresh env (cat, fs) = (Inr before, cat1, fs1)"
    and "ics_generation before = expected" and "import fs1 = (Inr r, fs2)"
    and "catalog_refresh env (cat1, fs2) = (Inr snap, cat', fs')"
  using assms
  by (auto simp: catalog_import_def split: prod.splits sum.splits if_splits)

lemma catalog_import_stale:
  assumes "catalog_import env expected import (cat, fs) = (Inl (Catalog_StaleGeneration e c), cat', fs')"
  obtains before where "catalog_refresh env (cat, fs) = (Inr before, cat', fs')"
    and "e = expected" and "c = ics_generation before" and "expected \<noteq> c"
  using assms catalog_refresh_not_stale
  by (auto simp: catalog_import_def split: prod.splits sum.splits if_splits)

lemma catalog_import_grows:
  assumes "growing.obeys import" and "catalog_import env expected import (cat, fs) = (res, cat', fs')"
  shows "grows fs fs'"
proof -
  obtain before cat1 fs1 where b: "catalog_refresh env (cat, fs) = (before, cat1, fs1)"
    by (metis surj_pair)
  have g1: "grows fs fs1" using catalog_refresh_same [OF b] by (rule growing.from_same)
  obtain x fs2 where i: "import fs1 = (x, fs2)" by (cases "import fs1")
  have g2: "grows fs fs2" using growing.obeysD [OF assms(1) i] growing.R_trans g1 by blast
  obtain y cat3 fs3 where a: "catalog_refresh env (cat1, fs2) = (y, cat3, fs3)" by (metis surj_pair)
  have g3: "grows fs fs3"
    using catalog_refresh_same [OF a, THEN growing.from_same] growing.R_trans g2 by blast
  show ?thesis
    using assms(2) b i a g1 g2 g3
    by (auto simp: catalog_import_def split: sum.splits if_splits)
qed

section \<open>Properties\<close>

text \<open>C15: an import never damages the store.  Whatever it is asked to import, and at whichever system
  call it fails, every blob and every metadata file that was in the store keeps its name and
  contents, the source files are untouched, and if every metadata file had its blob before then
  every metadata file has its blob afterwards: a crash or an I/O error between the two
  publications leaves at most an unreferenced blob.\<close>

theorem imports_preserve_store:
  assumes "store_import env source expected_id import" and "import fs = (res, fs')"
  shows "grows fs fs' \<and> (records_backed fs \<longrightarrow> records_backed fs')"
  using growing.obeysD [OF store_import_grows [OF assms(1)] assms(2)]
    backed.obeysD [OF store_import_backed [OF assms(1)] assms(2)] by blast

definition demo_record :: artifact_record where
  "demo_record = \<lparr>ar_schema_version = 1, ar_kind = Art_Kernel,
     ar_id = from_digest (replicate 32 0), ar_bytes = 2, ar_os_image = None\<rparr>"

definition demo_env :: store_env where
  "demo_env = \<lparr>env_root = ''/store'', env_sha256 = (\<lambda>_. replicate 32 0), env_to_json = (\<lambda>_. Inr [7]),
     env_from_json = (\<lambda>bytes. if bytes = [7] then Some demo_record else None),
     env_max_artifact_bytes = 1024\<rparr>"

definition demo_fs :: "nat option list \<Rightarrow> store_fs" where
  "demo_fs faults = \<lparr>fs_blobs = [], fs_records = (\<lambda>_. []),
     fs_sources = (\<lambda>path. if path = ''/vmlinuz'' then
        Some \<lparr>f_type = Regular, f_writable = True, f_bytes = [1, 2]\<rparr> else None),
     fs_faults = faults\<rparr>"

lemmas demo_import_eval = import_path_def import_bytes_def publish_artifact_def publish_blob_def
  publish_record_def link_record_def hard_link_def add_blob_def add_record_def copy_and_hash_def copy_loop.simps sync_read_only_def
  sync_directory_def attempt_ok_def attempt_def next_fault_def bind_io_def lift_io_def
  open_no_follow_def checked_add_def COPY_BUFFER_BYTES_def demo_fs_def demo_env_def

text \<open>The first publication succeeds and the synchronisation of the blob directory fails.\<close>

theorem imports_preserve_store_witness:
  "\<exists>fs'. import_path demo_env Art_Kernel ''/vmlinuz'' None (demo_fs [None, None, None, None, None, None, None, None, None, None, Some 5])
     = (Inl (Store_Io ''sync blob directory'' 5), fs') \<and> fs_blobs fs' \<noteq> [] \<and> records_backed fs'"
proof -
  let ?fs = "demo_fs [None, None, None, None, None, None, None, None, None, None, Some 5]"
  have run: "fst (import_path demo_env Art_Kernel ''/vmlinuz'' None ?fs)
      = Inl (Store_Io ''sync blob directory'' 5) \<and>
      fs_blobs (snd (import_path demo_env Art_Kernel ''/vmlinuz'' None ?fs)) \<noteq> []"
    by (simp add: demo_import_eval)
  then obtain fs' where fs': "import_path demo_env Art_Kernel ''/vmlinuz'' None ?fs
      = (Inl (Store_Io ''sync blob directory'' 5), fs')" "fs_blobs fs' \<noteq> []"
    by (metis prod.collapse)
  have "store_import demo_env ''/vmlinuz'' None (import_path demo_env Art_Kernel ''/vmlinuz'' None)"
    unfolding store_import_def by blast
  from imports_preserve_store [OF this fs'(1)] have "records_backed fs'"
    by (simp add: records_backed_def demo_fs_def)
  with fs' show ?thesis by blast
qed

text \<open>C16: The store is content addressed and imports can be read back.  A successful import had a
  regular file as its source, which is not a symbolic link; the record names the digest and the
  length of that file's bytes, is not empty, stays within the size limit and has the identity that
  the request expected.  The record of import_path has the kind of the request and no image
  metadata, that of import_os_image has metadata.  Provided that the JSON library reads back
  the record it wrote, within the size limit of a metadata file, a fault-free lookup in the
  resulting store returns exactly this record and resolves to the path of the blob named by its
  digest, with one exception: an operating system image stored through import_path, which
  has no metadata, is reported as corrupt by every such lookup.\<close>

theorem import_round_trip:
  assumes "store_import env source expected_id import" and "import fs = (Inr r, fs')"
    and "json_faithful env r"
  shows "(\<exists>input. fs_sources fs source = Some input \<and> f_type input = Regular \<and>
      ar_id r = from_digest (env_sha256 env (f_bytes input)) \<and>
      unat (ar_bytes r) = length (f_bytes input) \<and> f_bytes input \<noteq> [] \<and>
      ar_bytes r \<le> env_max_artifact_bytes env) \<and>
    (expected_id = None \<or> expected_id = Some (ar_id r)) \<and>
    (\<forall>kind. import = import_path env kind source expected_id \<longrightarrow>
       ar_kind r = kind \<and> ar_os_image r = None) \<and>
    (\<forall>label architecture. import = import_os_image env source label architecture expected_id \<longrightarrow>
       ar_kind r = Art_OsImage \<and> ar_os_image r \<noteq> None) \<and>
    (if ar_kind r = Art_OsImage \<and> ar_os_image r = None
     then get_artifact env (ar_kind r) (ar_id r) (fs'\<lparr>fs_faults := []\<rparr>)
       = (Inl (Corrupt ''artifact metadata fields are inconsistent''), fs'\<lparr>fs_faults := []\<rparr>)
     else get_artifact env (ar_kind r) (ar_id r) (fs'\<lparr>fs_faults := []\<rparr>)
         = (Inr (Some r), fs'\<lparr>fs_faults := []\<rparr>) \<and>
       resolve_artifact env (ar_kind r) (ar_id r) (fs'\<lparr>fs_faults := []\<rparr>)
         = (Inr (blob_path (env_root env) (ar_id r)), fs'\<lparr>fs_faults := []\<rparr>))"
proof (intro conjI allI impI)
  let ?fs = "fs'\<lparr>fs_faults := []\<rparr>"
  obtain input kind os fs1 where source: "fs_sources fs source = Some input" "f_type input = Regular"
    and bytes: "import_bytes env kind (f_bytes input) os expected_id fs1 = (Inr r, fs')"
    by (rule store_import_Inr [OF assms(1,2)])
  note facts = import_bytes_Inr [OF bytes]
  have "ar_id r = from_digest (env_sha256 env (f_bytes input))" by (subst facts(1)) simp
  moreover have "f_bytes input \<noteq> []" using facts(2,3) by (metis list.size(3) unat_eq_zero)
  ultimately show "\<exists>input. fs_sources fs source = Some input \<and> f_type input = Regular \<and>
      ar_id r = from_digest (env_sha256 env (f_bytes input)) \<and>
      unat (ar_bytes r) = length (f_bytes input) \<and> f_bytes input \<noteq> [] \<and>
      ar_bytes r \<le> env_max_artifact_bytes env"
    using source facts(2,4) by auto
  show "expected_id = None \<or> expected_id = Some (ar_id r)"
    using facts(5) by (cases expected_id) auto
  note stored = import_stores [OF assms]
  then have on_disk: "record_stored env ?fs r" "blob_verified env ?fs r"
    by (simp_all add: record_stored_def blob_verified_def)
  show "if ar_kind r = Art_OsImage \<and> ar_os_image r = None
     then get_artifact env (ar_kind r) (ar_id r) ?fs
       = (Inl (Corrupt ''artifact metadata fields are inconsistent''), ?fs)
     else get_artifact env (ar_kind r) (ar_id r) ?fs = (Inr (Some r), ?fs) \<and>
       resolve_artifact env (ar_kind r) (ar_id r) ?fs = (Inr (blob_path (env_root env) (ar_id r)), ?fs)"
  proof (cases "lacks_metadata r")
    case True
    then show ?thesis
      using get_artifact_corrupt [OF _ on_disk(1)] by (auto simp: lacks_metadata_def)
  next
    case False
    with stored have get: "get_artifact env (ar_kind r) (ar_id r) ?fs = (Inr (Some r), ?fs)"
      by (intro get_artifact_succeeds [OF _ on_disk(1) _ on_disk(2)]) simp_all
    then have "resolve_artifact env (ar_kind r) (ar_id r) ?fs
        = (Inr (blob_path (env_root env) (ar_id r)), ?fs)"
      by (simp add: resolve_artifact_def bind_io_def lift_io_def)
    with get False show ?thesis by (simp only: lacks_metadata_def if_False simp_thms)
  qed
qed (use assms(2) import_path_record import_os_image_record in \<open>auto simp: lacks_metadata_def\<close>)

theorem import_round_trip_witness:
  "\<exists>fs'. import_path demo_env Art_Kernel ''/vmlinuz'' None (demo_fs []) = (Inr demo_record, fs') \<and>
     resolve_artifact demo_env Art_Kernel (ar_id demo_record) (fs'\<lparr>fs_faults := []\<rparr>)
       = (Inr (''/store/blobs/sha256/'' @ replicate 64 CHR ''0''), fs'\<lparr>fs_faults := []\<rparr>)"
proof -
  have "fst (import_path demo_env Art_Kernel ''/vmlinuz'' None (demo_fs [])) = Inr demo_record"
    by (simp add: demo_import_eval RECORD_SCHEMA_VERSION_def demo_record_def)
  then obtain fs' where fs': "import_path demo_env Art_Kernel ''/vmlinuz'' None (demo_fs [])
      = (Inr demo_record, fs')" by (metis prod.collapse)
  have import: "store_import demo_env ''/vmlinuz'' None (import_path demo_env Art_Kernel ''/vmlinuz'' None)"
    unfolding store_import_def by blast
  have json: "json_faithful demo_env demo_record"
    by (simp add: json_faithful_def demo_env_def MAX_RECORD_BYTES_def)
  have path: "blob_path (env_root demo_env) (ar_id demo_record)
      = ''/store/blobs/sha256/'' @ replicate 64 CHR ''0''" by code_simp
  have kind: "ar_kind demo_record = Art_Kernel" by (simp add: demo_record_def)
  have "resolve_artifact demo_env (ar_kind demo_record) (ar_id demo_record) (fs'\<lparr>fs_faults := []\<rparr>)
      = (Inr (blob_path (env_root demo_env) (ar_id demo_record)), fs'\<lparr>fs_faults := []\<rparr>)"
    using import_round_trip [OF import fs' json] by (simp only: kind artifact_kind.distinct simp_thms if_False)
  with fs' show ?thesis unfolding path kind by blast
qed

text \<open>Listing fails closed.  When the catalog can be listed at all, nothing on disk changed,
  every metadata file of every kind is listed, and every listed record comes from a read-only
  regular metadata file whose name is its canonical digest, has consistent fields, and has an
  immutable blob of the recorded size and digest; the list is sorted.  So one damaged, misnamed or
  unreadable file makes the whole listing fail instead of being skipped.\<close>

theorem list_fail_closed:
  assumes "list_artifacts env fs = (Inr rs, fs')"
  shows "same_disk fs fs' \<and>
    (\<forall>kind e. e \<in> set (fs_records fs kind) \<longrightarrow> (\<exists>r\<in>set rs. lists_entry env fs kind e r)) \<and>
    (\<forall>r\<in>set rs. \<exists>e\<in>set (fs_records fs (ar_kind r)). lists_entry env fs (ar_kind r) e r) \<and>
    length rs = (\<Sum>kind\<leftarrow>[Art_Kernel, Art_Initrd, Art_OsImage]. length (fs_records fs kind)) \<and>
    sorted (map (\<lambda>r. (ar_schema_version r, kind_rank (ar_kind r), ar_id r)) rs)"
  using list_artifacts_same [OF assms] list_artifacts_entries [OF assms] by auto

definition demo_stored_fs :: store_fs where
  "demo_stored_fs = (demo_fs [])\<lparr>fs_blobs := [(replicate 64 CHR ''0'', read_only_file [1, 2])],
     fs_records := (\<lambda>kind. if kind = Art_Kernel
        then [(replicate 64 CHR ''0'' @ ''.json'', read_only_file [7])] else [])\<rparr>"

lemma demo_listing: "list_artifacts demo_env demo_stored_fs = (Inr [demo_record], demo_stored_fs)"
proof -
  have digest: "digest_of (ar_id demo_record) = replicate 64 CHR ''0''" by code_simp
  have id: "ar_id demo_record = sha256_prefix @ replicate 64 CHR ''0''" by code_simp
  have faults: "fs_faults demo_stored_fs = []" by (simp add: demo_stored_fs_def demo_fs_def)
  have "blob_verified demo_env demo_stored_fs demo_record"
    by (simp add: blob_verified_def digest) (simp add: demo_stored_fs_def read_only_file_def demo_env_def
        demo_record_def)
  note vb = verify_blob_succeeds [OF faults this]
  have "record_file demo_env (read_only_file [7]) demo_record"
    by (simp add: record_file_def read_only_file_def demo_env_def MAX_RECORD_BYTES_def)
  moreover have "record_valid Art_Kernel (ar_id demo_record) demo_record"
    by (simp add: record_valid_def demo_record_def RECORD_SCHEMA_VERSION_def)
  ultimately have rd: "read_record demo_env (Some (read_only_file [7])) Art_Kernel (ar_id demo_record)
      demo_stored_fs = (Inr demo_record, demo_stored_fs)"
    by (rule read_record_succeeds [OF faults])
  have stem: "strip_suffix ''.json'' (replicate 64 CHR ''0'' @ ''.json'') = Some (replicate 64 CHR ''0'')"
    by (simp only: strip_suffix_eq_Some)
  have parse: "parse_artifact_id (sha256_prefix @ replicate 64 CHR ''0'') = Inr (ar_id demo_record)"
    by code_simp
  have "list_entry demo_env Art_Kernel (replicate 64 CHR ''0'' @ ''.json'', read_only_file [7])
      demo_stored_fs = (Inr demo_record, demo_stored_fs)"
    by (simp add: list_entry_def bind_io_def lift_io_def no_faults [OF faults] stem parse rd vb
        require_read_only_file_def) (simp add: read_only_file_def)
  then have "list_kind demo_env kind demo_stored_fs
      = (Inr (if kind = Art_Kernel then [demo_record] else []), demo_stored_fs)" for kind
    by (simp add: list_kind_def bind_io_def lift_io_def no_faults [OF faults])
      (simp add: demo_stored_fs_def bind_io_def lift_io_def)
  then show ?thesis by (simp add: list_artifacts_def bind_io_def lift_io_def)
qed

theorem list_fail_closed_witness:
  "list_artifacts demo_env demo_stored_fs = (Inr [demo_record], demo_stored_fs) \<and>
   (\<exists>e\<in>set (fs_records demo_stored_fs Art_Kernel). lists_entry demo_env demo_stored_fs Art_Kernel e demo_record)"
proof -
  have "ar_kind demo_record = Art_Kernel" by (simp add: demo_record_def)
  with list_fail_closed [OF demo_listing] demo_listing show ?thesis by auto
qed

text \<open>The catalog generation guards imports.  An import under a generation that is not the one
  just observed changes nothing on disk and reports both generations.  A successful import ran
  under exactly the expected generation, which is the catalog's previous one if the store had not
  changed behind it and the next one otherwise; the new record is in the returned snapshot; the
  catalog remembers that snapshot; and the generation grows by one if the listing changed and stays
  if it did not, so that two different listings never share a generation.  On every outcome the
  store only grows.\<close>

theorem catalog_import_guarded:
  assumes "store_import env source expected_id import"
    and "catalog_import env expected import (cat, fs) = (result, cat', fs')"
  shows "grows fs fs' \<and>
    (\<forall>e c. result = Inl (Catalog_StaleGeneration e c) \<longrightarrow> e = expected \<and> c \<noteq> expected \<and>
       cat_generation cat' = c \<and> same_disk fs fs') \<and>
    (\<forall>r snap. result = Inr (r, snap) \<longrightarrow>
       (\<exists>before fs1. list_artifacts env fs = (Inr before, fs1) \<and>
          unat expected = unat (cat_generation cat) + (if cat_observed cat = Some before then 0 else 1) \<and>
          unat (ics_generation snap) = unat expected + (if ics_artifacts snap = before then 0 else 1)) \<and>
       cat_generation cat' = ics_generation snap \<and> cat_observed cat' = Some (ics_artifacts snap) \<and>
       (json_faithful env r \<longrightarrow> r \<in> set (ics_artifacts snap)))"
proof (intro conjI allI impI)
  show "grows fs fs'" by (rule catalog_import_grows [OF store_import_grows [OF assms(1)] assms(2)])
next
  fix e c assume "result = Inl (Catalog_StaleGeneration e c)"
  with assms(2) obtain before where b: "catalog_refresh env (cat, fs) = (Inr before, cat', fs')"
    and ec: "e = expected" "c = ics_generation before" "expected \<noteq> c"
    by (auto elim: catalog_import_stale)
  from ec show "e = expected" "c \<noteq> expected" by auto
  from ec show "cat_generation cat' = c" by (simp add: catalog_refresh_Inr(2) [OF b])
  show "same_disk fs fs'" by (rule catalog_refresh_same [OF b])
next
  fix r snap assume "result = Inr (r, snap)"
  with assms(2) obtain before cat1 fs1 fs2 where
    b: "catalog_refresh env (cat, fs) = (Inr before, cat1, fs1)" "ics_generation before = expected"
    and i: "import fs1 = (Inr r, fs2)"
    and a: "catalog_refresh env (cat1, fs2) = (Inr snap, cat', fs')"
    by (auto elim: catalog_import_Inr)
  note B = catalog_refresh_Inr [OF b(1)] and A = catalog_refresh_Inr [OF a]
  show "cat_generation cat' = ics_generation snap" "cat_observed cat' = Some (ics_artifacts snap)"
    using A by simp_all
  show "\<exists>before fs1. list_artifacts env fs = (Inr before, fs1) \<and>
      unat expected = unat (cat_generation cat) + (if cat_observed cat = Some before then 0 else 1) \<and>
      unat (ics_generation snap) = unat expected + (if ics_artifacts snap = before then 0 else 1)"
    using A B b(2) by auto
  assume "json_faithful env r"
  from import_stores [OF assms(1) i this] obtain f where
    f: "map_of (fs_records fs2 (ar_kind r)) (record_name (ar_id r)) = Some f" "record_file env f r"
    by (auto simp: record_stored_def)
  from list_artifacts_entries(1) [OF A(1) map_of_SomeD [OF f(1)]] f(2)
  show "r \<in> set (ics_artifacts snap)" using lists_entry_record_file by blast
qed

theorem catalog_import_guarded_witness:
  "\<exists>cat' fs'. catalog_import_path demo_env 7 Art_Kernel ''/vmlinuz'' None (new_catalog, demo_stored_fs)
     = (Inl (Catalog_StaleGeneration 7 1), cat', fs') \<and> cat_generation cat' = 1 \<and> same_disk demo_stored_fs fs'"
proof -
  let ?import = "import_path demo_env Art_Kernel ''/vmlinuz'' None"
  have import: "store_import demo_env ''/vmlinuz'' None ?import"
    unfolding store_import_def by blast
  have "\<exists>cat' fs'. catalog_import demo_env 7 ?import (new_catalog, demo_stored_fs)
     = (Inl (Catalog_StaleGeneration 7 1), cat', fs')"
    by (simp add: catalog_import_def catalog_refresh_def demo_listing new_catalog_def checked_add_def)
  then obtain cat' fs' where run: "catalog_import demo_env 7 ?import (new_catalog, demo_stored_fs)
     = (Inl (Catalog_StaleGeneration 7 1), cat', fs')" by blast
  from catalog_import_guarded [OF import run] run show ?thesis
    by (auto simp: catalog_import_path_def)
qed

end
