(* ===== verification/Operations.thy ===== *)
theory Operations
  imports Api_V1
begin

text \<open>
  The operation registry, \<open>crates/kernmux-daemon/src/operations.rs\<close>: bounded operation history,
  the life of one operation, the bounded event stream and the client subscriptions.  The value
  behind the mutex is \<open>registry_state\<close>; every method takes the lock once, so a method is one atomic
  step from a \<open>shared\<close> to a \<open>shared\<close>, and the concurrent behaviours of the registry are the
  sequences of such steps (\<open>registry_run\<close>).  The specification variable of that relation is the
  complete list of the events ever published, of which the registry retains a bounded suffix.
\<close>

section \<open>Data\<close>

record new_operation =
  no_kind :: operation_kind
  no_expected_generation :: generation
  no_affected_resources :: "resource_reference list"
  no_actor :: "actor option"
  no_audit_id :: "string option"
  no_created_at :: string

record event_batch =
  eb_events :: "event list"
  eb_overflowed :: bool
  eb_latest_sequence :: event_sequence

datatype operation_registry_error =
  Reg_InvalidCapacity | Reg_NotFound | Reg_InvalidTransition | Reg_InvalidProgress

record registry_state =
  rs_next_operation :: u64
  rs_next_sequence :: u64
  rs_latest_generation :: generation
  rs_operations :: "operation list"
  rs_events :: "event list"

record shared =
  sh_state :: registry_state
  sh_operation_capacity :: nat
  sh_event_capacity :: nat

record event_subscription =
  es_cursor :: event_sequence

section \<open>Operations of the registry\<close>

definition is_terminal :: "operation_state \<Rightarrow> bool" where
  "is_terminal state \<longleftrightarrow> state \<in> {Succeeded, Failed, Cancelled, Indeterminate}"

text \<open>\<open>pop_front\<close> when the queue is at its capacity, then \<open>push_back\<close>.\<close>

definition push_bounded :: "nat \<Rightarrow> 'a list \<Rightarrow> 'a \<Rightarrow> 'a list" where
  "push_bounded capacity xs x = (if length xs = capacity then tl xs else xs) @ [x]"

definition new_registry :: "nat \<Rightarrow> nat \<Rightarrow> operation_registry_error + shared" where
  "new_registry operation_capacity event_capacity =
     (if operation_capacity = 0 \<or> event_capacity = 0 then Inl Reg_InvalidCapacity
      else Inr \<lparr>sh_state = \<lparr>rs_next_operation = 1, rs_next_sequence = 1, rs_latest_generation = 0,
                            rs_operations = [], rs_events = []\<rparr>,
                sh_operation_capacity = operation_capacity,
                sh_event_capacity = event_capacity\<rparr>)"

definition publish_operation_event :: "nat \<Rightarrow> registry_state \<Rightarrow> operation \<Rightarrow> registry_state" where
  "publish_operation_event event_capacity state operation =
     (let operation_generation =
            (case op_observed_generation operation of
               Some g \<Rightarrow> g | None \<Rightarrow> op_expected_generation operation);
          latest = (if operation_generation > rs_latest_generation state then operation_generation
                    else rs_latest_generation state);
          event = \<lparr>ev_sequence = rs_next_sequence state, ev_snapshot_generation = latest,
                   ev_kind = OperationChanged,
                   ev_resource = (case op_affected_resources operation of
                                    [] \<Rightarrow> None | r # rs \<Rightarrow> Some r)\<rparr>
      in state\<lparr>rs_latest_generation := latest,
               rs_next_sequence := saturating_add (rs_next_sequence state) 1,
               rs_events := push_bounded event_capacity (rs_events state) event\<rparr>)"

definition operation_name :: "u64 \<Rightarrow> operation_id" where
  "operation_name n = ''op-'' @ show_word n"

definition queued_operation :: "u64 \<Rightarrow> new_operation \<Rightarrow> operation" where
  "queued_operation n request =
     \<lparr>op_id = operation_name n, op_kind = no_kind request, op_state = Queued,
      op_progress_percent = None, op_expected_generation = no_expected_generation request,
      op_observed_generation = None, op_affected_resources = no_affected_resources request,
      op_error = None, op_actor = no_actor request, op_audit_id = no_audit_id request,
      op_created_at = no_created_at request, op_completed_at = None\<rparr>"

definition create :: "new_operation \<Rightarrow> shared \<Rightarrow> operation \<times> shared" where
  "create request self =
     (let state = sh_state self;
          operation = queued_operation (rs_next_operation state) request;
          state' = state\<lparr>rs_next_operation := saturating_add (rs_next_operation state) 1,
                         rs_operations := push_bounded (sh_operation_capacity self)
                                            (rs_operations state) operation\<rparr>
      in (operation,
          self\<lparr>sh_state := publish_operation_event (sh_event_capacity self) state' operation\<rparr>))"

text \<open>Writing through the reference that \<open>iter_mut().find\<close> returns.\<close>

fun replace_first :: "('a \<Rightarrow> bool) \<Rightarrow> 'a \<Rightarrow> 'a list \<Rightarrow> 'a list" where
  "replace_first p y [] = []"
| "replace_first p y (x # xs) = (if p x then y # xs else x # replace_first p y xs)"

definition update :: "operation_id \<Rightarrow> (operation \<Rightarrow> operation_registry_error + operation) \<Rightarrow> shared
    \<Rightarrow> (operation_registry_error + operation) \<times> shared" where
  "update ident mutation self =
     (let state = sh_state self in
      case find (\<lambda>operation. op_id operation = ident) (rs_operations state) of
        None \<Rightarrow> (Inl Reg_NotFound, self)
      | Some operation \<Rightarrow>
          (case mutation operation of
             Inl e \<Rightarrow> (Inl e, self)
           | Inr operation' \<Rightarrow>
               (Inr operation',
                self\<lparr>sh_state := publish_operation_event (sh_event_capacity self)
                  (state\<lparr>rs_operations := replace_first (\<lambda>o'. op_id o' = ident) operation'
                                           (rs_operations state)\<rparr>) operation'\<rparr>)))"

definition start_mutation :: "operation \<Rightarrow> operation_registry_error + operation" where
  "start_mutation operation =
     (if op_state operation \<noteq> Queued then Inl Reg_InvalidTransition
      else Inr (operation\<lparr>op_state := Running, op_progress_percent := Some 0\<rparr>))"

definition start :: "operation_id \<Rightarrow> shared \<Rightarrow> (operation_registry_error + operation) \<times> shared" where
  "start ident = update ident start_mutation"

definition progress_mutation :: "u8 \<Rightarrow> operation \<Rightarrow> operation_registry_error + operation" where
  "progress_mutation progress_percent operation =
     (if op_state operation \<noteq> Running then Inl Reg_InvalidTransition
      else if progress_percent > 100 \<or>
              is_some_and (\<lambda>current. progress_percent < current) (op_progress_percent operation)
           then Inl Reg_InvalidProgress
      else Inr (operation\<lparr>op_progress_percent := Some progress_percent\<rparr>))"

definition set_progress ::
  "operation_id \<Rightarrow> u8 \<Rightarrow> shared \<Rightarrow> (operation_registry_error + operation) \<times> shared" where
  "set_progress ident progress_percent = update ident (progress_mutation progress_percent)"

definition finish_mutation :: "operation_state \<Rightarrow> generation option \<Rightarrow> api_error option \<Rightarrow> string
    \<Rightarrow> operation \<Rightarrow> operation_registry_error + operation" where
  "finish_mutation state observed_generation error completed_at operation =
     (if is_terminal (op_state operation) \<or> \<not> is_terminal state then Inl Reg_InvalidTransition
      else Inr (operation\<lparr>op_state := state, op_observed_generation := observed_generation,
                 op_error := error, op_completed_at := Some completed_at,
                 op_progress_percent := (if state = Succeeded then Some 100
                                         else op_progress_percent operation)\<rparr>))"

definition finish :: "operation_id \<Rightarrow> operation_state \<Rightarrow> generation option \<Rightarrow> api_error option
    \<Rightarrow> string \<Rightarrow> shared \<Rightarrow> (operation_registry_error + operation) \<times> shared" where
  "finish ident state observed_generation error completed_at =
     update ident (finish_mutation state observed_generation error completed_at)"

definition get :: "shared \<Rightarrow> operation_id \<Rightarrow> operation option" where
  "get self ident = find (\<lambda>operation. op_id operation = ident) (rs_operations (sh_state self))"

definition operations :: "shared \<Rightarrow> operation list" where
  "operations self = rs_operations (sh_state self)"

definition latest_generation :: "shared \<Rightarrow> generation" where
  "latest_generation self = rs_latest_generation (sh_state self)"

definition event_batch_of :: "registry_state \<Rightarrow> event_sequence \<Rightarrow> event_batch" where
  "event_batch_of state cursor =
     (let latest = saturating_sub (rs_next_sequence state) 1 in
      case rs_events state of
        [] \<Rightarrow> \<lparr>eb_events = [], eb_overflowed = False, eb_latest_sequence = latest\<rparr>
      | oldest # _ \<Rightarrow>
          let overflowed = saturating_add cursor 1 < ev_sequence oldest;
              marker = (if overflowed
                        then [\<lparr>ev_sequence = saturating_sub (ev_sequence oldest) 1,
                               ev_snapshot_generation = ev_snapshot_generation oldest,
                               ev_kind = StreamOverflow, ev_resource = None\<rparr>]
                        else [])
          in \<lparr>eb_events = marker @ filter (\<lambda>e. ev_sequence e > cursor) (rs_events state),
              eb_overflowed = overflowed, eb_latest_sequence = latest\<rparr>)"

definition events_after :: "shared \<Rightarrow> event_sequence \<Rightarrow> event_batch" where
  "events_after self cursor = event_batch_of (sh_state self) cursor"

definition subscribe :: "event_sequence \<Rightarrow> event_subscription" where
  "subscribe cursor = \<lparr>es_cursor = cursor\<rparr>"

text \<open>
  \<open>next_batch\<close> sleeps until the wait predicate fails or the time is up; the argument \<open>self\<close> is the
  registry at the moment the thread holds the lock again.
\<close>

definition wait_for_events :: "shared \<Rightarrow> event_subscription \<Rightarrow> bool" where
  "wait_for_events self sub \<longleftrightarrow>
     saturating_sub (rs_next_sequence (sh_state self)) 1 \<le> es_cursor sub"

definition next_batch :: "shared \<Rightarrow> event_subscription \<Rightarrow> event_batch \<times> event_subscription" where
  "next_batch self sub =
     (let batch = event_batch_of (sh_state self) (es_cursor sub)
      in (batch, if eb_events batch = [] then sub
                 else sub\<lparr>es_cursor := ev_sequence (last (eb_events batch))\<rparr>))"

section \<open>Runs of the registry\<close>

text \<open>
  One step is one method call that changed the registry.  A rejected call returns the registry
  unchanged, as \<open>update_rejected\<close> shows.
\<close>

inductive registry_step :: "shared \<Rightarrow> shared \<Rightarrow> bool" where
  step_create: "create request r = (operation, r') \<Longrightarrow> registry_step r r'"
| step_start: "start ident r = (Inr operation, r') \<Longrightarrow> registry_step r r'"
| step_progress: "set_progress ident percent r = (Inr operation, r') \<Longrightarrow> registry_step r r'"
| step_finish: "finish ident state observed err at r = (Inr operation, r') \<Longrightarrow> registry_step r r'"

inductive registry_run :: "nat \<Rightarrow> nat \<Rightarrow> shared \<Rightarrow> event list \<Rightarrow> bool" for oc ec where
  run_new: "new_registry oc ec = Inr r \<Longrightarrow> registry_run oc ec r []"
| run_step: "registry_run oc ec r log \<Longrightarrow> registry_step r r' \<Longrightarrow>
     registry_run oc ec r' (log @ [last (rs_events (sh_state r'))])"

section \<open>Lemmas\<close>

lemma length_push_bounded: "length xs \<le> c \<Longrightarrow> 0 < c \<Longrightarrow> length (push_bounded c xs x) \<le> c"
  by (cases xs) (auto simp: push_bounded_def)

lemma push_bounded_suffix:
  "0 < c \<Longrightarrow> push_bounded c (drop (length xs - c) xs) x
     = drop (length (xs @ [x]) - c) (xs @ [x])"
  by (cases "c \<le> length xs") (auto simp: push_bounded_def drop_Suc tl_drop Suc_diff_le)

lemma find_replace_first:
  "p y \<Longrightarrow> find p xs = Some x \<Longrightarrow> find p (replace_first p y xs) = Some y"
  by (induction xs) (auto split: if_splits)

lemma find_replace_first_other:
  "(\<And>z. p z \<Longrightarrow> \<not> q z) \<Longrightarrow> p y \<Longrightarrow> find q (replace_first p y xs) = find q xs"
  by (induction xs) auto

lemma map_replace_first:
  "find p xs = Some x \<Longrightarrow> f y = f x \<Longrightarrow> map f (replace_first p y xs) = map f xs"
  by (induction xs) (auto split: if_splits)

lemmas registry_ops = start_def set_progress_def finish_def

lemma update_rejected: "update ident mutation r = (Inl e, r') \<Longrightarrow> r' = r"
  by (auto simp: update_def Let_def split: option.splits sum.splits)

lemma update_Inr:
  "update ident mutation r = (Inr operation', r') \<longleftrightarrow>
     (\<exists>operation. get r ident = Some operation \<and> mutation operation = Inr operation' \<and>
        r' = r\<lparr>sh_state := publish_operation_event (sh_event_capacity r)
                 ((sh_state r)\<lparr>rs_operations := replace_first (\<lambda>o'. op_id o' = ident) operation'
                                  (rs_operations (sh_state r))\<rparr>) operation'\<rparr>)"
  by (auto simp: update_def get_def Let_def split: option.splits sum.splits)

lemma get_SomeD: "get r ident = Some operation \<Longrightarrow> op_id operation = ident"
  by (auto simp: get_def dest: find_SomeD)

subsection \<open>Events\<close>

lemma publish_operation_event_select [simp]:
  "rs_operations (publish_operation_event ec st operation) = rs_operations st"
  "rs_next_operation (publish_operation_event ec st operation) = rs_next_operation st"
  "rs_next_sequence (publish_operation_event ec st operation)
     = saturating_add (rs_next_sequence st) 1"
  by (simp_all add: publish_operation_event_def Let_def)

lemma publish_operation_event_event:
  obtains e where "rs_events (publish_operation_event ec st operation)
      = push_bounded ec (rs_events st) e"
    and "ev_sequence e = rs_next_sequence st"
    and "ev_kind e = OperationChanged"
    and "ev_snapshot_generation e = rs_latest_generation (publish_operation_event ec st operation)"
    and "rs_latest_generation st \<le> rs_latest_generation (publish_operation_event ec st operation)"
  by (rule that [of "last (rs_events (publish_operation_event ec st operation))"])
    (auto simp: publish_operation_event_def Let_def push_bounded_def)

text \<open>Every step publishes one event; it keeps the capacities.\<close>

definition publishes :: "shared \<Rightarrow> shared \<Rightarrow> bool" where
  "publishes r r' \<longleftrightarrow> (\<exists>st operation.
     r' = r\<lparr>sh_state := publish_operation_event (sh_event_capacity r) st operation\<rparr> \<and>
     rs_events st = rs_events (sh_state r) \<and>
     rs_next_sequence st = rs_next_sequence (sh_state r) \<and>
     rs_latest_generation st = rs_latest_generation (sh_state r))"

lemma update_publishes: "update ident mutation r = (Inr operation, r') \<Longrightarrow> publishes r r'"
  unfolding publishes_def
  by (rule exI [of _ "(sh_state r)\<lparr>rs_operations := _\<rparr>"]) (auto simp: update_Inr)

lemma create_publishes: "create request r = (operation, r') \<Longrightarrow> publishes r r'"
  unfolding publishes_def
  by (rule exI [of _ "(sh_state r)\<lparr>rs_next_operation := _, rs_operations := _\<rparr>"])
    (auto simp: create_def Let_def)

lemma registry_step_publishes: "registry_step r r' \<Longrightarrow> publishes r r'"
  by (induction rule: registry_step.induct)
    (auto simp: registry_ops intro: create_publishes update_publishes)

definition sequence_at :: "nat \<Rightarrow> event_sequence" where
  "sequence_at n = of_nat (min (n + 1) (2 ^ 64 - 1))"

lemma unat_sequence_at: "unat (sequence_at n) = min (n + 1) (2 ^ 64 - 1)"
  unfolding sequence_at_def unat_of_nat by (rule mod_less) (simp add: min_def)

lemma sequence_at_Suc: "saturating_add (sequence_at n) 1 = sequence_at (Suc n)"
  by (simp add: word_unat_eq_iff unat_saturating_add unat_sequence_at)

definition event_log_invar :: "shared \<Rightarrow> event list \<Rightarrow> bool" where
  "event_log_invar r log \<longleftrightarrow>
     0 < sh_event_capacity r \<and>
     rs_events (sh_state r) = drop (length log - sh_event_capacity r) log \<and>
     rs_next_sequence (sh_state r) = sequence_at (length log) \<and>
     map ev_sequence log = map sequence_at [0..<length log] \<and>
     sorted (map ev_snapshot_generation log) \<and>
     (\<forall>e \<in> set log. ev_kind e = OperationChanged \<and>
        ev_snapshot_generation e \<le> rs_latest_generation (sh_state r))"

lemma event_log_invar_new: "new_registry oc ec = Inr r \<Longrightarrow> event_log_invar r []"
  by (auto simp: new_registry_def event_log_invar_def sequence_at_def split: if_splits)

lemma event_log_invar_step:
  assumes invar: "event_log_invar r log" and step: "registry_step r r'"
  shows "event_log_invar r' (log @ [last (rs_events (sh_state r'))])"
proof -
  obtain st operation where st:
    "r' = r\<lparr>sh_state := publish_operation_event (sh_event_capacity r) st operation\<rparr>"
    "rs_events st = rs_events (sh_state r)"
    "rs_next_sequence st = rs_next_sequence (sh_state r)"
    "rs_latest_generation st = rs_latest_generation (sh_state r)"
    using registry_step_publishes [OF step] by (auto simp: publishes_def)
  obtain e where e:
    "rs_events (publish_operation_event (sh_event_capacity r) st operation)
      = push_bounded (sh_event_capacity r) (rs_events st) e"
    "ev_sequence e = rs_next_sequence st" "ev_kind e = OperationChanged"
    "ev_snapshot_generation e
      = rs_latest_generation (publish_operation_event (sh_event_capacity r) st operation)"
    "rs_latest_generation st
      \<le> rs_latest_generation (publish_operation_event (sh_event_capacity r) st operation)"
    by (rule publish_operation_event_event)
  have last: "last (rs_events (sh_state r')) = e"
    by (simp add: st(1) e(1) push_bounded_def)
  have "rs_events (sh_state r')
      = drop (length (log @ [e]) - sh_event_capacity r') (log @ [e])"
    using invar push_bounded_suffix [of "sh_event_capacity r" log e]
    by (simp add: st(1,2) e(1) event_log_invar_def)
  then show ?thesis
    using invar e(2-5) unfolding last event_log_invar_def
    by (auto simp: st sequence_at_Suc sorted_append intro: order.trans)
qed

lemma registry_run_event_log_invar:
  "registry_run oc ec r log \<Longrightarrow> event_log_invar r log \<and> sh_event_capacity r = ec"
proof (induction rule: registry_run.induct)
  case (run_new r)
  then show ?case
    by (auto simp: event_log_invar_new) (auto simp: new_registry_def split: if_splits)
next
  case (run_step r log r')
  then show ?case
    using registry_step_publishes [OF run_step.hyps(2)] event_log_invar_step
    by (auto simp: publishes_def)
qed

lemma drop_successively: "successively p xs \<Longrightarrow> successively p (drop n xs)"
  by (metis append_take_drop_id successively_append_iff)

lemma filter_sorted_key:
  "sorted (map f xs) \<Longrightarrow> filter (\<lambda>x. c < f x) xs = drop (length (takeWhile (\<lambda>x. f x \<le> c) xs)) xs"
  for f :: "'a \<Rightarrow> 'b::linorder"
proof (induction xs)
  case (Cons x xs)
  then show ?case by (cases xs) auto
qed simp

lemma sequence_at_mono: "i \<le> j \<Longrightarrow> sequence_at i \<le> sequence_at j"
  by (simp add: word_le_nat_alt unat_sequence_at min_le_iff_disj)

lemma event_log_nth:
  "event_log_invar r log \<Longrightarrow> i < length log \<Longrightarrow> ev_sequence (log ! i) = sequence_at i"
  unfolding event_log_invar_def by (metis add_0 length_map nth_map nth_upt)

lemma event_log_sorted:
  assumes "event_log_invar r log"
  shows "sorted (map ev_sequence log)"
  using assms by (auto simp: sorted_iff_nth_mono event_log_nth sequence_at_mono)

lemma event_log_contiguous:
  assumes "event_log_invar r log"
  shows "successively (\<lambda>a b. is_contiguous_after b a) log"
proof -
  have "is_contiguous_after (log ! Suc i) (log ! i)" if "Suc i < length log" for i
  proof -
    have "ev_snapshot_generation (log ! i) \<le> ev_snapshot_generation (log ! Suc i)"
      using assms that sorted_nth_mono [of "map ev_snapshot_generation log" i "Suc i"]
      by (simp add: event_log_invar_def)
    with assms that show ?thesis
      by (simp add: is_contiguous_after_def event_log_nth sequence_at_Suc)
  qed
  then show ?thesis by (simp add: successively_conv_nth)
qed

subsection \<open>Batches\<close>

text \<open>The retained events and the position of the oldest one.\<close>

definition evicted :: "shared \<Rightarrow> event list \<Rightarrow> nat" where
  "evicted r log = length log - sh_event_capacity r"

lemma retained_events:
  "event_log_invar r log \<Longrightarrow> rs_events (sh_state r) = drop (evicted r log) log"
  by (simp add: event_log_invar_def evicted_def)

lemma retained_oldest:
  assumes "event_log_invar r log" and "rs_events (sh_state r) = oldest # rest"
  shows "ev_sequence oldest = sequence_at (evicted r log)" and "evicted r log < length log"
proof -
  have eq: "drop (evicted r log) log = oldest # rest"
    using assms retained_events by simp
  then show less: "evicted r log < length log"
    by (metis drop_all leI list.distinct(1))
  with eq assms(1) show "ev_sequence oldest = sequence_at (evicted r log)"
    by (metis Cons_nth_drop_Suc event_log_nth list.inject)
qed

lemma events_after_batch:
  assumes "event_log_invar r log" and "rs_events (sh_state r) = oldest # rest"
  shows "events_after r cursor =
    (let overflowed = saturating_add cursor 1 < sequence_at (evicted r log)
     in \<lparr>eb_events =
           (if overflowed
            then \<lparr>ev_sequence = saturating_sub (ev_sequence oldest) 1,
                  ev_snapshot_generation = ev_snapshot_generation oldest,
                  ev_kind = StreamOverflow, ev_resource = None\<rparr> # oldest # rest
            else filter (\<lambda>e. cursor < ev_sequence e) (oldest # rest)),
         eb_overflowed = overflowed,
         eb_latest_sequence = saturating_sub (rs_next_sequence (sh_state r)) 1\<rparr>)"
proof -
  have all: "cursor < ev_sequence e"
    if "saturating_add cursor 1 < sequence_at (evicted r log)" "e \<in> set (oldest # rest)" for e
  proof -
    have "sorted (map ev_sequence (oldest # rest))"
      using event_log_sorted [OF assms(1)] retained_events [OF assms(1)] assms(2)
      by (metis drop_map sorted_wrt_drop)
    then have "ev_sequence oldest \<le> ev_sequence e" using that(2) by auto
    moreover have "cursor < sequence_at (evicted r log)"
      using saturating_add_ge [of cursor 1] that(1) by (rule le_less_trans)
    ultimately show ?thesis using retained_oldest(1) [OF assms] by simp
  qed
  then have "saturating_add cursor 1 < sequence_at (evicted r log) \<Longrightarrow>
      filter (\<lambda>e. cursor < ev_sequence e) (oldest # rest) = oldest # rest"
    by (subst filter_id_conv) blast
  then show ?thesis
    unfolding events_after_def event_batch_of_def assms(2) list.case Let_def
      retained_oldest(1) [OF assms]
    by (simp del: filter.simps)
qed

lemma events_after_empty:
  "rs_events (sh_state r) = [] \<Longrightarrow> events_after r cursor =
     \<lparr>eb_events = [], eb_overflowed = False,
      eb_latest_sequence = saturating_sub (rs_next_sequence (sh_state r)) 1\<rparr>"
  by (simp add: events_after_def event_batch_of_def)

lemma events_after_successively:
  assumes invar: "event_log_invar r log"
  shows "successively (\<lambda>a b. is_contiguous_after b a) (eb_events (events_after r cursor))"
proof (cases "rs_events (sh_state r)")
  case Nil
  then show ?thesis by (simp add: events_after_empty)
next
  case (Cons oldest rest)
  have chain: "successively (\<lambda>a b. is_contiguous_after b a) (oldest # rest)"
    and sorted: "sorted (map ev_sequence (oldest # rest))"
    using drop_successively [OF event_log_contiguous [OF invar]]
      sorted_wrt_drop [OF event_log_sorted [OF invar]] retained_events [OF invar] Cons
    by (simp_all add: drop_map [symmetric] del: successively.simps)
  have "successively (\<lambda>a b. is_contiguous_after b a)
      (filter (\<lambda>e. cursor < ev_sequence e) (oldest # rest))"
    unfolding filter_sorted_key [OF sorted] by (rule drop_successively [OF chain])
  moreover have "saturating_add (saturating_sub (ev_sequence oldest) 1) 1 = ev_sequence oldest"
    using retained_oldest(1) [OF invar Cons]
    by (simp add: word_unat_eq_iff unat_saturating_add unat_saturating_sub unat_sequence_at)
  then have "successively (\<lambda>a b. is_contiguous_after b a)
      (\<lparr>ev_sequence = saturating_sub (ev_sequence oldest) 1,
        ev_snapshot_generation = ev_snapshot_generation oldest,
        ev_kind = StreamOverflow, ev_resource = None\<rparr> # oldest # rest)"
    using chain by (simp add: is_contiguous_after_def)
  ultimately show ?thesis
    by (simp add: events_after_batch [OF invar Cons] Let_def del: filter.simps)
qed

text \<open>Before the sequence numbers are exhausted, a batch is determined by the complete log.\<close>

definition log_missed :: "shared \<Rightarrow> event list \<Rightarrow> event_sequence \<Rightarrow> bool" where
  "log_missed r log cursor \<longleftrightarrow>
     (\<exists>e \<in> set (take (evicted r log) log). cursor < ev_sequence e)"

lemma log_missed_iff:
  assumes "event_log_invar r log" and "length log < 2 ^ 64 - 1"
  shows "log_missed r log cursor \<longleftrightarrow> unat cursor < evicted r log"
proof
  assume "log_missed r log cursor"
  then obtain i where "i < length log" "i < evicted r log" "cursor < ev_sequence (log ! i)"
    by (auto simp: log_missed_def in_set_conv_nth)
  with assms show "unat cursor < evicted r log"
    by (simp add: event_log_nth word_less_nat_alt unat_sequence_at)
next
  assume less: "unat cursor < evicted r log"
  have len: "evicted r log \<le> length log" by (simp add: evicted_def)
  with less assms have "cursor < ev_sequence (log ! unat cursor)"
    by (simp add: event_log_nth word_less_nat_alt unat_sequence_at)
  moreover have "log ! unat cursor \<in> set (take (evicted r log) log)"
    using less len by (auto simp: in_set_conv_nth intro!: exI [of _ "unat cursor"])
  ultimately show "log_missed r log cursor" by (auto simp: log_missed_def)
qed

lemma overflowed_iff_missed:
  assumes "event_log_invar r log" and "length log < 2 ^ 64 - 1" and "evicted r log < length log"
  shows "saturating_add cursor 1 < sequence_at (evicted r log) \<longleftrightarrow> log_missed r log cursor"
  using assms(2,3)
  by (auto simp: log_missed_iff [OF assms(1,2)] word_less_nat_alt unat_saturating_add
      unat_sequence_at)

lemma retained_Nil_iff: "event_log_invar r log \<Longrightarrow> rs_events (sh_state r) = [] \<longleftrightarrow> log = []"
  by (cases log) (auto simp: event_log_invar_def)

lemma events_after_overflowed:
  assumes "event_log_invar r log" and "length log < 2 ^ 64 - 1"
  shows "eb_overflowed (events_after r cursor) = log_missed r log cursor"
proof (cases "rs_events (sh_state r)")
  case Nil
  then show ?thesis using assms(1) by (simp add: retained_Nil_iff events_after_empty log_missed_def)
next
  case (Cons oldest rest)
  from overflowed_iff_missed [OF assms retained_oldest(2) [OF assms(1) Cons]] show ?thesis
    by (simp add: events_after_batch [OF assms(1) Cons] Let_def del: filter.simps)
qed

lemma filter_retained:
  assumes "event_log_invar r log" and "\<not> log_missed r log cursor"
  shows "filter (\<lambda>e. cursor < ev_sequence e) (rs_events (sh_state r))
    = filter (\<lambda>e. cursor < ev_sequence e) log"
proof -
  have "log = take (evicted r log) log @ rs_events (sh_state r)"
    by (simp add: retained_events [OF assms(1)])
  moreover have "filter (\<lambda>e. cursor < ev_sequence e) (take (evicted r log) log) = []"
    using assms(2) by (auto simp: log_missed_def filter_empty_conv)
  ultimately show ?thesis by (metis append_Nil filter_append)
qed

lemma events_after_complete:
  assumes "event_log_invar r log" and "length log < 2 ^ 64 - 1" and "\<not> log_missed r log cursor"
  shows "eb_events (events_after r cursor) = filter (\<lambda>e. cursor < ev_sequence e) log"
proof (cases "rs_events (sh_state r)")
  case Nil
  then show ?thesis using assms(1) by (simp add: retained_Nil_iff events_after_empty)
next
  case (Cons oldest rest)
  from overflowed_iff_missed [OF assms(1,2) retained_oldest(2) [OF assms(1) Cons]] assms(3)
  show ?thesis
    using filter_retained [OF assms(1,3)] Cons
    by (simp add: events_after_batch [OF assms(1) Cons] Let_def del: filter.simps)
qed

lemma events_after_marker:
  assumes "event_log_invar r log" and "length log < 2 ^ 64 - 1" and "log_missed r log cursor"
  shows "\<exists>marker. ev_kind marker = StreamOverflow \<and>
    eb_events (events_after r cursor) = marker # drop (evicted r log) log"
proof -
  have "rs_events (sh_state r) \<noteq> []"
    using assms(1,3) by (auto simp: retained_Nil_iff log_missed_def)
  then obtain oldest rest where Cons: "rs_events (sh_state r) = oldest # rest"
    by (cases "rs_events (sh_state r)") auto
  from overflowed_iff_missed [OF assms(1,2) retained_oldest(2) [OF assms(1) Cons]] assms(3)
  show ?thesis
    by (simp add: events_after_batch [OF assms(1) Cons] Let_def
        retained_events [OF assms(1), symmetric] Cons del: filter.simps)
qed

lemma events_after_latest:
  assumes "event_log_invar r log" and "length log < 2 ^ 64 - 1"
  shows "unat (eb_latest_sequence (events_after r cursor)) = length log"
proof -
  have "unat (saturating_sub (rs_next_sequence (sh_state r)) 1) = length log"
    using assms by (simp add: event_log_invar_def unat_saturating_sub unat_sequence_at)
  then show ?thesis
    by (simp add: events_after_def event_batch_of_def Let_def split: list.split)
qed

subsection \<open>Operation history\<close>

text \<open>
  The retained operations are the most recently accepted ones: their identifiers are the last
  numbers handed out, in order.  The counter saturates, so the statement is made while it has
  not reached its maximum.
\<close>

definition progress_ok :: "operation \<Rightarrow> bool" where
  "progress_ok operation \<longleftrightarrow>
     (case op_progress_percent operation of
        None \<Rightarrow> True | Some p \<Rightarrow> p \<le> 100 \<and> op_state operation \<noteq> Queued)"

definition history_invar :: "shared \<Rightarrow> bool" where
  "history_invar r \<longleftrightarrow>
     (let st = sh_state r in
      0 < sh_operation_capacity r \<and>
      length (rs_operations st) \<le> sh_operation_capacity r \<and>
      (rs_next_operation st \<noteq> - 1 \<longrightarrow>
         length (rs_operations st) < unat (rs_next_operation st) \<and>
         map op_id (rs_operations st)
           = map (\<lambda>k. ''op-'' @ show_nat k)
               [unat (rs_next_operation st) - length (rs_operations st)
                  ..< unat (rs_next_operation st)]) \<and>
      (\<forall>operation \<in> set (rs_operations st). progress_ok operation))"

lemma history_invar_new: "new_registry oc ec = Inr r \<Longrightarrow> history_invar r"
  by (auto simp: new_registry_def history_invar_def split: if_splits)

lemma set_push_bounded: "set (push_bounded c xs x) \<subseteq> insert x (set xs)"
  by (cases xs) (auto simp: push_bounded_def)

lemma saturating_succ_max: "saturating_add w 1 \<noteq> - 1 \<Longrightarrow> w \<noteq> - 1" for w :: "'a::len word"
  using saturating_succ_eq_iff [of w] by auto

lemma ids_push_bounded:
  assumes "map f xs = map g [n - length xs ..< n]" and "f x = g n" and "length xs \<le> c" and "0 < c"
    and "length xs < n"
  shows "map f (push_bounded c xs x)
    = map g [Suc n - length (push_bounded c xs x) ..< Suc n]"
proof (cases "length xs = c")
  case True
  with assms(4,5) have "[n - length xs ..< n] = (n - length xs) # [Suc n - length xs ..< n]"
    by (simp add: upt_conv_Cons Suc_diff_le)
  then have "map f (tl xs) = map g [Suc n - length xs ..< n]" using assms(1) by (simp add: map_tl)
  then show ?thesis using True assms(2,4,5) by (simp add: push_bounded_def)
next
  case False
  then show ?thesis using assms by (simp add: push_bounded_def)
qed

lemma history_invar_create:
  assumes "history_invar r" and "create request r = (operation, r')"
  shows "history_invar r'"
proof -
  let ?st = "sh_state r" and ?n = "rs_next_operation (sh_state r)"
  have ops: "rs_operations (sh_state r')
      = push_bounded (sh_operation_capacity r) (rs_operations ?st) operation"
    and cap: "sh_operation_capacity r' = sh_operation_capacity r"
    and op: "operation = queued_operation ?n request"
    and nxt: "rs_next_operation (sh_state r') = saturating_add ?n 1"
    using assms(2) by (auto simp: create_def Let_def)
  have ids: "length (rs_operations (sh_state r')) < unat (rs_next_operation (sh_state r')) \<and>
      map op_id (rs_operations (sh_state r')) = map (\<lambda>k. ''op-'' @ show_nat k)
        [unat (rs_next_operation (sh_state r')) - length (rs_operations (sh_state r'))
           ..< unat (rs_next_operation (sh_state r'))]"
    if "rs_next_operation (sh_state r') \<noteq> - 1"
  proof -
    from that have fresh: "?n \<noteq> - 1" unfolding nxt by (rule saturating_succ_max)
    have "length (push_bounded (sh_operation_capacity r) (rs_operations ?st) operation)
        \<le> Suc (length (rs_operations ?st))"
      by (auto simp: push_bounded_def)
    then show ?thesis
      using assms(1) fresh
        ids_push_bounded [of op_id "rs_operations ?st" "\<lambda>k. ''op-'' @ show_nat k" "unat ?n"
          operation "sh_operation_capacity r"]
      by (simp add: history_invar_def Let_def ops nxt unat_saturating_succ op queued_operation_def
          operation_name_def show_word_def)
  qed
  have "progress_ok operation"
    by (simp add: op queued_operation_def progress_ok_def)
  with ids assms(1) show ?thesis
    using set_push_bounded [of "sh_operation_capacity r" "rs_operations ?st" operation]
    by (auto simp: history_invar_def Let_def ops cap length_push_bounded)
qed

text \<open>What a mutation of one operation may change, from one step to the next and over a run.\<close>

definition immutable_part where
  "immutable_part a = (op_id a, op_kind a, op_expected_generation a, op_affected_resources a,
     op_actor a, op_audit_id a, op_created_at a)"

definition progress_le :: "u8 option \<Rightarrow> u8 option \<Rightarrow> bool" where
  "progress_le p q \<longleftrightarrow> (case p of None \<Rightarrow> True | Some x \<Rightarrow> is_some_and (\<lambda>y. x \<le> y) q)"

definition evolves :: "operation \<Rightarrow> operation \<Rightarrow> bool" where
  "evolves a b \<longleftrightarrow>
     immutable_part b = immutable_part a \<and>
     (is_terminal (op_state a) \<longrightarrow> b = a) \<and>
     (op_state b = Queued \<longrightarrow> op_state a = Queued) \<and>
     progress_le (op_progress_percent a) (op_progress_percent b)"

lemma progress_le_refl [simp]: "progress_le p p"
  by (simp add: progress_le_def split: option.split)

lemma progress_le_trans: "progress_le p q \<Longrightarrow> progress_le q r \<Longrightarrow> progress_le p r"
  by (cases p; cases q; cases r) (auto simp: progress_le_def)

lemma evolves_refl [simp]: "evolves a a"
  by (simp add: evolves_def)

lemma evolves_trans: "evolves a b \<Longrightarrow> evolves b c \<Longrightarrow> evolves a c"
  unfolding evolves_def by (metis progress_le_trans)

definition well_behaved :: "(operation \<Rightarrow> operation_registry_error + operation) \<Rightarrow> bool" where
  "well_behaved mutation \<longleftrightarrow> (\<forall>a b. mutation a = Inr b \<longrightarrow> progress_ok a \<longrightarrow>
     evolves a b \<and> progress_ok b)"

lemmas evolution = well_behaved_def evolves_def immutable_part_def progress_ok_def progress_le_def

lemma well_behaved_start: "well_behaved start_mutation"
  by (auto simp: evolution start_mutation_def is_terminal_def split: if_splits option.splits)

lemma well_behaved_progress: "well_behaved (progress_mutation percent)"
  by (auto simp: evolution progress_mutation_def is_terminal_def split: if_splits option.splits)

lemma well_behaved_finish: "well_behaved (finish_mutation state observed err at)"
  by (auto simp: evolution finish_mutation_def is_terminal_def split: if_splits option.splits)

lemma well_behaved_id: "well_behaved mutation \<Longrightarrow> mutation a = Inr b \<Longrightarrow> progress_ok a \<Longrightarrow> op_id b = op_id a"
  by (auto simp: well_behaved_def evolves_def immutable_part_def)

lemma set_replace_first: "set (replace_first p y xs) \<subseteq> insert y (set xs)"
  by (induction xs) auto

lemma length_replace_first [simp]: "length (replace_first p y xs) = length xs"
  by (induction xs) auto

text \<open>A successful update touches the operation it names and no other one.\<close>

lemma update_effect:
  assumes "update ident mutation r = (Inr b, r')" and "history_invar r" and "well_behaved mutation"
  obtains a where "get r ident = Some a" and "mutation a = Inr b" and "evolves a b"
    and "get r' ident = Some b" and "\<And>other. other \<noteq> ident \<Longrightarrow> get r' other = get r other"
    and "history_invar r'" and "rs_next_operation (sh_state r') = rs_next_operation (sh_state r)"
proof -
  let ?ops = "rs_operations (sh_state r)" and ?p = "\<lambda>operation. op_id operation = ident"
  from assms(1) obtain a where a: "get r ident = Some a" "mutation a = Inr b"
    and r': "r' = r\<lparr>sh_state := publish_operation_event (sh_event_capacity r)
      ((sh_state r)\<lparr>rs_operations := replace_first ?p b ?ops\<rparr>) b\<rparr>"
    by (auto simp: update_Inr)
  have found: "find ?p ?ops = Some a" using a(1) by (simp add: get_def)
  then have "a \<in> set ?ops" by (auto dest: find_SomeD)
  with assms(2) have "progress_ok a" by (simp add: history_invar_def Let_def)
  with assms(3) a(2) have ev: "evolves a b" and pb: "progress_ok b"
    by (auto simp: well_behaved_def)
  have ids: "op_id b = op_id a" "op_id b = ident"
    using ev get_SomeD [OF a(1)] by (auto simp: evolves_def immutable_part_def)
  show thesis
  proof (rule that [OF a ev])
    show "get r' ident = Some b"
      using find_replace_first [of ?p b ?ops, OF _ found] ids(2) by (simp add: r' get_def)
    show "get r' other = get r other" if "other \<noteq> ident" for other
      using that ids(2) by (simp add: r' get_def find_replace_first_other)
    show "history_invar r'"
      using assms(2) pb set_replace_first [of ?p b ?ops]
        map_replace_first [OF found ids(1)]
      by (auto simp: history_invar_def Let_def r')
    show "rs_next_operation (sh_state r') = rs_next_operation (sh_state r)"
      by (simp add: r')
  qed
qed

lemma history_ids:
  assumes "history_invar r" and "rs_next_operation (sh_state r) \<noteq> - 1"
  shows "map op_id (rs_operations (sh_state r)) = map (\<lambda>k. ''op-'' @ show_nat k)
    [unat (rs_next_operation (sh_state r)) - length (rs_operations (sh_state r))
       ..< unat (rs_next_operation (sh_state r))]"
  using assms by (simp add: history_invar_def Let_def)

lemma history_distinct:
  assumes "history_invar r" and "rs_next_operation (sh_state r) \<noteq> - 1"
  shows "distinct (map op_id (rs_operations (sh_state r)))"
  by (simp add: history_ids [OF assms] distinct_map inj_on_def)

lemma history_id_set:
  assumes "history_invar r" and "rs_next_operation (sh_state r) \<noteq> - 1"
  shows "op_id ` set (rs_operations (sh_state r)) = (\<lambda>k. ''op-'' @ show_nat k) `
    {unat (rs_next_operation (sh_state r)) - length (rs_operations (sh_state r))
       ..< unat (rs_next_operation (sh_state r))}"
  using arg_cong [OF history_ids [OF assms], of set] by simp

lemma history_fresh:
  assumes "history_invar r" and "rs_next_operation (sh_state r) \<noteq> - 1"
  shows "operation_name (rs_next_operation (sh_state r)) \<notin> op_id ` set (rs_operations (sh_state r))"
  by (auto simp: history_id_set [OF assms] operation_name_def show_word_def)

lemma find_append: "find p (xs @ ys) = (case find p xs of None \<Rightarrow> find p ys | Some x \<Rightarrow> Some x)"
  by (induction xs) auto

lemma find_tl:
  "distinct (map f xs) \<Longrightarrow> find (\<lambda>x. f x = k) (tl xs) \<in> {find (\<lambda>x. f x = k) xs, None}"
  by (cases xs) (auto simp: find_None_iff image_iff)

lemma find_push_bounded_other:
  assumes "distinct (map f xs)" and "f x \<noteq> k"
  shows "find (\<lambda>y. f y = k) (push_bounded c xs x) \<in> {find (\<lambda>y. f y = k) xs, None}"
  using assms find_tl [OF assms(1), of k]
  by (auto simp: push_bounded_def find_append split: option.split)

lemma find_push_bounded_same:
  assumes "f x \<notin> f ` set xs"
  shows "find (\<lambda>y. f y = f x) (push_bounded c xs x) = Some x"
proof -
  have "find (\<lambda>y. f y = f x) (if length xs = c then tl xs else xs) = None"
    using assms by (cases xs) (auto simp: find_None_iff image_iff)
  then show ?thesis by (simp add: push_bounded_def find_append)
qed

lemma create_effect:
  assumes "create request r = (operation, r')" and "history_invar r"
    and "rs_next_operation (sh_state r) \<noteq> - 1"
  shows "get r (op_id operation) = None" and "get r' (op_id operation) = Some operation"
    and "op_state operation = Queued"
    and "other \<noteq> op_id operation \<Longrightarrow> get r' other \<in> {get r other, None}"
proof -
  have ops: "rs_operations (sh_state r')
      = push_bounded (sh_operation_capacity r) (rs_operations (sh_state r)) operation"
    and op: "operation = queued_operation (rs_next_operation (sh_state r)) request"
    using assms(1) by (auto simp: create_def Let_def)
  have fresh: "op_id operation \<notin> op_id ` set (rs_operations (sh_state r))"
    using history_fresh [OF assms(2,3)] by (simp add: op queued_operation_def)
  then show "get r (op_id operation) = None" 
    unfolding get_def find_None_iff by (metis image_eqI)
  from fresh show "get r' (op_id operation) = Some operation"
    unfolding get_def ops by (rule find_push_bounded_same)
  show "op_state operation = Queued" by (simp add: op queued_operation_def)
  show "get r' other \<in> {get r other, None}" if "other \<noteq> op_id operation"
    unfolding get_def ops
    using find_push_bounded_other [OF history_distinct [OF assms(2,3)], of operation other] that
    by simp
qed

lemma create_next:
  "create request r = (operation, r') \<Longrightarrow>
     rs_next_operation (sh_state r') = saturating_add (rs_next_operation (sh_state r)) 1"
  by (auto simp: create_def Let_def)

lemma registry_step_forms:
  "registry_step r r' \<Longrightarrow> (\<exists>request operation. create request r = (operation, r')) \<or>
     (\<exists>i mutation b. update i mutation r = (Inr b, r') \<and> well_behaved mutation)"
proof (induction rule: registry_step.induct)
  case (step_start ident r operation r')
  then show ?case unfolding start_def using well_behaved_start by blast
next
  case (step_progress ident percent r operation r')
  then show ?case unfolding set_progress_def using well_behaved_progress by blast
next
  case (step_finish ident state observed err at r operation r')
  then show ?case unfolding finish_def using well_behaved_finish by blast
qed blast

text \<open>How one step treats the operation with a given identifier.\<close>

definition history_step :: "operation_id \<Rightarrow> shared \<Rightarrow> shared \<Rightarrow> bool" where
  "history_step ident r r' \<longleftrightarrow>
     rs_next_operation (sh_state r) \<noteq> - 1 \<and>
     (case get r ident of
        Some a \<Rightarrow> is_none_or (evolves a) (get r' ident)
      | None \<Rightarrow> get r' ident = None \<or> ident = operation_name (rs_next_operation (sh_state r)))"

lemma history_step_create:
  assumes "create request r = (operation, r')" and "history_invar r"
    and "rs_next_operation (sh_state r') \<noteq> - 1"
  shows "history_step ident r r'"
proof -
  have id: "op_id operation = operation_name (rs_next_operation (sh_state r))"
    using assms(1) by (auto simp: create_def Let_def queued_operation_def)
  have fresh: "rs_next_operation (sh_state r) \<noteq> - 1"
    using assms(3) create_next [OF assms(1)] saturating_succ_max by metis
  note effect = create_effect [OF assms(1,2) fresh]
  show ?thesis
  proof (cases "ident = op_id operation")
    case True
    then show ?thesis using fresh effect(1) id by (simp add: history_step_def)
  next
    case False
    from effect(4) [OF this] fresh show ?thesis
      by (auto simp: history_step_def split: option.split)
  qed
qed

lemma history_step_update:
  assumes "update i mutation r = (Inr b, r')" and "well_behaved mutation" and "history_invar r"
    and "rs_next_operation (sh_state r') \<noteq> - 1"
  shows "history_step ident r r'"
proof -
  obtain a where "get r i = Some a" "evolves a b" "get r' i = Some b"
    "\<And>other. other \<noteq> i \<Longrightarrow> get r' other = get r other"
    "rs_next_operation (sh_state r') = rs_next_operation (sh_state r)"
    using update_effect [OF assms(1,3,2)] by metis
  then show ?thesis
    using assms(4) by (cases "ident = i") (auto simp: history_step_def split: option.split)
qed

lemma registry_step_history:
  assumes "registry_step r r'" and "history_invar r"
  shows "history_invar r'"
    and "rs_next_operation (sh_state r') \<noteq> - 1 \<Longrightarrow> history_step ident r r'"
  using registry_step_forms [OF assms(1)] history_invar_create [OF assms(2)]
    update_effect [OF _ assms(2)] history_step_create [OF _ assms(2)]
    history_step_update [OF _ _ assms(2)]
  by metis+

lemma registry_run_history_invar:
  "registry_run oc ec r log \<Longrightarrow> history_invar r \<and> sh_operation_capacity r = oc"
proof (induction rule: registry_run.induct)
  case (run_new r)
  then show ?case
    by (auto simp: history_invar_new) (auto simp: new_registry_def split: if_splits)
next
  case (run_step r log r')
  then show ?case
    using registry_step_publishes [OF run_step.hyps(2)] registry_step_history(1)
    by (auto simp: publishes_def)
qed

text \<open>An identifier that has been handed out, whether or not its operation is still retained.\<close>

definition issued :: "shared \<Rightarrow> operation_id \<Rightarrow> bool" where
  "issued r ident \<longleftrightarrow> (\<exists>k. k < rs_next_operation (sh_state r) \<and> ident = operation_name k)"

lemma operation_name_inject [simp]: "operation_name a = operation_name b \<longleftrightarrow> a = b"
  by (simp add: operation_name_def)

lemma get_issued:
  assumes "get r ident = Some a" and "history_invar r" and "rs_next_operation (sh_state r) \<noteq> - 1"
  shows "issued r ident"
proof -
  let ?n = "unat (rs_next_operation (sh_state r))"
  have "ident \<in> op_id ` set (rs_operations (sh_state r))"
    using assms(1) by (auto simp: get_def dest: find_SomeD)
  then obtain k where k: "k < ?n" "ident = ''op-'' @ show_nat k"
    unfolding history_id_set [OF assms(2,3)] by auto
  then have "unat (of_nat k :: u64) = k"
    using unsigned_less [of "rs_next_operation (sh_state r)", where 'a = nat]
    by (simp add: unat_of_nat)
  with k show ?thesis
    by (auto simp: issued_def operation_name_def show_word_def word_less_nat_alt
        intro!: exI [of _ "of_nat k"])
qed

lemma registry_step_next: "registry_step r r' \<Longrightarrow> rs_next_operation (sh_state r) \<le> rs_next_operation (sh_state r')"
  using registry_step_forms [of r r']
  by (auto simp: create_next saturating_add_ge update_Inr)

lemma issued_step: "registry_step r r' \<Longrightarrow> issued r ident \<Longrightarrow> issued r' ident"
  using registry_step_next by (fastforce simp: issued_def intro: less_le_trans)

lemma history_steps:
  assumes "registry_step\<^sup>*\<^sup>* r r'" and "history_invar r" and "get r ident = Some a"
    and "rs_next_operation (sh_state r') \<noteq> - 1"
  shows "is_none_or (evolves a) (get r' ident)"
proof -
  have "history_invar r' \<and> (rs_next_operation (sh_state r') \<noteq> - 1 \<longrightarrow>
      issued r' ident \<and> is_none_or (evolves a) (get r' ident))"
    using assms(1)
  proof (induction rule: rtranclp_induct)
    case base
    then show ?case using assms(2,3) by (auto intro: get_issued)
  next
    case (step y z)
    have "issued z ident \<and> is_none_or (evolves a) (get z ident)"
      if "rs_next_operation (sh_state z) \<noteq> - 1"
    proof -
      have hs: "history_step ident y z"
        using registry_step_history(2) [OF step.hyps(2)] step.IH that by blast
      with step.IH have iss: "issued y ident" and ev: "is_none_or (evolves a) (get y ident)"
        by (auto simp: history_step_def)
      have "is_none_or (evolves a) (get z ident)"
        using hs ev iss
        by (cases "get y ident"; cases "get z ident")
          (auto simp: history_step_def issued_def intro: evolves_trans)
      with issued_step [OF step.hyps(2) iss] show ?thesis by blast
    qed
    then show ?case using registry_step_history(1) [OF step.hyps(2)] step.IH by blast
  qed
  with assms(4) show ?thesis by blast
qed

lemma issued_steps:
  assumes "registry_step\<^sup>*\<^sup>* r r'" and "history_invar r" and "issued r ident"
  shows "history_invar r' \<and> issued r' ident"
  using assms by (induction rule: rtranclp_induct) (auto dest: registry_step_history(1) issued_step)

text \<open>An identifier is handed out once: what has been dropped never reappears.\<close>

lemma missing_stays_missing:
  assumes "registry_step\<^sup>*\<^sup>* r r'" and "history_invar r" and "issued r ident" and "get r ident = None"
    and "rs_next_operation (sh_state r') \<noteq> - 1"
  shows "get r' ident = None"
proof -
  have "rs_next_operation (sh_state r') \<noteq> - 1 \<longrightarrow> get r' ident = None"
    using assms(1)
  proof (induction rule: rtranclp_induct)
    case base
    then show ?case using assms(4) by simp
  next
    case (step y z)
    have y: "history_invar y" "issued y ident"
      using issued_steps [OF step.hyps(1) assms(2,3)] by simp_all
    show ?case
    proof
      assume "rs_next_operation (sh_state z) \<noteq> - 1"
      then have "history_step ident y z"
        by (rule registry_step_history(2) [OF step.hyps(2) y(1)])
      then show "get z ident = None"
        using step.IH y(2) by (auto simp: history_step_def issued_def)
    qed
  qed
  with assms(5) show ?thesis by blast
qed

lemma dropped_stays_dropped:
  assumes "registry_step\<^sup>*\<^sup>* r r'" and "history_invar r" and "get r ident = Some a"
    and "get r' ident = None" and "registry_step\<^sup>*\<^sup>* r' r''" and "rs_next_operation (sh_state r'') \<noteq> - 1"
  shows "get r'' ident = None"
proof -
  have next_mono: "rs_next_operation (sh_state x) \<le> rs_next_operation (sh_state y)"
    if "registry_step\<^sup>*\<^sup>* x y" for x y
    using that by (induction rule: rtranclp_induct) (auto dest: registry_step_next)
  have "rs_next_operation (sh_state r) \<noteq> - 1"
    using next_mono [OF rtranclp_trans [OF assms(1,5)]] assms(6)
    by (metis word_n1_ge order_antisym)
  then have "issued r ident" by (rule get_issued [OF assms(3,2)])
  with issued_steps [OF assms(1,2)] missing_stays_missing [OF assms(5) _ _ assms(4,6)]
  show ?thesis by blast
qed

section \<open>The registry as an operation store\<close>

text \<open>
  What the scheduler relies on: where an operation stands, as seen by the identifier, after each
  call.  A store may forget any operation when it accepts a new one.
\<close>

locale operation_store =
  fixes usable :: "'s \<Rightarrow> bool"
    and status :: "'s \<Rightarrow> operation_id \<Rightarrow> operation_state option"
    and accept :: "new_operation \<Rightarrow> 's \<Rightarrow> operation \<times> 's"
    and launch :: "operation_id \<Rightarrow> 's \<Rightarrow> ('e + operation) \<times> 's"
    and complete :: "operation_id \<Rightarrow> operation_state \<Rightarrow> generation option \<Rightarrow> api_error option \<Rightarrow>
      string \<Rightarrow> 's \<Rightarrow> ('e + operation) \<times> 's"
  assumes accept_new: "usable s \<Longrightarrow> accept request s = (operation, s') \<Longrightarrow>
      status s (op_id operation) = None \<and> status s' (op_id operation) = Some Queued"
    and accept_other: "usable s \<Longrightarrow> accept request s = (operation, s') \<Longrightarrow>
      i \<noteq> op_id operation \<Longrightarrow> status s' i \<in> {status s i, None}"
    and launch_queued: "usable s \<Longrightarrow> launch i s = (r, s') \<Longrightarrow>
      (if status s i = Some Queued then is_ok r \<and> status s' = (status s)(i := Some Running)
       else \<not> is_ok r \<and> s' = s)"
    and complete_live: "usable s \<Longrightarrow> complete i st g e at s = (r, s') \<Longrightarrow>
      (if is_some_and (\<lambda>c. \<not> is_terminal c) (status s i) \<and> is_terminal st
       then is_ok r \<and> status s' = (status s)(i := Some st)
       else \<not> is_ok r \<and> s' = s)"
    and launch_usable: "usable s \<Longrightarrow> launch i s = (r, s') \<Longrightarrow> usable s'"
    and complete_usable: "usable s \<Longrightarrow> complete i st g e at s = (r, s') \<Longrightarrow> usable s'"

definition registry_usable :: "shared \<Rightarrow> bool" where
  "registry_usable r \<longleftrightarrow> history_invar r \<and> rs_next_operation (sh_state r) \<noteq> - 1"

definition operation_status :: "shared \<Rightarrow> operation_id \<Rightarrow> operation_state option" where
  "operation_status r ident = map_option op_state (get r ident)"

lemma update_status:
  assumes "registry_usable r" and "update ident mutation r = (res, r')" and "well_behaved mutation"
  shows "registry_usable r'"
    and "case res of
      Inl e \<Rightarrow> r' = r \<and> (case get r ident of None \<Rightarrow> True | Some a \<Rightarrow> \<not> is_ok (mutation a))
    | Inr b \<Rightarrow> (\<exists>a. get r ident = Some a \<and> mutation a = Inr b) \<and>
        operation_status r' = (operation_status r)(ident := Some (op_state b))"
proof -
  have "registry_usable r' \<and> (case res of
      Inl e \<Rightarrow> r' = r \<and> (case get r ident of None \<Rightarrow> True | Some a \<Rightarrow> \<not> is_ok (mutation a))
    | Inr b \<Rightarrow> (\<exists>a. get r ident = Some a \<and> mutation a = Inr b) \<and>
        operation_status r' = (operation_status r)(ident := Some (op_state b)))"
  proof (cases res)
    case (Inl e)
    with assms show ?thesis
      by (auto simp: update_def get_def Let_def split: option.splits sum.splits)
  next
    case (Inr b)
    with assms have "history_invar r" and upd: "update ident mutation r = (Inr b, r')"
      by (simp_all add: registry_usable_def)
    from update_effect [OF upd this(1) assms(3)] obtain a where
      a: "get r ident = Some a" "mutation a = Inr b" "get r' ident = Some b"
        "\<And>other. other \<noteq> ident \<Longrightarrow> get r' other = get r other" "history_invar r'"
        "rs_next_operation (sh_state r') = rs_next_operation (sh_state r)" by metis
    then have "operation_status r' = (operation_status r)(ident := Some (op_state b))"
      by (auto simp: operation_status_def)
    with a Inr assms(1) show ?thesis by (simp add: registry_usable_def)
  qed
  then show "registry_usable r'"
    and "case res of
      Inl e \<Rightarrow> r' = r \<and> (case get r ident of None \<Rightarrow> True | Some a \<Rightarrow> \<not> is_ok (mutation a))
    | Inr b \<Rightarrow> (\<exists>a. get r ident = Some a \<and> mutation a = Inr b) \<and>
        operation_status r' = (operation_status r)(ident := Some (op_state b))" by blast+
qed

lemma start_status:
  assumes "registry_usable r" and "start ident r = (res, r')"
  shows "if operation_status r ident = Some Queued
    then is_ok res \<and> operation_status r' = (operation_status r)(ident := Some Running)
    else \<not> is_ok res \<and> r' = r"
  using update_status(2) [OF assms(1) _ well_behaved_start, of ident res r'] assms(2)
  by (cases res; cases "get r ident")
    (auto simp: start_def start_mutation_def operation_status_def split: if_splits)

lemma finish_status:
  assumes "registry_usable r" and "finish ident st g e at r = (res, r')"
  shows "if is_some_and (\<lambda>c. \<not> is_terminal c) (operation_status r ident) \<and> is_terminal st
    then is_ok res \<and> operation_status r' = (operation_status r)(ident := Some st)
    else \<not> is_ok res \<and> r' = r"
  using update_status(2) [OF assms(1) _ well_behaved_finish, of ident st g e at res r'] assms(2)
  by (cases res; cases "get r ident")
    (auto simp: finish_def finish_mutation_def operation_status_def split: if_splits)

lemma start_usable: "registry_usable r \<Longrightarrow> start ident r = (res, r') \<Longrightarrow> registry_usable r'"
  by (auto simp: start_def intro: update_status(1) well_behaved_start)

lemma finish_usable:
  "registry_usable r \<Longrightarrow> finish ident st g e at r = (res, r') \<Longrightarrow> registry_usable r'"
  by (auto simp: finish_def intro: update_status(1) well_behaved_finish)

lemma create_status:
  assumes "registry_usable r" and "create request r = (operation, r')"
  shows "operation_status r (op_id operation) = None \<and>
      operation_status r' (op_id operation) = Some Queued"
    and "i \<noteq> op_id operation \<Longrightarrow> operation_status r' i \<in> {operation_status r i, None}"
  using create_effect(1-3) [OF assms(2)] create_effect(4) [OF assms(2), of i] assms(1)
  by (auto simp: operation_status_def registry_usable_def)

interpretation registry: operation_store registry_usable operation_status create start finish
  by unfold_locales
    (fact create_status start_status finish_status start_usable finish_usable)+

section \<open>Subscriptions\<close>

text \<open>
  A client that polls, interleaved with the registry's own steps.  The last argument collects
  the batches that the client has received, in order.
\<close>

inductive subscription_run ::
  "event_sequence \<Rightarrow> shared \<Rightarrow> event list \<Rightarrow> event_subscription \<Rightarrow> event_batch list \<Rightarrow> bool"
  for cursor where
  sub_start: "registry_run oc ec r log \<Longrightarrow> subscription_run cursor r log (subscribe cursor) []"
| sub_publish: "subscription_run cursor r log sub batches \<Longrightarrow> registry_step r r' \<Longrightarrow>
     subscription_run cursor r' (log @ [last (rs_events (sh_state r'))]) sub batches"
| sub_poll: "subscription_run cursor r log sub batches \<Longrightarrow> next_batch r sub = (batch, sub') \<Longrightarrow>
     subscription_run cursor r log sub' (batches @ [batch])"

definition delivered :: "event_batch list \<Rightarrow> event list" where
  "delivered batches = concat (map eb_events batches)"

definition published :: "event list \<Rightarrow> event_sequence \<Rightarrow> event_sequence \<Rightarrow> event list" where
  "published log a b = filter (\<lambda>e. a < ev_sequence e \<and> ev_sequence e \<le> b) log"

lemma subscription_run_log:
  "subscription_run cursor r log sub batches \<Longrightarrow> event_log_invar r log"
  by (induction rule: subscription_run.induct)
    (auto dest: registry_run_event_log_invar intro: event_log_invar_step)

lemma last_log_sequence:
  assumes "event_log_invar r log" and "length log < 2 ^ 64 - 1" and "e \<in> set log"
  shows "unat (ev_sequence (last log)) = length log"
    and "ev_sequence e \<le> ev_sequence (last log)"
proof -
  from assms(3) have "log \<noteq> []" by auto
  then have last: "ev_sequence (last log) = sequence_at (length log - 1)"
    using assms(1) by (simp add: last_conv_nth event_log_nth)
  with \<open>log \<noteq> []\<close> assms(2) show "unat (ev_sequence (last log)) = length log"
    by (cases log) (simp_all add: unat_sequence_at)
  from assms(3) obtain i where "i < length log" "e = log ! i" by (auto simp: in_set_conv_nth)
  then show "ev_sequence e \<le> ev_sequence (last log)"
    using assms(1) by (simp add: last event_log_nth sequence_at_mono)
qed

lemma last_filter_after:
  assumes "event_log_invar r log" and "length log < 2 ^ 64 - 1"
    and "filter (\<lambda>e. c < ev_sequence e) log \<noteq> []"
  shows "last (filter (\<lambda>e. c < ev_sequence e) log) = last log"
proof -
  from assms(3) obtain e where e: "e \<in> set log" "c < ev_sequence e"
    by (auto simp: filter_empty_conv)
  then have "c < ev_sequence (last log)"
    using last_log_sequence(2) [OF assms(1,2) e(1)] by simp
  moreover have "log = butlast log @ [last log]" using e(1) by (cases log rule: rev_cases) auto
  ultimately show ?thesis by (metis filter.simps filter_append last_snoc)
qed

lemma next_batch_events_after:
  "next_batch r sub = (batch, sub') \<longleftrightarrow>
     batch = events_after r (es_cursor sub) \<and>
     sub' = (if eb_events batch = [] then sub
             else sub\<lparr>es_cursor := ev_sequence (last (eb_events batch))\<rparr>)"
  by (auto simp: next_batch_def events_after_def Let_def)

lemma published_extend:
  "c < ev_sequence e \<Longrightarrow> published (log @ [e]) a c = published log a c"
  by (auto simp: published_def)

lemma published_append:
  assumes "sorted (map ev_sequence log)" and "a \<le> b" and "b \<le> c"
  shows "published log a c = published log a b @ published log b c"
  using assms
proof (induction log)
  case (Cons e log)
  have "published log a b = []" if "b < ev_sequence e"
    using that Cons.prems(1) by (force simp: published_def filter_empty_conv)
  with Cons show ?case by (auto simp: published_def)
qed (simp add: published_def)

lemma published_all:
  assumes "event_log_invar r log" and "length log < 2 ^ 64 - 1"
    and "filter (\<lambda>e. c < ev_sequence e) log \<noteq> []"
  shows "published log c (ev_sequence (last (filter (\<lambda>e. c < ev_sequence e) log)))
    = filter (\<lambda>e. c < ev_sequence e) log"
  unfolding last_filter_after [OF assms] published_def
  using last_log_sequence(2) [OF assms(1,2)] by (auto intro: filter_cong)

lemma published_same [simp]: "published log c c = []"
  by (auto simp: published_def filter_empty_conv)

text \<open>One poll without overflow delivers what was published since the cursor and catches up.\<close>

lemma next_batch_catches_up:
  assumes invar: "event_log_invar r log" and small: "length log < 2 ^ 64 - 1"
    and poll: "next_batch r sub = (batch, sub')" and fits: "\<not> eb_overflowed batch"
  shows "es_cursor sub \<le> es_cursor sub'"
    and "es_cursor sub' = es_cursor sub \<or> unat (es_cursor sub') = length log"
    and "published log (es_cursor sub) (es_cursor sub') = eb_events batch"
    and "eb_events batch = filter (\<lambda>e. es_cursor sub < ev_sequence e) log"
proof -
  let ?c = "es_cursor sub" and ?new = "filter (\<lambda>e. es_cursor sub < ev_sequence e) log"
  have batch: "batch = events_after r ?c"
    and sub': "sub' = (if eb_events batch = [] then sub
      else sub\<lparr>es_cursor := ev_sequence (last (eb_events batch))\<rparr>)"
    using poll by (auto simp: next_batch_events_after)
  show events: "eb_events batch = ?new"
    using fits batch events_after_overflowed [OF invar small] events_after_complete [OF invar small]
    by simp
  have "?c \<le> es_cursor sub' \<and> (es_cursor sub' = ?c \<or> unat (es_cursor sub') = length log) \<and>
      published log ?c (es_cursor sub') = ?new"
  proof (cases "?new = []")
    case True
    with events sub' show ?thesis by simp
  next
    case False
    then obtain e where e: "e \<in> set log" "?c < ev_sequence e" by (auto simp: filter_empty_conv)
    have cur: "es_cursor sub' = ev_sequence (last ?new)" using False events sub' by simp
    have last: "last ?new = last log" by (rule last_filter_after [OF invar small False])
    show ?thesis
      using last_log_sequence [OF invar small e(1)] e(2) published_all [OF invar small False]
      unfolding cur last by simp
  qed
  then show "?c \<le> es_cursor sub'"
    and "es_cursor sub' = ?c \<or> unat (es_cursor sub') = length log"
    and "published log ?c (es_cursor sub') = eb_events batch"
    using events by auto
qed

lemma subscription_run_delivered:
  assumes "subscription_run cursor r log sub batches" and "length log < 2 ^ 64 - 1"
    and "list_all (\<lambda>b. \<not> eb_overflowed b) batches"
  shows "cursor \<le> es_cursor sub \<and>
    (es_cursor sub = cursor \<or> unat (es_cursor sub) \<le> length log) \<and>
    delivered batches = published log cursor (es_cursor sub)"
  using assms
proof (induction rule: subscription_run.induct)
  case (sub_start oc ec r log)
  then show ?case by (simp add: subscribe_def delivered_def)
next
  case (sub_publish r log sub batches r')
  let ?e = "last (rs_events (sh_state r'))"
  have invar: "event_log_invar r' (log @ [?e])"
    using event_log_invar_step subscription_run_log sub_publish.hyps by blast
  then have seq: "unat (ev_sequence ?e) = length log + 1"
    using event_log_nth [OF invar, of "length log"] sub_publish.prems(1)
    by (simp add: unat_sequence_at)
  have IH: "cursor \<le> es_cursor sub" "es_cursor sub = cursor \<or> unat (es_cursor sub) \<le> length log"
    "delivered batches = published log cursor (es_cursor sub)"
    using sub_publish by auto
  have "published (log @ [?e]) cursor (es_cursor sub) = published log cursor (es_cursor sub)"
    using IH(2) seq by (auto simp: published_extend word_less_nat_alt)
  with IH show ?case by auto
next
  case (sub_poll r log sub batches batch sub')
  have invar: "event_log_invar r log" using sub_poll.hyps(1) by (rule subscription_run_log)
  have IH: "cursor \<le> es_cursor sub" "es_cursor sub = cursor \<or> unat (es_cursor sub) \<le> length log"
    "delivered batches = published log cursor (es_cursor sub)" and fits: "\<not> eb_overflowed batch"
    using sub_poll by auto
  note up = next_batch_catches_up [OF invar sub_poll.prems(1) sub_poll.hyps(2) fits]
  have "published log cursor (es_cursor sub')
      = published log cursor (es_cursor sub) @ published log (es_cursor sub) (es_cursor sub')"
    using event_log_sorted [OF invar] IH(1) up(1) by (rule published_append)
  with IH up show ?case by (auto simp: delivered_def)
qed

section \<open>Properties\<close>

text \<open>C8: The bounded event stream refines the complete log.  As long as the sequence numbers are
  not exhausted, a read after any cursor reports an overflow exactly when an event after the cursor
  has been dropped; without overflow it returns exactly the events published after the cursor, in
  order; with overflow it returns an overflow marker followed by everything retained.  In both
  cases each event is contiguous with its predecessor and the latest sequence is the number of
  events published.\<close>

theorem events_after_refines_log:
  assumes "registry_run oc ec r log" and "length log < 2 ^ 64 - 1"
  shows "(let batch = events_after r cursor; dropped = length log - ec in
    (eb_overflowed batch \<longleftrightarrow> (\<exists>e. e \<in> set (take dropped log) \<and> cursor < ev_sequence e)) \<and>
    (if eb_overflowed batch
     then (\<exists>marker. ev_kind marker = StreamOverflow \<and> eb_events batch = marker # drop dropped log)
     else eb_events batch = filter (\<lambda>e. cursor < ev_sequence e) log) \<and>
    successively (\<lambda>a b. is_contiguous_after b a) (eb_events batch) \<and>
    unat (eb_latest_sequence batch) = length log)"
proof -
  from registry_run_event_log_invar [OF assms(1)] have invar: "event_log_invar r log"
    and ec: "evicted r log = length log - ec" by (auto simp: evicted_def)
  have "eb_overflowed (events_after r cursor) \<longleftrightarrow> log_missed r log cursor"
    by (rule events_after_overflowed [OF invar assms(2)])
  moreover have "log_missed r log cursor \<longleftrightarrow>
      (\<exists>e. e \<in> set (take (length log - ec) log) \<and> cursor < ev_sequence e)"
    by (auto simp: log_missed_def ec)
  ultimately show ?thesis
    using events_after_complete [OF invar assms(2)] events_after_marker [OF invar assms(2)]
      events_after_successively [OF invar] events_after_latest [OF invar assms(2)]
    unfolding Let_def ec by metis
qed

text \<open>A subscription delivers exactly once.  Under every interleaving of registry calls with
  polls of one client, after any poll the client has received exactly the events published after
  its initial cursor, each once and in order, provided no batch reported an overflow.\<close>

theorem subscription_exactly_once:
  assumes "subscription_run cursor r log sub batches" and "next_batch r sub = (batch, sub')"
    and "length log < 2 ^ 64 - 1" and "list_all (\<lambda>b. \<not> eb_overflowed b) (batches @ [batch])"
  shows "delivered (batches @ [batch]) = filter (\<lambda>e. cursor < ev_sequence e) log"
proof -
  have invar: "event_log_invar r log" using assms(1) by (rule subscription_run_log)
  have fits: "list_all (\<lambda>b. \<not> eb_overflowed b) batches" "\<not> eb_overflowed batch"
    using assms(4) by auto
  have before: "cursor \<le> es_cursor sub" "delivered batches = published log cursor (es_cursor sub)"
    using subscription_run_delivered [OF assms(1,3) fits(1)] by auto
  have "eb_events batch = filter (\<lambda>e. es_cursor sub < ev_sequence e) log"
    by (rule next_batch_catches_up(4) [OF invar assms(3,2) fits(2)])
  then have "delivered (batches @ [batch])
      = published log cursor (es_cursor sub) @ published log (es_cursor sub) (- 1)"
    using before(2) by (simp add: delivered_def published_def)
  also have "\<dots> = published log cursor (- 1)"
    using published_append [OF event_log_sorted [OF invar] before(1), of "- 1"] by simp
  finally show ?thesis by (simp add: published_def)
qed

text \<open>C9: The life of an operation.  In every run of the registry, as long as the operation counter
  is not exhausted, an operation that was once retained either has been dropped or still has its
  identity, kind, actor and other request fields, has not fallen back to the queue, has not lost
  progress, and if it was terminal has not changed at all.  One that has been dropped is dropped for
  good: no later state of the registry has an operation with its identifier.\<close>

theorem operation_history:
  assumes "registry_run oc ec r log" and "get r ident = Some a" and "registry_step\<^sup>*\<^sup>* r r'"
    and "rs_next_operation (sh_state r') \<noteq> - 1"
  shows "is_none_or (evolves a) (get r' ident) \<and>
    (get r' ident = None \<longrightarrow>
       (\<forall>r''. registry_step\<^sup>*\<^sup>* r' r'' \<and> rs_next_operation (sh_state r'') \<noteq> - 1 \<longrightarrow> get r'' ident = None))"
  using history_steps [OF assms(3) _ assms(2,4)] dropped_stays_dropped [OF assms(3) _ assms(2)]
    registry_run_history_invar [OF assms(1)] by blast

text \<open>The registry stays within its capacities and its identifiers are unique.\<close>

theorem registry_bounded:
  assumes "registry_run oc ec r log"
  shows "length (operations r) \<le> oc \<and> length (rs_events (sh_state r)) \<le> ec \<and>
    (rs_next_operation (sh_state r) = - 1 \<or> distinct (map op_id (operations r)))"
proof (intro conjI)
  show "length (operations r) \<le> oc"
    using registry_run_history_invar [OF assms] by (auto simp: history_invar_def operations_def Let_def)
  show "length (rs_events (sh_state r)) \<le> ec"
    using registry_run_event_log_invar [OF assms] by (auto simp: event_log_invar_def)
  show "rs_next_operation (sh_state r) = - 1 \<or> distinct (map op_id (operations r))"
    using registry_run_history_invar [OF assms] history_distinct by (auto simp: operations_def)
qed

section \<open>Witnesses\<close>

definition example_new_operation :: new_operation where
  "example_new_operation = \<lparr>no_kind = StartInstance, no_expected_generation = 4,
     no_affected_resources = [], no_actor = None, no_audit_id = None, no_created_at = ''t0''\<rparr>"

definition empty_registry :: shared where
  "empty_registry =
     \<lparr>sh_state = \<lparr>rs_next_operation = 1, rs_next_sequence = 1, rs_latest_generation = 0,
                  rs_operations = [], rs_events = []\<rparr>,
      sh_operation_capacity = 2, sh_event_capacity = 1\<rparr>"

definition example_registry :: shared where
  "example_registry = snd (create example_new_operation empty_registry)"

definition example_later_registry :: shared where
  "example_later_registry = snd (create example_new_operation example_registry)"

definition example_event :: "event_sequence \<Rightarrow> event" where
  "example_event n = \<lparr>ev_sequence = n, ev_snapshot_generation = 4, ev_kind = OperationChanged,
     ev_resource = None\<rparr>"

lemmas example_registry_defs =
  example_later_registry_def example_registry_def empty_registry_def example_new_operation_def
  create_def queued_operation_def publish_operation_event_def push_bounded_def saturating_add_def
  example_event_def Let_def

lemma example_events:
  "rs_events (sh_state example_registry) = [example_event 1]"
  "rs_events (sh_state example_later_registry) = [example_event 2]"
  "rs_next_operation (sh_state example_later_registry) = 3"
  by (simp_all add: example_registry_defs)

lemma example_run:
  "registry_run 2 1 empty_registry []" "registry_run 2 1 example_registry [example_event 1]"
  "registry_run 2 1 example_later_registry [example_event 1, example_event 2]"
  "registry_step example_registry example_later_registry"
proof -
  show r0: "registry_run 2 1 empty_registry []"
    by (rule run_new) (simp add: new_registry_def empty_registry_def)
  have "registry_step empty_registry example_registry"
    unfolding example_registry_def by (rule step_create [OF prod.collapse [symmetric]])
  from run_step [OF r0 this] show r1: "registry_run 2 1 example_registry [example_event 1]"
    by (simp add: example_events)
  show s2: "registry_step example_registry example_later_registry"
    unfolding example_later_registry_def by (rule step_create [OF prod.collapse [symmetric]])
  from run_step [OF r1 s2]
  show "registry_run 2 1 example_later_registry [example_event 1, example_event 2]"
    by (simp add: example_events)
qed

theorem events_after_refines_log_witness:
  "eb_overflowed (events_after example_later_registry 0) \<and>
   \<not> eb_overflowed (events_after example_later_registry 1) \<and>
   eb_events (events_after example_later_registry 1) = [example_event 2]"
  using events_after_refines_log [OF example_run(3), of 0]
    events_after_refines_log [OF example_run(3), of 1]
  by (auto simp: Let_def example_event_def)

theorem subscription_exactly_once_witness:
  "delivered [fst (next_batch example_later_registry (subscribe 1))] = [example_event 2]"
proof -
  have "subscription_run 1 example_later_registry [example_event 1, example_event 2] (subscribe 1) []"
    by (rule sub_start [OF example_run(3)])
  moreover have "\<not> eb_overflowed (fst (next_batch example_later_registry (subscribe 1)))"
    by (simp add: next_batch_def subscribe_def event_batch_of_def example_events Let_def
        example_event_def saturating_add_def)
  ultimately show ?thesis
    using subscription_exactly_once [OF _ prod.collapse [symmetric]]
    by (fastforce simp: example_event_def)
qed

text \<open>Operation 1 is dropped when the registry, which retains two, accepts a third one.\<close>

definition example_full_registry :: shared where
  "example_full_registry = snd (create example_new_operation example_later_registry)"

lemma example_full:
  "registry_step example_later_registry example_full_registry"
  "get example_full_registry (operation_name 1) = None"
  "rs_next_operation (sh_state example_full_registry) = 4"
  unfolding example_full_registry_def
  by (rule step_create [OF prod.collapse [symmetric]])
    (simp_all add: get_def example_registry_defs operation_name_def)

theorem operation_history_witness:
  "is_none_or (evolves (the (get example_registry (operation_name 1))))
     (get example_later_registry (operation_name 1)) \<and>
   get example_later_registry (operation_name 1) \<noteq> None \<and>
   get example_full_registry (operation_name 1) = None \<and>
   get (snd (create example_new_operation example_full_registry)) (operation_name 1) = None"
proof -
  let ?r = "snd (create example_new_operation example_full_registry)"
  have held: "get example_registry (operation_name 1) \<noteq> None"
    "get example_later_registry (operation_name 1) \<noteq> None"
    by (simp_all add: get_def example_registry_defs operation_name_def)
  then obtain a where a: "get example_registry (operation_name 1) = Some a" by auto
  have steps: "registry_step\<^sup>*\<^sup>* example_registry example_later_registry"
    using example_run(4) by (rule r_into_rtranclp)
  have full: "registry_step\<^sup>*\<^sup>* example_registry example_full_registry"
    using steps example_full(1) by (rule rtranclp.rtrancl_into_rtrancl)
  have last: "registry_step\<^sup>*\<^sup>* example_full_registry ?r"
    by (rule r_into_rtranclp) (rule step_create [OF prod.collapse [symmetric]])
  have next_id: "rs_next_operation (sh_state ?r) \<noteq> - 1"
    by (simp add: create_def Let_def publish_operation_event_def example_full(3) saturating_add_def)
  show ?thesis
    using operation_history [OF example_run(2) a steps] operation_history [OF example_run(2) a full]
      held a last next_id by (simp add: example_events example_full)
qed

theorem registry_bounded_witness:
  "length (operations example_later_registry) \<le> 2 \<and>
   length (rs_events (sh_state example_later_registry)) \<le> 1 \<and>
   distinct (map op_id (operations example_later_registry))"
  using registry_bounded [OF example_run(3)] by (simp add: example_events)

end
