(* ===== verification/Routes.thy ===== *)
theory Routes
  imports Transport Image_Store Operations
begin

text \<open>
  The routing half of the host API, \<open>crates/kernmux-daemon/src/host_api.rs\<close>: the typed resources
  that a path may name, the security metadata of each route, the strict parsers of query strings
  and command lines, the errors of the dispatcher and the views of stored artifacts.
\<close>

section \<open>Errors\<close>

definition host_error :: "error_code \<Rightarrow> string \<Rightarrow> bool \<Rightarrow> api_error" where
  "host_error code message retryable =
     \<lparr>err_code = code, err_message = message, err_retryable = retryable,
      err_current_generation = None, err_diagnostics = []\<rparr>"

definition invalid :: "string \<Rightarrow> api_error" where
  "invalid message = host_error InvalidRequest message False"

definition not_found :: api_error where
  "not_found = host_error NotFound ''resource was not found'' False"

definition backend :: "string \<Rightarrow> api_error" where
  "backend message = host_error BackendUnavailable message True"

fun registry_error :: "operation_registry_error \<Rightarrow> api_error" where
  "registry_error Reg_NotFound = not_found"
| "registry_error Reg_InvalidTransition =
     host_error Conflict ''operation cannot be changed in its current state'' False"
| "registry_error Reg_InvalidProgress =
     host_error Conflict ''operation cannot be changed in its current state'' False"
| "registry_error Reg_InvalidCapacity = host_error Internal ''operation registry is unavailable'' False"

definition schedule_error :: api_error where
  "schedule_error = host_error BackendUnavailable ''operation worker could not be scheduled'' True"

fun image_store_api_error :: "image_store_error \<Rightarrow> api_error" where
  "image_store_api_error InvalidSizeLimit = invalid ''image artifact is invalid or exceeds policy''"
| "image_store_api_error (InvalidArtifactId v) = invalid ''image artifact is invalid or exceeds policy''"
| "image_store_api_error SourceNotRegular = invalid ''image artifact is invalid or exceeds policy''"
| "image_store_api_error EmptyArtifact = invalid ''image artifact is invalid or exceeds policy''"
| "image_store_api_error (InvalidDiskImage d) = invalid ''image artifact is invalid or exceeds policy''"
| "image_store_api_error (InvalidOsImageMetadata d) = invalid ''image artifact is invalid or exceeds policy''"
| "image_store_api_error (TooLarge limit) = invalid ''image artifact is invalid or exceeds policy''"
| "image_store_api_error (DigestMismatch e a) = invalid ''image artifact is invalid or exceeds policy''"
| "image_store_api_error Store_NotFound = not_found"
| "image_store_api_error (Corrupt d) = backend ''image catalog is unavailable''"
| "image_store_api_error (MetadataEncoding d) = backend ''image catalog is unavailable''"
| "image_store_api_error (Store_Io operation errno) = backend ''image catalog is unavailable''"

fun image_catalog_task_error :: "image_catalog_error \<Rightarrow> api_error \<times> generation option" where
  "image_catalog_task_error (Catalog_StaleGeneration expected actual) =
     ((host_error PreconditionFailed ''image catalog generation has changed'' False)
        \<lparr>err_current_generation := Some actual\<rparr>, Some actual)"
| "image_catalog_task_error GenerationExhausted =
     (host_error BackendUnavailable ''image catalog generation is unavailable'' False, None)"
| "image_catalog_task_error (Catalog_Store e) = (image_store_api_error e, None)"

definition image_catalog_api_error :: "image_catalog_error \<Rightarrow> api_error" where
  "image_catalog_api_error e = fst (image_catalog_task_error e)"

section \<open>Resources\<close>

datatype instance_action = Action_Load | Action_LoadImage | Action_Start | Action_Stop | Action_Unload | Action_Console

definition operation_id_from_path :: "string \<Rightarrow> operation_id option" where
  "operation_id_from_path path =
     (case strip_prefix ''/1.0/operations/'' path of
        None \<Rightarrow> None
      | Some suffix \<Rightarrow> if suffix \<noteq> [] \<and> CHR ''/'' \<notin> set suffix then Some suffix else None)"

definition image_resource :: "string \<Rightarrow> (artifact_kind \<times> artifact_id) option" where
  "image_resource path =
     (case strip_prefix ''/1.0/images/'' path of
        None \<Rightarrow> None
      | Some suffix \<Rightarrow>
          (case split_char CHR ''/'' suffix of
             [kind, i] \<Rightarrow>
               (case (if kind = ''kernel'' then Some Art_Kernel
                      else if kind = ''initrd'' then Some Art_Initrd else None) of
                  None \<Rightarrow> None
                | Some k \<Rightarrow> map_option (Pair k) (ok (parse_artifact_id i)))
           | _ \<Rightarrow> None))"

definition os_image_resource :: "string \<Rightarrow> artifact_id option" where
  "os_image_resource path =
     (case strip_prefix ''/1.0/os-images/'' path of
        None \<Rightarrow> None
      | Some i \<Rightarrow> if i \<noteq> [] \<and> CHR ''/'' \<notin> set i then ok (parse_artifact_id i) else None)"

definition instance_action_of :: "string \<Rightarrow> instance_action option" where
  "instance_action_of segment =
     map_of [(''load'', Action_Load), (''load-image'', Action_LoadImage), (''start'', Action_Start),
       (''stop'', Action_Stop), (''unload'', Action_Unload), (''console'', Action_Console)] segment"

definition instance_resource :: "string \<Rightarrow> (instance_id \<times> instance_action option) option" where
  "instance_resource path =
     (case strip_prefix ''/1.0/instances/'' path of
        None \<Rightarrow> None
      | Some suffix \<Rightarrow>
          (case split_char CHR ''/'' suffix of
             [i] \<Rightarrow> map_option (\<lambda>i. (i, None)) (parse_word i)
           | [i, action] \<Rightarrow>
               (case parse_word i of
                  None \<Rightarrow> None
                | Some i \<Rightarrow> map_option (\<lambda>a. (i, Some a)) (instance_action_of action))
           | _ \<Rightarrow> None))"

section \<open>Routes\<close>

definition read_route :: route_security where
  "read_route = \<lparr>sec_class = ReadOnly, sec_audit_action = ReadInventory\<rparr>"

definition mutation_route :: route_security where
  "mutation_route = \<lparr>sec_class = Mutation, sec_audit_action = MutateLifecycle\<rparr>"

definition collection_paths :: "string list" where
  "collection_paths =
     [''/1.0'', ''/1.0/compatibility'', ''/1.0/resource-pool'', ''/1.0/instances'', ''/1.0/images'',
      ''/1.0/os-images'', ''/1.0/storage-devices'', ''/1.0/operations'', ''/1.0/events'']"

definition route_for :: "http_method \<Rightarrow> string \<Rightarrow> route_security option" where
  "route_for method path =
     (if method = GET \<and> path \<in> set collection_paths then Some read_route
      else if method = POST \<and> path \<in> {''/1.0/images'', ''/1.0/os-images''}
      then Some \<lparr>sec_class = Administration, sec_audit_action = ManageImages\<rparr>
      else if method = PUT \<and> path = ''/1.0/resource-pool''
      then Some \<lparr>sec_class = Mutation, sec_audit_action = MutateResourcePool\<rparr>
      else if method = POST \<and> path = ''/1.0/instances'' then Some mutation_route
      else if operation_id_from_path path \<noteq> None then
        (case method of
           GET \<Rightarrow> Some read_route
         | DELETE \<Rightarrow> Some \<lparr>sec_class = Mutation, sec_audit_action = CancelOperation\<rparr>
         | _ \<Rightarrow> None)
      else if image_resource path \<noteq> None then (if method = GET then Some read_route else None)
      else if os_image_resource path \<noteq> None then (if method = GET then Some read_route else None)
      else (case instance_resource path of
          None \<Rightarrow> None
        | Some (_, action) \<Rightarrow>
            (case (method, action) of
               (GET, None) \<Rightarrow> Some read_route
             | (PATCH, None) \<Rightarrow> Some mutation_route
             | (DELETE, None) \<Rightarrow> Some mutation_route
             | (POST, Some Action_Console) \<Rightarrow>
                 Some \<lparr>sec_class = Console, sec_audit_action = AttachConsole\<rparr>
             | (POST, Some _) \<Rightarrow> Some mutation_route
             | _ \<Rightarrow> None)))"

section \<open>Parameters of requests\<close>

definition parse_cursor :: "string option \<Rightarrow> api_error + event_sequence" where
  "parse_cursor query =
     (case query of
        None \<Rightarrow> Inr 0
      | Some q \<Rightarrow>
          (case strip_prefix ''after='' q of
             Some v \<Rightarrow>
               if v \<noteq> [] \<and> CHR ''&'' \<notin> set v
               then ok_or (invalid ''event cursor is invalid'') (parse_word v)
               else Inl (invalid ''event cursor query is invalid'')
           | None \<Rightarrow> Inl (invalid ''event cursor query is invalid'')))"

definition MAX_COMMAND_LINE_BYTES :: nat where "MAX_COMMAND_LINE_BYTES = 4096"

definition validate_command_line :: "string option \<Rightarrow> api_error + unit" where
  "validate_command_line command_line =
     (if is_some_and (\<lambda>line. length line > MAX_COMMAND_LINE_BYTES \<or> CHR 0x00 \<in> set line) command_line
      then Inl (invalid ''kernel command line is invalid'') else Inr ())"

section \<open>Views of artifacts\<close>

fun artifact_kind_of :: "image_kind \<Rightarrow> api_error + artifact_kind" where
  "artifact_kind_of Kernel_Image = Inr Art_Kernel"
| "artifact_kind_of Initrd_Image = Inr Art_Initrd"
| "artifact_kind_of Unknown_Image = Inl (invalid ''image kind is not supported'')"

definition image_artifact :: "artifact_record \<Rightarrow> image_artifact_info" where
  "image_artifact r =
     \<lparr>ia_schema_version = ar_schema_version r,
      ia_kind = (case ar_kind r of Art_Kernel \<Rightarrow> Kernel_Image | Art_Initrd \<Rightarrow> Initrd_Image
                 | Art_OsImage \<Rightarrow> Unknown_Image),
      ia_id = ar_id r, ia_bytes = ar_bytes r\<rparr>"

definition os_image_view :: "artifact_record \<Rightarrow> api_error + os_image_info" where
  "os_image_view r =
     and_then (ok_or (backend ''OS image catalog is inconsistent'') (ar_os_image r)) (\<lambda>m.
       Inr \<lparr>oi_schema_version = ar_schema_version r, oi_id = ar_id r, oi_label = or_label m,
            oi_format = or_format m, oi_stored_bytes = ar_bytes r,
            oi_virtual_bytes = or_virtual_bytes m, oi_architecture = or_architecture m\<rparr>)"

section \<open>Lemmas\<close>

lemma starts_with_append [simp]: "starts_with (p @ r) p"
  by (simp add: starts_with_def)

lemma parse_artifact_id_Inr: "parse_artifact_id v = Inr i \<Longrightarrow> i = v \<and> parse_artifact_id i = Inr i"
  by (auto simp: parse_artifact_id_def split: option.splits if_splits)

lemma operation_id_from_path_Some:
  "operation_id_from_path p = Some i \<longleftrightarrow> p = ''/1.0/operations/'' @ i \<and> i \<noteq> [] \<and> CHR ''/'' \<notin> set i"
proof (cases "strip_prefix ''/1.0/operations/'' p")
  case None
  then have "p \<noteq> ''/1.0/operations/'' @ i" by (metis option.distinct(1) strip_prefix_append)
  with None show ?thesis by (simp add: operation_id_from_path_def)
next
  case (Some suffix)
  then have "p = ''/1.0/operations/'' @ suffix" by (simp only: strip_prefix_eq_Some)
  with Some show ?thesis by (auto simp: operation_id_from_path_def)
qed

lemma image_resource_Some:
  assumes "image_resource p = Some (k, i)"
  shows "\<exists>r. p = ''/1.0/images/'' @ r" and "parse_artifact_id i = Inr i" and "k \<noteq> Art_OsImage"
proof -
  show "\<exists>r. p = ''/1.0/images/'' @ r"
    using assms by (auto simp: image_resource_def strip_prefix_eq_Some split: option.splits)
  show "parse_artifact_id i = Inr i" and "k \<noteq> Art_OsImage"
    using assms by (auto simp: image_resource_def result_iff dest: parse_artifact_id_Inr
        split: option.splits list.splits if_splits)
qed

lemma os_image_resource_Some:
  "os_image_resource p = Some i \<Longrightarrow> p = ''/1.0/os-images/'' @ i \<and> parse_artifact_id i = Inr i"
  by (auto simp: os_image_resource_def strip_prefix_eq_Some result_iff dest: parse_artifact_id_Inr
      split: option.splits if_splits)

lemma instance_resource_Some:
  "instance_resource p = Some x \<Longrightarrow> \<exists>r. p = ''/1.0/instances/'' @ r"
  by (auto simp: instance_resource_def strip_prefix_eq_Some split: option.splits)

text \<open>A path names a resource of at most one type, and never a collection.\<close>

lemma resource_heads:
  "operation_id_from_path p \<noteq> None \<Longrightarrow> take 7 p = ''/1.0/op''"
  "image_resource p \<noteq> None \<Longrightarrow> take 7 p = ''/1.0/im''"
  "os_image_resource p \<noteq> None \<Longrightarrow> take 7 p = ''/1.0/os''"
  "instance_resource p \<noteq> None \<Longrightarrow> take 7 p = ''/1.0/in''"
proof -
  show "take 7 p = ''/1.0/op''" if op: "operation_id_from_path p \<noteq> None"
  proof -
    from op obtain i where "operation_id_from_path p = Some i" by blast
    then have "p = ''/1.0/operations/'' @ i" by (simp only: operation_id_from_path_Some)
    then show ?thesis by simp
  qed
  show "image_resource p \<noteq> None \<Longrightarrow> take 7 p = ''/1.0/im''"
    using image_resource_Some(1) [of p] by (cases "image_resource p") auto
  show "os_image_resource p \<noteq> None \<Longrightarrow> take 7 p = ''/1.0/os''"
    using os_image_resource_Some [of p] by auto
  show "instance_resource p \<noteq> None \<Longrightarrow> take 7 p = ''/1.0/in''"
    using instance_resource_Some [of p] by auto
qed

lemma collection_not_resource:
  assumes "p \<in> set collection_paths"
  shows "instance_resource p = None"
proof -
  have "list_all (\<lambda>p. instance_resource p = None) collection_paths" by code_simp
  with assms show ?thesis by (simp add: list_all_iff)
qed

lemma instance_path_only:
  assumes "instance_resource p \<noteq> None"
  shows "operation_id_from_path p = None" and "image_resource p = None" and "os_image_resource p = None"
    and "p \<notin> set collection_paths"
  using resource_heads [of p] assms collection_not_resource [of p] by fastforce+

text \<open>Only \<open>GET\<close> is read only; the other classes in full.\<close>

lemmas route_splits = if_splits option.splits instance_action.splits prod.splits

lemma route_for_read_only:
  "route_for m p = Some route \<Longrightarrow> sec_class route = ReadOnly \<longleftrightarrow> m = GET"
  by (cases m) (auto simp: route_for_def read_route_def mutation_route_def split: route_splits)

lemma route_for_administration:
  "route_for m p = Some route \<Longrightarrow>
     sec_class route = Administration \<longleftrightarrow> m = POST \<and> p \<in> {''/1.0/images'', ''/1.0/os-images''}"
  by (cases m) (auto simp: route_for_def read_route_def mutation_route_def split: route_splits)

lemma route_for_console:
  assumes "route_for m p = Some route"
  shows "sec_class route = Console \<longleftrightarrow> m = POST \<and> (\<exists>i. instance_resource p = Some (i, Some Action_Console))"
proof
  show "m = POST \<and> (\<exists>i. instance_resource p = Some (i, Some Action_Console))" if "sec_class route = Console"
    using assms that
    by (cases m) (auto simp: route_for_def read_route_def mutation_route_def split: route_splits)
  assume r: "m = POST \<and> (\<exists>i. instance_resource p = Some (i, Some Action_Console))"
  have names: "{''/1.0/images'', ''/1.0/os-images'', ''/1.0/instances''} \<subseteq> set collection_paths"
    by (simp add: collection_paths_def)
  from r have "p \<notin> {''/1.0/images'', ''/1.0/os-images'', ''/1.0/instances''}"
    using instance_path_only(4) [of p] names by blast
  then show "sec_class route = Console"
    using assms r instance_path_only [of p] by (auto simp: route_for_def)
qed

end
