(* ===== verification/Placement.thy ===== *)
theory Placement
  imports Api_V1
begin

text \<open>
  CPU identity and availability checks, \<open>crates/kernmux-daemon/src/placement.rs\<close>, used by the
  resource-pool planner and the lifecycle planner.  The lemmas characterise the accepted requests
  of both checks completely.
\<close>

section \<open>Definitions\<close>

datatype cpu_placement_error =
    UnknownHardwareId u32
  | AmbiguousHardwareId u32
  | OfflineHardwareId u32
  | UnavailableHardwareId u32

fun cpu_placement_message :: "cpu_placement_error \<Rightarrow> string" where
  "cpu_placement_message (UnknownHardwareId i) = ''unknown CPU hardware ID '' @ show_word i"
| "cpu_placement_message (AmbiguousHardwareId i) =
     ''CPU hardware ID '' @ show_word i @ '' is not unique''"
| "cpu_placement_message (OfflineHardwareId i) =
     ''CPU hardware ID '' @ show_word i @ '' is offline''"
| "cpu_placement_message (UnavailableHardwareId i) =
     ''CPU hardware ID '' @ show_word i @ '' is not available in the resource pool''"

text \<open>The body of the loop over the CPUs that newly enter the pool.\<close>

definition check_entering_cpu :: "cpu list \<Rightarrow> u32 \<Rightarrow> cpu_placement_error + unit" where
  "check_entering_cpu cpus hid =
     (case filter (\<lambda>c. cpu_hardware_id c = hid) cpus of
        [] \<Rightarrow> Inl (UnknownHardwareId hid)
      | [c] \<Rightarrow> if \<not> cpu_online c then Inl (OfflineHardwareId hid) else Inr ()
      | _ \<Rightarrow> Inl (AmbiguousHardwareId hid))"

fun check_entering_cpus :: "cpu list \<Rightarrow> u32 list \<Rightarrow> cpu_placement_error + unit" where
  "check_entering_cpus cpus [] = Inr ()"
| "check_entering_cpus cpus (hid # hids) =
     and_then (check_entering_cpu cpus hid) (\<lambda>_. check_entering_cpus cpus hids)"

definition validate_pool_cpus :: "host_snapshot \<Rightarrow> u32 list \<Rightarrow> cpu_placement_error + unit" where
  "validate_pool_cpus snapshot requested =
     (let retained = btree_set (rp_cpu_hardware_ids (hs_resource_pool snapshot))
      in check_entering_cpus (ct_cpus (hs_topology snapshot))
           (filter (\<lambda>hid. hid \<notin> set retained) requested))"

definition validate_instance_cpus ::
  "host_snapshot \<Rightarrow> u32 list \<Rightarrow> u32 list \<Rightarrow> cpu_placement_error + unit" where
  "validate_instance_cpus snapshot requested retained =
     (let available =
        btree_set (rp_available_cpu_hardware_ids (hs_resource_pool snapshot) @ retained)
      in case find (\<lambda>hid. hid \<notin> set available) requested of
           None \<Rightarrow> Inr ()
         | Some hid \<Rightarrow> Inl (UnavailableHardwareId hid))"

section \<open>Lemmas\<close>

text \<open>What the topology must say about a CPU that enters the pool: exactly one record, online.\<close>

definition uniquely_online :: "cpu list \<Rightarrow> u32 \<Rightarrow> bool" where
  "uniquely_online cpus hid \<longleftrightarrow>
     (\<exists>c. filter (\<lambda>c. cpu_hardware_id c = hid) cpus = [c] \<and> cpu_online c)"

lemma check_entering_cpu_ok [result_iff]:
  "check_entering_cpu cpus hid = Inr u \<longleftrightarrow> uniquely_online cpus hid"
  by (auto simp: check_entering_cpu_def uniquely_online_def split: list.splits)

lemma check_entering_cpus_ok:
  "check_entering_cpus cpus hids = Inr u \<longleftrightarrow> list_all (uniquely_online cpus) hids"
  by (induction hids) (auto simp: result_iff)

text \<open>The pool check accepts a request exactly when every requested CPU that is not already
  in the pool is described by exactly one CPU of the host topology, and that one is online.\<close>

theorem validate_pool_cpus_ok_iff:
  "validate_pool_cpus snapshot requested = Inr () \<longleftrightarrow>
     set requested \<subseteq> set (rp_cpu_hardware_ids (hs_resource_pool snapshot)) \<union>
       {hid. \<exists>c. filter (\<lambda>c. cpu_hardware_id c = hid) (ct_cpus (hs_topology snapshot)) = [c] \<and>
                 cpu_online c}"
  by (auto simp: validate_pool_cpus_def Let_def check_entering_cpus_ok list_all_iff
      uniquely_online_def)

lemma validate_instance_cpus_ok [result_iff]:
  "validate_instance_cpus snapshot requested retained = Inr u \<longleftrightarrow>
     set requested \<subseteq>
       set (rp_available_cpu_hardware_ids (hs_resource_pool snapshot)) \<union> set retained"
  by (auto simp: validate_instance_cpus_def Let_def dest: find_SomeD find_NoneD
      split: option.splits)

lemma validate_instance_cpus_error:
  "validate_instance_cpus snapshot requested retained = Inl e \<Longrightarrow>
     \<exists>hid \<in> set requested. e = UnavailableHardwareId hid \<and> hid \<notin> set retained \<and>
       hid \<notin> set (rp_available_cpu_hardware_ids (hs_resource_pool snapshot))"
  by (auto simp: validate_instance_cpus_def Let_def dest: find_SomeD split: option.splits)

lemma validate_pool_cpus_retains:
  "set requested \<subseteq> set (rp_cpu_hardware_ids (hs_resource_pool snapshot)) \<Longrightarrow>
     validate_pool_cpus snapshot requested = Inr ()"
proof -
  assume "set requested \<subseteq> set (rp_cpu_hardware_ids (hs_resource_pool snapshot))"
  then have "filter (\<lambda>hid. hid \<notin> set (btree_set (rp_cpu_hardware_ids (hs_resource_pool snapshot))))
      requested = []"
    by (auto simp: filter_empty_conv)
  then show ?thesis by (simp add: validate_pool_cpus_def Let_def)
qed

end
