(* ===== verification/Lifecycle.thy ===== *)
theory Lifecycle
  imports Placement
begin

text \<open>
  The lifecycle planner, \<open>crates/kernmux-daemon/src/lifecycle.rs\<close>: every request type, every
  validation and every planned Kerf argument vector, in the order in which the code makes its
  checks.  The lemmas characterise the accepted requests and the arguments; the properties state
  what an accepted plan guarantees about memory isolation, device isolation, CPU ownership and the
  argument vector that is handed to the privileged Kerf process.
\<close>

section \<open>Requests and plans\<close>

record instance_request =
  ir_expected_generation :: generation
  ir_id :: instance_id

record create_request =
  cr_expected_generation :: generation
  cr_id :: instance_id
  cr_name :: string
  cr_cpu_hardware_ids :: "u32 list"
  cr_memory_bytes :: u64

record update_request =
  ur_instance :: instance_request
  ur_cpu_hardware_ids :: "u32 list option"
  ur_memory_bytes :: "u64 option"
  ur_device_ids :: "string list option"
  ur_dry_run :: bool

record load_request =
  lr_instance :: instance_request
  lr_kernel :: string
  lr_initrd :: "string option"
  lr_cmdline :: "string option"

record stop_request =
  sr_instance :: instance_request
  sr_force :: bool

datatype lifecycle_request =
    Create create_request
  | Update update_request
  | Load load_request
  | Start instance_request
  | Stop stop_request
  | Unload instance_request
  | Delete instance_request

datatype expected_state =
    Expect_Instance instance_id instance_state
  | Expect_InstanceResources
      (ex_id: instance_id) (ex_state: instance_state) (ex_name: "string option")
      (ex_cpu_hardware_ids: "u32 list option") (ex_memory_bytes: "u64 option")
      (ex_device_ids: "string list option")
  | Expect_ResourcePool "u32 list" u64
  | Expect_Absent instance_id

record kerf_invocation =
  inv_arguments :: "string list"
  inv_expected_state :: expected_state
  inv_mutates_kernel :: bool

section \<open>Rejections\<close>

datatype device_placement_error =
    EmptySelection
  | InvalidPciId string
  | Duplicate
  | NotManaged string
  | Unavailable string
  | OwnedByPeer string string
  | MissingIommuGroup string
  | IncompleteIommuGroup string u32 "string list"

fun device_error_code :: "device_placement_error \<Rightarrow> error_code" where
  "device_error_code EmptySelection = InvalidRequest"
| "device_error_code (InvalidPciId _) = InvalidRequest"
| "device_error_code Duplicate = InvalidRequest"
| "device_error_code (NotManaged _) = Conflict"
| "device_error_code (Unavailable _) = Conflict"
| "device_error_code (OwnedByPeer _ _) = Conflict"
| "device_error_code (MissingIommuGroup _) = Conflict"
| "device_error_code (IncompleteIommuGroup _ _ _) = Conflict"

datatype memory_placement_error =
    InsufficientAvailable u64 u64
  | NoContiguousPoolChunk u64
  | MissingInstanceBase instance_id
  | LeavesPoolChunk u64 u64
  | OverlapsInstance string
  | AddressOverflow

datatype lifecycle_plan_error =
    StaleGeneration generation generation
  | Invalid_Request string
  | CpuPlacement cpu_placement_error
  | MemoryPlacement memory_placement_error
  | DevicePlacement device_placement_error
  | Not_Found
  | AlreadyExists
  | InvalidState instance_state instance_state

fun plan_error_code :: "lifecycle_plan_error \<Rightarrow> error_code" where
  "plan_error_code (StaleGeneration _ _) = PreconditionFailed"
| "plan_error_code (Invalid_Request _) = InvalidRequest"
| "plan_error_code Not_Found = NotFound"
| "plan_error_code (DevicePlacement e) = device_error_code e"
| "plan_error_code (CpuPlacement _) = Conflict"
| "plan_error_code (MemoryPlacement _) = Conflict"
| "plan_error_code AlreadyExists = Conflict"
| "plan_error_code (InvalidState _ _) = Conflict"

section \<open>Validation\<close>

definition validate_id :: "instance_id \<Rightarrow> lifecycle_plan_error + unit" where
  "validate_id i =
     (if \<not> (1 \<le> i \<and> i \<le> 511)
      then Inl (Invalid_Request ''instance ID must be between 1 and 511'') else Inr ())"

definition validate_name :: "string \<Rightarrow> lifecycle_plan_error + unit" where
  "validate_name name =
     (let valid = name \<noteq> [] \<and> length name \<le> 63 \<and>
        list_all (\<lambda>b. is_ascii_alphanumeric b \<or> b \<in> {CHR ''.'', CHR ''_'', CHR ''-''}) name \<and>
        is_ascii_alphanumeric (hd name)
      in if \<not> valid
         then Inl (Invalid_Request ''instance name contains unsupported characters'')
         else Inr ())"

definition validate_cpus :: "u32 list \<Rightarrow> lifecycle_plan_error + unit" where
  "validate_cpus cpus =
     (if cpus = [] \<or> length (btree_set cpus) \<noteq> length cpus
      then Inl (Invalid_Request ''CPU allocation must be non-empty and contain no duplicates'')
      else Inr ())"

definition require_instance ::
  "host_snapshot \<Rightarrow> instance_id \<Rightarrow> instance_state \<Rightarrow> lifecycle_plan_error + inst" where
  "require_instance snapshot i required =
     and_then (validate_id i) (\<lambda>_.
     and_then (ok_or Not_Found (find (\<lambda>x. in_id x = i) (hs_instances snapshot))) (\<lambda>x.
     if in_state x \<noteq> required then Inl (InvalidState required (in_state x)) else Inr x))"

definition require_state ::
  "host_snapshot \<Rightarrow> instance_id \<Rightarrow> instance_state \<Rightarrow> lifecycle_plan_error + unit" where
  "require_state snapshot i required = map_ok (\<lambda>_. ()) (require_instance snapshot i required)"

fun checked_sum_from :: "u64 \<Rightarrow> u64 list \<Rightarrow> memory_placement_error + u64" where
  "checked_sum_from acc [] = Inr acc"
| "checked_sum_from acc (v # vs) =
     and_then (ok_or AddressOverflow (checked_add acc v)) (\<lambda>t. checked_sum_from t vs)"

definition checked_sum :: "u64 list \<Rightarrow> memory_placement_error + u64" where
  "checked_sum vs = checked_sum_from 0 vs"

definition validate_create_memory ::
  "host_snapshot \<Rightarrow> u64 \<Rightarrow> memory_placement_error + unit" where
  "validate_create_memory snapshot requested_bytes =
     and_then (checked_sum (map mr_bytes (rp_memory_regions (hs_resource_pool snapshot))))
       (\<lambda>pool_bytes.
     and_then (checked_sum (map (\<lambda>x. ra_memory_bytes (in_resources x)) (hs_instances snapshot)))
       (\<lambda>assigned_bytes.
     let available_bytes = saturating_sub pool_bytes assigned_bytes
     in if requested_bytes > available_bytes
        then Inl (InsufficientAvailable requested_bytes available_bytes)
        else if \<not> list_ex (\<lambda>r. mr_bytes r \<ge> requested_bytes)
                  (rp_memory_regions (hs_resource_pool snapshot))
        then Inl (NoContiguousPoolChunk requested_bytes)
        else Inr ()))"

fun check_memory_peers :: "u64 \<Rightarrow> u64 \<Rightarrow> inst list \<Rightarrow> memory_placement_error + unit" where
  "check_memory_peers base requested_end [] = Inr ()"
| "check_memory_peers base requested_end (peer # peers) =
     (case ra_memory_base (in_resources peer) of
        None \<Rightarrow>
          if ra_memory_bytes (in_resources peer) = 0 then check_memory_peers base requested_end peers
          else Inl (MissingInstanceBase (in_id peer))
      | Some peer_base \<Rightarrow>
          and_then
            (ok_or AddressOverflow (checked_add peer_base (ra_memory_bytes (in_resources peer))))
            (\<lambda>peer_end.
               if base < peer_end \<and> peer_base < requested_end
               then Inl (OverlapsInstance (in_name peer))
               else check_memory_peers base requested_end peers))"

definition validate_update_memory ::
  "host_snapshot \<Rightarrow> inst \<Rightarrow> u64 \<Rightarrow> memory_placement_error + unit" where
  "validate_update_memory snapshot x requested_bytes =
     (if requested_bytes \<le> ra_memory_bytes (in_resources x) then Inr ()
      else
      and_then (ok_or (MissingInstanceBase (in_id x)) (ra_memory_base (in_resources x))) (\<lambda>base.
      and_then (ok_or AddressOverflow (checked_add base requested_bytes)) (\<lambda>requested_end.
      let remains_in_chunk =
        list_ex (\<lambda>r. is_some_and (\<lambda>chunk_end. mr_base r \<le> base \<and> requested_end \<le> chunk_end)
                       (checked_add (mr_base r) (mr_bytes r)))
          (rp_memory_regions (hs_resource_pool snapshot))
      in if \<not> remains_in_chunk then Inl (LeavesPoolChunk base requested_bytes)
         else check_memory_peers base requested_end
                (filter (\<lambda>peer. in_id peer \<noteq> in_id x) (hs_instances snapshot)))))"

definition is_canonical_pci_id :: "string \<Rightarrow> bool" where
  "is_canonical_pci_id value \<longleftrightarrow>
     length value = 12 \<and> value ! 4 = CHR '':'' \<and> value ! 7 = CHR '':'' \<and> value ! 10 = CHR ''.'' \<and>
     list_all (\<lambda>(i, b). i \<in> {4, 7, 10} \<or> is_lower_hex b) (enumerate 0 value)"

fun check_device_peers :: "string list \<Rightarrow> inst list \<Rightarrow> device_placement_error + unit" where
  "check_device_peers requested [] = Inr ()"
| "check_device_peers requested (peer # peers) =
     (case find (\<lambda>pci_id. pci_id \<in> set requested) (ra_device_ids (in_resources peer)) of
        Some pci_id \<Rightarrow> Inl (OwnedByPeer pci_id (in_name peer))
      | None \<Rightarrow> check_device_peers requested peers)"

definition check_device ::
  "string list \<Rightarrow> (string \<Rightarrow> pci_device option) \<Rightarrow> string list \<Rightarrow> string list \<Rightarrow> string
     \<Rightarrow> device_placement_error + unit" where
  "check_device requested managed available owned pci_id =
     and_then (ok_or (NotManaged pci_id) (managed pci_id)) (\<lambda>device.
     if pci_id \<notin> set available \<and> pci_id \<notin> set owned then Inl (Unavailable pci_id)
     else
     and_then (ok_or (MissingIommuGroup pci_id) (pd_iommu_group device)) (\<lambda>group.
     let missing = filter (\<lambda>m. m \<notin> set requested \<or> managed m = None)
                     (pd_iommu_group_members device)
     in if missing \<noteq> [] then Inl (IncompleteIommuGroup pci_id group missing) else Inr ()))"

fun check_devices ::
  "string list \<Rightarrow> (string \<Rightarrow> pci_device option) \<Rightarrow> string list \<Rightarrow> string list \<Rightarrow> string list
     \<Rightarrow> device_placement_error + unit" where
  "check_devices requested managed available owned [] = Inr ()"
| "check_devices requested managed available owned (d # ds) =
     and_then (check_device requested managed available owned d)
       (\<lambda>_. check_devices requested managed available owned ds)"

definition managed_devices :: "host_snapshot \<Rightarrow> string \<Rightarrow> pci_device option" where
  "managed_devices snapshot =
     btree_map_get (map (\<lambda>d. (pd_pci_id d, d)) (rp_devices (hs_resource_pool snapshot)))"

definition validate_update_devices ::
  "host_snapshot \<Rightarrow> inst \<Rightarrow> string list \<Rightarrow> device_placement_error + unit" where
  "validate_update_devices snapshot x requested =
     (if requested = [] then Inl EmptySelection
      else if length (btree_set requested) \<noteq> length requested then Inl Duplicate
      else case find (\<lambda>pci_id. \<not> is_canonical_pci_id pci_id) requested of
        Some pci_id \<Rightarrow> Inl (InvalidPciId pci_id)
      | None \<Rightarrow>
          and_then
            (check_device_peers requested
               (filter (\<lambda>peer. in_id peer \<noteq> in_id x) (hs_instances snapshot)))
            (\<lambda>_. check_devices requested (managed_devices snapshot)
                   (btree_set (rp_available_device_ids (hs_resource_pool snapshot)))
                   (btree_set (ra_device_ids (in_resources x))) requested))"

section \<open>Planning\<close>

definition cpu_list :: "u32 list \<Rightarrow> string" where
  "cpu_list cpus = join '','' (map show_word cpus)"

definition id_option :: "instance_id \<Rightarrow> string" where
  "id_option i = ''--id='' @ show_word i"

definition plan_create ::
  "create_request \<Rightarrow> host_snapshot \<Rightarrow> lifecycle_plan_error + kerf_invocation" where
  "plan_create request snapshot =
     and_then (validate_name (cr_name request)) (\<lambda>_.
     and_then (validate_id (cr_id request)) (\<lambda>_.
     and_then (validate_cpus (cr_cpu_hardware_ids request)) (\<lambda>_.
     and_then (map_err CpuPlacement
       (validate_instance_cpus snapshot (cr_cpu_hardware_ids request) [])) (\<lambda>_.
     if cr_memory_bytes request = 0
     then Inl (Invalid_Request ''memory allocation must be greater than zero'')
     else if list_ex (\<lambda>x. in_id x = cr_id request \<or> in_name x = cr_name request)
               (hs_instances snapshot)
     then Inl AlreadyExists
     else
     and_then (map_err MemoryPlacement
       (validate_create_memory snapshot (cr_memory_bytes request))) (\<lambda>_.
     Inr \<lparr>inv_arguments =
            [''create'', cr_name request, id_option (cr_id request),
             ''--cpus='' @ cpu_list (cr_cpu_hardware_ids request),
             ''--memory='' @ show_word (cr_memory_bytes request)],
          inv_expected_state =
            Expect_InstanceResources (cr_id request) Ready (Some (cr_name request))
              (Some (cr_cpu_hardware_ids request)) (Some (cr_memory_bytes request)) None,
          inv_mutates_kernel = True\<rparr>)))))"

definition update_cpu_arguments ::
  "host_snapshot \<Rightarrow> inst \<Rightarrow> u32 list option \<Rightarrow> lifecycle_plan_error + string list" where
  "update_cpu_arguments snapshot x cpus =
     (case cpus of
        None \<Rightarrow> Inr []
      | Some cs \<Rightarrow>
          and_then (validate_cpus cs) (\<lambda>_.
          and_then (map_err CpuPlacement
            (validate_instance_cpus snapshot cs (ra_cpu_hardware_ids (in_resources x)))) (\<lambda>_.
          Inr [''--cpus='' @ cpu_list cs])))"

definition update_memory_arguments ::
  "host_snapshot \<Rightarrow> inst \<Rightarrow> u64 option \<Rightarrow> lifecycle_plan_error + string list" where
  "update_memory_arguments snapshot x memory =
     (case memory of
        None \<Rightarrow> Inr []
      | Some m \<Rightarrow>
          if m = 0 then Inl (Invalid_Request ''memory allocation must be greater than zero'')
          else and_then (map_err MemoryPlacement (validate_update_memory snapshot x m)) (\<lambda>_.
               Inr [''--memory='' @ show_word m]))"

definition update_device_arguments ::
  "host_snapshot \<Rightarrow> inst \<Rightarrow> string list option \<Rightarrow> lifecycle_plan_error + string list" where
  "update_device_arguments snapshot x devices =
     (case devices of
        None \<Rightarrow> Inr []
      | Some ds \<Rightarrow>
          and_then (map_err DevicePlacement (validate_update_devices snapshot x ds)) (\<lambda>_.
          Inr [''--devices='' @ join '','' ds]))"

definition plan_update ::
  "update_request \<Rightarrow> host_snapshot \<Rightarrow> lifecycle_plan_error + kerf_invocation" where
  "plan_update request snapshot =
     and_then (require_instance snapshot (ir_id (ur_instance request)) Ready) (\<lambda>x.
     and_then (validate_name (in_name x)) (\<lambda>_.
     if ur_cpu_hardware_ids request = None \<and> ur_memory_bytes request = None \<and>
        ur_device_ids request = None
     then Inl (Invalid_Request ''an update must specify CPU, memory, or device resources'')
     else
     and_then (update_cpu_arguments snapshot x (ur_cpu_hardware_ids request)) (\<lambda>cpu_args.
     and_then (update_memory_arguments snapshot x (ur_memory_bytes request)) (\<lambda>memory_args.
     and_then (update_device_arguments snapshot x (ur_device_ids request)) (\<lambda>device_args.
     Inr \<lparr>inv_arguments =
            [''update'', in_name x] @ cpu_args @ memory_args @ device_args @
            (if ur_dry_run request then [''--dry-run''] else []),
          inv_expected_state =
            Expect_InstanceResources (ir_id (ur_instance request)) Ready None
              (ur_cpu_hardware_ids request) (ur_memory_bytes request) (ur_device_ids request),
          inv_mutates_kernel = (\<not> ur_dry_run request)\<rparr>)))))"

definition plan_load ::
  "load_request \<Rightarrow> host_snapshot \<Rightarrow> lifecycle_plan_error + kerf_invocation" where
  "plan_load request snapshot =
     and_then (require_state snapshot (ir_id (lr_instance request)) Ready) (\<lambda>_.
     if lr_kernel request = [] then Inl (Invalid_Request ''kernel path must not be empty'')
     else
     and_then
       (case lr_initrd request of
          None \<Rightarrow> Inr []
        | Some initrd \<Rightarrow>
            if initrd = [] then Inl (Invalid_Request ''initrd path must not be empty'')
            else Inr [''--initrd='' @ initrd]) (\<lambda>initrd_args.
     Inr \<lparr>inv_arguments =
            [''load'', id_option (ir_id (lr_instance request)), ''--kernel='' @ lr_kernel request] @
            initrd_args @
            (case lr_cmdline request of None \<Rightarrow> [] | Some c \<Rightarrow> [''--cmdline='' @ c]),
          inv_expected_state = Expect_Instance (ir_id (lr_instance request)) Loaded,
          inv_mutates_kernel = True\<rparr>))"

definition plan_stop ::
  "stop_request \<Rightarrow> host_snapshot \<Rightarrow> lifecycle_plan_error + kerf_invocation" where
  "plan_stop request snapshot =
     and_then (require_state snapshot (ir_id (sr_instance request)) Active) (\<lambda>_.
     Inr \<lparr>inv_arguments =
            [''kill'', id_option (ir_id (sr_instance request))] @
            (if sr_force request then [''--force''] else []),
          inv_expected_state = Expect_Instance (ir_id (sr_instance request)) Loaded,
          inv_mutates_kernel = True\<rparr>)"

definition plan_state_command ::
  "string \<Rightarrow> instance_request \<Rightarrow> host_snapshot \<Rightarrow> instance_state \<Rightarrow> instance_state
     \<Rightarrow> lifecycle_plan_error + kerf_invocation" where
  "plan_state_command command request snapshot required expected =
     and_then (require_state snapshot (ir_id request) required) (\<lambda>_.
     Inr \<lparr>inv_arguments = [command, id_option (ir_id request)],
          inv_expected_state =
            (if expected = Absent then Expect_Absent (ir_id request)
             else Expect_Instance (ir_id request) expected),
          inv_mutates_kernel = True\<rparr>)"

fun request_generation :: "lifecycle_request \<Rightarrow> generation" where
  "request_generation (Create r) = cr_expected_generation r"
| "request_generation (Update r) = ir_expected_generation (ur_instance r)"
| "request_generation (Load r) = ir_expected_generation (lr_instance r)"
| "request_generation (Start r) = ir_expected_generation r"
| "request_generation (Unload r) = ir_expected_generation r"
| "request_generation (Delete r) = ir_expected_generation r"
| "request_generation (Stop r) = ir_expected_generation (sr_instance r)"

definition plan ::
  "lifecycle_request \<Rightarrow> host_snapshot \<Rightarrow> lifecycle_plan_error + kerf_invocation" where
  "plan request snapshot =
     (let expected_generation = request_generation request
      in if expected_generation \<noteq> hs_generation snapshot
         then Inl (StaleGeneration expected_generation (hs_generation snapshot))
         else case request of
           Create r \<Rightarrow> plan_create r snapshot
         | Update r \<Rightarrow> plan_update r snapshot
         | Load r \<Rightarrow> plan_load r snapshot
         | Start r \<Rightarrow> plan_state_command ''exec'' r snapshot Loaded Active
         | Stop r \<Rightarrow> plan_stop r snapshot
         | Unload r \<Rightarrow> plan_state_command ''unload'' r snapshot Loaded Ready
         | Delete r \<Rightarrow> plan_state_command ''delete'' r snapshot Ready Absent)"

section \<open>Accepted requests\<close>

definition valid_name :: "string \<Rightarrow> bool" where
  "valid_name name \<longleftrightarrow> name \<noteq> [] \<and> length name \<le> 63 \<and>
     (\<forall>b \<in> set name. is_ascii_alphanumeric b \<or> b \<in> {CHR ''.'', CHR ''_'', CHR ''-''}) \<and>
     is_ascii_alphanumeric (hd name)"

lemma validate_name_ok [result_iff]: "validate_name name = Inr u \<longleftrightarrow> valid_name name"
  by (auto simp: validate_name_def valid_name_def Let_def list_all_iff)

lemma validate_id_ok [result_iff]: "validate_id i = Inr u \<longleftrightarrow> 1 \<le> i \<and> i \<le> 511"
  by (auto simp: validate_id_def)

lemma validate_cpus_ok [result_iff]: "validate_cpus cpus = Inr u \<longleftrightarrow> cpus \<noteq> [] \<and> distinct cpus"
  by (auto simp: validate_cpus_def length_btree_set)

lemma require_instance_ok [result_iff]:
  "require_instance snapshot i required = Inr x \<longleftrightarrow>
     1 \<le> i \<and> i \<le> 511 \<and> find (\<lambda>x. in_id x = i) (hs_instances snapshot) = Some x \<and>
     in_state x = required"
  by (auto simp: require_instance_def result_iff split: if_splits)

lemma require_state_ok [result_iff]:
  "require_state snapshot i required = Inr u \<longleftrightarrow>
     (\<exists>x. require_instance snapshot i required = Inr x)"
  by (auto simp: require_state_def map_ok_eq_Inr)

lemma checked_sum_from_ok:
  "checked_sum_from acc vs = Inr t \<longleftrightarrow>
     unat acc + sum_list (map unat vs) < 2 ^ 64 \<and> unat t = unat acc + sum_list (map unat vs)"
proof (induction vs arbitrary: acc)
  case Nil
  then show ?case using unsigned_less [of acc] by (auto simp: word_unat_eq_iff)
next
  case (Cons v vs)
  show ?case
    using Cons [of "acc + v"]
    by (auto simp: result_iff word_checked unat_add_no_overflow add.assoc)
qed

lemma checked_sum_ok [result_iff]:
  "checked_sum vs = Inr t \<longleftrightarrow>
     sum_list (map unat vs) < 2 ^ 64 \<and> unat t = sum_list (map unat vs)"
  by (simp add: checked_sum_def checked_sum_from_ok)

text \<open>Totals in unbounded arithmetic, to state what the overflow checks protect.\<close>

definition pool_total :: "host_snapshot \<Rightarrow> nat" where
  "pool_total s = sum_list (map (unat \<circ> mr_bytes) (rp_memory_regions (hs_resource_pool s)))"

definition assigned_total :: "host_snapshot \<Rightarrow> nat" where
  "assigned_total s = sum_list (map (\<lambda>x. unat (ra_memory_bytes (in_resources x))) (hs_instances s))"

lemma validate_create_memory_ok [result_iff]:
  "validate_create_memory s m = Inr u \<longleftrightarrow>
     pool_total s < 2 ^ 64 \<and> assigned_total s < 2 ^ 64 \<and>
     unat m \<le> pool_total s - assigned_total s \<and>
     (\<exists>r \<in> set (rp_memory_regions (hs_resource_pool s)). m \<le> mr_bytes r)"
proof -
  have pool: "checked_sum (map mr_bytes (rp_memory_regions (hs_resource_pool s))) = Inr t \<longleftrightarrow>
      pool_total s < 2 ^ 64 \<and> unat t = pool_total s" for t
    by (simp add: checked_sum_ok pool_total_def comp_def)
  have assigned: "checked_sum (map (\<lambda>x. ra_memory_bytes (in_resources x)) (hs_instances s)) = Inr t
      \<longleftrightarrow> assigned_total s < 2 ^ 64 \<and> unat t = assigned_total s" for t
    by (simp add: checked_sum_ok assigned_total_def comp_def)
  have ex: "\<exists>p :: u64. unat p = n" if "n < 2 ^ 64" for n
    using that by (intro exI [of _ "of_nat n"]) (simp add: unat_of_nat)
  have step: "m \<le> saturating_sub p a \<longleftrightarrow> unat m \<le> unat p - unat a" for p a
    by (simp add: word_le_nat_alt unat_saturating_sub)
  show ?thesis
    using ex [of "pool_total s"] ex [of "assigned_total s"]
    by (auto simp: validate_create_memory_def and_then_eq_Inr pool assigned Let_def step
        list_ex_iff linorder_not_less split: if_splits) metis
qed

lemmas plan_create_iff =
  plan_create_def validate_name_ok validate_id_ok validate_cpus_ok validate_instance_cpus_ok
  validate_create_memory_ok

section \<open>Memory ranges\<close>

definition region_range :: "memory_region \<Rightarrow> nat set" where
  "region_range r = {unat (mr_base r)..<unat (mr_base r) + unat (mr_bytes r)}"

definition mem_range :: "inst \<Rightarrow> nat set" where
  "mem_range x = (case ra_memory_base (in_resources x) of
     None \<Rightarrow> {}
   | Some b \<Rightarrow> {unat b..<unat b + unat (ra_memory_bytes (in_resources x))})"

lemma check_memory_peers_ok:
  assumes "check_memory_peers base requested_end peers = Inr u" and "peer \<in> set peers"
  shows "{unat base..<unat requested_end} \<inter> mem_range peer = {}"
  using assms
proof (induction base requested_end peers rule: check_memory_peers.induct)
  case (2 base requested_end p peers)
  show ?case
  proof (cases "peer = p")
    case False
    with 2 show ?thesis by (auto simp: result_iff split: option.splits if_splits)
  next
    case True
    show ?thesis
    proof (cases "ra_memory_base (in_resources p)")
      case None
      with True show ?thesis by (simp add: mem_range_def)
    next
      case (Some b)
      with "2.prems" obtain e where e: "checked_add b (ra_memory_bytes (in_resources p)) = Some e"
        and "\<not> (base < e \<and> b < requested_end)"
        by (auto simp: result_iff split: if_splits)
      with unat_checked_add [OF e] Some True show ?thesis
        by (auto simp: mem_range_def word_less_nat_alt)
    qed
  qed
qed simp

lemma validate_update_memory_ok:
  assumes "validate_update_memory s x m = Inr u" and "\<not> m \<le> ra_memory_bytes (in_resources x)"
  obtains base where "ra_memory_base (in_resources x) = Some base"
    and "unat base + unat m < 2 ^ 64"
    and "\<exists>r \<in> set (rp_memory_regions (hs_resource_pool s)).
           {unat base..<unat base + unat m} \<subseteq> region_range r"
    and "\<And>peer. peer \<in> set (hs_instances s) \<Longrightarrow> in_id peer \<noteq> in_id x \<Longrightarrow>
           {unat base..<unat base + unat m} \<inter> mem_range peer = {}"
proof -
  from assms obtain base e where base: "ra_memory_base (in_resources x) = Some base"
    and e: "checked_add base m = Some e"
    and chunk: "list_ex (\<lambda>r. is_some_and (\<lambda>chunk_end. mr_base r \<le> base \<and> e \<le> chunk_end)
           (checked_add (mr_base r) (mr_bytes r))) (rp_memory_regions (hs_resource_pool s))"
    and peers: "check_memory_peers base e
           (filter (\<lambda>peer. in_id peer \<noteq> in_id x) (hs_instances s)) = Inr u"
    by (auto simp: validate_update_memory_def result_iff Let_def split: if_splits)
  have ue: "unat e = unat base + unat m" by (rule unat_checked_add [OF e])
  from chunk obtain r c where "r \<in> set (rp_memory_regions (hs_resource_pool s))"
    "checked_add (mr_base r) (mr_bytes r) = Some c" "mr_base r \<le> base" "e \<le> c"
    by (auto simp: list_ex_iff is_some_and_def split: option.splits)
  then have "\<exists>r \<in> set (rp_memory_regions (hs_resource_pool s)).
      {unat base..<unat base + unat m} \<subseteq> region_range r"
    using unat_checked_add [of "mr_base r" "mr_bytes r" c] ue
    by (intro bexI [of _ r]) (auto simp: region_range_def word_le_nat_alt)
  moreover have "{unat base..<unat base + unat m} \<inter> mem_range peer = {}"
    if "peer \<in> set (hs_instances s)" "in_id peer \<noteq> in_id x" for peer
    using check_memory_peers_ok [OF peers, of peer] that ue by simp
  ultimately show ?thesis
    using that [OF base] e by (auto simp: word_checked)
qed

section \<open>Devices\<close>

lemma check_device_peers_ok [result_iff]:
  "check_device_peers requested peers = Inr u \<longleftrightarrow>
     (\<forall>peer \<in> set peers. set (ra_device_ids (in_resources peer)) \<inter> set requested = {})"
  by (induction peers) (auto dest: find_SomeD find_NoneD split: option.splits)

text \<open>What a device of an accepted replacement satisfies: it is managed, free for this instance,
  and its whole IOMMU group moves with it.\<close>

definition device_ok ::
  "string list \<Rightarrow> (string \<Rightarrow> pci_device option) \<Rightarrow> string set \<Rightarrow> string \<Rightarrow> bool" where
  "device_ok requested managed free d \<longleftrightarrow>
     (\<exists>device. managed d = Some device \<and> d \<in> free \<and> pd_iommu_group device \<noteq> None \<and>
        set (pd_iommu_group_members device) \<subseteq> set requested \<inter> dom managed)"

lemma check_device_ok [result_iff]:
  "check_device requested managed available owned d = Inr u \<longleftrightarrow>
     device_ok requested managed (set available \<union> set owned) d"
  by (fastforce simp: check_device_def device_ok_def result_iff Let_def filter_empty_conv
      split: if_splits)

lemma check_devices_ok [result_iff]:
  "check_devices requested managed available owned ds = Inr u \<longleftrightarrow>
     (\<forall>d \<in> set ds. device_ok requested managed (set available \<union> set owned) d)"
  by (induction ds) (auto simp: result_iff)

lemma validate_update_devices_ok [result_iff]:
  "validate_update_devices s x requested = Inr u \<longleftrightarrow>
     requested \<noteq> [] \<and> distinct requested \<and> (\<forall>d \<in> set requested. is_canonical_pci_id d) \<and>
     (\<forall>peer \<in> set (hs_instances s). in_id peer \<noteq> in_id x \<longrightarrow>
        set (ra_device_ids (in_resources peer)) \<inter> set requested = {}) \<and>
     (\<forall>d \<in> set requested. device_ok requested (managed_devices s)
        (set (rp_available_device_ids (hs_resource_pool s)) \<union> set (ra_device_ids (in_resources x))) d)"
  by (auto simp: validate_update_devices_def length_btree_set result_iff
      dest: find_SomeD find_NoneD split: option.splits if_splits)

lemma canonical_pci_id_no_comma:
  assumes "is_canonical_pci_id d"
  shows "CHR '','' \<notin> set d"
proof
  assume "CHR '','' \<in> set d"
  then obtain i where i: "i < length d" "d ! i = CHR '',''" by (auto simp: in_set_conv_nth)
  then have "(i, CHR '','') \<in> set (enumerate 0 d)"
    by (auto simp: in_set_enumerate_eq)
  with assms i show False
    by (auto simp: is_canonical_pci_id_def list_all_iff is_lower_hex_def is_ascii_digit_def byte_def)
qed

section \<open>Accepted updates\<close>

lemma update_cpu_arguments_ok [result_iff]:
  "update_cpu_arguments s x cpus = Inr args \<longleftrightarrow>
     (case cpus of None \<Rightarrow> args = []
      | Some cs \<Rightarrow> cs \<noteq> [] \<and> distinct cs \<and>
          set cs \<subseteq> set (rp_available_cpu_hardware_ids (hs_resource_pool s)) \<union>
            set (ra_cpu_hardware_ids (in_resources x)) \<and>
          args = [''--cpus='' @ cpu_list cs])"
  by (auto simp: update_cpu_arguments_def result_iff split: option.splits)

lemma update_memory_arguments_ok [result_iff]:
  "update_memory_arguments s x memory = Inr args \<longleftrightarrow>
     (case memory of None \<Rightarrow> args = []
      | Some m \<Rightarrow> m \<noteq> 0 \<and> validate_update_memory s x m = Inr () \<and>
          args = [''--memory='' @ show_word m])"
  by (auto simp: update_memory_arguments_def result_iff split: option.splits)

lemma update_device_arguments_ok [result_iff]:
  "update_device_arguments s x devices = Inr args \<longleftrightarrow>
     (case devices of None \<Rightarrow> args = []
      | Some ds \<Rightarrow> validate_update_devices s x ds = Inr () \<and>
          args = [''--devices='' @ join '','' ds])"
  by (auto simp: update_device_arguments_def and_then_eq_Inr map_err_eq_Inr split: option.splits)

lemma plan_update_ok:
  assumes "plan (Update r) s = Inr invo"
  obtains x cpu_args memory_args device_args
  where "request_generation (Update r) = hs_generation s"
    and "require_instance s (ir_id (ur_instance r)) Ready = Inr x" and "valid_name (in_name x)"
    and "update_cpu_arguments s x (ur_cpu_hardware_ids r) = Inr cpu_args"
    and "update_memory_arguments s x (ur_memory_bytes r) = Inr memory_args"
    and "update_device_arguments s x (ur_device_ids r) = Inr device_args"
    and "inv_arguments invo = [''update'', in_name x] @ cpu_args @ memory_args @ device_args @
           (if ur_dry_run r then [''--dry-run''] else [])"
  using assms
  by (auto simp: plan_def Let_def plan_update_def and_then_eq_Inr validate_name_ok split: if_splits)

section \<open>Isolation of memory and devices\<close>

text \<open>The state of the host that the planner protects: every assigned range lies in one pool chunk
  and ranges of different instances are disjoint; no device is assigned twice.\<close>

definition in_pool_chunk :: "host_snapshot \<Rightarrow> inst \<Rightarrow> bool" where
  "in_pool_chunk s x \<longleftrightarrow> mem_range x = {} \<or>
     (\<exists>r \<in> set (rp_memory_regions (hs_resource_pool s)). mem_range x \<subseteq> region_range r)"

definition memory_isolated :: "host_snapshot \<Rightarrow> bool" where
  "memory_isolated s \<longleftrightarrow>
     (\<forall>x \<in> set (hs_instances s). in_pool_chunk s x) \<and>
     (\<forall>x \<in> set (hs_instances s). \<forall>y \<in> set (hs_instances s).
        in_id x \<noteq> in_id y \<longrightarrow> mem_range x \<inter> mem_range y = {})"

definition devices_isolated :: "host_snapshot \<Rightarrow> bool" where
  "devices_isolated s \<longleftrightarrow>
     (\<forall>x \<in> set (hs_instances s). \<forall>y \<in> set (hs_instances s). in_id x \<noteq> in_id y \<longrightarrow>
        set (ra_device_ids (in_resources x)) \<inter> set (ra_device_ids (in_resources y)) = {})"

text \<open>The host after Kerf has applied one planned resource replacement.\<close>

definition set_memory :: "u64 \<Rightarrow> inst \<Rightarrow> inst" where
  "set_memory m x = x\<lparr>in_resources := (in_resources x)\<lparr>ra_memory_bytes := m\<rparr>\<rparr>"

definition set_devices :: "string list \<Rightarrow> inst \<Rightarrow> inst" where
  "set_devices ds x = x\<lparr>in_resources := (in_resources x)\<lparr>ra_device_ids := ds\<rparr>\<rparr>"

definition replace_instance ::
  "instance_id \<Rightarrow> (inst \<Rightarrow> inst) \<Rightarrow> host_snapshot \<Rightarrow> host_snapshot" where
  "replace_instance i f s =
     s\<lparr>hs_instances := map (\<lambda>x. if in_id x = i then f x else x) (hs_instances s)\<rparr>"

lemma set_memory_simps [simp]:
  "in_id (set_memory m x) = in_id x"
  "ra_memory_base (in_resources (set_memory m x)) = ra_memory_base (in_resources x)"
  "ra_memory_bytes (in_resources (set_memory m x)) = m"
  by (simp_all add: set_memory_def)

lemma set_devices_simps [simp]:
  "in_id (set_devices ds x) = in_id x"
  "ra_device_ids (in_resources (set_devices ds x)) = ds"
  by (simp_all add: set_devices_def)

lemma replace_instance_simps [simp]:
  "hs_resource_pool (replace_instance i f s) = hs_resource_pool s"
  "set (hs_instances (replace_instance i f s)) =
     (\<lambda>x. if in_id x = i then f x else x) ` set (hs_instances s)"
  by (simp_all add: replace_instance_def)

text \<open>Replacing one instance keeps a pairwise property that the new value has against every other
  instance.\<close>

lemma replace_instance_pairwise:
  assumes id_f: "\<And>x. in_id (f x) = in_id x"
    and old: "\<And>x y. x \<in> set (hs_instances s) \<Longrightarrow> y \<in> set (hs_instances s) \<Longrightarrow>
      in_id x \<noteq> in_id y \<Longrightarrow> P x y"
    and new: "\<And>x y. x \<in> set (hs_instances s) \<Longrightarrow> y \<in> set (hs_instances s) \<Longrightarrow>
      in_id x = i \<Longrightarrow> in_id y \<noteq> i \<Longrightarrow> P (f x) y \<and> P y (f x)"
    and x: "x \<in> set (hs_instances (replace_instance i f s))"
    and y: "y \<in> set (hs_instances (replace_instance i f s))" and "in_id x \<noteq> in_id y"
  shows "P x y"
proof -
  from x obtain x0 where x0: "x0 \<in> set (hs_instances s)" "x = (if in_id x0 = i then f x0 else x0)"
    by auto
  from y obtain y0 where y0: "y0 \<in> set (hs_instances s)" "y = (if in_id y0 = i then f y0 else y0)"
    by auto
  have "in_id x0 \<noteq> in_id y0" using x0 y0 \<open>in_id x \<noteq> in_id y\<close> id_f by (auto split: if_splits)
  then show ?thesis using x0 y0 old new by (metis (full_types))
qed

lemma mem_range_set_memory:
  "mem_range (set_memory m x) =
     (case ra_memory_base (in_resources x) of None \<Rightarrow> {} | Some b \<Rightarrow> {unat b..<unat b + unat m})"
  by (simp add: mem_range_def split: option.split)

lemma mem_range_shrink:
  "m \<le> ra_memory_bytes (in_resources x) \<Longrightarrow> mem_range (set_memory m x) \<subseteq> mem_range x"
  by (auto simp: mem_range_def word_le_nat_alt split: option.splits)

lemma in_pool_chunk_mono: "in_pool_chunk s x \<Longrightarrow> mem_range y \<subseteq> mem_range x \<Longrightarrow> in_pool_chunk s y"
  unfolding in_pool_chunk_def by blast

lemma in_pool_chunk_replace [simp]: "in_pool_chunk (replace_instance i f s) = in_pool_chunk s"
  by (simp add: in_pool_chunk_def fun_eq_iff)

lemma validated_memory_range:
  assumes "validate_update_memory s x m = Inr u" "memory_isolated s" "x \<in> set (hs_instances s)"
  shows "in_pool_chunk s (set_memory m x) \<and> (\<forall>y \<in> set (hs_instances s).
    in_id y \<noteq> in_id x \<longrightarrow> mem_range (set_memory m x) \<inter> mem_range y = {})"
proof (cases "m \<le> ra_memory_bytes (in_resources x)")
  case True
  have "in_pool_chunk s x"
    using assms(2,3) by (simp add: memory_isolated_def)
  then have "in_pool_chunk s (set_memory m x)"
    using mem_range_shrink [OF True] by (rule in_pool_chunk_mono)
  moreover have "mem_range x \<inter> mem_range y = {}" if "y \<in> set (hs_instances s)" "in_id y \<noteq> in_id x" for y
    using assms(2,3) that by (metis memory_isolated_def)
  ultimately show ?thesis using mem_range_shrink [OF True] by blast
next
  case False
  from assms(1) False show ?thesis
  proof (rule validate_update_memory_ok)
    fix base assume "ra_memory_base (in_resources x) = Some base"
    then have "mem_range (set_memory m x) = {unat base..<unat base + unat m}"
      by (simp add: mem_range_set_memory)
    moreover assume "\<exists>r \<in> set (rp_memory_regions (hs_resource_pool s)).
        {unat base..<unat base + unat m} \<subseteq> region_range r"
      "\<And>peer. peer \<in> set (hs_instances s) \<Longrightarrow> in_id peer \<noteq> in_id x \<Longrightarrow>
        {unat base..<unat base + unat m} \<inter> mem_range peer = {}"
    ultimately show ?thesis by (simp add: in_pool_chunk_def)
  qed
qed

text \<open>C1: Memory isolation survives every accepted memory update.  If each instance lies in one
  pool chunk and no two instances overlap (addresses in unbounded arithmetic, so no wrap-around
  hides an overlap), then the same holds after the instance has been resized to the size that the
  planner accepted, whether it grows or shrinks.\<close>

theorem update_preserves_memory_isolation:
  assumes "plan (Update r) s = Inr invo" and "ur_memory_bytes r = Some m"
    and "distinct (map in_id (hs_instances s))" and "memory_isolated s"
  shows "memory_isolated (replace_instance (ir_id (ur_instance r)) (set_memory m) s)"
proof -
  let ?i = "ir_id (ur_instance r)"
  from assms(1,2) obtain x where
    found: "require_instance s ?i Ready = Inr x" and valid: "validate_update_memory s x m = Inr ()"
    by (auto elim!: plan_update_ok simp: update_memory_arguments_ok)
  from found have x: "x \<in> set (hs_instances s)" "in_id x = ?i"
    by (auto simp: require_instance_ok dest: find_SomeD)
  have only: "y = x" if "y \<in> set (hs_instances s)" "in_id y = ?i" for y
    using find_unique_key [OF assms(3)] that x by (metis option.inject)
  note range = validated_memory_range [OF valid assms(4) x(1)]
  have "in_pool_chunk s y" if y: "y \<in> set (hs_instances (replace_instance ?i (set_memory m) s))" for y
  proof -
    from y obtain y0 where y0: "y0 \<in> set (hs_instances s)"
      "y = (if in_id y0 = ?i then set_memory m y0 else y0)" by auto
    show ?thesis
    proof (cases "in_id y0 = ?i")
      case True
      with y0 only [OF y0(1)] range show ?thesis by simp
    next
      case False
      with y0 assms(4) show ?thesis by (simp add: memory_isolated_def)
    qed
  qed
  moreover have "mem_range y \<inter> mem_range z = {}"
    if "y \<in> set (hs_instances (replace_instance ?i (set_memory m) s))"
      "z \<in> set (hs_instances (replace_instance ?i (set_memory m) s))" "in_id y \<noteq> in_id z" for y z
    using _ _ _ that
  proof (rule replace_instance_pairwise)
    show "mem_range a \<inter> mem_range b = {}"
      if "a \<in> set (hs_instances s)" "b \<in> set (hs_instances s)" "in_id a \<noteq> in_id b" for a b
      using assms(4) that unfolding memory_isolated_def by blast
    show "mem_range (set_memory m a) \<inter> mem_range b = {} \<and> mem_range b \<inter> mem_range (set_memory m a) = {}"
      if "a \<in> set (hs_instances s)" "b \<in> set (hs_instances s)" "in_id a = ?i" "in_id b \<noteq> ?i" for a b
      using only [OF that(1,3)] range that x(2) by (simp add: Int_commute)
  qed simp
  ultimately show ?thesis unfolding memory_isolated_def in_pool_chunk_replace by blast
qed

text \<open>C2: Device isolation and IOMMU closure of accepted device replacements.  If no device is
  assigned to two instances, the same holds after the replacement; and every device of the
  replacement is either listed as available by the pool or already owned by this instance, is owned
  by no other instance, is managed by the pool, has an IOMMU group, and brings every member of that
  group along.\<close>

theorem update_preserves_device_isolation:
  assumes "plan (Update r) s = Inr invo" and "ur_device_ids r = Some ds"
    and "distinct (map in_id (hs_instances s))" and "devices_isolated s"
  shows "devices_isolated (replace_instance (ir_id (ur_instance r)) (set_devices ds) s) \<and>
    (\<forall>d \<in> set ds.
       (d \<in> set (rp_available_device_ids (hs_resource_pool s)) \<or>
        (\<exists>x \<in> set (hs_instances s). in_id x = ir_id (ur_instance r) \<and>
           d \<in> set (ra_device_ids (in_resources x)))) \<and>
       (\<forall>y \<in> set (hs_instances s). in_id y \<noteq> ir_id (ur_instance r) \<longrightarrow>
           d \<notin> set (ra_device_ids (in_resources y))) \<and>
       (\<exists>device. managed_devices s d = Some device \<and> pd_iommu_group device \<noteq> None \<and>
          set (pd_iommu_group_members device) \<subseteq> set ds \<inter> dom (managed_devices s)))"
proof -
  let ?i = "ir_id (ur_instance r)"
  from assms(1,2) obtain x where
    found: "require_instance s ?i Ready = Inr x" and valid: "validate_update_devices s x ds = Inr ()"
    by (auto elim!: plan_update_ok simp: update_device_arguments_ok)
  from found have x: "x \<in> set (hs_instances s)" "in_id x = ?i"
    by (auto simp: require_instance_ok dest: find_SomeD)
  have "set (ra_device_ids (in_resources y)) \<inter> set (ra_device_ids (in_resources z)) = {}"
    if "y \<in> set (hs_instances (replace_instance ?i (set_devices ds) s))"
      "z \<in> set (hs_instances (replace_instance ?i (set_devices ds) s))" "in_id y \<noteq> in_id z" for y z
    using _ _ _ that
  proof (rule replace_instance_pairwise)
    show "set (ra_device_ids (in_resources a)) \<inter> set (ra_device_ids (in_resources b)) = {}"
      if "a \<in> set (hs_instances s)" "b \<in> set (hs_instances s)" "in_id a \<noteq> in_id b" for a b
      using assms(4) that unfolding devices_isolated_def by blast
    show "set (ra_device_ids (in_resources (set_devices ds a))) \<inter> set (ra_device_ids (in_resources b)) = {}
        \<and> set (ra_device_ids (in_resources b)) \<inter> set (ra_device_ids (in_resources (set_devices ds a))) = {}"
      if "a \<in> set (hs_instances s)" "b \<in> set (hs_instances s)" "in_id a = ?i" "in_id b \<noteq> ?i" for a b
      using valid that x(2) by (simp add: validate_update_devices_ok Int_commute)
  qed simp
  moreover have "\<exists>device. managed_devices s d = Some device \<and> pd_iommu_group device \<noteq> None \<and>
       set (pd_iommu_group_members device) \<subseteq> set ds \<inter> dom (managed_devices s)" if "d \<in> set ds" for d
    using valid that unfolding validate_update_devices_ok device_ok_def by blast
  moreover have "d \<in> set (rp_available_device_ids (hs_resource_pool s)) \<or>
      d \<in> set (ra_device_ids (in_resources x))" if "d \<in> set ds" for d
    using valid that unfolding validate_update_devices_ok device_ok_def by blast
  moreover have "d \<notin> set (ra_device_ids (in_resources y))"
    if "d \<in> set ds" "y \<in> set (hs_instances s)" "in_id y \<noteq> ?i" for d y
    using valid that x(2) by (auto simp: validate_update_devices_ok)
  ultimately show ?thesis unfolding devices_isolated_def using x by blast
qed

section \<open>Plans\<close>

text \<open>The create planner accepts a request exactly when the name and the ID are well formed, the
  CPUs are a nonempty duplicate-free set of available CPUs, the memory is positive, neither ID nor
  name is taken, the totals do not overflow 64 bits, the unassigned pool memory covers the request
  and some single chunk is large enough; the plan then asks Kerf for exactly these resources and
  expects the instance to become ready with them.\<close>

theorem plan_create_ok_iff:
  "plan (Create r) s = Inr invo \<longleftrightarrow>
     cr_expected_generation r = hs_generation s \<and> valid_name (cr_name r) \<and>
     cr_id r \<in> {1..511} \<and> cr_cpu_hardware_ids r \<noteq> [] \<and> distinct (cr_cpu_hardware_ids r) \<and>
     set (cr_cpu_hardware_ids r) \<subseteq> set (rp_available_cpu_hardware_ids (hs_resource_pool s)) \<and>
     cr_memory_bytes r \<noteq> 0 \<and>
     cr_id r \<notin> in_id ` set (hs_instances s) \<and> cr_name r \<notin> in_name ` set (hs_instances s) \<and>
     pool_total s < 2 ^ 64 \<and> assigned_total s < 2 ^ 64 \<and>
     unat (cr_memory_bytes r) + assigned_total s \<le> pool_total s \<and>
     (\<exists>g. g \<in> set (rp_memory_regions (hs_resource_pool s)) \<and> cr_memory_bytes r \<le> mr_bytes g) \<and>
     invo = \<lparr>inv_arguments =
         [''create'', cr_name r, ''--id='' @ show_word (cr_id r),
          ''--cpus='' @ cpu_list (cr_cpu_hardware_ids r),
          ''--memory='' @ show_word (cr_memory_bytes r)],
       inv_expected_state = Expect_InstanceResources (cr_id r) Ready (Some (cr_name r))
         (Some (cr_cpu_hardware_ids r)) (Some (cr_memory_bytes r)) None,
       inv_mutates_kernel = True\<rparr>"
proof -
  have pos: "unat (cr_memory_bytes r) \<le> pool_total s - assigned_total s \<longleftrightarrow>
      unat (cr_memory_bytes r) + assigned_total s \<le> pool_total s" if "cr_memory_bytes r \<noteq> 0"
    using that by (cases "unat (cr_memory_bytes r)") (auto simp: unat_eq_0)
  have taken: "list_ex (\<lambda>x. in_id x = cr_id r \<or> in_name x = cr_name r) (hs_instances s) \<longleftrightarrow>
      cr_id r \<in> in_id ` set (hs_instances s) \<or> cr_name r \<in> in_name ` set (hs_instances s)"
    unfolding list_ex_iff image_iff by metis
  show ?thesis
    by (simp add: plan_def Let_def plan_create_iff and_then_eq_Inr map_err_eq_Inr taken
        id_option_def Bex_def) (use pos in blast)
qed

lemma plan_Inr_cases:
  assumes "plan request s = Inr invo"
  shows "request_generation request = hs_generation s"
  using assms by (auto simp: plan_def Let_def split: if_splits)

text \<open>A plan is rejected with the API code precondition_failed exactly when the request
  carries a generation other than the snapshot's; a stale request is never planned.\<close>

theorem plan_stale_iff:
  "(\<exists>e. plan request s = Inl e \<and> plan_error_code e = PreconditionFailed) \<longleftrightarrow>
     request_generation request \<noteq> hs_generation s"
proof -
  have dev: "device_error_code d \<noteq> PreconditionFailed" for d
    by (cases d) auto
  have code: "plan_error_code e \<noteq> PreconditionFailed" if "\<And>g h. e \<noteq> StaleGeneration g h" for e
    using that dev by (cases e) auto
  have fresh: "e \<noteq> StaleGeneration g h"
    if "plan request s = Inl e" "request_generation request = hs_generation s" for e g h
    using that
    by (auto simp: plan_def Let_def plan_create_def plan_update_def plan_load_def plan_stop_def
        plan_state_command_def require_state_def require_instance_def validate_name_def
        validate_id_def validate_cpus_def update_cpu_arguments_def update_memory_arguments_def
        update_device_arguments_def and_then_eq_Inl map_err_eq_Inl map_ok_eq_Inl ok_or_eq_Inl
        split: lifecycle_request.splits if_splits option.splits)
  have stale: "plan request s = Inl (StaleGeneration (request_generation request) (hs_generation s))"
    if "request_generation request \<noteq> hs_generation s"
    using that by (simp add: plan_def)
  show ?thesis using stale code fresh by (metis plan_error_code.simps(1))
qed

section \<open>Argument vectors\<close>

definition known_options :: "string list" where
  "known_options = [''--id='', ''--cpus='', ''--memory='', ''--devices='', ''--kernel='',
     ''--initrd='', ''--cmdline='', ''--dry-run'', ''--force'']"

definition is_option :: "string \<Rightarrow> bool" where
  "is_option a \<longleftrightarrow> list_ex (starts_with a) known_options"

text \<open>A vector in which every argument after the subcommand is one of Kerf's known options, but for
  one positional instance name at most, which starts with a letter or digit.\<close>

definition safe_argv :: "string list \<Rightarrow> bool" where
  "safe_argv args \<longleftrightarrow>
     (\<exists>command names options. args = command # names @ options \<and>
        command \<in> {''create'', ''update'', ''load'', ''exec'', ''kill'', ''unload'', ''delete''} \<and>
        (names = [] \<or> (\<exists>name. names = [name] \<and> valid_name name)) \<and>
        list_all is_option options)"

lemma safe_argvI:
  "command \<in> {''create'', ''update'', ''load'', ''exec'', ''kill'', ''unload'', ''delete''} \<Longrightarrow>
   list_all is_option options \<Longrightarrow>
   safe_argv (command # options)"
  "command \<in> {''create'', ''update'', ''load'', ''exec'', ''kill'', ''unload'', ''delete''} \<Longrightarrow>
   valid_name name \<Longrightarrow> list_all is_option options \<Longrightarrow>
   safe_argv (command # name # options)"
  unfolding safe_argv_def by (metis append_Nil) (metis append_Cons append_Nil)

lemma is_option_literals:
  "is_option (''--id='' @ v)" "is_option (''--cpus='' @ v)" "is_option (''--memory='' @ v)"
  "is_option (''--devices='' @ v)" "is_option (''--kernel='' @ v)" "is_option (''--initrd='' @ v)"
  "is_option (''--cmdline='' @ v)" "is_option ''--dry-run''" "is_option ''--force''"
  by (simp_all add: is_option_def known_options_def starts_with_def)

lemmas is_option_simps [simp] = is_option_literals [simplified append_Cons append_Nil]

lemma is_option_id [simp]: "is_option (id_option i)"
  by (simp add: id_option_def)

lemma update_options:
  "update_cpu_arguments s x cpus = Inr args \<Longrightarrow> list_all is_option args"
  "update_memory_arguments s x memory = Inr args \<Longrightarrow> list_all is_option args"
  "update_device_arguments s x devices = Inr args \<Longrightarrow> list_all is_option args"
  by (auto simp: update_cpu_arguments_ok update_memory_arguments_ok update_device_arguments_ok
      split: option.splits)

lemma plan_update_safe: "plan (Update r) s = Inr invo \<Longrightarrow> safe_argv (inv_arguments invo)"
  by (erule plan_update_ok) (auto intro!: safe_argvI(2) simp: update_options)

lemma plan_create_safe: "plan_create r s = Inr invo \<Longrightarrow> safe_argv (inv_arguments invo)"
  by (auto simp: plan_create_def and_then_eq_Inr validate_name_ok intro!: safe_argvI(2)
      split: if_splits)

lemma plan_load_safe: "plan_load r s = Inr invo \<Longrightarrow> safe_argv (inv_arguments invo)"
  by (auto simp: plan_load_def and_then_eq_Inr intro!: safe_argvI(1)
      split: if_splits option.splits)

lemma plan_stop_safe: "plan_stop r s = Inr invo \<Longrightarrow> safe_argv (inv_arguments invo)"
  by (auto simp: plan_stop_def and_then_eq_Inr intro!: safe_argvI(1) split: if_splits)

lemma plan_state_command_safe:
  "plan_state_command c r s a b = Inr invo \<Longrightarrow> c \<in> {''exec'', ''unload'', ''delete''} \<Longrightarrow>
     safe_argv (inv_arguments invo)"
  by (auto simp: plan_state_command_def and_then_eq_Inr intro!: safe_argvI(1))

text \<open>C3: No request value can be taken by the privileged Kerf process for a different subcommand
  or option: every planned argument vector is a known subcommand, at most one positional instance
  name that starts with a letter or digit, and otherwise only arguments that carry one of the nine
  known option prefixes.\<close>

theorem plan_argv_safe:
  assumes "plan request s = Inr invo"
  shows "safe_argv (inv_arguments invo)"
proof (cases request)
  case (Update r)
  with assms show ?thesis by (simp add: plan_update_safe)
next
  case (Create r)
  with assms plan_create_safe show ?thesis by (auto simp: plan_def Let_def split: if_splits)
next
  case (Load r)
  with assms plan_load_safe show ?thesis by (auto simp: plan_def Let_def split: if_splits)
next
  case (Stop r)
  with assms plan_stop_safe show ?thesis by (auto simp: plan_def Let_def split: if_splits)
qed (use assms plan_state_command_safe in \<open>auto simp: plan_def Let_def split: if_splits\<close>)

lemma cpu_list_round_trip:
  "cpus \<noteq> [] \<Longrightarrow> map parse_word (split_char CHR '','' (cpu_list cpus)) = map Some cpus"
  using split_char_join [of "map show_word cpus" "CHR '',''"]
  by (simp add: cpu_list_def show_word_no_comma parse_word_show_word comp_def)

lemma devices_round_trip:
  "ds \<noteq> [] \<Longrightarrow> \<forall>d \<in> set ds. is_canonical_pci_id d \<Longrightarrow> split_char CHR '','' (join '','' ds) = ds"
  by (simp add: split_char_join canonical_pci_id_no_comma)

text \<open>The comma-separated lists of an accepted update are unambiguous: reading the CPU list
  back gives the requested CPUs in order, and splitting the device list gives the requested
  devices, since a canonical PCI address contains no comma.\<close>

theorem update_lists_round_trip:
  assumes "plan (Update r) s = Inr invo"
  shows "(\<forall>cpus. ur_cpu_hardware_ids r = Some cpus \<longrightarrow>
       ''--cpus='' @ cpu_list cpus \<in> set (inv_arguments invo) \<and>
       map parse_word (split_char CHR '','' (cpu_list cpus)) = map Some cpus) \<and>
    (\<forall>ds. ur_device_ids r = Some ds \<longrightarrow>
       ''--devices='' @ join '','' ds \<in> set (inv_arguments invo) \<and>
       split_char CHR '','' (join '','' ds) = ds)"
  using assms
  by (elim plan_update_ok)
    (auto simp: update_cpu_arguments_ok update_device_arguments_ok validate_update_devices_ok
      cpu_list_round_trip devices_round_trip)

section \<open>A concrete host\<close>

text \<open>A small host for the witnesses: one 16 KiB chunk at address 65536, a ready instance 1 with
  4 KiB at its start and an active instance 2 with 4 KiB at its end, and one free device in an
  IOMMU group of its own.\<close>

definition example_device :: pci_device where
  "example_device = \<lparr>pd_pci_id = ''0000:06:00.0'', pd_pool_name = ''nic0'', pd_vendor_id = None,
     pd_device_id = None, pd_iommu_group = Some 14, pd_iommu_group_members = [''0000:06:00.0'']\<rparr>"

definition example_instance :: "u32 \<Rightarrow> string \<Rightarrow> instance_state \<Rightarrow> u32 \<Rightarrow> u64 \<Rightarrow> inst" where
  "example_instance i name st c base = \<lparr>in_id = i, in_name = name, in_generation = 7, in_state = st,
     in_resources = \<lparr>ra_cpu_hardware_ids = [c], ra_memory_base = Some base, ra_memory_bytes = 4096,
       ra_memory_region = None, ra_device_ids = []\<rparr>,
     in_image = \<lparr>ki_present = (st \<noteq> Ready)\<rparr>\<rparr>"

definition example_host :: host_snapshot where
  "example_host = \<lparr>hs_generation = 7, hs_health = Healthy, hs_diagnostics = [],
     hs_kernel = \<lparr>ki_release = ''7.0.0-mk'', ki_multikernel_enabled = True\<rparr>,
     hs_capabilities = [Cap_Multikernel],
     hs_topology = \<lparr>ct_architecture = ''x86_64'', ct_cpus = [], ct_numa_nodes = []\<rparr>,
     hs_memory = \<lparr>hm_total_bytes = 0, hm_host_reserved_bytes = 0, hm_assignable_bytes = 16384,
       hm_assigned_bytes = 8192\<rparr>,
     hs_resource_pool = \<lparr>rp_cpu_hardware_ids = [4, 6, 8], rp_available_cpu_hardware_ids = [8],
       rp_memory_regions = [\<lparr>mr_base = 65536, mr_bytes = 16384, mr_numa_node = 0\<rparr>],
       rp_devices = [example_device], rp_available_device_ids = [''0000:06:00.0'']\<rparr>,
     hs_instances = [example_instance 1 ''build-1'' Ready 4 65536,
       example_instance 2 ''web'' Active 6 77824],
     hs_transactions = [], hs_operations = []\<rparr>"

definition example_update :: update_request where
  "example_update = \<lparr>ur_instance = \<lparr>ir_expected_generation = 7, ir_id = 1\<rparr>,
     ur_cpu_hardware_ids = Some [4, 8], ur_memory_bytes = Some 8192,
     ur_device_ids = Some [''0000:06:00.0''], ur_dry_run = False\<rparr>"

lemmas example_defs = example_host_def example_instance_def example_device_def example_update_def

lemma example_distinct: "distinct (map in_id (hs_instances example_host))"
  by (simp add: example_defs)

lemma example_memory_isolated: "memory_isolated example_host"
  by (simp add: example_defs memory_isolated_def in_pool_chunk_def mem_range_def region_range_def
      disjoint_iff)

lemma example_devices_isolated: "devices_isolated example_host"
  by (simp add: example_defs devices_isolated_def)

lemma example_memory_ok:
  "validate_update_memory example_host (example_instance 1 ''build-1'' Ready 4 65536) 8192 = Inr ()"
  by (simp add: example_defs validate_update_memory_def checked_add_def)

lemma example_pci_id: "is_canonical_pci_id ''0000:06:00.0''"
  by (simp add: is_canonical_pci_id_def is_lower_hex_def is_ascii_digit_def byte_def)

lemma example_devices_ok:
  "validate_update_devices example_host (example_instance 1 ''build-1'' Ready 4 65536)
     [''0000:06:00.0''] = Inr ()"
  by (simp add: validate_update_devices_ok example_pci_id device_ok_def managed_devices_def
      btree_map_get_def domIff example_defs)

lemma example_name: "valid_name ''build-1''"
  by (simp add: valid_name_def is_ascii_alphanumeric_def is_ascii_digit_def is_ascii_lowercase_def
      is_ascii_uppercase_def byte_def)

lemma example_found:
  "require_instance example_host 1 Ready = Inr (example_instance 1 ''build-1'' Ready 4 65536)"
  by (simp add: require_instance_ok example_defs)

lemma example_plan:
  obtains invo where "plan (Update example_update) example_host = Inr invo"
proof -
  have "\<exists>invo. plan_update example_update example_host = Inr invo"
    by (simp add: plan_update_def example_update_def example_found and_then_eq_Inr validate_name_ok
        update_cpu_arguments_ok update_memory_arguments_ok update_device_arguments_ok
        example_memory_ok example_devices_ok)
      (simp add: example_defs valid_name_def is_ascii_alphanumeric_def is_ascii_digit_def
        is_ascii_lowercase_def is_ascii_uppercase_def byte_def)
  then show ?thesis
    using that by (auto simp: plan_def Let_def example_host_def example_update_def)
qed

theorem update_preserves_memory_isolation_witness:
  "memory_isolated (replace_instance 1 (set_memory 8192) example_host)"
proof -
  obtain invo where "plan (Update example_update) example_host = Inr invo" by (rule example_plan)
  from update_preserves_memory_isolation [OF this _ example_distinct example_memory_isolated, of 8192]
  show ?thesis by (simp add: example_update_def)
qed

theorem update_preserves_device_isolation_witness:
  "devices_isolated (replace_instance 1 (set_devices [''0000:06:00.0'']) example_host) \<and>
   (''0000:06:00.0'' \<in> set (rp_available_device_ids (hs_resource_pool example_host)) \<or>
    (\<exists>x \<in> set (hs_instances example_host). in_id x = 1 \<and>
       ''0000:06:00.0'' \<in> set (ra_device_ids (in_resources x))))"
proof -
  obtain invo where "plan (Update example_update) example_host = Inr invo" by (rule example_plan)
  from update_preserves_device_isolation
    [OF this _ example_distinct example_devices_isolated, of "[''0000:06:00.0'']"]
  show ?thesis by (simp add: example_update_def)
qed

theorem plan_argv_safe_witness:
  "\<exists>invo. plan (Update example_update) example_host = Inr invo \<and> safe_argv (inv_arguments invo)"
proof -
  obtain invo where "plan (Update example_update) example_host = Inr invo" by (rule example_plan)
  with plan_argv_safe [OF this] show ?thesis by blast
qed

theorem update_lists_round_trip_witness:
  "\<exists>invo. plan (Update example_update) example_host = Inr invo \<and>
     ''--cpus='' @ cpu_list [4, 8] \<in> set (inv_arguments invo)"
proof -
  obtain invo where "plan (Update example_update) example_host = Inr invo" by (rule example_plan)
  with update_lists_round_trip [OF this] show ?thesis by (auto simp: example_update_def)
qed

end
