(* ===== verification/Inventory.thy ===== *)
theory Inventory
  imports Api_V1
begin

text \<open>
  Authoritative snapshot assembly.  The observation types come from \<open>crates/kernmux-core\<close>
  (\<open>host.rs\<close>, \<open>multikernel.rs\<close>); the mapping to the API snapshot and the generation-stamping
  service come from \<open>crates/kernmux-daemon/src/inventory.rs\<close>.  The inventory source is a parameter
  \<open>observe\<close> of the model, a function on the state of the source, since it reads the running host
  through a child process.  Sums of bytes wrap at 64 bits, as they do in the released build.
\<close>

section \<open>Observations\<close>

datatype host_capability =
    Host_Multikernel | Host_InstanceLifecycle | Host_Transactions | Host_DynamicResources
  | Host_Console | Host_SharedMemory | Host_DeviceAssignment

record cpu_observation =
  co_logical_id :: u32
  co_hardware_id :: u32
  co_package_id :: u32
  co_core_id :: u32
  co_thread_index :: u32
  co_numa_node :: u32

record numa_node_observation =
  no_id :: u32
  no_logical_cpu_ids :: "u32 list"
  no_total_memory_bytes :: u64
  no_available_memory_bytes :: u64

record host_memory_observation =
  ho_total_bytes :: u64
  ho_available_bytes :: u64

text \<open>\<open>HostCapabilities\<close> is a \<open>BTreeSet\<close>; it is kept as its iteration order.\<close>

record linux_host_observation =
  lo_kernel_release :: string
  lo_architecture :: string
  lo_capabilities :: "host_capability list"
  lo_cpus :: "cpu_observation list"
  lo_numa_nodes :: "numa_node_observation list"
  lo_memory :: host_memory_observation

definition supports :: "host_capability list \<Rightarrow> host_capability \<Rightarrow> bool" where
  "supports supported c \<longleftrightarrow> c \<in> set supported"

record pci_device_observation =
  po_pool_name :: string
  po_pci_id :: string
  po_vendor_id :: "u32 option"
  po_device_id :: "u32 option"
  po_iommu_group :: "u32 option"
  po_iommu_group_members :: "string list"

record memory_region_observation =
  mo_base :: u64
  mo_bytes :: u64
  mo_numa_node :: u32

record resource_pool_observation =
  ro_cpu_hardware_ids :: "u32 list"
  ro_available_cpu_hardware_ids :: "u32 list"
  ro_memory_regions :: "memory_region_observation list"
  ro_devices :: "pci_device_observation list"

datatype instance_lifecycle_state = Ready_Observed | Loaded_Observed | Active_Observed

record instance_resource_observation =
  iro_cpu_hardware_ids :: "u32 list"
  iro_memory_base :: u64
  iro_memory_bytes :: u64
  iro_devices :: "pci_device_observation list"

record kernel_image_observation =
  ko_present :: bool

record instance_observation =
  io_id :: u32
  io_name :: string
  io_state :: instance_lifecycle_state
  io_resources :: instance_resource_observation
  io_image :: kernel_image_observation

datatype transaction_status = Pending | Applied | RolledBack | Failed_Status

record transaction_observation =
  to_id :: u64
  to_status :: transaction_status
  to_instance_path :: "string option"
  to_resource_summary :: "string option"

record multikernel_observation =
  mk_pool :: resource_pool_observation
  mk_instances :: "instance_observation list"
  mk_transactions :: "transaction_observation list"

record host_observations =
  obs_linux :: linux_host_observation
  obs_multikernel :: multikernel_observation

section \<open>Mapping observations to the API\<close>

fun map_capability :: "host_capability \<Rightarrow> capability" where
  "map_capability Host_Multikernel = Cap_Multikernel"
| "map_capability Host_InstanceLifecycle = Cap_InstanceLifecycle"
| "map_capability Host_Transactions = Cap_TransactionRollback"
| "map_capability Host_DynamicResources = Cap_DynamicResources"
| "map_capability Host_Console = Cap_Console"
| "map_capability Host_SharedMemory = Cap_SharedMemory"
| "map_capability Host_DeviceAssignment = Cap_DeviceAssignment"

fun map_instance_state :: "instance_lifecycle_state \<Rightarrow> instance_state" where
  "map_instance_state Ready_Observed = Ready"
| "map_instance_state Loaded_Observed = Loaded"
| "map_instance_state Active_Observed = Active"

fun map_transaction_state :: "transaction_status \<Rightarrow> transaction_state" where
  "map_transaction_state Pending = Planned"
| "map_transaction_state Applied = Applied_Transaction"
| "map_transaction_state RolledBack = RolledBack_Transaction"
| "map_transaction_state Failed_Status = Failed_Transaction"

definition map_topology :: "linux_host_observation \<Rightarrow> cpu_topology" where
  "map_topology observed =
     \<lparr>ct_architecture = lo_architecture observed,
      ct_cpus = map (\<lambda>c. \<lparr>cpu_logical_id = co_logical_id c, cpu_hardware_id = co_hardware_id c,
        cpu_package_id = co_package_id c, cpu_core_id = co_core_id c,
        cpu_thread_index = co_thread_index c, cpu_numa_node = co_numa_node c,
        cpu_online = True\<rparr>) (lo_cpus observed),
      ct_numa_nodes = map (\<lambda>n. \<lparr>nn_id = no_id n, nn_logical_cpu_ids = no_logical_cpu_ids n,
        nn_total_memory_bytes = no_total_memory_bytes n,
        nn_available_memory_bytes = no_available_memory_bytes n\<rparr>) (lo_numa_nodes observed)\<rparr>"

definition map_device :: "pci_device_observation \<Rightarrow> pci_device" where
  "map_device d = \<lparr>pd_pci_id = po_pci_id d, pd_pool_name = po_pool_name d,
     pd_vendor_id = po_vendor_id d, pd_device_id = po_device_id d,
     pd_iommu_group = po_iommu_group d, pd_iommu_group_members = po_iommu_group_members d\<rparr>"

definition observed_devices :: "multikernel_observation \<Rightarrow> pci_device_observation list" where
  "observed_devices observed =
     ro_devices (mk_pool observed) @
     concat (map (\<lambda>i. iro_devices (io_resources i)) (mk_instances observed))"

definition map_resource_pool :: "multikernel_observation \<Rightarrow> resource_pool" where
  "map_resource_pool observed =
     \<lparr>rp_cpu_hardware_ids = ro_cpu_hardware_ids (mk_pool observed),
      rp_available_cpu_hardware_ids = ro_available_cpu_hardware_ids (mk_pool observed),
      rp_memory_regions = map (\<lambda>r. \<lparr>mr_base = mo_base r, mr_bytes = mo_bytes r,
        mr_numa_node = mo_numa_node r\<rparr>) (ro_memory_regions (mk_pool observed)),
      rp_devices = map map_device
        (btree_map_values (map (\<lambda>d. (po_pci_id d, d)) (observed_devices observed))),
      rp_available_device_ids = map po_pci_id (ro_devices (mk_pool observed))\<rparr>"

definition map_instances :: "generation \<Rightarrow> multikernel_observation \<Rightarrow> inst list" where
  "map_instances g observed =
     map (\<lambda>i. \<lparr>in_id = io_id i, in_name = io_name i, in_generation = g,
        in_state = map_instance_state (io_state i),
        in_resources =
          \<lparr>ra_cpu_hardware_ids = iro_cpu_hardware_ids (io_resources i),
           ra_memory_base = Some (iro_memory_base (io_resources i)),
           ra_memory_bytes = iro_memory_bytes (io_resources i), ra_memory_region = None,
           ra_device_ids = map po_pci_id (iro_devices (io_resources i))\<rparr>,
        in_image = \<lparr>ki_present = ko_present (io_image i)\<rparr>\<rparr>) (mk_instances observed)"

definition map_transactions :: "multikernel_observation \<Rightarrow> transaction list" where
  "map_transactions observed =
     map (\<lambda>t. \<lparr>tx_id = show_word (to_id t), tx_state = map_transaction_state (to_status t),
        tx_generation_before = None, tx_generation_after = None, tx_diagnostics = []\<rparr>)
       (mk_transactions observed)"

definition assemble_snapshot :: "generation \<Rightarrow> host_observations \<Rightarrow> host_snapshot" where
  "assemble_snapshot g observed =
     (let pool_memory_bytes =
            sum_list (map mo_bytes (ro_memory_regions (mk_pool (obs_multikernel observed))));
          assigned_memory_bytes =
            sum_list (map (\<lambda>i. iro_memory_bytes (io_resources i))
              (mk_instances (obs_multikernel observed)));
          linux = obs_linux observed
      in \<lparr>hs_generation = g, hs_health = Healthy, hs_diagnostics = [],
          hs_kernel = \<lparr>ki_release = lo_kernel_release linux,
            ki_multikernel_enabled = supports (lo_capabilities linux) Host_Multikernel\<rparr>,
          hs_capabilities = map map_capability (lo_capabilities linux),
          hs_topology = map_topology linux,
          hs_memory =
            \<lparr>hm_total_bytes = saturating_add (ho_total_bytes (lo_memory linux)) pool_memory_bytes,
             hm_host_reserved_bytes = ho_total_bytes (lo_memory linux),
             hm_assignable_bytes = pool_memory_bytes,
             hm_assigned_bytes = assigned_memory_bytes\<rparr>,
          hs_resource_pool = map_resource_pool (obs_multikernel observed),
          hs_instances = map_instances g (obs_multikernel observed),
          hs_transactions = map_transactions (obs_multikernel observed),
          hs_operations = []\<rparr>)"

section \<open>The inventory service\<close>

definition generation_relevant_state :: "host_snapshot \<Rightarrow> host_snapshot" where
  "generation_relevant_state s =
     s\<lparr>hs_topology := (hs_topology s)\<lparr>ct_numa_nodes :=
        map (\<lambda>n. n\<lparr>nn_available_memory_bytes := 0\<rparr>) (ct_numa_nodes (hs_topology s))\<rparr>\<rparr>"

record 's inventory_service =
  is_source :: 's
  is_current :: "host_snapshot option"

definition new_inventory_service :: "'s \<Rightarrow> 's inventory_service" where
  "new_inventory_service source = \<lparr>is_source = source, is_current = None\<rparr>"

definition stale_diagnostic :: diagnostic where
  "stale_diagnostic = \<lparr>diag_code = ''inventory_unavailable'', diag_severity = Error_Severity,
     diag_message = ''host inventory refresh did not complete'', diag_detail = None,
     diag_redacted = True\<rparr>"

definition refresh ::
  "('s \<Rightarrow> ('e + host_observations) \<times> 's) \<Rightarrow> 's inventory_service
     \<Rightarrow> ('e + host_snapshot) \<times> 's inventory_service" where
  "refresh observe service =
     (let (observations, source) = observe (is_source service);
          service = service\<lparr>is_source := source\<rparr>
      in case observations of
           Inl e \<Rightarrow>
             (case is_current service of
                Some current \<Rightarrow>
                  (Inr (current\<lparr>hs_health := Indeterminate_Health,
                                hs_diagnostics := [stale_diagnostic]\<rparr>), service)
              | None \<Rightarrow> (Inl e, service))
         | Inr obs \<Rightarrow>
             (case is_current service of
                Some current \<Rightarrow>
                  (let same_generation = assemble_snapshot (hs_generation current) obs
                   in if generation_relevant_state same_generation =
                         generation_relevant_state current
                      then (Inr same_generation, service\<lparr>is_current := Some same_generation\<rparr>)
                      else (let snapshot = assemble_snapshot
                                  (saturating_add (hs_generation current) 1) obs
                            in (Inr snapshot, service\<lparr>is_current := Some snapshot\<rparr>)))
              | None \<Rightarrow>
                  (let snapshot = assemble_snapshot 1 obs
                   in (Inr snapshot, service\<lparr>is_current := Some snapshot\<rparr>))))"

section \<open>The contract of a snapshot source\<close>

text \<open>
  What the executors rely on when they call \<open>SnapshotRefresher::refresh_snapshot\<close>.  \<open>retained\<close> is the
  last good snapshot that the provider keeps.  A failure is only reported while there is none; a
  published snapshot carries the generation of the retained one and is the retained one when it is
  healthy; generations never go back, and a generation below the saturation point stands for one
  generation-relevant state.
\<close>

definition same_epoch :: "host_snapshot \<Rightarrow> host_snapshot \<Rightarrow> bool" where
  "same_epoch a b \<longleftrightarrow> hs_generation a \<le> hs_generation b \<and>
     (hs_generation a = hs_generation b \<and> hs_generation a \<noteq> - 1 \<longrightarrow>
        generation_relevant_state a = generation_relevant_state b)"

locale snapshot_source =
  fixes refresh_snapshot :: "'s \<Rightarrow> ('e + host_snapshot) \<times> 's"
    and retained :: "'s \<Rightarrow> host_snapshot option"
  assumes refresh_error:
      "refresh_snapshot s = (Inl e, s') \<Longrightarrow> retained s = None \<and> retained s' = None"
    and refresh_result:
      "refresh_snapshot s = (Inr snap, s') \<Longrightarrow> \<exists>b. retained s' = Some b \<and>
         hs_generation snap = hs_generation b \<and> (hs_health snap = Healthy \<longrightarrow> snap = b)"
    and refresh_step:
      "refresh_snapshot s = (r, s') \<Longrightarrow> retained s = Some a \<Longrightarrow>
         \<exists>b. retained s' = Some b \<and> same_epoch a b"

fun refreshes :: "('s \<Rightarrow> ('e + 'a) \<times> 's) \<Rightarrow> nat \<Rightarrow> 's \<Rightarrow> ('e + 'a) list" where
  "refreshes rf 0 s = []"
| "refreshes rf (Suc n) s = (case rf s of (r, s') \<Rightarrow> r # refreshes rf n s')"

text \<open>Two published results in the order of their publication.\<close>

definition coherent :: "'e + host_snapshot \<Rightarrow> 'e + host_snapshot \<Rightarrow> bool" where
  "coherent r1 r2 \<longleftrightarrow> (\<forall>x y. r1 = Inr x \<longrightarrow> r2 = Inr y \<longrightarrow>
     hs_generation x \<le> hs_generation y \<and>
     (hs_health x = Healthy \<and> hs_health y = Healthy \<and> hs_generation x = hs_generation y \<and>
      hs_generation x \<noteq> - 1 \<longrightarrow>
      generation_relevant_state x = generation_relevant_state y))"

lemma same_epoch_refl [simp]: "same_epoch a a"
  by (simp add: same_epoch_def)

lemma same_epoch_trans: "same_epoch a b \<Longrightarrow> same_epoch b c \<Longrightarrow> same_epoch a c"
  unfolding same_epoch_def by (metis order.antisym order.trans)

context snapshot_source
begin

lemma no_error_after_snapshot:
  assumes "refresh_snapshot s = (r, s')" and "retained s \<noteq> None"
  obtains snap where "r = Inr snap"
  using assms refresh_error by (cases r) auto

lemma refreshes_after:
  assumes "retained s = Some a" and "r \<in> set (refreshes refresh_snapshot n s)"
  shows "\<exists>snap b. r = Inr snap \<and> same_epoch a b \<and> hs_generation snap = hs_generation b \<and>
    (hs_health snap = Healthy \<longrightarrow> snap = b)"
  using assms
proof (induction n arbitrary: s a)
  case (Suc n)
  obtain r0 s' where step: "refresh_snapshot s = (r0, s')" by (cases "refresh_snapshot s")
  from refresh_step [OF step Suc.prems(1)] obtain b where b: "retained s' = Some b" "same_epoch a b"
    by blast
  from Suc.prems(2) step consider "r = r0" | "r \<in> set (refreshes refresh_snapshot n s')" by auto
  then show ?case
  proof cases
    case 1
    obtain snap where snap: "r0 = Inr snap"
      using no_error_after_snapshot [OF step] Suc.prems(1) by auto
    with step have "\<exists>b'. retained s' = Some b' \<and> hs_generation snap = hs_generation b' \<and>
        (hs_health snap = Healthy \<longrightarrow> snap = b')" by (intro refresh_result) simp
    then have "hs_generation snap = hs_generation b \<and> (hs_health snap = Healthy \<longrightarrow> snap = b)"
      using b(1) by simp
    with 1 snap b(2) show ?thesis by blast
  next
    case 2
    from Suc.IH [OF b(1) 2] b(2) show ?thesis by (blast intro: same_epoch_trans)
  qed
qed simp

theorem refreshes_coherent: "sorted_wrt coherent (refreshes refresh_snapshot n s)"
proof (induction n arbitrary: s)
  case (Suc n)
  obtain r s' where step: "refresh_snapshot s = (r, s')" by (cases "refresh_snapshot s")
  have "coherent r r2" if r2: "r2 \<in> set (refreshes refresh_snapshot n s')" for r2
  proof (cases r)
    case (Inr x)
    with step obtain b where b: "retained s' = Some b" "hs_generation x = hs_generation b"
      "hs_health x = Healthy \<longrightarrow> x = b" using refresh_result by blast
    from refreshes_after [OF b(1) r2] obtain y c where "r2 = Inr y" "same_epoch b c"
      "hs_generation y = hs_generation c" "hs_health y = Healthy \<longrightarrow> y = c" by blast
    with Inr b show ?thesis by (auto simp: coherent_def same_epoch_def)
  qed (simp add: coherent_def)
  with Suc.IH [of s'] step show ?case by simp
qed simp

end

section \<open>The inventory service as a snapshot source\<close>

lemma assemble_snapshot_simps [simp]:
  "hs_generation (assemble_snapshot g obs) = g" "hs_health (assemble_snapshot g obs) = Healthy"
  by (simp_all add: assemble_snapshot_def Let_def)

lemma refresh_failure:
  assumes "observe (is_source service) = (Inl e, source)" and "is_current service = Some current"
  shows "refresh observe service =
    (Inr (current\<lparr>hs_health := Indeterminate_Health, hs_diagnostics := [stale_diagnostic]\<rparr>),
     service\<lparr>is_source := source\<rparr>)"
  using assms by (simp add: refresh_def Let_def)

lemma refresh_cases:
  assumes "refresh observe service = (r, service')"
  obtains (failed) e where "is_current service = None" "is_current service' = None" "r = Inl e"
  | (stale) current where "is_current service = Some current" "is_current service' = Some current"
      "r = Inr (current\<lparr>hs_health := Indeterminate_Health, hs_diagnostics := [stale_diagnostic]\<rparr>)"
  | (first) snap where "is_current service = None" "is_current service' = Some snap" "r = Inr snap"
  | (same) current snap where "is_current service = Some current" "is_current service' = Some snap"
      "r = Inr snap" "hs_generation snap = hs_generation current"
      "generation_relevant_state snap = generation_relevant_state current"
  | (changed) current snap where "is_current service = Some current"
      "is_current service' = Some snap" "r = Inr snap"
      "hs_generation snap = saturating_add (hs_generation current) 1"
proof -
  obtain obs source where obs: "observe (is_source service) = (obs, source)"
    by (cases "observe (is_source service)")
  note run = assms [unfolded refresh_def, unfolded obs Let_def, simplified]
  show thesis
  proof (cases obs)
    case (Inl e)
    with run that(1,2) show thesis by (cases "is_current service") auto
  next
    case (Inr o')
    show thesis
    proof (cases "is_current service")
      case None
      with run Inr that(3) [of "assemble_snapshot 1 o'"] show thesis by auto
    next
      case (Some current)
      let ?same = "assemble_snapshot (hs_generation current) o'"
      let ?next = "assemble_snapshot (saturating_add (hs_generation current) 1) o'"
      show thesis
      proof (cases "generation_relevant_state ?same = generation_relevant_state current")
        case True
        with run Inr Some that(4) [of current ?same] show thesis by auto
      next
        case False
        with run Inr Some that(5) [of current ?next] show thesis by auto
      qed
    qed
  qed
qed

interpretation inventory: snapshot_source "refresh observe" is_current for observe
proof
  fix s :: "'a inventory_service" and e s'
  assume "refresh observe s = (Inl e, s')"
  then show "is_current s = None \<and> is_current s' = None" by (cases rule: refresh_cases) auto
next
  fix s :: "'a inventory_service" and snap s'
  assume "refresh observe s = (Inr snap, s')"
  then show "\<exists>b. is_current s' = Some b \<and> hs_generation snap = hs_generation b \<and>
      (hs_health snap = Healthy \<longrightarrow> snap = b)"
    by (cases rule: refresh_cases) auto
next
  fix s :: "'a inventory_service" and r s' a
  assume "refresh observe s = (r, s')" "is_current s = Some a"
  then show "\<exists>b. is_current s' = Some b \<and> same_epoch a b"
  proof (cases rule: refresh_cases)
    case (changed current snap)
    with \<open>is_current s = Some a\<close> show ?thesis
      using saturating_add_ge [of "hs_generation a" 1] saturating_succ_eq_iff [of "hs_generation a"]
      by (auto simp: same_epoch_def)
  qed (auto simp: same_epoch_def)
qed

section \<open>Properties\<close>

lemma map_filter_keys:
  "(\<And>k. k \<in> set ks \<Longrightarrow> \<exists>v. g k = Some v \<and> key v = k) \<Longrightarrow> map key (List.map_filter g ks) = ks"
proof (induction ks)
  case (Cons k ks)
  then obtain v where "g k = Some v" "key v = k" by auto
  with Cons show ?case by (auto simp: List.map_filter_simps)
qed (simp add: List.map_filter_simps)

lemma btree_map_values_keys:
  "map key (btree_map_values (map (\<lambda>d. (key d, d)) ds)) = btree_set (map key ds)"
proof -
  have "\<exists>v. btree_map_get (map (\<lambda>d. (key d, d)) ds) k = Some v \<and> key v = k" if "k \<in> set (map key ds)" for k
  proof -
    have "btree_map_get (map (\<lambda>d. (key d, d)) ds) k \<noteq> None"
      using that by (auto simp: btree_map_get_None image_image)
    then obtain v where "btree_map_get (map (\<lambda>d. (key d, d)) ds) k = Some v" by blast
    with btree_map_get_in [OF this] show ?thesis by auto
  qed
  then show ?thesis
    unfolding btree_map_values_def by (subst map_filter_keys) (auto simp: comp_def)
qed

text \<open>C4: Generations are a sound basis for optimistic concurrency.  In the whole sequence of
  snapshots that a fresh inventory service publishes over any source, generations never decrease,
  and two healthy snapshots with the same generation (below saturation at the largest 64-bit value)
  agree on everything but the free memory of the NUMA nodes.\<close>

theorem refresh_generations_coherent:
  "sorted_wrt coherent (refreshes (refresh observe) n (new_inventory_service source))"
  by (rule inventory.refreshes_coherent)

text \<open>Once a snapshot exists, a failing source makes the service fail closed: it answers with
  the retained snapshot marked indeterminate and keeps the retained good state unchanged.\<close>

theorem refresh_fails_closed:
  assumes "is_current service = Some current" and "observe (is_source service) = (Inl e, source)"
  shows "\<exists>snap. refresh observe service = (Inr snap, service\<lparr>is_source := source\<rparr>) \<and>
    hs_health snap = Indeterminate_Health \<and> hs_generation snap = hs_generation current \<and>
    hs_instances snap = hs_instances current \<and> hs_resource_pool snap = hs_resource_pool current"
  using refresh_failure [of observe service, OF assms(2,1)] by simp

definition example_observations :: host_observations where
  "example_observations = \<lparr>obs_linux = \<lparr>lo_kernel_release = ''7.0.0-mk'', lo_architecture = ''x86_64'',
     lo_capabilities = [Host_Multikernel], lo_cpus = [], lo_numa_nodes = [],
     lo_memory = \<lparr>ho_total_bytes = 4096, ho_available_bytes = 1024\<rparr>\<rparr>,
     obs_multikernel = \<lparr>mk_pool = \<lparr>ro_cpu_hardware_ids = [4], ro_available_cpu_hardware_ids = [4],
       ro_memory_regions = [], ro_devices = []\<rparr>, mk_instances = [], mk_transactions = []\<rparr>\<rparr>"

theorem refresh_fails_closed_witness:
  "\<exists>snap. refresh (\<lambda>n. (Inl ''timed out'', n + 1))
      \<lparr>is_source = 0 :: nat, is_current = Some (assemble_snapshot 3 example_observations)\<rparr> =
    (Inr snap, \<lparr>is_source = 1, is_current = Some (assemble_snapshot 3 example_observations)\<rparr>) \<and>
    hs_health snap = Indeterminate_Health \<and> hs_generation snap = 3"
  using refresh_fails_closed [of "\<lparr>is_source = 0 :: nat,
      is_current = Some (assemble_snapshot 3 example_observations)\<rparr>"
      "assemble_snapshot 3 example_observations" "\<lambda>n. (Inl ''timed out'', n + 1)" "''timed out''" 1]
  by auto

text \<open>The device table of a snapshot lists every observed device, of the pool and of the
  instances, exactly once, ordered by PCI address, and every available device has an entry.\<close>

theorem map_resource_pool_device_table:
  "map pd_pci_id (rp_devices (map_resource_pool observed)) =
     btree_set (map po_pci_id (observed_devices observed)) \<and>
   set (rp_available_device_ids (map_resource_pool observed)) \<subseteq>
     set (map pd_pci_id (rp_devices (map_resource_pool observed)))"
proof -
  have "map pd_pci_id (rp_devices (map_resource_pool observed)) =
      map po_pci_id (btree_map_values (map (\<lambda>d. (po_pci_id d, d)) (observed_devices observed)))"
    by (simp add: map_resource_pool_def map_device_def comp_def)
  also have "\<dots> = btree_set (map po_pci_id (observed_devices observed))"
    by (rule btree_map_values_keys)
  finally have eq: "map pd_pci_id (rp_devices (map_resource_pool observed)) =
      btree_set (map po_pci_id (observed_devices observed))" .
  show ?thesis
    unfolding eq by (auto simp: map_resource_pool_def observed_devices_def)
qed

end
