(* ===== verification/Executor.thy ===== *)
theory Executor
  imports Lifecycle Inventory
begin

text \<open>
  Lifecycle execution and reconciliation, \<open>crates/kernmux-daemon/src/lifecycle_executor.rs\<close>.  The
  executor works over two traits: \<open>SnapshotRefresher\<close> (the parameter \<open>refresh_snapshot\<close> on the
  refresher's state, with the contract \<open>snapshot_source\<close>) and \<open>KerfRunner\<close> (the parameter \<open>run\<close> on the
  runner's state; Kerf is an external program, and nothing is assumed about it).
\<close>

section \<open>Definitions\<close>

datatype kerf_termination = Exited "32 word" | Signalled | TimedOut

record kerf_run_result =
  kr_termination :: kerf_termination
  kr_stdout :: "u8 list"
  kr_stderr :: "u8 list"

definition process_succeeded :: "kerf_run_result \<Rightarrow> bool" where
  "process_succeeded r \<longleftrightarrow> kr_termination r = Exited 0"

record lifecycle_outcome =
  lo_state :: operation_state
  lo_snapshot :: host_snapshot
  lo_process :: "kerf_run_result option"
  lo_diagnostics :: "diagnostic list"

datatype 'e lifecycle_execution_error =
    Inventory_Error 'e
  | SnapshotIndeterminate
  | Plan_Error lifecycle_plan_error

fun execution_error_code :: "'e lifecycle_execution_error \<Rightarrow> error_code" where
  "execution_error_code (Inventory_Error _) = BackendUnavailable"
| "execution_error_code SnapshotIndeterminate = BackendUnavailable"
| "execution_error_code (Plan_Error e) = plan_error_code e"

definition pool_bytes :: "host_snapshot \<Rightarrow> u64" where
  "pool_bytes s = sum_list (map mr_bytes (rp_memory_regions (hs_resource_pool s)))"

fun expected_state_observed :: "expected_state \<Rightarrow> host_snapshot \<Rightarrow> bool" where
  "expected_state_observed (Expect_Instance i st) s =
     list_ex (\<lambda>x. in_id x = i \<and> in_state x = st) (hs_instances s)"
| "expected_state_observed (Expect_InstanceResources i st name cpus memory devices) s =
     list_ex (\<lambda>x. in_id x = i \<and> in_state x = st \<and>
        is_none_or (\<lambda>n. in_name x = n) name \<and>
        is_none_or (\<lambda>cs. btree_set cs = btree_set (ra_cpu_hardware_ids (in_resources x))) cpus \<and>
        is_none_or (\<lambda>m. ra_memory_bytes (in_resources x) = m) memory \<and>
        is_none_or (\<lambda>ds. btree_set ds = btree_set (ra_device_ids (in_resources x))) devices)
       (hs_instances s)"
| "expected_state_observed (Expect_ResourcePool cpus memory) s \<longleftrightarrow>
     btree_set (rp_cpu_hardware_ids (hs_resource_pool s)) = btree_set cpus \<and>
     pool_bytes s = memory"
| "expected_state_observed (Expect_Absent i) s = list_all (\<lambda>x. in_id x \<noteq> i) (hs_instances s)"

definition redacted_diagnostic :: "string \<Rightarrow> diagnostic_severity \<Rightarrow> string \<Rightarrow> diagnostic" where
  "redacted_diagnostic code severity message =
     \<lparr>diag_code = code, diag_severity = severity, diag_message = message, diag_detail = None,
      diag_redacted = True\<rparr>"

definition reconcile ::
  "kerf_invocation \<Rightarrow> 'f + kerf_run_result \<Rightarrow> host_snapshot \<Rightarrow> lifecycle_outcome" where
  "reconcile invo process snapshot =
     (let observed = expected_state_observed (inv_expected_state invo) snapshot;
          succeeded = (case process of Inl _ \<Rightarrow> False | Inr r \<Rightarrow> process_succeeded r);
          (state, diagnostics) =
            (if hs_health snapshot \<noteq> Healthy then (Indeterminate, hs_diagnostics snapshot)
             else if \<not> inv_mutates_kernel invo \<and> succeeded then (Succeeded, [])
             else if inv_mutates_kernel invo \<and> observed then
               (Succeeded,
                if succeeded then []
                else [redacted_diagnostic ''kerf_result_reconciled'' Warning
                  ''kernel state reached the requested result despite the Kerf process result''])
             else if inv_mutates_kernel invo then
               (Failed, [redacted_diagnostic ''expected_state_not_observed'' Error_Severity
                  ''kernel state did not reach the requested result''])
             else
               (Failed, [redacted_diagnostic ''kerf_command_failed'' Error_Severity
                  ''Kerf did not accept the requested validation'']))
      in \<lparr>lo_state = state, lo_snapshot = snapshot, lo_process = ok process,
          lo_diagnostics = diagnostics\<rparr>)"

definition execute ::
  "('s \<Rightarrow> ('e + host_snapshot) \<times> 's) \<Rightarrow> (kerf_invocation \<Rightarrow> 'r \<Rightarrow> ('f + kerf_run_result) \<times> 'r) \<Rightarrow>
   lifecycle_request \<Rightarrow> 'r \<times> 's \<Rightarrow>
   ('e lifecycle_execution_error + lifecycle_outcome) \<times> 'r \<times> 's" where
  "execute refresh_snapshot run request st =
     (case st of (runner, snapshots) \<Rightarrow>
      case refresh_snapshot snapshots of
        (Inl e, snapshots1) \<Rightarrow> (Inl (Inventory_Error e), runner, snapshots1)
      | (Inr before, snapshots1) \<Rightarrow>
          if hs_health before \<noteq> Healthy then (Inl SnapshotIndeterminate, runner, snapshots1)
          else (case plan request before of
            Inl e \<Rightarrow> (Inl (Plan_Error e), runner, snapshots1)
          | Inr invocation \<Rightarrow>
              (case run invocation runner of (process, runner1) \<Rightarrow>
               case refresh_snapshot snapshots1 of
                 (Inl e, snapshots2) \<Rightarrow> (Inl (Inventory_Error e), runner1, snapshots2)
               | (Inr after, snapshots2) \<Rightarrow>
                   (Inr (reconcile invocation process after), runner1, snapshots2))))"

section \<open>Reconciliation\<close>

lemma reconcile_simps [simp]:
  "lo_snapshot (reconcile invo process s) = s"
  "lo_process (reconcile invo process s) = ok process"
  by (simp_all add: reconcile_def Let_def split: prod.split)

lemma reconcile_state:
  "lo_state (reconcile invo process s) =
     (if hs_health s \<noteq> Healthy then Indeterminate
      else if inv_mutates_kernel invo
      then (if expected_state_observed (inv_expected_state invo) s then Succeeded else Failed)
      else (if (\<exists>r. process = Inr r \<and> process_succeeded r) then Succeeded else Failed))"
  by (auto simp: reconcile_def Let_def split: sum.splits)

text \<open>An exit code is never proof.  The verdict on a mutation depends on the state observed
  afterwards alone: indeterminate when that state is not trustworthy, succeeded exactly when the
  expected state is observed, failed otherwise, whatever Kerf reported; only a dry run, which
  expects no change, is judged by the process result.\<close>

theorem reconcile_verdict:
  "lo_state (reconcile invo process s) =
     (if hs_health s \<noteq> Healthy then Indeterminate
      else if inv_mutates_kernel invo
      then (if expected_state_observed (inv_expected_state invo) s then Succeeded else Failed)
      else (if map_option process_succeeded (ok process) = Some True then Succeeded else Failed))"
  by (cases process) (auto simp: reconcile_state)

section \<open>Execution\<close>

lemma execute_cases:
  assumes "execute refresh_snapshot run request (runner, s) = (res, runner', s')"
  obtains (inventory) e where "refresh_snapshot s = (Inl e, s')" "res = Inl (Inventory_Error e)"
      "runner' = runner"
  | (indeterminate) before where "refresh_snapshot s = (Inr before, s')" "hs_health before \<noteq> Healthy"
      "res = Inl SnapshotIndeterminate" "runner' = runner"
  | (rejected) before e where "refresh_snapshot s = (Inr before, s')" "hs_health before = Healthy"
      "plan request before = Inl e" "res = Inl (Plan_Error e)" "runner' = runner"
  | (lost) before s1 invo process e where "refresh_snapshot s = (Inr before, s1)"
      "hs_health before = Healthy" "plan request before = Inr invo"
      "run invo runner = (process, runner')" "refresh_snapshot s1 = (Inl e, s')"
      "res = Inl (Inventory_Error e)"
  | (attempted) before s1 invo process after where "refresh_snapshot s = (Inr before, s1)"
      "hs_health before = Healthy" "plan request before = Inr invo"
      "run invo runner = (process, runner')" "refresh_snapshot s1 = (Inr after, s')"
      "res = Inr (reconcile invo process after)"
proof -
  obtain r1 s1 where one: "refresh_snapshot s = (r1, s1)" by (cases "refresh_snapshot s")
  note run = assms [unfolded execute_def, simplified, unfolded one, simplified]
  show thesis
  proof (cases r1)
    case (Inl e)
    with run one inventory show thesis by simp
  next
    case (Inr before)
    show thesis
    proof (cases "hs_health before = Healthy")
      case False
      with run one Inr indeterminate show thesis by simp
    next
      case True
      show thesis
      proof (cases "plan request before")
        case (Inl e)
        with run one Inr \<open>r1 = Inr before\<close> True rejected show thesis by simp
      next
        case (Inr invo)
        obtain process runner1 where kerf: "run invo runner = (process, runner1)"
          by (cases "run invo runner")
        obtain r2 s2 where two: "refresh_snapshot s1 = (r2, s2)" by (cases "refresh_snapshot s1")
        with run one \<open>r1 = Inr before\<close> True Inr kerf lost attempted show thesis
          by (cases r2) simp_all
      qed
    qed
  qed
qed

text \<open>C5: Kerf runs only behind the whole preflight.  An execution either leaves the Kerf runner
  untouched and returns an error, or it ran exactly the invocation that was planned from a healthy
  snapshot carrying the generation that the request expects.\<close>

theorem execute_guards_kerf:
  assumes "execute refresh_snapshot run request (runner, s) = (res, runner', s')"
  shows "(runner' = runner \<and> \<not> is_ok res) \<or>
    (\<exists>before invo. fst (refresh_snapshot s) = Inr before \<and> hs_health before = Healthy \<and>
       request_generation request = hs_generation before \<and> plan request before = Inr invo \<and>
       runner' = snd (run invo runner))"
  using assms
proof (cases rule: execute_cases)
  case (lost before s1 invo process e)
  with plan_Inr_cases [OF lost(3)] show ?thesis by simp
next
  case (attempted before s1 invo process after)
  with plan_Inr_cases [OF attempted(3)] show ?thesis by simp
qed simp_all

context snapshot_source
begin

text \<open>A client of the contract: after a first good snapshot the postflight refresh cannot fail, so
  an attempted mutation always ends in a reconciled outcome.\<close>

lemma execute_error_not_attempted:
  assumes "execute refresh_snapshot run request (runner, s) = (Inl e, runner', s')"
  shows "runner' = runner"
  using assms
proof (cases rule: execute_cases)
  case (lost before s1 invo process d)
  from refresh_result [OF lost(1)] refresh_error [OF lost(5)] show ?thesis by simp
qed simp_all

end

text \<open>With the inventory service as its snapshot source, a lifecycle execution that returns an
  error never reached Kerf: once Kerf has been started, the execution always ends with a reconciled
  outcome.  So the report "rejected before execution" is only made for mutations that were not
  attempted.\<close>

theorem execute_error_never_attempted:
  assumes "execute (refresh observe) run request (runner, service) = (Inl e, runner', service')"
  shows "runner' = runner"
  using assms by (rule inventory.execute_error_not_attempted)

section \<open>Refinement of the instance life cycle\<close>

text \<open>The abstract machine that operators see: which state change each request stands for.\<close>

inductive lifecycle_transition :: "lifecycle_request \<Rightarrow> instance_state \<Rightarrow> instance_state \<Rightarrow> bool" where
  create: "lifecycle_transition (Create r) Absent Ready"
| update: "lifecycle_transition (Update r) Ready Ready"
| load: "lifecycle_transition (Load r) Ready Loaded"
| start: "lifecycle_transition (Start r) Loaded Active"
| stop: "lifecycle_transition (Stop r) Active Loaded"
| unload: "lifecycle_transition (Unload r) Loaded Ready"
| delete: "lifecycle_transition (Delete r) Ready Absent"

inductive_simps lifecycle_transition_simps [simp]:
  "lifecycle_transition (Create r) a b" "lifecycle_transition (Update r) a b"
  "lifecycle_transition (Load r) a b" "lifecycle_transition (Start r) a b"
  "lifecycle_transition (Stop r) a b" "lifecycle_transition (Unload r) a b"
  "lifecycle_transition (Delete r) a b"

fun request_instance :: "lifecycle_request \<Rightarrow> instance_id" where
  "request_instance (Create r) = cr_id r"
| "request_instance (Update r) = ir_id (ur_instance r)"
| "request_instance (Load r) = ir_id (lr_instance r)"
| "request_instance (Start r) = ir_id r"
| "request_instance (Stop r) = ir_id (sr_instance r)"
| "request_instance (Unload r) = ir_id r"
| "request_instance (Delete r) = ir_id r"

text \<open>The abstraction function: the state of an instance in a snapshot, absent when there is none.\<close>

definition state_of :: "host_snapshot \<Rightarrow> instance_id \<Rightarrow> instance_state" where
  "state_of s i = (case find (\<lambda>x. in_id x = i) (hs_instances s) of
     None \<Rightarrow> Absent | Some x \<Rightarrow> in_state x)"

lemma state_of_unique:
  "distinct (map in_id (hs_instances s)) \<Longrightarrow> x \<in> set (hs_instances s) \<Longrightarrow>
     state_of s (in_id x) = in_state x"
  by (simp add: state_of_def find_unique_key)

lemma state_of_absent: "i \<notin> in_id ` set (hs_instances s) \<Longrightarrow> state_of s i = Absent"
  by (auto simp: state_of_def find_None_iff split: option.splits dest: find_SomeD)

lemma observed_state_of:
  assumes "distinct (map in_id (hs_instances s))"
  shows "expected_state_observed (Expect_Instance i st) s \<Longrightarrow> state_of s i = st"
    and "expected_state_observed (Expect_InstanceResources i st n c m d) s \<Longrightarrow> state_of s i = st"
    and "expected_state_observed (Expect_Absent i) s \<Longrightarrow> state_of s i = Absent"
  using state_of_unique [OF assms]
  by (auto simp: list_ex_iff list_all_iff intro!: state_of_absent)

lemma required_state_of: "require_instance s i st = Inr x \<Longrightarrow> state_of s i = st"
  by (simp add: require_instance_ok state_of_def)

lemma plan_transition:
  assumes "plan request before = Inr invo" and "inv_mutates_kernel invo"
    and "expected_state_observed (inv_expected_state invo) after"
    and "distinct (map in_id (hs_instances after))"
  shows "lifecycle_transition request (state_of before (request_instance request))
    (state_of after (request_instance request))"
proof (cases request)
  case (Create r)
  have "list_all (\<lambda>x. in_id x \<noteq> cr_id r) (hs_instances before)"
    using assms(1) Create
    by (auto simp: plan_def Let_def plan_create_def and_then_eq_Inr list_ex_iff list_all_iff
        split: if_splits)
  then have "state_of before (cr_id r) = Absent" by (intro state_of_absent) (auto simp: list_all_iff)
  moreover have "state_of after (cr_id r) = Ready"
    using assms(1,3) Create
    by (auto simp: plan_def Let_def plan_create_def and_then_eq_Inr split: if_splits
        intro!: observed_state_of(2) [OF assms(4)] simp del: expected_state_observed.simps)
  ultimately show ?thesis using Create by simp
next
  case (Update r)
  then show ?thesis
    using assms(1,3)
    by (auto simp: plan_def Let_def plan_update_def and_then_eq_Inr split: if_splits
        intro!: observed_state_of(2) [OF assms(4)] dest: required_state_of
        simp del: expected_state_observed.simps)
next
  case (Load r)
  then show ?thesis
    using assms(1,3)
    by (auto simp: plan_def Let_def plan_load_def and_then_eq_Inr require_state_ok split: if_splits
        intro!: observed_state_of(1) [OF assms(4)] dest: required_state_of
        simp del: expected_state_observed.simps)
next
  case (Stop r)
  then show ?thesis
    using assms(1,3)
    by (auto simp: plan_def Let_def plan_stop_def and_then_eq_Inr require_state_ok split: if_splits
        intro!: observed_state_of(1) [OF assms(4)] dest: required_state_of
        simp del: expected_state_observed.simps)
qed (use assms(1,3) in \<open>auto simp: plan_def Let_def plan_state_command_def and_then_eq_Inr
        require_state_ok split: if_splits intro!: observed_state_of(1,3) [OF assms(4)]
        dest: required_state_of simp del: expected_state_observed.simps\<close>)

text \<open>C6: The executor refines the life cycle.  When an execution reports that a mutation
  succeeded, the instance moved along the transition that the request stands for, from its state in
  the snapshot before to its state in the snapshot after (absent to ready for create, ready to
  loaded for load, and so on), provided instance IDs are unique in the snapshot after.\<close>

theorem execute_refines_lifecycle:
  assumes "execute refresh_snapshot run request (runner, s) = (Inr outcome, runner', s')"
    and "lo_state outcome = Succeeded" and "distinct (map in_id (hs_instances (lo_snapshot outcome)))"
    and "\<And>r. request = Update r \<Longrightarrow> \<not> ur_dry_run r"
  shows "\<exists>before. fst (refresh_snapshot s) = Inr before \<and>
    lifecycle_transition request (state_of before (request_instance request))
      (state_of (lo_snapshot outcome) (request_instance request))"
  using assms(1)
proof (cases rule: execute_cases)
  case (attempted before s1 invo process after)
  have "inv_mutates_kernel invo"
    using attempted(3) assms(4)
    by (auto simp: plan_def Let_def plan_create_def plan_update_def plan_load_def plan_stop_def
        plan_state_command_def and_then_eq_Inr split: lifecycle_request.splits if_splits)
  moreover from this have "expected_state_observed (inv_expected_state invo) after"
    using attempted(6) assms(2) by (auto simp: reconcile_state split: if_splits)
  ultimately have "lifecycle_transition request (state_of before (request_instance request))
      (state_of after (request_instance request))"
    using attempted(3,6) assms(3) by (intro plan_transition) auto
  with attempted show ?thesis by simp
qed simp_all

section \<open>Witnesses\<close>

text \<open>A start of instance 1: a refresher that shows it loaded and, on the second call, active.\<close>

definition start_host :: "instance_state \<Rightarrow> host_snapshot" where
  "start_host st = example_host\<lparr>hs_instances := [example_instance 1 ''build-1'' st 4 65536]\<rparr>"

definition start_refresh :: "nat \<Rightarrow> (string + host_snapshot) \<times> nat" where
  "start_refresh n = (Inr (start_host (if n = 0 then Loaded else Active)), Suc n)"

definition start_run :: "kerf_invocation \<Rightarrow> nat \<Rightarrow> (string + kerf_run_result) \<times> nat" where
  "start_run invo n = (Inl ''killed'', Suc n)"

definition start_request :: lifecycle_request where
  "start_request = Start \<lparr>ir_expected_generation = 7, ir_id = 1\<rparr>"

definition start_invocation :: kerf_invocation where
  "start_invocation = \<lparr>inv_arguments = [''exec'', id_option 1],
     inv_expected_state = Expect_Instance 1 Active, inv_mutates_kernel = True\<rparr>"

lemma start_plan: "plan start_request (start_host Loaded) = Inr start_invocation"
  by (simp add: plan_def start_request_def start_host_def plan_state_command_def require_state_def
      require_instance_def validate_id_def example_defs start_invocation_def)

lemma start_execute:
  "execute start_refresh start_run start_request (0, 0) =
     (Inr (reconcile start_invocation (Inl ''killed'') (start_host Active)), 1, 2)"
  by (simp add: execute_def start_refresh_def start_plan start_run_def)
    (simp add: start_host_def example_host_def)

lemma start_outcome:
  "lo_state (reconcile start_invocation (Inl ''killed'') (start_host Active)) = Succeeded"
  by (simp add: reconcile_state start_invocation_def start_host_def example_defs)

theorem execute_refines_lifecycle_witness:
  "lifecycle_transition start_request (state_of (start_host Loaded) 1) (state_of (start_host Active) 1)"
proof -
  have "distinct (map in_id (hs_instances (start_host Active)))"
    by (simp add: start_host_def)
  with execute_refines_lifecycle [OF start_execute start_outcome] show ?thesis
    by (auto simp: start_refresh_def start_request_def)
qed

theorem execute_guards_kerf_witness:
  "\<exists>before invo. fst (start_refresh 0) = Inr before \<and> hs_health before = Healthy \<and>
     plan start_request before = Inr invo \<and> 1 = snd (start_run invo 0)"
  using execute_guards_kerf [OF start_execute] by (metis is_ok.simps(2))

theorem execute_error_never_attempted_witness:
  "fst (snd (execute (refresh (\<lambda>n. (Inl ''offline'', Suc n))) start_run start_request
     (5, new_inventory_service 0))) = 5"
proof -
  have "execute (refresh (\<lambda>n. (Inl ''offline'', Suc n))) start_run start_request
      (5, new_inventory_service 0) =
    (Inl (Inventory_Error ''offline''), 5, \<lparr>is_source = 1, is_current = None\<rparr>)"
    by (simp add: execute_def refresh_def new_inventory_service_def)
  from this execute_error_never_attempted [OF this] show ?thesis by simp
qed

end
