(* ===== verification/Resource_Pool.thy ===== *)
theory Resource_Pool
  imports Executor
begin

text \<open>
  Resource-pool planning and partial-application reconciliation,
  \<open>crates/kernmux-daemon/src/resource_pool.rs\<close>.  The executor has the same two parameters as the
  lifecycle executor.  Byte totals wrap at 64 bits, as they do in the released build.
\<close>

section \<open>Definitions\<close>

record resource_pool_request =
  pr_expected_generation :: generation
  pr_cpu_hardware_ids :: "u32 list"
  pr_memory_bytes :: u64

record resource_pool_transition =
  rt_before_cpu_hardware_ids :: "u32 list"
  rt_requested_cpu_hardware_ids :: "u32 list"
  rt_observed_cpu_hardware_ids :: "u32 list"
  rt_added_cpu_hardware_ids :: "u32 list"
  rt_returned_cpu_hardware_ids :: "u32 list"
  rt_before_memory_bytes :: u64
  rt_requested_memory_bytes :: u64
  rt_observed_memory_bytes :: u64

definition request_reached :: "resource_pool_transition \<Rightarrow> bool" where
  "request_reached t \<longleftrightarrow>
     rt_requested_cpu_hardware_ids t = rt_observed_cpu_hardware_ids t \<and>
     rt_requested_memory_bytes t = rt_observed_memory_bytes t"

definition partially_applied :: "resource_pool_transition \<Rightarrow> bool" where
  "partially_applied t \<longleftrightarrow>
     \<not> request_reached t \<and>
     (rt_before_cpu_hardware_ids t \<noteq> rt_observed_cpu_hardware_ids t \<or>
      rt_before_memory_bytes t \<noteq> rt_observed_memory_bytes t)"

datatype resource_pool_recovery =
  No_Recovery | RefreshRequired | RetryRequest | HostRestartRequired

record resource_pool_outcome =
  po_state :: operation_state
  po_snapshot :: host_snapshot
  po_process :: "kerf_run_result option"
  po_transition :: resource_pool_transition
  po_recovery :: resource_pool_recovery
  po_diagnostics :: "diagnostic list"

datatype resource_pool_plan_error =
    Pool_SnapshotIndeterminate
  | Pool_StaleGeneration generation generation
  | Pool_DuplicateCpu
  | Pool_CpuPlacement cpu_placement_error
  | Pool_AssignedResourcesExcluded

fun pool_plan_error_code :: "resource_pool_plan_error \<Rightarrow> error_code" where
  "pool_plan_error_code Pool_SnapshotIndeterminate = BackendUnavailable"
| "pool_plan_error_code (Pool_StaleGeneration _ _) = PreconditionFailed"
| "pool_plan_error_code Pool_DuplicateCpu = InvalidRequest"
| "pool_plan_error_code (Pool_CpuPlacement _) = InvalidRequest"
| "pool_plan_error_code Pool_AssignedResourcesExcluded = Conflict"

datatype 'e resource_pool_execution_error =
    Pool_Inventory 'e
  | Pool_Plan resource_pool_plan_error

fun pool_execution_error_code :: "'e resource_pool_execution_error \<Rightarrow> error_code" where
  "pool_execution_error_code (Pool_Inventory _) = BackendUnavailable"
| "pool_execution_error_code (Pool_Plan e) = pool_plan_error_code e"

definition pool_cpu_argument :: "u32 list \<Rightarrow> string" where
  "pool_cpu_argument cpus =
     (if cpus = [] then ''--cpus=none'' else ''--cpus='' @ join '','' (map show_word cpus))"

definition pool_memory_argument :: "u64 \<Rightarrow> string" where
  "pool_memory_argument m = (if m = 0 then ''--memory=none'' else ''--memory='' @ show_word m)"

definition pool_plan ::
  "resource_pool_request \<Rightarrow> host_snapshot \<Rightarrow> resource_pool_plan_error + kerf_invocation" where
  "pool_plan request snapshot =
     (if hs_health snapshot \<noteq> Healthy then Inl Pool_SnapshotIndeterminate
      else if pr_expected_generation request \<noteq> hs_generation snapshot
      then Inl (Pool_StaleGeneration (pr_expected_generation request) (hs_generation snapshot))
      else
      let requested_cpus = btree_set (pr_cpu_hardware_ids request)
      in if length requested_cpus \<noteq> length (pr_cpu_hardware_ids request) then Inl Pool_DuplicateCpu
      else
      and_then (map_err Pool_CpuPlacement
        (validate_pool_cpus snapshot (pr_cpu_hardware_ids request))) (\<lambda>_.
      let assigned_memory =
            sum_list (map (\<lambda>x. ra_memory_bytes (in_resources x)) (hs_instances snapshot));
          excludes_cpu =
            list_ex (\<lambda>x. list_ex (\<lambda>c. c \<notin> set requested_cpus)
                           (ra_cpu_hardware_ids (in_resources x))) (hs_instances snapshot)
      in if excludes_cpu \<or> assigned_memory > pr_memory_bytes request
         then Inl Pool_AssignedResourcesExcluded
         else
         let cpus = sort (pr_cpu_hardware_ids request)
         in Inr \<lparr>inv_arguments = [''init'', pool_cpu_argument cpus,
                   pool_memory_argument (pr_memory_bytes request)],
                 inv_expected_state = Expect_ResourcePool cpus (pr_memory_bytes request),
                 inv_mutates_kernel = True\<rparr>))"

definition cpu_set :: "host_snapshot \<Rightarrow> u32 list" where
  "cpu_set s = btree_set (rp_cpu_hardware_ids (hs_resource_pool s))"

definition pool_memory :: "host_snapshot \<Rightarrow> u64" where
  "pool_memory s = sum_list (map mr_bytes (rp_memory_regions (hs_resource_pool s)))"

definition pool_transition ::
  "resource_pool_request \<Rightarrow> host_snapshot \<Rightarrow> host_snapshot \<Rightarrow> resource_pool_transition" where
  "pool_transition request before after =
     (let before_cpus = cpu_set before; observed_cpus = cpu_set after;
          requested_cpus = btree_set (pr_cpu_hardware_ids request)
      in \<lparr>rt_before_cpu_hardware_ids = before_cpus,
          rt_requested_cpu_hardware_ids = requested_cpus,
          rt_observed_cpu_hardware_ids = observed_cpus,
          rt_added_cpu_hardware_ids = filter (\<lambda>c. c \<notin> set before_cpus) observed_cpus,
          rt_returned_cpu_hardware_ids = filter (\<lambda>c. c \<notin> set observed_cpus) before_cpus,
          rt_before_memory_bytes = pool_memory before,
          rt_requested_memory_bytes = pr_memory_bytes request,
          rt_observed_memory_bytes = pool_memory after\<rparr>)"

definition pool_reconcile ::
  "resource_pool_request \<Rightarrow> host_snapshot \<Rightarrow> host_snapshot \<Rightarrow> 'f + kerf_run_result
     \<Rightarrow> resource_pool_outcome" where
  "pool_reconcile request before after process =
     (let t = pool_transition request before after;
          (state, recovery, diagnostics) =
            (if hs_health after \<noteq> Healthy
             then (Indeterminate, RefreshRequired, hs_diagnostics after)
             else if request_reached t then
               (Succeeded, No_Recovery,
                if (case process of Inl _ \<Rightarrow> False | Inr r \<Rightarrow> process_succeeded r) then []
                else [redacted_diagnostic ''kerf_result_reconciled'' Warning
                  ''resource pool reached the request despite the Kerf process result''])
             else
               let partial = partially_applied t
               in (Failed,
                   if partial \<and> pr_cpu_hardware_ids request = [] \<and> pr_memory_bytes request = 0 \<and>
                      rt_observed_cpu_hardware_ids t = [] \<and> rt_observed_memory_bytes t \<noteq> 0
                   then HostRestartRequired else RetryRequest,
                   [redacted_diagnostic
                      (if partial then ''resource_pool_partially_applied''
                       else ''resource_pool_unchanged'') Error_Severity
                      (if partial
                       then ''resource pool changed but did not reach the requested result''
                       else ''resource pool did not reach the requested result'')]))
      in \<lparr>po_state = state, po_snapshot = after, po_process = ok process, po_transition = t,
          po_recovery = recovery, po_diagnostics = diagnostics\<rparr>)"

definition pool_execute ::
  "('s \<Rightarrow> ('e + host_snapshot) \<times> 's) \<Rightarrow> (kerf_invocation \<Rightarrow> 'r \<Rightarrow> ('f + kerf_run_result) \<times> 'r) \<Rightarrow>
   resource_pool_request \<Rightarrow> 'r \<times> 's \<Rightarrow>
   ('e resource_pool_execution_error + resource_pool_outcome) \<times> 'r \<times> 's" where
  "pool_execute refresh_snapshot run request st =
     (case st of (runner, snapshots) \<Rightarrow>
      case refresh_snapshot snapshots of
        (Inl e, snapshots1) \<Rightarrow> (Inl (Pool_Inventory e), runner, snapshots1)
      | (Inr before, snapshots1) \<Rightarrow>
          (case pool_plan request before of
            Inl e \<Rightarrow> (Inl (Pool_Plan e), runner, snapshots1)
          | Inr invocation \<Rightarrow>
              (case run invocation runner of (process, runner1) \<Rightarrow>
               case refresh_snapshot snapshots1 of
                 (Inl e, snapshots2) \<Rightarrow> (Inl (Pool_Inventory e), runner1, snapshots2)
               | (Inr after, snapshots2) \<Rightarrow>
                   (Inr (pool_reconcile request before after process), runner1, snapshots2))))"

section \<open>Planning\<close>

lemma pool_plan_ok:
  assumes "pool_plan request s = Inr invo"
  shows "hs_health s = Healthy" "pr_expected_generation request = hs_generation s"
    "distinct (pr_cpu_hardware_ids request)"
    "validate_pool_cpus s (pr_cpu_hardware_ids request) = Inr ()"
    "\<And>x. x \<in> set (hs_instances s) \<Longrightarrow>
       set (ra_cpu_hardware_ids (in_resources x)) \<subseteq> set (pr_cpu_hardware_ids request)"
    "sum_list (map (\<lambda>x. ra_memory_bytes (in_resources x)) (hs_instances s)) \<le> pr_memory_bytes request"
    "inv_expected_state invo =
       Expect_ResourcePool (sort (pr_cpu_hardware_ids request)) (pr_memory_bytes request)"
  using assms
  by (auto simp: pool_plan_def Let_def and_then_eq_Inr map_err_eq_Inr length_btree_set list_ex_iff
      split: if_splits)

lemma unat_sum_list_words:
  "sum_list (map unat ws) < 2 ^ LENGTH('a) \<Longrightarrow> unat (sum_list ws) = sum_list (map unat ws)"
  for ws :: "'a::len word list"
proof (induction ws)
  case (Cons w ws)
  then have "unat (sum_list ws) = sum_list (map unat ws)" by simp
  with Cons.prems show ?case by (simp add: unat_add_no_overflow)
qed simp

text \<open>C7: A pool request that would take resources away from instances is never planned.  When a
  plan is accepted, every CPU of every instance stays in the pool, and the memory assigned to
  instances still fits, as long as the total of the assigned memory is representable in 64 bits.\<close>

theorem pool_plan_keeps_assigned_resources:
  assumes "pool_plan request s = Inr invo" and "assigned_total s < 2 ^ 64"
  shows "(\<Union>x \<in> set (hs_instances s). set (ra_cpu_hardware_ids (in_resources x))) \<subseteq>
      set (pr_cpu_hardware_ids request) \<and>
    assigned_total s \<le> unat (pr_memory_bytes request)"
proof -
  let ?ws = "map (\<lambda>x. ra_memory_bytes (in_resources x)) (hs_instances s)"
  have "assigned_total s = sum_list (map unat ?ws)"
    by (simp add: assigned_total_def comp_def)
  with assms(2) have "assigned_total s = unat (sum_list ?ws)" by (simp add: unat_sum_list_words)
  also have "\<dots> \<le> unat (pr_memory_bytes request)"
    using pool_plan_ok(6) [OF assms(1)] by (simp add: word_le_nat_alt)
  finally show ?thesis using pool_plan_ok(5) [OF assms(1)] by blast
qed

section \<open>Reconciliation\<close>

lemma pool_reconcile_simps [simp]:
  "po_snapshot (pool_reconcile request before after process) = after"
  "po_transition (pool_reconcile request before after process) = pool_transition request before after"
  by (simp_all add: pool_reconcile_def Let_def split: prod.split)

lemma request_reached_iff:
  "request_reached (pool_transition request before after) \<longleftrightarrow>
     set (pr_cpu_hardware_ids request) = set (rp_cpu_hardware_ids (hs_resource_pool after)) \<and>
     pr_memory_bytes request = pool_memory after"
  by (auto simp: request_reached_def pool_transition_def Let_def cpu_set_def btree_set_eq_iff)

text \<open>The two notions of success agree.  For an accepted plan the transition test of the
  resource-pool reconciler holds exactly when the expected state of the planned Kerf invocation is
  observed, and the operation is reported as succeeded exactly when the snapshot after is healthy
  and that state is observed.\<close>

theorem pool_success_iff_expected_state:
  assumes "pool_plan request before = Inr invo"
  shows "(po_state (pool_reconcile request before after process) = Succeeded) =
    (hs_health after = Healthy \<and> expected_state_observed (inv_expected_state invo) after)"
proof -
  have "request_reached (pool_transition request before after) \<longleftrightarrow>
      expected_state_observed (inv_expected_state invo) after"
    unfolding pool_plan_ok(7) [OF assms] request_reached_iff
    by (auto simp: btree_set_eq_iff pool_memory_def pool_bytes_def)
  then show ?thesis by (auto simp: pool_reconcile_def Let_def)
qed

text \<open>The transition report is exact: the CPUs reported as added are those observed after but
  not before, those reported as returned were there before and are gone, and before together with
  added is the same as observed together with returned; all lists are in ascending order.\<close>

theorem pool_transition_accounts:
  "let t = pool_transition request before after in
     set (rt_added_cpu_hardware_ids t) = set (rt_observed_cpu_hardware_ids t) - set (rt_before_cpu_hardware_ids t) \<and>
     set (rt_returned_cpu_hardware_ids t) = set (rt_before_cpu_hardware_ids t) - set (rt_observed_cpu_hardware_ids t) \<and>
     set (rt_before_cpu_hardware_ids t) \<union> set (rt_added_cpu_hardware_ids t) =
       set (rt_observed_cpu_hardware_ids t) \<union> set (rt_returned_cpu_hardware_ids t) \<and>
     sorted (rt_added_cpu_hardware_ids t) \<and> sorted (rt_returned_cpu_hardware_ids t) \<and>
     set (rt_observed_cpu_hardware_ids t) = set (rp_cpu_hardware_ids (hs_resource_pool after))"
proof -
  have "sorted (filter P (btree_set xs))" for P and xs :: "u32 list"
    using sorted_btree_set [of xs] by (rule sorted_wrt_filter)
  then show ?thesis
    by (auto simp: pool_transition_def Let_def cpu_set_def)
qed

text \<open>A host restart is demanded only for a release that is stuck: the request was to release
  everything, the CPUs are back, but pool memory is still held and something has changed.\<close>

theorem host_restart_required_iff:
  "po_recovery (pool_reconcile request before after process) = HostRestartRequired \<longleftrightarrow>
     hs_health after = Healthy \<and> pr_cpu_hardware_ids request = [] \<and> pr_memory_bytes request = 0 \<and>
     rp_cpu_hardware_ids (hs_resource_pool after) = [] \<and> pool_memory after \<noteq> 0 \<and>
     \<not> (rp_cpu_hardware_ids (hs_resource_pool before) = [] \<and> pool_memory before = pool_memory after)"
  by (auto simp: pool_reconcile_def Let_def partially_applied_def request_reached_def
      pool_transition_def cpu_set_def btree_set_eq_iff split: if_splits)

section \<open>Execution\<close>

context snapshot_source
begin

lemma pool_execute_error_not_attempted:
  assumes "pool_execute refresh_snapshot run request (runner, s) = (Inl e, runner', s')"
  shows "runner' = runner"
proof -
  obtain r1 s1 where one: "refresh_snapshot s = (r1, s1)" by (cases "refresh_snapshot s")
  show ?thesis
  proof (cases "\<exists>before invo. r1 = Inr before \<and> pool_plan request before = Inr invo")
    case False
    with assms one show ?thesis
      by (auto simp: pool_execute_def split: sum.splits)
  next
    case True
    then obtain before invo where ok: "r1 = Inr before" "pool_plan request before = Inr invo" by blast
    with one have "retained s1 \<noteq> None" using refresh_result by blast
    obtain r2 s2 where two: "refresh_snapshot s1 = (r2, s2)" by (cases "refresh_snapshot s1")
    then obtain after where "r2 = Inr after"
      using \<open>retained s1 \<noteq> None\<close> by (rule no_error_after_snapshot)
    with assms one two ok show ?thesis
      by (auto simp: pool_execute_def split: prod.splits)
  qed
qed

end

text \<open>With the inventory service as its source, a resource-pool execution that returns an error
  never reached Kerf.\<close>

theorem pool_execute_error_never_attempted:
  assumes "pool_execute (refresh observe) run request (runner, service) = (Inl e, runner', service')"
  shows "runner' = runner"
  using assms by (rule inventory.pool_execute_error_not_attempted)

section \<open>Witnesses\<close>

definition example_pool_request :: resource_pool_request where
  "example_pool_request = \<lparr>pr_expected_generation = 7, pr_cpu_hardware_ids = [8, 4, 6],
     pr_memory_bytes = 16384\<rparr>"

lemma example_pool_plan:
  "pool_plan example_pool_request example_host =
     Inr \<lparr>inv_arguments = [''init'', pool_cpu_argument [4, 6, 8], pool_memory_argument 16384],
          inv_expected_state = Expect_ResourcePool [4, 6, 8] 16384, inv_mutates_kernel = True\<rparr>"
  by (simp add: pool_plan_def example_pool_request_def validate_pool_cpus_retains btree_set_def
      example_defs Let_def)

theorem pool_plan_keeps_assigned_resources_witness:
  "assigned_total example_host = 8192 \<and> assigned_total example_host \<le> unat (pr_memory_bytes example_pool_request)"
proof -
  have "assigned_total example_host = 8192" by (simp add: assigned_total_def example_defs)
  with pool_plan_keeps_assigned_resources [OF example_pool_plan] show ?thesis by simp
qed

theorem pool_success_iff_expected_state_witness:
  "po_state (pool_reconcile example_pool_request example_host example_host
     (Inl ''lost'' :: string + kerf_run_result)) = Succeeded"
  by (subst pool_success_iff_expected_state [OF example_pool_plan])
    (simp add: example_defs btree_set_def pool_bytes_def)

theorem pool_execute_error_never_attempted_witness:
  "fst (snd (pool_execute (refresh (\<lambda>n. (Inl ''offline'', Suc n))) start_run example_pool_request
     (5, new_inventory_service 0))) = 5"
proof -
  have "pool_execute (refresh (\<lambda>n. (Inl ''offline'', Suc n))) start_run example_pool_request
      (5, new_inventory_service 0) =
    (Inl (Pool_Inventory ''offline''), 5, \<lparr>is_source = 1, is_current = None\<rparr>)"
    by (simp add: pool_execute_def refresh_def new_inventory_service_def)
  from this pool_execute_error_never_attempted [OF this] show ?thesis by simp
qed

end
