(* ===== verification/Scheduler.thy ===== *)
theory Scheduler
  imports Operations Resource_Pool "HOL-Library.Multiset"
begin

text \<open>
  The operation scheduler, \<open>crates/kernmux-daemon/src/scheduler.rs\<close>: one thread per accepted
  mutation, cooperative cancellation, and the terminal result that a worker records.

  The closure of a mutation is a \<open>task_program\<close>: sections that see the cancellation flag and act on
  the state behind the locks, up to the answer.  A thread is a \<open>worker\<close> record with the point it has
  reached; \<open>thread_step\<close> advances it by one atomic action (a registry call, a read of the
  cancellation flag, or a section under a lock).  The concurrent behaviours are the interleavings in \<open>scheduler_step\<close>.  Two further
  lists hold the threads whose handle is not in the shared list: \<open>sc_spawned\<close> before \<open>submit\<close> pushes
  it and \<open>sc_draining\<close> after \<open>drain\<close> has taken it.  The executor and its lock are the component
  \<open>sc_executor\<close>, on which tasks act; the clock is an argument of the steps that read it.
\<close>

section \<open>Task results\<close>

record operation_task_result =
  tr_state :: operation_state
  tr_observed_generation :: "generation option"
  tr_error :: "api_error option"

definition succeeded_result :: "generation \<Rightarrow> operation_task_result" where
  "succeeded_result generation =
     \<lparr>tr_state = Succeeded, tr_observed_generation = Some generation, tr_error = None\<rparr>"

definition cancelled_result :: "generation option \<Rightarrow> operation_task_result" where
  "cancelled_result generation =
     \<lparr>tr_state = Cancelled, tr_observed_generation = generation, tr_error = None\<rparr>"

definition failed_result :: "api_error \<Rightarrow> generation option \<Rightarrow> operation_task_result" where
  "failed_result err generation =
     \<lparr>tr_state = Failed, tr_observed_generation = generation, tr_error = Some err\<rparr>"

definition scheduler_api_error ::
  "error_code \<Rightarrow> string \<Rightarrow> bool \<Rightarrow> diagnostic list \<Rightarrow> api_error" where
  "scheduler_api_error code message retryable diagnostics =
     \<lparr>err_code = code, err_message = message, err_retryable = retryable,
      err_current_generation = None, err_diagnostics = diagnostics\<rparr>"

definition outcome_result ::
  "operation_state \<Rightarrow> generation \<Rightarrow> diagnostic list \<Rightarrow> operation_task_result" where
  "outcome_result state generation diagnostics =
     \<lparr>tr_state = state, tr_observed_generation = Some generation,
      tr_error =
        (if state = Succeeded \<or> state = Cancelled then None
         else if state = Indeterminate then
           Some (scheduler_api_error BackendUnavailable ''operation outcome is indeterminate''
                   True diagnostics)
         else
           Some (scheduler_api_error BackendUnavailable
                   ''host mutation did not reach the requested result'' True diagnostics))\<rparr>"

definition failure_result :: "error_code \<Rightarrow> diagnostic list \<Rightarrow> operation_task_result" where
  "failure_result code diagnostics =
     \<lparr>tr_state = Failed, tr_observed_generation = None,
      tr_error = Some (scheduler_api_error code ''operation was rejected before execution''
                         (code = BackendUnavailable \<or> code = Timeout) diagnostics)\<rparr>"

definition worker_panic_result :: operation_task_result where
  "worker_panic_result =
     \<lparr>tr_state = Failed, tr_observed_generation = None,
      tr_error = Some (scheduler_api_error Internal ''operation worker terminated unexpectedly''
        False
        [\<lparr>diag_code = ''worker_panicked'', diag_severity = Error_Severity,
          diag_message = ''operation worker terminated unexpectedly'', diag_detail = None,
          diag_redacted = True\<rparr>])\<rparr>"

definition worker_spawn_result :: operation_task_result where
  "worker_spawn_result =
     \<lparr>tr_state = Failed, tr_observed_generation = None,
      tr_error = Some (scheduler_api_error Internal ''operation worker could not be started''
                         True [])\<rparr>"

definition lifecycle_task_result ::
  "'e lifecycle_execution_error + lifecycle_outcome \<Rightarrow> operation_task_result" where
  "lifecycle_task_result result =
     (case result of
        Inr outcome \<Rightarrow> outcome_result (lo_state outcome) (hs_generation (lo_snapshot outcome))
                         (lo_diagnostics outcome)
      | Inl e \<Rightarrow> failure_result (execution_error_code e) [])"

definition resource_pool_task_result ::
  "'e resource_pool_execution_error + resource_pool_outcome \<Rightarrow> operation_task_result" where
  "resource_pool_task_result result =
     (case result of
        Inr outcome \<Rightarrow> outcome_result (po_state outcome) (hs_generation (po_snapshot outcome))
                         (po_diagnostics outcome)
      | Inl e \<Rightarrow> failure_result (pool_execution_error_code e) [])"

section \<open>Workers\<close>

text \<open>The part of a task under the executor lock: its result (\<open>None\<close> for a panic) and the executor.\<close>

type_synonym 'x locked_task = "'x \<Rightarrow> operation_task_result option \<times> 'x"

text \<open>
  A closure that has returned, or one that goes on with a section: given the cancellation flag and
  the state, the section gives the rest of the closure (\<open>None\<close> for a panic) and the new state.
\<close>

datatype 'x task_program =
    Answer operation_task_result
  | Section "bool \<Rightarrow> 'x \<Rightarrow> 'x task_program option \<times> 'x"

datatype 'x thread_phase =
    Spawned
  | Running_Task "'x task_program"
  | Thread_Exited

record 'x worker =
  wk_operation_id :: operation_id
  wk_cancelled :: bool
  wk_task :: "'x task_program"
  wk_phase :: "'x thread_phase"

record 'x operation_scheduler =
  sc_registry :: shared
  sc_workers :: "'x worker list"
  sc_spawned :: "'x worker list"
  sc_draining :: "'x worker list"
  sc_executor :: 'x

definition is_finished :: "'x worker \<Rightarrow> bool" where
  "is_finished w \<longleftrightarrow> wk_phase w = Thread_Exited"

definition lifecycle_task ::
  "('s \<Rightarrow> ('e + host_snapshot) \<times> 's) \<Rightarrow> (kerf_invocation \<Rightarrow> 'r \<Rightarrow> ('f + kerf_run_result) \<times> 'r) \<Rightarrow>
   lifecycle_request \<Rightarrow> ('r \<times> 's) locked_task" where
  "lifecycle_task refresh_snapshot run request executor =
     (case execute refresh_snapshot run request executor of
        (result, executor') \<Rightarrow> (Some (lifecycle_task_result result), executor'))"

definition resource_pool_task ::
  "('s \<Rightarrow> ('e + host_snapshot) \<times> 's) \<Rightarrow> (kerf_invocation \<Rightarrow> 'r \<Rightarrow> ('f + kerf_run_result) \<times> 'r) \<Rightarrow>
   resource_pool_request \<Rightarrow> ('r \<times> 's) locked_task" where
  "resource_pool_task refresh_snapshot run request executor =
     (case pool_execute refresh_snapshot run request executor of
        (result, executor') \<Rightarrow> (Some (resource_pool_task_result result), executor'))"

text \<open>
  The closures of \<open>submit_lifecycle\<close> and \<open>submit_resource_pool\<close> look at the cancellation flag
  before they wait for the executor lock and again once they hold it.
\<close>

definition check_cancelled :: "'x task_program \<Rightarrow> 'x task_program" where
  "check_cancelled rest =
     Section (\<lambda>cancelled x. (Some (if cancelled then Answer (cancelled_result None) else rest), x))"

definition run_locked :: "'x locked_task \<Rightarrow> 'x task_program" where
  "run_locked task =
     Section (\<lambda>cancelled x.
       if cancelled then (Some (Answer (cancelled_result None)), x)
       else (case task x of (result, x') \<Rightarrow> (map_option Answer result, x')))"

definition guarded_task :: "'x locked_task \<Rightarrow> 'x task_program" where
  "guarded_task task = check_cancelled (run_locked task)"

text \<open>One atomic action of a worker thread: the closure that \<open>submit\<close> spawns.\<close>

definition thread_step ::
  "string \<Rightarrow> 'x worker \<Rightarrow> shared \<Rightarrow> 'x \<Rightarrow> 'x worker \<times> shared \<times> 'x" where
  "thread_step clock w registry executor =
     (case wk_phase w of
        Spawned \<Rightarrow>
          (case start (wk_operation_id w) registry of
             (Inl _, registry') \<Rightarrow> (w\<lparr>wk_phase := Thread_Exited\<rparr>, registry', executor)
           | (Inr _, registry') \<Rightarrow> (w\<lparr>wk_phase := Running_Task (wk_task w)\<rparr>, registry', executor))
      | Running_Task (Section f) \<Rightarrow>
          (case f (wk_cancelled w) executor of (rest, executor') \<Rightarrow>
            (w\<lparr>wk_phase := Running_Task
                 (case rest of Some t \<Rightarrow> t | None \<Rightarrow> Answer worker_panic_result)\<rparr>,
             registry, executor'))
      | Running_Task (Answer result) \<Rightarrow>
          (case finish (wk_operation_id w) (tr_state result) (tr_observed_generation result)
                  (tr_error result) clock registry of
             (_, registry') \<Rightarrow> (w\<lparr>wk_phase := Thread_Exited\<rparr>, registry', executor))
      | Thread_Exited \<Rightarrow> (w, registry, executor))"

section \<open>Methods of the scheduler\<close>

definition new_scheduler :: "shared \<Rightarrow> 'x \<Rightarrow> 'x operation_scheduler" where
  "new_scheduler registry executor =
     \<lparr>sc_registry = registry, sc_workers = [], sc_spawned = [], sc_draining = [],
      sc_executor = executor\<rparr>"

definition swap_remove :: "nat \<Rightarrow> 'a list \<Rightarrow> 'a list" where
  "swap_remove i xs = butlast (xs[i := last xs])"

function reap_from :: "nat \<Rightarrow> 'x worker list \<Rightarrow> 'x worker list" where
  "reap_from i workers =
     (if i < length workers
      then (if is_finished (workers ! i) then reap_from i (swap_remove i workers)
            else reap_from (Suc i) workers)
      else workers)"
  by pat_completeness auto
termination
  by (relation "measure (\<lambda>(i, workers). length workers - i)") (auto simp: swap_remove_def)

declare reap_from.simps [simp del]

definition reap_finished :: "'x operation_scheduler \<Rightarrow> 'x operation_scheduler" where
  "reap_finished sc = sc\<lparr>sc_workers := reap_from 0 (sc_workers sc)\<rparr>"

text \<open>
  \<open>submit\<close> up to the spawned thread, and the final push of the handle.  Creating the operation and
  spawning the thread are one step: the thread does nothing until its own first step, so a thread
  spawned later is indistinguishable from one spawned at once.
\<close>

definition submit_spawn :: "bool \<Rightarrow> string \<Rightarrow> new_operation \<Rightarrow> 'x task_program \<Rightarrow>
    'x operation_scheduler \<Rightarrow> (unit + operation) \<times> 'x operation_scheduler" where
  "submit_spawn spawned clock request task sc0 =
     (let sc = reap_finished sc0;
          (operation, registry) = create request (sc_registry sc)
      in if spawned
         then (Inr operation,
               sc\<lparr>sc_registry := registry,
                  sc_spawned := \<lparr>wk_operation_id = op_id operation, wk_cancelled = False,
                                 wk_task = task, wk_phase = Spawned\<rparr> # sc_spawned sc\<rparr>)
         else (let failure = worker_spawn_result in
               (Inl (), sc\<lparr>sc_registry :=
                  snd (finish (op_id operation) (tr_state failure) (tr_observed_generation failure)
                         (tr_error failure) clock registry)\<rparr>)))"

fun remove_first :: "('a \<Rightarrow> bool) \<Rightarrow> 'a list \<Rightarrow> 'a list" where
  "remove_first p [] = []"
| "remove_first p (x # xs) = (if p x then xs else x # remove_first p xs)"

definition register_worker ::
  "operation_id \<Rightarrow> 'x operation_scheduler \<Rightarrow> 'x operation_scheduler" where
  "register_worker ident sc =
     (case find (\<lambda>w. wk_operation_id w = ident) (sc_spawned sc) of
        None \<Rightarrow> sc
      | Some w \<Rightarrow> sc\<lparr>sc_workers := sc_workers sc @ [w],
                     sc_spawned := remove_first (\<lambda>w. wk_operation_id w = ident) (sc_spawned sc)\<rparr>)"

definition submit :: "bool \<Rightarrow> string \<Rightarrow> new_operation \<Rightarrow> 'x task_program \<Rightarrow>
    'x operation_scheduler \<Rightarrow> (unit + operation) \<times> 'x operation_scheduler" where
  "submit spawned clock request task sc =
     (case submit_spawn spawned clock request task sc of
        (Inl e, sc') \<Rightarrow> (Inl e, sc')
      | (Inr operation, sc') \<Rightarrow> (Inr operation, register_worker (op_id operation) sc'))"

definition cancel :: "operation_id \<Rightarrow> 'x operation_scheduler \<Rightarrow>
    (operation_registry_error + unit) \<times> 'x operation_scheduler" where
  "cancel ident sc0 =
     (let sc = reap_finished sc0 in
      case find (\<lambda>w. wk_operation_id w = ident) (sc_workers sc) of
        None \<Rightarrow> (Inl Reg_NotFound, sc)
      | Some w \<Rightarrow>
          (Inr (), sc\<lparr>sc_workers := replace_first (\<lambda>w. wk_operation_id w = ident)
                                      (w\<lparr>wk_cancelled := True\<rparr>) (sc_workers sc)\<rparr>))"

definition drain_take :: "'x operation_scheduler \<Rightarrow> 'x operation_scheduler" where
  "drain_take sc = sc\<lparr>sc_workers := [], sc_draining := sc_workers sc @ sc_draining sc\<rparr>"

text \<open>
  Joining a thread: it runs to its end.  The closure gets smaller with every section, so the end is
  reached for every behaviour of the sections.
\<close>

inductive phase_less :: "'x thread_phase \<Rightarrow> 'x thread_phase \<Rightarrow> bool" where
  less_started: "phase_less (Running_Task t) Spawned"
| less_not_started: "phase_less Thread_Exited Spawned"
| less_section: "f c x = (Some t, x') \<Longrightarrow> phase_less (Running_Task t) (Running_Task (Section f))"
| less_panicked: "phase_less (Running_Task (Answer r)) (Running_Task (Section f))"
| less_finished: "phase_less Thread_Exited (Running_Task t)"

inductive_cases less_runningE: "phase_less p (Running_Task t)"
inductive_cases less_spawnedE: "phase_less p Spawned"
inductive_cases less_exitedE: "phase_less p Thread_Exited"

lemma phase_less_wf: "wfP phase_less"
proof (rule accp_wfpI, rule allI)
  fix p :: "'x thread_phase"
  have exited: "Wellfounded.accp phase_less (Thread_Exited :: 'x thread_phase)"
    by (rule accpI) (auto elim: less_exitedE)
  have answer: "Wellfounded.accp phase_less (Running_Task (Answer r) :: 'x thread_phase)" for r
    by (rule accpI) (auto elim: less_runningE intro: exited)
  have running: "Wellfounded.accp phase_less (Running_Task t)" for t :: "'x task_program"
  proof (induction t)
    case (Section f)
    show ?case
    proof (rule accpI)
      fix q assume "phase_less q (Running_Task (Section f))"
      then show "Wellfounded.accp phase_less q"
      proof (cases rule: phase_less.cases)
        case (less_section c x t x')
        then have "t \<in> set_option (fst (f c x))" by simp
        with less_section rangeI [of "f c" x] Section [of "f c" "f c x" "fst (f c x)" t] show ?thesis
          by (simp add: fsts.simps prod_set_simps)
      qed (use answer exited in auto)
    qed
  qed (rule answer)
  show "Wellfounded.accp phase_less p"
    by (cases p) (auto intro: exited running accpI elim: less_spawnedE)
qed

lemma thread_step_decreases:
  "\<not> is_finished w \<Longrightarrow>
     phase_less (wk_phase (fst (thread_step clock w registry executor))) (wk_phase w)"
  by (auto simp: thread_step_def is_finished_def intro: phase_less.intros
      split: thread_phase.split task_program.split prod.split sum.split option.split)

function join_thread :: "string \<Rightarrow> 'x worker \<Rightarrow> shared \<times> 'x \<Rightarrow> shared \<times> 'x" where
  "join_thread clock w st =
     (if is_finished w then st
      else join_thread clock (fst (thread_step clock w (fst st) (snd st)))
             (snd (thread_step clock w (fst st) (snd st))))"
  by pat_completeness auto
termination
proof (relation "inv_image {(p, q). phase_less p q} (\<lambda>(clock, w, st). wk_phase w)")
  show "wf (inv_image {(p, q). phase_less p q} (\<lambda>(clock :: string, w :: 'x worker, st :: shared \<times> 'x). wk_phase w))"
    by (rule wf_inv_image) (use phase_less_wf in \<open>simp add: wfp_def\<close>)
qed (simp add: thread_step_decreases case_prod_unfold)

declare join_thread.simps [simp del]

definition drain :: "string \<Rightarrow> 'x operation_scheduler \<Rightarrow> 'x operation_scheduler" where
  "drain clock sc =
     (case fold (join_thread clock) (sc_workers sc) (sc_registry sc, sc_executor sc) of
        (registry, executor) \<Rightarrow>
          sc\<lparr>sc_workers := [], sc_registry := registry, sc_executor := executor\<rparr>)"

definition worker_count :: "'x operation_scheduler \<Rightarrow> nat" where
  "worker_count sc = length (sc_workers sc)"

section \<open>Interleavings\<close>

text \<open>A closure that answers with a terminal state whenever it returns.\<close>

inductive settles :: "'x task_program \<Rightarrow> bool" where
  settles_answer: "is_terminal (tr_state r) \<Longrightarrow> settles (Answer r)"
| settles_section: "(\<And>c x t x'. f c x = (Some t, x') \<Longrightarrow> settles t) \<Longrightarrow> settles (Section f)"

inductive_simps settles_answer_iff [simp]: "settles (Answer r)"
inductive_simps settles_section_iff [simp]: "settles (Section f)"

definition step_worker :: "string \<Rightarrow> nat \<Rightarrow> 'x worker list \<Rightarrow> shared \<Rightarrow> 'x \<Rightarrow>
    'x worker list \<times> shared \<times> 'x" where
  "step_worker clock i ws registry executor =
     (case thread_step clock (ws ! i) registry executor of
        (w, registry', executor') \<Rightarrow> (ws[i := w], registry', executor'))"

inductive scheduler_step :: "'x operation_scheduler \<Rightarrow> 'x operation_scheduler \<Rightarrow> bool" where
  sched_submit: "settles task \<Longrightarrow>
     submit_spawn spawned clock request task sc = (r, sc') \<Longrightarrow> scheduler_step sc sc'"
| sched_register: "scheduler_step sc (register_worker ident sc)"
| sched_cancel: "cancel ident sc = (r, sc') \<Longrightarrow> scheduler_step sc sc'"
| sched_drain: "scheduler_step sc (drain_take sc)"
| sched_worker: "i < length (sc_workers sc) \<Longrightarrow>
     step_worker clock i (sc_workers sc) (sc_registry sc) (sc_executor sc) = (ws, registry, executor) \<Longrightarrow>
     scheduler_step sc
       (sc\<lparr>sc_workers := ws, sc_registry := registry, sc_executor := executor\<rparr>)"
| sched_spawned: "i < length (sc_spawned sc) \<Longrightarrow>
     step_worker clock i (sc_spawned sc) (sc_registry sc) (sc_executor sc) = (ws, registry, executor) \<Longrightarrow>
     scheduler_step sc
       (sc\<lparr>sc_spawned := ws, sc_registry := registry, sc_executor := executor\<rparr>)"
| sched_draining: "i < length (sc_draining sc) \<Longrightarrow>
     step_worker clock i (sc_draining sc) (sc_registry sc) (sc_executor sc) = (ws, registry, executor) \<Longrightarrow>
     scheduler_step sc
       (sc\<lparr>sc_draining := ws, sc_registry := registry, sc_executor := executor\<rparr>)"
| sched_joined: "sc_draining sc = us @ w # vs \<Longrightarrow> is_finished w \<Longrightarrow>
     scheduler_step sc (sc\<lparr>sc_draining := us @ vs\<rparr>)"

inductive scheduler_reachable :: "'x operation_scheduler \<Rightarrow> bool" where
  reach_new: "new_registry oc ec = Inr registry \<Longrightarrow>
     scheduler_reachable (new_scheduler registry executor)"
| reach_step: "scheduler_reachable sc \<Longrightarrow> scheduler_step sc sc' \<Longrightarrow> scheduler_reachable sc'"

section \<open>Reaping\<close>

lemma mset_swap_remove:
  assumes "i < length xs"
  shows "mset (swap_remove i xs) = mset xs - {#xs ! i#}"
proof (cases xs rule: rev_cases)
  case (snoc ys y)
  show ?thesis
  proof (cases "i = length ys")
    case True
    then show ?thesis by (simp add: snoc swap_remove_def list_update_append)
  next
    case False
    with assms snoc have "i < length ys" by simp
    then show ?thesis
      using diff_union_single_conv [of "ys ! i" "mset ys" "{#y#}"]
      by (simp add: snoc swap_remove_def list_update_append nth_append mset_update)
  qed
qed (use assms in simp)

lemma swap_remove_prefix:
  assumes "i < length xs"
  shows "take i (swap_remove i xs) = take i xs" and "length (swap_remove i xs) = length xs - 1"
  using assms by (simp_all add: swap_remove_def take_butlast)

lemma mset_take_drop: "mset (drop i xs) = mset xs - mset (take i xs)"
  by (metis add_diff_cancel_left' append_take_drop_id mset_append)

lemma mset_reap_from:
  "i \<le> length ws \<Longrightarrow> mset (reap_from i ws)
     = mset (take i ws) + filter_mset (\<lambda>w. \<not> is_finished w) (mset (drop i ws))"
proof (induction i ws rule: reap_from.induct)
  case (1 i ws)
  show ?case
  proof (cases "i < length ws")
    case False
    with 1 show ?thesis by (subst reap_from.simps) simp
  next
    case less: True
    have drop: "drop i ws = ws ! i # drop (Suc i) ws" by (rule Cons_nth_drop_Suc [OF less, symmetric])
    show ?thesis
    proof (cases "is_finished (ws ! i)")
      case True
      have "mset (drop i (swap_remove i ws)) = mset ws - {#ws ! i#} - mset (take i ws)"
        by (simp only: mset_take_drop mset_swap_remove [OF less] swap_remove_prefix [OF less])
      also have "\<dots> = mset (drop i ws) - {#ws ! i#}"
        by (simp only: mset_take_drop diff_right_commute)
      also have "\<dots> = mset (drop (Suc i) ws)" by (simp only: drop) simp
      finally have "mset (drop i (swap_remove i ws)) = mset (drop (Suc i) ws)" .
      with 1 less True show ?thesis
        by (subst reap_from.simps) (simp add: swap_remove_prefix drop)
    next
      case False
      with 1 less show ?thesis
        by (subst reap_from.simps) (simp add: drop take_Suc_conv_app_nth)
    qed
  qed
qed

lemma mset_reap: "mset (reap_from 0 ws) = filter_mset (\<lambda>w. \<not> is_finished w) (mset ws)"
  using mset_reap_from [of 0 ws] by simp

lemma set_reap: "set (reap_from 0 ws) = {w \<in> set ws. \<not> is_finished w}"
  by (metis mset_reap set_mset_filter set_mset_mset)

section \<open>Workers drive their operations\<close>

context operation_store
begin

lemma launch_outcome:
  assumes "usable s" and "launch i s = (r, s')" and "status s i \<in> {None, Some Queued}"
  shows "status s' i = (if is_ok r then Some Running else None)"
    and "j \<noteq> i \<Longrightarrow> status s' j = status s j"
  using launch_queued [OF assms(1,2)] assms(3) by (auto split: if_splits)

lemma complete_outcome:
  assumes "usable s" and "complete i st g e at s = (r, s')" and "is_terminal st"
  shows "is_none_or is_terminal (status s' i)" and "j \<noteq> i \<Longrightarrow> status s' j = status s j"
  using complete_live [OF assms(1,2)] assms(3)
  by (cases "status s i"; auto split: if_splits)+

end

fun phase_agrees :: "'x thread_phase \<Rightarrow> operation_state option \<Rightarrow> bool" where
  "phase_agrees Spawned st \<longleftrightarrow> st \<in> {None, Some Queued}"
| "phase_agrees (Running_Task t) st \<longleftrightarrow> st \<in> {None, Some Running} \<and> settles t"
| "phase_agrees Thread_Exited st \<longleftrightarrow> is_none_or is_terminal st"

lemma phase_agrees_None [simp]: "phase_agrees p None \<longleftrightarrow> (\<forall>t. p = Running_Task t \<longrightarrow> settles t)"
  by (cases p) auto

definition worker_ok :: "shared \<Rightarrow> 'x worker \<Rightarrow> bool" where
  "worker_ok registry w \<longleftrightarrow>
     issued registry (wk_operation_id w) \<and> settles (wk_task w) \<and>
     phase_agrees (wk_phase w) (operation_status registry (wk_operation_id w))"

definition workers_ok :: "shared \<Rightarrow> 'x worker list \<Rightarrow> bool" where
  "workers_ok registry ws \<longleftrightarrow>
     distinct (map wk_operation_id ws) \<and> list_all (worker_ok registry) ws \<and>
     (\<forall>i st. operation_status registry i = Some st \<longrightarrow>
        is_terminal st \<or> i \<in> wk_operation_id ` set ws)"

lemma terminal_simps [simp]:
  "\<not> is_terminal Queued" "\<not> is_terminal Running" "is_terminal Cancelled" "is_terminal Failed"
  "is_terminal Succeeded" "is_terminal Indeterminate"
  by (simp_all add: is_terminal_def)

lemma task_result_terminal [simp]:
  "is_terminal (tr_state (cancelled_result g))" "is_terminal (tr_state worker_panic_result)"
  "is_terminal (tr_state worker_spawn_result)"
  by (simp_all add: cancelled_result_def worker_panic_result_def worker_spawn_result_def)

lemma workers_ok_mset:
  "mset ws = mset ws' \<Longrightarrow> workers_ok registry ws = workers_ok registry ws'"
  unfolding workers_ok_def list_all_iff
  by (metis image_mset_eq_plusD mset_eq_imp_distinct_iff mset_eq_setD mset_map)

lemma workers_ok_drop:
  assumes "workers_ok registry (us @ ws)" and "list_all is_finished us"
  shows "workers_ok registry ws"
proof -
  have "is_none_or is_terminal (operation_status registry (wk_operation_id u))" if "u \<in> set us" for u
  proof -
    from assms that have "worker_ok registry u" "wk_phase u = Thread_Exited"
      by (auto simp: workers_ok_def is_finished_def list_all_iff)
    then show ?thesis by (simp add: worker_ok_def)
  qed
  then have "is_terminal st" if "operation_status registry (wk_operation_id u) = Some st" "u \<in> set us" for u st
    using that by fastforce
  with assms(1) show ?thesis unfolding workers_ok_def list_all_append
    by (auto simp: image_iff) blast
qed

lemma workers_ok_keys:
  assumes "map (\<lambda>w. (wk_operation_id w, wk_task w, wk_phase w)) ws
    = map (\<lambda>w. (wk_operation_id w, wk_task w, wk_phase w)) ws'"
  shows "workers_ok registry ws = workers_ok registry ws'"
proof -
  have ids: "map wk_operation_id ws = map wk_operation_id ws'"
    using arg_cong [OF assms, of "map fst"] by (simp add: comp_def)
  have "list_all (worker_ok registry) ws = list_all (worker_ok registry) ws'"
    using arg_cong [OF assms, of "list_all (\<lambda>(i, t, p). issued registry i \<and> settles t \<and>
        phase_agrees p (operation_status registry i))"]
    by (simp add: list.pred_map comp_def worker_ok_def [abs_def])
  moreover have "wk_operation_id ` set ws = wk_operation_id ` set ws'"
    using arg_cong [OF ids, of set] by simp
  ultimately show ?thesis unfolding workers_ok_def ids by simp
qed

lemma issued_next:
  "rs_next_operation (sh_state r) \<le> rs_next_operation (sh_state r') \<Longrightarrow> issued r i \<Longrightarrow> issued r' i"
  by (auto simp: issued_def intro: less_le_trans)

lemma update_next: "rs_next_operation (sh_state (snd (update i m r))) = rs_next_operation (sh_state r)"
  by (simp add: update_def Let_def split: option.split sum.split)

lemma worker_ok_other:
  assumes "worker_ok registry w"
    and "operation_status registry' (wk_operation_id w)
      \<in> {operation_status registry (wk_operation_id w), None}"
    and "rs_next_operation (sh_state registry) \<le> rs_next_operation (sh_state registry')"
  shows "worker_ok registry' w"
  using assms issued_next [OF assms(3)]
  by (cases "wk_phase w") (auto simp: worker_ok_def)

lemma worker_ok_move_away:
  assumes "worker_ok registry w"
    and "operation_status registry' (wk_operation_id w) = operation_status registry (wk_operation_id w)"
    and "rs_next_operation (sh_state registry') = rs_next_operation (sh_state registry)"
  shows "worker_ok registry' w"
  by (rule worker_ok_other [OF assms(1)]) (simp_all add: assms(2,3))

lemma workers_ok_move:
  assumes ok: "workers_ok registry (w # vs)"
    and w': "wk_operation_id w' = wk_operation_id w" "wk_task w' = wk_task w"
    and other: "\<And>j. j \<noteq> wk_operation_id w \<Longrightarrow>
      operation_status registry' j = operation_status registry j"
    and nxt: "rs_next_operation (sh_state registry') = rs_next_operation (sh_state registry)"
    and agrees: "phase_agrees (wk_phase w') (operation_status registry' (wk_operation_id w))"
  shows "workers_ok registry' (w' # vs)"
proof -
  have "worker_ok registry' v" if "v \<in> set vs" for v
  proof (rule worker_ok_other)
    show "worker_ok registry v" using ok that by (auto simp: workers_ok_def list_all_iff)
    have "wk_operation_id w \<notin> wk_operation_id ` set vs" using ok by (simp add: workers_ok_def)
    with that have "wk_operation_id v \<noteq> wk_operation_id w" by (metis image_eqI)
    then show "operation_status registry' (wk_operation_id v)
        \<in> {operation_status registry (wk_operation_id v), None}" by (simp add: other)
  qed (simp add: nxt)
  moreover have "worker_ok registry' w'"
    using ok agrees w' issued_next [of registry registry'] nxt
    by (simp add: workers_ok_def worker_ok_def)
  moreover have "is_terminal st \<or> i \<in> wk_operation_id ` set (w' # vs)"
    if "operation_status registry' i = Some st" for i st
    using ok that other [of i] w'(1) by (cases "i = wk_operation_id w") (auto simp: workers_ok_def)
  ultimately show ?thesis using ok w'(1) by (auto simp: workers_ok_def list_all_iff)
qed

lemma thread_step_ok:
  assumes ok: "workers_ok registry (w # vs)" and usable: "registry_usable registry"
    and step: "thread_step clock w registry executor = (w', registry', executor')"
  shows "workers_ok registry' (w' # vs)" and "registry_usable registry'"
    and "rs_next_operation (sh_state registry') = rs_next_operation (sh_state registry)"
proof -
  let ?i = "wk_operation_id w"
  have agrees: "phase_agrees (wk_phase w) (operation_status registry ?i)"
    and task: "settles (wk_task w)"
    using ok by (auto simp: workers_ok_def worker_ok_def)
  have w': "wk_operation_id w' = ?i" "wk_task w' = wk_task w"
    using step by (auto simp: thread_step_def
        split: thread_phase.splits task_program.splits if_splits prod.splits sum.splits)
  have "registry_usable registry' \<and> (\<forall>j. j \<noteq> ?i \<longrightarrow>
      operation_status registry' j = operation_status registry j) \<and>
      rs_next_operation (sh_state registry') = rs_next_operation (sh_state registry) \<and>
      phase_agrees (wk_phase w') (operation_status registry' ?i)"
  proof (cases "wk_phase w")
    case Spawned
    obtain r where r: "start ?i registry = (r, registry')"
      "wk_phase w' = (if is_ok r then Running_Task (wk_task w) else Thread_Exited)"
      using step Spawned by (auto simp: thread_step_def split: prod.splits sum.splits)
    then show ?thesis
      using registry.launch_outcome [OF usable r(1)] agrees Spawned start_usable [OF usable r(1)]
        update_next [of ?i start_mutation registry] task
      by (auto simp: start_def)
  next
    case (Running_Task t)
    show ?thesis
    proof (cases t)
      case (Section f)
      obtain rest x where f: "f (wk_cancelled w) executor = (rest, x)" by fastforce
      have "settles (Section f)" using agrees Running_Task Section by simp
      then have "settles (case rest of Some t \<Rightarrow> t | None \<Rightarrow> Answer worker_panic_result)"
        using f by (cases rest) auto
      then show ?thesis
        using step agrees usable f Running_Task Section by (auto simp: thread_step_def)
    next
      case (Answer result)
      with Running_Task obtain r where r: "finish ?i (tr_state result) (tr_observed_generation result)
          (tr_error result) clock registry = (r, registry')" "wk_phase w' = Thread_Exited"
        using step by (auto simp: thread_step_def split: prod.splits)
      have "is_terminal (tr_state result)" using agrees Running_Task Answer by simp
      then show ?thesis
        using registry.complete_outcome [OF usable r(1)] finish_usable [OF usable r(1)] r
          update_next [of ?i "finish_mutation (tr_state result) (tr_observed_generation result)
            (tr_error result) clock" registry]
        by (simp add: finish_def)
    qed
  next
    case Thread_Exited
    then show ?thesis using step agrees usable by (auto simp: thread_step_def)
  qed
  then show "workers_ok registry' (w' # vs)" and "registry_usable registry'"
    and "rs_next_operation (sh_state registry') = rs_next_operation (sh_state registry)"
    using workers_ok_move [OF ok w', of registry'] by blast+
qed

lemma create_ok:
  assumes ok: "workers_ok registry ws" and usable: "registry_usable registry"
    and create: "create request registry = (operation, registry')"
  shows "operation_status registry' (op_id operation) = Some Queued"
    and "issued registry' (op_id operation)"
    and "op_id operation \<notin> wk_operation_id ` set ws"
    and "list_all (worker_ok registry') ws"
    and "\<And>i st. operation_status registry' i = Some st \<Longrightarrow> i \<noteq> op_id operation \<Longrightarrow>
      is_terminal st \<or> i \<in> wk_operation_id ` set ws"
proof -
  have id: "op_id operation = operation_name (rs_next_operation (sh_state registry))"
    using create by (auto simp: create_def Let_def queued_operation_def)
  show "operation_status registry' (op_id operation) = Some Queued"
    using registry.accept_new [OF usable create] by blast
  have fresh: "rs_next_operation (sh_state registry) \<noteq> - 1"
    using usable by (simp add: registry_usable_def)
  then show "issued registry' (op_id operation)"
    using saturating_succ_gt create_next [OF create] id by (auto simp: issued_def)
  show notin: "op_id operation \<notin> wk_operation_id ` set ws"
    using ok by (auto simp: workers_ok_def worker_ok_def list_all_iff issued_def id)
  note other = registry.accept_other [OF usable create]
  show "list_all (worker_ok registry') ws"
    unfolding list_all_iff
  proof
    fix w assume w: "w \<in> set ws"
    then have "wk_operation_id w \<noteq> op_id operation" using notin by force
    note status = other [OF this]
    show "worker_ok registry' w"
      by (rule worker_ok_other [OF _ status])
        (use ok w create_next [OF create] in
          \<open>simp_all add: workers_ok_def list_all_iff saturating_add_ge\<close>)
  qed
  show "is_terminal st \<or> i \<in> wk_operation_id ` set ws"
    if "operation_status registry' i = Some st" "i \<noteq> op_id operation" for i st
    using ok other [OF that(2)] that(1) by (auto simp: workers_ok_def)
qed

definition new_worker :: "operation_id \<Rightarrow> 'x task_program \<Rightarrow> 'x worker" where
  "new_worker ident task =
     \<lparr>wk_operation_id = ident, wk_cancelled = False, wk_task = task, wk_phase = Spawned\<rparr>"

lemma workers_ok_spawn:
  assumes "workers_ok registry ws" and "registry_usable registry"
    and "create request registry = (operation, registry')" and "settles task"
  shows "workers_ok registry' (new_worker (op_id operation) task # ws)"
proof -
  note new = create_ok [OF assms(1-3)]
  have "worker_ok registry' (new_worker (op_id operation) task)"
    using new(1,2) assms(4) by (simp add: worker_ok_def new_worker_def)
  moreover have "is_terminal st \<or> i \<in> wk_operation_id ` set (new_worker (op_id operation) task # ws)"
    if "operation_status registry' i = Some st" for i st
    using new(5) [OF that] by (cases "i = op_id operation") (auto simp: new_worker_def)
  ultimately show ?thesis
    using assms(1) new(3,4) unfolding workers_ok_def by (simp add: new_worker_def)
qed

lemma workers_ok_spawn_failed:
  assumes "workers_ok registry ws" and "registry_usable registry"
    and "create request registry = (operation, registry')" and "registry_usable registry'"
    and "finish (op_id operation) (tr_state worker_spawn_result) g e clock registry' = (r, registry'')"
  shows "workers_ok registry'' ws"
proof -
  note new = create_ok [OF assms(1-3)]
  have terminal: "is_terminal (tr_state worker_spawn_result)" by simp
  note out = registry.complete_outcome [OF assms(4,5) terminal]
  have nxt: "rs_next_operation (sh_state registry'') = rs_next_operation (sh_state registry')"
    using update_next assms(5) by (metis finish_def snd_conv)
  have "list_all (worker_ok registry'') ws"
    unfolding list_all_iff
  proof
    fix w assume w: "w \<in> set ws"
    then have "wk_operation_id w \<noteq> op_id operation" using new(3) by force
    then show "worker_ok registry'' w"
      using new(4) w by (auto simp: list_all_iff out(2) intro!: worker_ok_move_away [OF _ _ nxt])
  qed
  moreover have "is_terminal st \<or> i \<in> wk_operation_id ` set ws"
    if "operation_status registry'' i = Some st" for i st
    using that out new(5) [of i st] by (cases "i = op_id operation") auto
  ultimately show ?thesis using assms(1) by (simp add: workers_ok_def)
qed

section \<open>The invariant of the scheduler\<close>

definition all_workers :: "'x operation_scheduler \<Rightarrow> 'x worker list" where
  "all_workers sc = sc_workers sc @ sc_spawned sc @ sc_draining sc"

definition scheduler_invar :: "'x operation_scheduler \<Rightarrow> bool" where
  "scheduler_invar sc \<longleftrightarrow>
     history_invar (sc_registry sc) \<and>
     (rs_next_operation (sh_state (sc_registry sc)) \<noteq> - 1 \<longrightarrow>
        workers_ok (sc_registry sc) (all_workers sc))"

lemma update_history_invar:
  assumes "history_invar r" and "well_behaved m"
  shows "history_invar (snd (update i m r))"
proof (cases "update i m r")
  case (Pair res r')
  show ?thesis
  proof (cases res)
    case (Inl e)
    then show ?thesis using assms(1) Pair update_rejected [of i m r e r'] by simp
  next
    case (Inr b)
    with Pair have "update i m r = (Inr b, r')" by simp
    then have "history_invar r'" using update_effect [OF _ assms] by metis
    then show ?thesis using Pair by simp
  qed
qed

lemma thread_step_registry:
  assumes "thread_step clock w registry executor = (w', registry', executor')"
  shows "registry' = registry \<or>
    (\<exists>m. well_behaved m \<and> registry' = snd (update (wk_operation_id w) m registry))"
proof (cases "wk_phase w")
  case Spawned
  then have "registry' = snd (update (wk_operation_id w) start_mutation registry)"
    using assms by (auto simp: thread_step_def start_def split: prod.splits sum.splits)
  then show ?thesis using well_behaved_start by blast
next
  case (Running_Task t)
  show ?thesis
  proof (cases t)
    case (Answer result)
    with Running_Task have "registry' = snd (update (wk_operation_id w) (finish_mutation (tr_state result)
        (tr_observed_generation result) (tr_error result) clock) registry)"
      using assms by (auto simp: thread_step_def finish_def split: prod.splits)
    then show ?thesis using well_behaved_finish by blast
  qed (use assms Running_Task in \<open>auto simp: thread_step_def split: prod.splits\<close>)
qed (use assms in \<open>auto simp: thread_step_def\<close>)

lemma thread_step_history:
  assumes "history_invar registry"
    and "thread_step clock w registry executor = (w', registry', executor')"
  shows "history_invar registry'"
    and "rs_next_operation (sh_state registry') = rs_next_operation (sh_state registry)"
  using thread_step_registry [OF assms(2)] update_history_invar [OF assms(1)] assms(1)
  by (auto simp: update_next)

lemma step_worker_invar:
  assumes i: "i < length ws"
    and step: "step_worker clock i ws registry executor = (ws', registry', executor')"
    and hist: "history_invar registry"
  shows "history_invar registry'"
    and "rs_next_operation (sh_state registry') = rs_next_operation (sh_state registry)"
    and "rs_next_operation (sh_state registry) \<noteq> - 1 \<Longrightarrow> workers_ok registry (us @ ws @ vs) \<Longrightarrow>
      workers_ok registry' (us @ ws' @ vs)"
proof -
  obtain w' where w': "thread_step clock (ws ! i) registry executor = (w', registry', executor')"
    and ws': "ws' = ws[i := w']"
    using step by (auto simp: step_worker_def split: prod.splits)
  show "history_invar registry'"
    and nxt: "rs_next_operation (sh_state registry') = rs_next_operation (sh_state registry)"
    using thread_step_history [OF hist w'] by auto
  assume fresh: "rs_next_operation (sh_state registry) \<noteq> - 1"
    and ok: "workers_ok registry (us @ ws @ vs)"
  let ?rest = "us @ take i ws @ drop (Suc i) ws @ vs"
  have "mset (us @ ws @ vs) = mset (ws ! i # ?rest)"
    by (subst id_take_nth_drop [OF i]) simp
  from iffD1 [OF workers_ok_mset [OF this] ok] have "workers_ok registry (ws ! i # ?rest)" .
  from thread_step_ok(1) [OF this _ w'] have "workers_ok registry' (w' # ?rest)"
    using hist fresh by (simp add: registry_usable_def)
  moreover have "mset (w' # ?rest) = mset (us @ ws' @ vs)"
    by (simp add: ws' upd_conv_take_nth_drop [OF i])
  ultimately show "workers_ok registry' (us @ ws' @ vs)" using workers_ok_mset by blast
qed

lemma reap_invar:
  assumes "scheduler_invar sc"
  shows "scheduler_invar (reap_finished sc)"
proof -
  let ?rest = "sc_spawned sc @ sc_draining sc"
  have "mset (sc_workers sc @ ?rest)
      = mset (filter is_finished (sc_workers sc) @ reap_from 0 (sc_workers sc) @ ?rest)"
    by (simp add: mset_reap mset_filter multiset_partition [symmetric])
  then have "workers_ok registry (sc_workers sc @ ?rest) \<Longrightarrow>
      workers_ok registry (reap_from 0 (sc_workers sc) @ ?rest)" for registry
    using workers_ok_drop [of registry "filter is_finished (sc_workers sc)"]
    by (metis (mono_tags, lifting) list_all_iff mem_Collect_eq set_filter workers_ok_mset)
  with assms show ?thesis by (simp add: scheduler_invar_def reap_finished_def all_workers_def)
qed

lemma submit_invar:
  assumes invar: "scheduler_invar sc0" and task: "settles task"
    and submit: "submit_spawn spawned clock request task sc0 = (r, sc')"
  shows "scheduler_invar sc'"
proof -
  define sc where "sc = reap_finished sc0"
  have sc: "scheduler_invar sc" unfolding sc_def using invar by (rule reap_invar)
  obtain operation registry where create: "create request (sc_registry sc) = (operation, registry)"
    by (cases "create request (sc_registry sc)")
  have hist: "history_invar registry"
    using sc create by (auto simp: scheduler_invar_def intro: history_invar_create)
  have usable: "registry_usable (sc_registry sc)" and ok: "workers_ok (sc_registry sc) (all_workers sc)"
    if "rs_next_operation (sh_state registry) \<noteq> - 1"
  proof -
    have "rs_next_operation (sh_state (sc_registry sc)) \<noteq> - 1"
      using that create_next [OF create] saturating_succ_max by metis
    then show "registry_usable (sc_registry sc)" "workers_ok (sc_registry sc) (all_workers sc)"
      using sc by (auto simp: scheduler_invar_def registry_usable_def)
  qed
  show ?thesis
  proof (cases spawned)
    case True
    let ?w = "new_worker (op_id operation) task"
    have sc': "sc' = sc\<lparr>sc_registry := registry, sc_spawned := ?w # sc_spawned sc\<rparr>"
      using submit True create by (simp add: submit_spawn_def sc_def [symmetric] new_worker_def Let_def)
    have "mset (?w # all_workers sc) = mset (all_workers sc')"
      by (simp add: sc' all_workers_def)
    then show ?thesis
      using hist workers_ok_spawn [OF ok usable create task] workers_ok_mset [of "?w # all_workers sc"]
      by (auto simp: scheduler_invar_def sc')
  next
    case False
    let ?f = worker_spawn_result
    obtain res registry' where fin: "finish (op_id operation) (tr_state ?f)
        (tr_observed_generation ?f) (tr_error ?f) clock registry = (res, registry')"
      by (cases "finish (op_id operation) (tr_state ?f) (tr_observed_generation ?f) (tr_error ?f)
        clock registry")
    then have sc': "sc' = sc\<lparr>sc_registry := registry'\<rparr>"
      using submit False create by (simp add: submit_spawn_def sc_def [symmetric] Let_def)
    have hist': "history_invar registry'"
      and nxt: "rs_next_operation (sh_state registry') = rs_next_operation (sh_state registry)"
      using update_history_invar [OF hist well_behaved_finish] update_next fin
      by (metis finish_def snd_conv)+
    have "workers_ok registry' (all_workers sc)" if "rs_next_operation (sh_state registry) \<noteq> - 1"
      using workers_ok_spawn_failed [OF ok usable create _ fin] that hist
      by (simp add: registry_usable_def)
    then show ?thesis using hist' nxt by (simp add: scheduler_invar_def sc' all_workers_def)
  qed
qed

lemma mset_remove_first: "find p xs = Some x \<Longrightarrow> add_mset x (mset (remove_first p xs)) = mset xs"
  by (induction xs) (auto split: if_splits)

lemma scheduler_invar_mset:
  assumes "scheduler_invar sc" and "mset (all_workers sc') = mset (all_workers sc)"
    and "sc_registry sc' = sc_registry sc"
  shows "scheduler_invar sc'"
  using assms workers_ok_mset [OF assms(2)] by (simp add: scheduler_invar_def)

lemma register_invar: "scheduler_invar sc \<Longrightarrow> scheduler_invar (register_worker ident sc)"
  by (erule scheduler_invar_mset)
    (auto simp: register_worker_def all_workers_def mset_remove_first [symmetric] split: option.split)

lemma drain_take_invar: "scheduler_invar sc \<Longrightarrow> scheduler_invar (drain_take sc)"
  by (erule scheduler_invar_mset) (auto simp: drain_take_def all_workers_def)

lemma cancel_invar:
  assumes "scheduler_invar sc0" and "cancel ident sc0 = (r, sc')"
  shows "scheduler_invar sc'"
proof -
  define sc where "sc = reap_finished sc0"
  have sc: "scheduler_invar sc" unfolding sc_def using assms(1) by (rule reap_invar)
  show ?thesis
  proof (cases "find (\<lambda>w. wk_operation_id w = ident) (sc_workers sc)")
    case None
    then show ?thesis using assms(2) sc by (simp add: cancel_def sc_def [symmetric])
  next
    case (Some w)
    let ?ws = "replace_first (\<lambda>w. wk_operation_id w = ident) (w\<lparr>wk_cancelled := True\<rparr>) (sc_workers sc)"
    have sc': "sc' = sc\<lparr>sc_workers := ?ws\<rparr>"
      using assms(2) Some by (simp add: cancel_def sc_def [symmetric])
    have "map (\<lambda>w. (wk_operation_id w, wk_task w, wk_phase w)) ?ws
        = map (\<lambda>w. (wk_operation_id w, wk_task w, wk_phase w)) (sc_workers sc)"
      by (rule map_replace_first [OF Some]) simp
    then show ?thesis
      using sc workers_ok_keys [of "all_workers sc'" "all_workers sc"]
      by (simp add: scheduler_invar_def sc' all_workers_def)
  qed
qed

lemma joined_invar:
  assumes "scheduler_invar sc" and "sc_draining sc = us @ w # vs" and "is_finished w"
  shows "scheduler_invar (sc\<lparr>sc_draining := us @ vs\<rparr>)"
proof -
  let ?rest = "sc_workers sc @ sc_spawned sc @ us @ vs"
  have "workers_ok registry (all_workers sc) = workers_ok registry ([w] @ ?rest)" for registry
    by (rule workers_ok_mset) (simp add: all_workers_def assms(2))
  then show ?thesis
    using assms(1,3) workers_ok_drop [of _ "[w]" ?rest]
    by (simp add: scheduler_invar_def all_workers_def)
qed

lemma scheduler_step_invar: "scheduler_step sc sc' \<Longrightarrow> scheduler_invar sc \<Longrightarrow> scheduler_invar sc'"
proof (induction rule: scheduler_step.induct)
  case (sched_submit task spawned clock request sc r sc')
  show ?case by (rule submit_invar [OF sched_submit.prems sched_submit.hyps])
next
  case (sched_register sc ident)
  then show ?case by (rule register_invar)
next
  case (sched_cancel ident sc r sc')
  show ?case by (rule cancel_invar [OF sched_cancel.prems sched_cancel.hyps])
next
  case (sched_drain sc)
  then show ?case by (rule drain_take_invar)
next
  case (sched_worker i sc clock ws registry executor)
  then show ?case
    using step_worker_invar(1,2) [OF sched_worker.hyps]
      step_worker_invar(3) [OF sched_worker.hyps, where us = "[]"]
    by (simp add: scheduler_invar_def all_workers_def)
next
  case (sched_spawned i sc clock ws registry executor)
  then show ?case
    using step_worker_invar [OF sched_spawned.hyps]
    by (simp add: scheduler_invar_def all_workers_def)
next
  case (sched_draining i sc clock ws registry executor)
  then show ?case
    using step_worker_invar(1,2) [OF sched_draining.hyps]
      step_worker_invar(3) [OF sched_draining.hyps, where us = "sc_workers sc @ sc_spawned sc"
        and vs = "[]"]
    by (simp add: scheduler_invar_def all_workers_def)
next
  case (sched_joined sc us w vs)
  show ?case by (rule joined_invar [OF sched_joined.prems sched_joined.hyps])
qed

lemma scheduler_reachable_invar: "scheduler_reachable sc \<Longrightarrow> scheduler_invar sc"
proof (induction rule: scheduler_reachable.induct)
  case (reach_new oc ec registry executor)
  then have "operation_status registry = Map.empty"
    by (auto simp: new_registry_def operation_status_def get_def split: if_splits)
  with reach_new show ?case
    by (auto simp: scheduler_invar_def new_scheduler_def all_workers_def workers_ok_def
        intro: history_invar_new)
qed (rule scheduler_step_invar)

section \<open>Joining\<close>

lemma live_operation_has_worker:
  assumes "scheduler_invar sc" and "rs_next_operation (sh_state (sc_registry sc)) \<noteq> - 1"
    and "get (sc_registry sc) i = Some operation" and "\<not> is_terminal (op_state operation)"
  shows "\<exists>w. w \<in> set (all_workers sc) \<and> wk_operation_id w = i \<and> \<not> is_finished w"
proof -
  have ok: "workers_ok (sc_registry sc) (all_workers sc)"
    using assms(1,2) by (simp add: scheduler_invar_def)
  have st: "operation_status (sc_registry sc) i = Some (op_state operation)"
    using assms(3) by (simp add: operation_status_def)
  with ok assms(4) obtain w where w: "w \<in> set (all_workers sc)" "wk_operation_id w = i"
    by (auto simp: workers_ok_def)
  with ok have "worker_ok (sc_registry sc) w" by (auto simp: workers_ok_def list_all_iff)
  with st w assms(4) have "\<not> is_finished w" by (auto simp: worker_ok_def is_finished_def)
  with w show ?thesis by blast
qed

lemma join_thread_step:
  "wk_phase w \<noteq> Thread_Exited \<Longrightarrow> join_thread clock w (registry, x) =
     (case thread_step clock w registry x of (w', st) \<Rightarrow> join_thread clock w' st)"
  by (subst join_thread.simps) (simp add: is_finished_def case_prod_unfold)

lemma join_thread_exited: "wk_phase w = Thread_Exited \<Longrightarrow> join_thread clock w st = st"
  by (subst join_thread.simps) (simp add: is_finished_def)

lemma join_thread_ok:
  assumes "workers_ok (fst st) (w # vs)" and "registry_usable (fst st)"
  shows "workers_ok (fst (join_thread clock w st)) vs \<and> registry_usable (fst (join_thread clock w st))"
  using assms
proof (induction clock w st rule: join_thread.induct)
  case (1 clock w st)
  show ?case
  proof (cases "is_finished w")
    case True
    then show ?thesis
      using 1 workers_ok_drop [of "fst st" "[w]" vs] by (simp add: join_thread.simps [of clock w])
  next
    case False
    obtain w' registry' executor' where
      step: "thread_step clock w (fst st) (snd st) = (w', registry', executor')"
      by (cases "thread_step clock w (fst st) (snd st)")
    from thread_step_ok(1,2) [OF "1.prems" step] False "1.IH" step show ?thesis
      by (simp add: join_thread.simps [of clock w])
  qed
qed

lemma fold_join_ok:
  "workers_ok (fst st) (ws @ vs) \<Longrightarrow> registry_usable (fst st) \<Longrightarrow>
     workers_ok (fst (fold (join_thread clock) ws st)) vs"
  by (induction ws arbitrary: st) (auto simp: join_thread_ok)

lemma workers_ok_Nil:
  "workers_ok registry [] \<Longrightarrow> is_none_or is_terminal (operation_status registry i)"
  by (cases "operation_status registry i") (auto simp: workers_ok_def)

section \<open>Tasks\<close>

text \<open>The contract between a task and the worker that runs it.\<close>

locale mutation_task =
  fixes task :: "'x locked_task"
  assumes returns: "\<exists>r x'. task x = (Some r, x') \<and> is_terminal (tr_state r)"
begin

lemma task_settles: "settles (guarded_task task)"
proof -
  have "settles (run_locked task)"
    unfolding run_locked_def
  proof (rule settles_section)
    fix c x t x'
    assume "(if c then (Some (Answer (cancelled_result None)), x)
      else case task x of (result, x') \<Rightarrow> (map_option Answer result, x')) = (Some t, x')"
    with returns [of x] show "settles t" by (auto split: if_splits)
  qed
  then show ?thesis
    unfolding guarded_task_def check_cancelled_def by (intro settles_section) auto
qed

text \<open>An undisturbed worker takes its queued operation to the recorded result of the task.\<close>

lemma runs_to_completion:
  assumes usable: "registry_usable registry" and queued: "operation_status registry i = Some Queued"
    and task: "task x = (Some r, x')"
  shows "\<exists>registry' final. join_thread clock (new_worker i (guarded_task task)) (registry, x) = (registry', x') \<and>
    get registry' i = Some final \<and> op_state final = tr_state r \<and>
    op_observed_generation final = tr_observed_generation r \<and> op_error final = tr_error r \<and>
    op_completed_at final = Some clock"
proof -
  obtain res registry1 where start: "start i registry = (res, registry1)"
    by (cases "start i registry")
  have ok1: "is_ok res" and running: "operation_status registry1 i = Some Running"
    using registry.launch_queued [OF usable start] queued by auto
  have usable1: "registry_usable registry1" by (rule start_usable [OF usable start])
  obtain res2 registry2 where fin: "finish i (tr_state r) (tr_observed_generation r) (tr_error r)
      clock registry1 = (res2, registry2)"
    by (cases "finish i (tr_state r) (tr_observed_generation r) (tr_error r) clock registry1")
  have "is_terminal (tr_state r)" using returns [of x] task by auto
  with registry.complete_live [OF usable1 fin] running have "is_ok res2" by simp
  then obtain final where "res2 = Inr final" by (auto simp: is_ok_iff)
  with fin have upd: "update i (finish_mutation (tr_state r) (tr_observed_generation r)
      (tr_error r) clock) registry1 = (Inr final, registry2)" by (simp add: finish_def)
  obtain a where "finish_mutation (tr_state r) (tr_observed_generation r) (tr_error r) clock a
      = Inr final" "get registry2 i = Some final"
    using update_effect [OF upd _ well_behaved_finish] usable1
    unfolding registry_usable_def by metis
  moreover have "join_thread clock (new_worker i (guarded_task task)) (registry, x) = (registry2, x')"
    using start ok1 task fin
    by (cases res) (simp_all add: join_thread_step thread_step_def new_worker_def join_thread_exited
        guarded_task_def check_cancelled_def run_locked_def)
  ultimately show ?thesis by (auto simp: finish_mutation_def split: if_splits)
qed

end

lemma execute_outcome_terminal:
  "fst (execute refresh_snapshot run request st) = Inr outcome \<Longrightarrow>
     lo_state outcome \<in> {Succeeded, Failed, Indeterminate}"
  by (auto simp: execute_def reconcile_def Let_def split: prod.splits sum.splits if_splits)

lemma pool_execute_outcome_terminal:
  "fst (pool_execute refresh_snapshot run request st) = Inr outcome \<Longrightarrow>
     po_state outcome \<in> {Succeeded, Failed, Indeterminate}"
  by (auto simp: pool_execute_def pool_reconcile_def Let_def split: prod.splits sum.splits if_splits)

lemma lifecycle_task_result_terminal:
  "is_terminal (tr_state (lifecycle_task_result (fst (execute refresh_snapshot run request st))))"
  using execute_outcome_terminal [of refresh_snapshot run request st]
  by (auto simp: lifecycle_task_result_def outcome_result_def failure_result_def split: sum.split)

lemma resource_pool_task_result_terminal:
  "is_terminal (tr_state (resource_pool_task_result
     (fst (pool_execute refresh_snapshot run request st))))"
  using pool_execute_outcome_terminal [of refresh_snapshot run request st]
  by (auto simp: resource_pool_task_result_def outcome_result_def failure_result_def split: sum.split)

interpretation lifecycle_worker: mutation_task "lifecycle_task refresh_snapshot run request"
  for refresh_snapshot run request
proof
  fix x
  show "\<exists>r x'. lifecycle_task refresh_snapshot run request x = (Some r, x') \<and> is_terminal (tr_state r)"
    using lifecycle_task_result_terminal [of refresh_snapshot run request x]
    by (auto simp: lifecycle_task_def split: prod.split)
qed

interpretation pool_worker: mutation_task "resource_pool_task refresh_snapshot run request"
  for refresh_snapshot run request
proof
  fix x
  show "\<exists>r x'. resource_pool_task refresh_snapshot run request x = (Some r, x') \<and>
      is_terminal (tr_state r)"
    using resource_pool_task_result_terminal [of refresh_snapshot run request x]
    by (auto simp: resource_pool_task_def split: prod.split)
qed

section \<open>Cancellation\<close>

text \<open>The worker of operation \<open>i\<close>, where there is one, will not reach the executor.\<close>

definition stops_on_cancel :: "'x task_program \<Rightarrow> bool" where
  "stops_on_cancel t \<longleftrightarrow>
     (\<exists>f. t = Section f \<and> (\<forall>x. f True x = (Some (Answer (cancelled_result None)), x)))"

lemma stops_on_cancel_programs:
  "stops_on_cancel (check_cancelled t)" "stops_on_cancel (run_locked task)"
  "stops_on_cancel (guarded_task task)"
  by (simp_all add: stops_on_cancel_def check_cancelled_def run_locked_def guarded_task_def)

text \<open>A worker whose next section still honours a cancellation.\<close>

definition cancellable :: "'x worker \<Rightarrow> bool" where
  "cancellable w \<longleftrightarrow> (case wk_phase w of
     Spawned \<Rightarrow> stops_on_cancel (wk_task w)
   | Running_Task t \<Rightarrow> stops_on_cancel t
   | Thread_Exited \<Rightarrow> False)"

lemma cancellable_flag [simp]: "cancellable (w\<lparr>wk_cancelled := b\<rparr>) = cancellable w"
  by (cases "wk_phase w") (simp_all add: cancellable_def)

definition stopped_worker :: "operation_id \<Rightarrow> 'x worker \<Rightarrow> bool" where
  "stopped_worker i w \<longleftrightarrow> (wk_operation_id w = i \<longrightarrow> wk_cancelled w \<and>
     (cancellable w \<or> wk_phase w = Running_Task (Answer (cancelled_result None)) \<or>
      wk_phase w = Thread_Exited))"

definition unexecuted :: "operation_state option \<Rightarrow> bool" where
  "unexecuted st \<longleftrightarrow> st \<in> {None, Some Queued, Some Running, Some Cancelled}"

definition stopped :: "operation_id \<Rightarrow> 'x operation_scheduler \<Rightarrow> bool" where
  "stopped i sc \<longleftrightarrow>
     issued (sc_registry sc) i \<and> unexecuted (operation_status (sc_registry sc) i) \<and>
     list_all (stopped_worker i) (all_workers sc)"

lemma thread_step_stopped:
  assumes usable: "registry_usable registry" and w: "stopped_worker i w"
    and step: "thread_step clock w registry executor = (w', registry', executor')"
    and unex: "unexecuted (operation_status registry i)"
  shows "stopped_worker i w'" and "unexecuted (operation_status registry' i)"
    and "wk_operation_id w = i \<Longrightarrow> executor' = executor"
proof -
  have "stopped_worker i w' \<and> unexecuted (operation_status registry' i) \<and>
      (wk_operation_id w = i \<longrightarrow> executor' = executor)"
  proof (cases "wk_phase w")
    case Spawned
    obtain r where r: "start (wk_operation_id w) registry = (r, registry')"
      "w' = w\<lparr>wk_phase := if is_ok r then Running_Task (wk_task w) else Thread_Exited\<rparr>"
      "executor' = executor"
      using step Spawned by (auto simp: thread_step_def split: prod.splits sum.splits)
    then show ?thesis
      using registry.launch_queued [OF usable r(1)] w unex Spawned
      by (auto simp: stopped_worker_def unexecuted_def cancellable_def split: if_splits)
  next
    case (Running_Task t)
    show ?thesis
    proof (cases t)
      case (Answer result)
      with Running_Task obtain r where r: "finish (wk_operation_id w) (tr_state result)
          (tr_observed_generation result) (tr_error result) clock registry = (r, registry')"
        "w' = w\<lparr>wk_phase := Thread_Exited\<rparr>" "executor' = executor"
        using step by (auto simp: thread_step_def split: prod.splits)
      moreover have "wk_operation_id w = i \<Longrightarrow> tr_state result = Cancelled"
        using w Running_Task Answer
        by (simp add: stopped_worker_def cancellable_def stops_on_cancel_def cancelled_result_def)
      ultimately show ?thesis
        using registry.complete_live [OF usable r(1)] w unex
        by (auto simp: stopped_worker_def unexecuted_def split: if_splits)
    next
      case (Section f)
      then show ?thesis
        using step w unex Running_Task
        by (auto simp: thread_step_def stopped_worker_def cancellable_def stops_on_cancel_def
            split: prod.splits)
    qed
  qed (use step w unex in \<open>auto simp: thread_step_def\<close>)
  then show "stopped_worker i w'" and "unexecuted (operation_status registry' i)"
    and "wk_operation_id w = i \<Longrightarrow> executor' = executor" by auto
qed

lemma step_worker_stopped:
  assumes "k < length ws" and "step_worker clock k ws registry executor = (ws', registry', executor')"
    and "registry_usable registry" and "list_all (stopped_worker i) ws"
    and "unexecuted (operation_status registry i)"
  shows "list_all (stopped_worker i) ws'" and "unexecuted (operation_status registry' i)"
proof -
  obtain w' where w': "thread_step clock (ws ! k) registry executor = (w', registry', executor')"
    and ws': "ws' = ws[k := w']"
    using assms(2) by (auto simp: step_worker_def split: prod.splits)
  have "stopped_worker i (ws ! k)" using assms(1,4) by (simp add: list_all_length)
  note moved = thread_step_stopped [OF assms(3) this w' assms(5)]
  then show "list_all (stopped_worker i) ws'" and "unexecuted (operation_status registry' i)"
    using assms(4) set_update_subset_insert [of ws k w'] by (auto simp: ws' list_all_iff)
qed

lemma reap_stopped: "stopped i sc \<Longrightarrow> stopped i (reap_finished sc)"
  by (auto simp: stopped_def all_workers_def reap_finished_def list_all_iff set_reap)

lemma submit_stopped:
  assumes stopped: "stopped i sc0" and usable0: "registry_usable (sc_registry sc0)"
    and submit: "submit_spawn spawned clock request task sc0 = (r, sc')"
    and fresh: "rs_next_operation (sh_state (sc_registry sc')) \<noteq> - 1"
  shows "stopped i sc'"
proof -
  define sc where "sc = reap_finished sc0"
  have sc: "stopped i sc" unfolding sc_def using stopped by (rule reap_stopped)
  have usable: "registry_usable (sc_registry sc)" using usable0 by (simp add: sc_def reap_finished_def)
  obtain operation registry where create: "create request (sc_registry sc) = (operation, registry)"
    by (cases "create request (sc_registry sc)")
  have id: "op_id operation = operation_name (rs_next_operation (sh_state (sc_registry sc)))"
    using create by (auto simp: create_def Let_def queued_operation_def)
  have neq: "i \<noteq> op_id operation" using sc by (auto simp: stopped_def issued_def id)
  have unex: "unexecuted (operation_status registry i)"
    using registry.accept_other [OF usable create neq] sc by (auto simp: stopped_def unexecuted_def)
  have issued: "issued registry i"
    using sc create_next [OF create] issued_next [of "sc_registry sc" registry]
    by (simp add: stopped_def saturating_add_ge)
  show ?thesis
  proof (cases spawned)
    case True
    then have "sc' = sc\<lparr>sc_registry := registry,
        sc_spawned := new_worker (op_id operation) task # sc_spawned sc\<rparr>"
      using submit create by (simp add: submit_spawn_def sc_def [symmetric] new_worker_def Let_def)
    then show ?thesis
      using sc unex issued neq by (auto simp: stopped_def all_workers_def stopped_worker_def new_worker_def)
  next
    case False
    obtain res registry' where fin: "finish (op_id operation) (tr_state worker_spawn_result)
        (tr_observed_generation worker_spawn_result) (tr_error worker_spawn_result) clock registry
        = (res, registry')"
      by (metis surj_pair)
    then have sc': "sc' = sc\<lparr>sc_registry := registry'\<rparr>"
      using submit False create by (simp add: submit_spawn_def sc_def [symmetric] Let_def)
    have nxt: "rs_next_operation (sh_state registry') = rs_next_operation (sh_state registry)"
      using update_next fin by (metis finish_def snd_conv)
    have "registry_usable registry"
      using fresh usable create by (auto simp: sc' nxt registry_usable_def intro: history_invar_create)
    from registry.complete_outcome(2) [OF this fin _ neq]
    have "operation_status registry' i = operation_status registry i" by simp
    then show ?thesis
      using sc unex issued issued_next [of registry registry' i] nxt
      by (simp add: stopped_def sc' all_workers_def)
  qed
qed

lemma submit_next:
  assumes "submit_spawn spawned clock request task sc = (r, sc')"
  shows "rs_next_operation (sh_state (sc_registry sc'))
    = saturating_add (rs_next_operation (sh_state (sc_registry sc))) 1"
  using assms create_next [of request "sc_registry sc"] update_next
  by (auto simp: submit_spawn_def reap_finished_def finish_def Let_def split: prod.splits if_splits)

lemma cancel_registry: "cancel ident sc = (r, sc') \<Longrightarrow> sc_registry sc' = sc_registry sc"
  by (auto simp: cancel_def reap_finished_def Let_def split: option.splits)

lemma scheduler_step_fresh:
  assumes "scheduler_step sc sc'" and "scheduler_invar sc"
    and "rs_next_operation (sh_state (sc_registry sc')) \<noteq> - 1"
  shows "rs_next_operation (sh_state (sc_registry sc)) \<noteq> - 1"
  using assms
proof (cases rule: scheduler_step.cases)
  case (sched_submit task spawned clock request r)
  then show ?thesis using assms(3) submit_next saturating_succ_max by metis
next
  case (sched_cancel ident r)
  then show ?thesis using assms(3) cancel_registry by metis
next
  case (sched_worker i clock ws registry executor)
  then show ?thesis
    using assms step_worker_invar(2) [of i "sc_workers sc"] by (simp add: scheduler_invar_def)
next
  case (sched_spawned i clock ws registry executor)
  then show ?thesis
    using assms step_worker_invar(2) [of i "sc_spawned sc"] by (simp add: scheduler_invar_def)
next
  case (sched_draining i clock ws registry executor)
  then show ?thesis
    using assms step_worker_invar(2) [of i "sc_draining sc"] by (simp add: scheduler_invar_def)
qed (auto simp: register_worker_def drain_take_def split: option.splits)

lemma set_remove_first: "set (remove_first p xs) \<subseteq> set xs"
  by (induction xs) auto

lemma register_stopped: "stopped i sc \<Longrightarrow> stopped i (register_worker ident sc)"
  using set_remove_first [of "\<lambda>w. wk_operation_id w = ident" "sc_spawned sc"]
  by (auto simp: stopped_def register_worker_def all_workers_def list_all_iff
      dest: find_SomeD split: option.split)

lemma cancel_stopped:
  assumes "stopped i sc" and "cancel ident sc = (r, sc')"
  shows "stopped i sc'"
proof -
  have sc: "stopped i (reap_finished sc)" using assms(1) by (rule reap_stopped)
  show ?thesis
  proof (cases "find (\<lambda>w. wk_operation_id w = ident) (sc_workers (reap_finished sc))")
    case None
    then show ?thesis using assms(2) sc by (simp add: cancel_def)
  next
    case (Some w)
    then have "w \<in> set (sc_workers (reap_finished sc))" by (auto dest: find_SomeD)
    with sc have "stopped_worker i (w\<lparr>wk_cancelled := True\<rparr>)"
      by (auto simp: stopped_def all_workers_def list_all_iff stopped_worker_def)
    with sc show ?thesis
      using assms(2) Some set_replace_first [of "\<lambda>w. wk_operation_id w = ident"
          "w\<lparr>wk_cancelled := True\<rparr>" "sc_workers (reap_finished sc)"]
      by (auto simp: cancel_def stopped_def all_workers_def list_all_iff Let_def)
  qed
qed

lemma scheduler_step_stopped:
  assumes "scheduler_step sc sc'" and "scheduler_invar sc" and stopped: "stopped i sc"
    and "rs_next_operation (sh_state (sc_registry sc')) \<noteq> - 1"
  shows "stopped i sc'"
proof -
  have fresh: "rs_next_operation (sh_state (sc_registry sc)) \<noteq> - 1"
    by (rule scheduler_step_fresh [OF assms(1,2,4)])
  with assms(2) have usable: "registry_usable (sc_registry sc)"
    by (simp add: scheduler_invar_def registry_usable_def)
  have hist: "history_invar (sc_registry sc)" using assms(2) by (simp add: scheduler_invar_def)
  have issued: "issued registry i"
    if "rs_next_operation (sh_state registry) = rs_next_operation (sh_state (sc_registry sc))" for registry
    using stopped that by (simp add: stopped_def issued_def)
  have ws: "list_all (stopped_worker i) (sc_workers sc)" "list_all (stopped_worker i) (sc_spawned sc)"
    "list_all (stopped_worker i) (sc_draining sc)" "unexecuted (operation_status (sc_registry sc) i)"
    using stopped by (auto simp: stopped_def all_workers_def)
  from assms(1) show ?thesis
  proof (cases rule: scheduler_step.cases)
    case (sched_submit task spawned clock request r)
    show ?thesis by (rule submit_stopped [OF stopped usable sched_submit(2) assms(4)])
  next
    case (sched_register ident)
    then show ?thesis using register_stopped [OF stopped] by simp
  next
    case (sched_cancel ident r)
    then show ?thesis using cancel_stopped [OF stopped] by simp
  next
    case sched_drain
    then show ?thesis using stopped by (simp add: stopped_def drain_take_def all_workers_def)
  next
    case (sched_worker k clock ws' registry executor)
    note step = step_worker_stopped [OF sched_worker(2,3) usable ws(1,4)]
      step_worker_invar(2) [OF sched_worker(2,3) hist]
    show ?thesis using sched_worker(1) step ws issued by (simp add: stopped_def all_workers_def)
  next
    case (sched_spawned k clock ws' registry executor)
    note step = step_worker_stopped [OF sched_spawned(2,3) usable ws(2,4)]
      step_worker_invar(2) [OF sched_spawned(2,3) hist]
    show ?thesis using sched_spawned(1) step ws issued by (simp add: stopped_def all_workers_def)
  next
    case (sched_draining k clock ws' registry executor)
    note step = step_worker_stopped [OF sched_draining(2,3) usable ws(3,4)]
      step_worker_invar(2) [OF sched_draining(2,3) hist]
    show ?thesis using sched_draining(1) step ws issued by (simp add: stopped_def all_workers_def)
  next
    case (sched_joined us w vs)
    then show ?thesis using stopped by (simp add: stopped_def all_workers_def)
  qed
qed

lemma scheduler_steps_stopped:
  assumes "scheduler_step\<^sup>*\<^sup>* sc sc'" and "scheduler_invar sc" and "stopped i sc"
    and "rs_next_operation (sh_state (sc_registry sc')) \<noteq> - 1"
  shows "stopped i sc'"
proof -
  have "scheduler_invar sc' \<and>
      (rs_next_operation (sh_state (sc_registry sc')) \<noteq> - 1 \<longrightarrow> stopped i sc')"
    using assms(1)
  proof (induction rule: rtranclp_induct)
    case base
    then show ?case using assms(2,3) by blast
  next
    case (step y z)
    then show ?case
      using scheduler_step_invar scheduler_step_stopped scheduler_step_fresh by blast
  qed
  with assms(4) show ?thesis by blast
qed

lemma replace_first_key_unique:
  assumes "distinct (map f xs)" and "find (\<lambda>x. f x = k) xs = Some y" and "f y' = k"
    and "x \<in> set (replace_first (\<lambda>x. f x = k) y' xs)" and "f x = k"
  shows "x = y'"
  using assms by (induction xs) (auto split: if_splits, metis image_eqI)

lemma cancel_stops:
  assumes invar: "scheduler_invar sc" and fresh: "rs_next_operation (sh_state (sc_registry sc)) \<noteq> - 1"
    and w: "w \<in> set (sc_workers sc)" "wk_operation_id w = i" "cancellable w"
    and cancel: "cancel i sc = (r, sc')"
  shows "stopped i sc'"
proof -
  define sc1 where "sc1 = reap_finished sc"
  have invar1: "workers_ok (sc_registry sc1) (all_workers sc1)"
    using reap_invar [OF invar] fresh by (simp add: sc1_def scheduler_invar_def reap_finished_def)
  have "sc_workers sc1 = reap_from 0 (sc_workers sc)" by (simp add: sc1_def reap_finished_def)
  then have w1: "w \<in> set (sc_workers sc1)" using w by (auto simp: set_reap is_finished_def cancellable_def)
  have dist: "distinct (map wk_operation_id (sc_workers sc1))"
    and "i \<notin> wk_operation_id ` set (sc_spawned sc1 @ sc_draining sc1)"
    using invar1 imageI [OF w1, of wk_operation_id] w(2)
    by (auto simp: workers_ok_def all_workers_def simp del: image_eqI)
  then have disj: "v \<in> set (sc_spawned sc1 @ sc_draining sc1) \<Longrightarrow> wk_operation_id v \<noteq> i" for v
    by (metis image_eqI)
  have found: "find (\<lambda>v. wk_operation_id v = i) (sc_workers sc1) = Some w"
    using find_unique_key [OF dist w1] w(2) by simp
  then have sc': "sc' = sc1\<lparr>sc_workers := replace_first (\<lambda>v. wk_operation_id v = i)
      (w\<lparr>wk_cancelled := True\<rparr>) (sc_workers sc1)\<rparr>"
    using cancel by (auto simp: cancel_def sc1_def [symmetric])
  have "stopped_worker i v" if "v \<in> set (sc_workers sc')" for v
    using replace_first_key_unique [OF dist found, of "w\<lparr>wk_cancelled := True\<rparr>" v] that w
    by (auto simp: sc' stopped_worker_def)
  moreover have "worker_ok (sc_registry sc1) w"
    using invar1 w1 by (auto simp: workers_ok_def all_workers_def list_all_iff)
  then have "issued (sc_registry sc1) i" "unexecuted (operation_status (sc_registry sc1) i)"
    using w(2,3) by (cases "wk_phase w"; auto simp: worker_ok_def unexecuted_def cancellable_def)+
  ultimately show ?thesis
    using disj by (auto simp: stopped_def all_workers_def list_all_iff sc' stopped_worker_def)
qed

section \<open>Properties\<close>

text \<open>C10: No accepted mutation is orphaned.  Under every interleaving of submissions,
  cancellations, drains and thread steps, a retained operation that is not terminal has a live
  worker thread of its own.\<close>

theorem no_orphaned_operation:
  assumes "scheduler_reachable sc" and "rs_next_operation (sh_state (sc_registry sc)) \<noteq> - 1"
    and "get (sc_registry sc) i = Some operation" and "\<not> is_terminal (op_state operation)"
  shows "\<exists>w. w \<in> set (all_workers sc) \<and> wk_operation_id w = i \<and> \<not> is_finished w"
  using assms by (intro live_operation_has_worker scheduler_reachable_invar)

text \<open>C11: Draining terminates and settles everything: when no other submission or drain is in
  progress, it leaves no worker behind, and every operation still retained is terminal.\<close>

theorem drain_settles:
  fixes sc :: "'x operation_scheduler"
  assumes "scheduler_reachable sc" and "rs_next_operation (sh_state (sc_registry sc)) \<noteq> - 1"
    and "sc_spawned sc = []" and "sc_draining sc = []"
  shows "worker_count (drain clock sc) = 0 \<and>
    is_none_or is_terminal (operation_status (sc_registry (drain clock sc)) i)"
proof -
  have invar: "scheduler_invar sc" by (rule scheduler_reachable_invar [OF assms(1)])
  then have "workers_ok (sc_registry sc) (sc_workers sc @ [])" "registry_usable (sc_registry sc)"
    using assms(2-4) by (auto simp: scheduler_invar_def all_workers_def registry_usable_def)
  then have "workers_ok (fst (fold (join_thread clock) (sc_workers sc)
      (sc_registry sc, sc_executor sc))) ([] :: 'x worker list)"
    using fold_join_ok [of "(sc_registry sc, sc_executor sc)" "sc_workers sc" "[]" clock] by simp
  then show ?thesis
    by (simp add: drain_def worker_count_def case_prod_unfold workers_ok_Nil)
qed

text \<open>Cancellation is honoured before the executor is entered.  If a registered worker is cancelled
  while its next section still looks at the flag, as the closures of life cycle and pool mutations
  do until they hold the executor lock, then in every continuation its operation is
  recorded as cancelled or not recorded as finished, and no step of that worker touches the
  executor.\<close>

theorem cancel_before_execution:
  assumes "scheduler_reachable sc" and "w \<in> set (sc_workers sc)" and "wk_operation_id w = i"
    and "cancellable w" and "cancel i sc = (r, sc1)"
    and "scheduler_step\<^sup>*\<^sup>* sc1 sc'" and "rs_next_operation (sh_state (sc_registry sc')) \<noteq> - 1"
  shows "operation_status (sc_registry sc') i \<in> {None, Some Queued, Some Running, Some Cancelled} \<and>
    list_all (\<lambda>v. wk_operation_id v = i \<longrightarrow>
      snd (snd (thread_step clock v (sc_registry sc') x)) = x) (all_workers sc')"
proof -
  have step: "scheduler_step\<^sup>*\<^sup>* sc sc'"
    using sched_cancel [OF assms(5)] assms(6) by (rule converse_rtranclp_into_rtranclp)
  have invar: "scheduler_invar sc" by (rule scheduler_reachable_invar [OF assms(1)])
  have fresh: "scheduler_invar sc'' \<and> (rs_next_operation (sh_state (sc_registry sc'')) \<noteq> - 1 \<longrightarrow>
      rs_next_operation (sh_state (sc_registry sc)) \<noteq> - 1)" if "scheduler_step\<^sup>*\<^sup>* sc sc''" for sc''
    using that invar
    by (induction rule: rtranclp_induct) (auto dest: scheduler_step_invar scheduler_step_fresh)
  then have usable: "registry_usable (sc_registry sc')"
    using step assms(7) by (simp add: scheduler_invar_def registry_usable_def)
  have "stopped i sc1"
    using cancel_stops [OF invar _ assms(2-5)] fresh [OF step] assms(7) by blast
  then have stop: "stopped i sc'"
    using scheduler_steps_stopped [OF assms(6) _ _ assms(7)]
      scheduler_step_invar [OF sched_cancel [OF assms(5)] invar] by blast
  have "snd (snd (thread_step clock v (sc_registry sc') x)) = x"
    if "v \<in> set (all_workers sc')" "wk_operation_id v = i" for v
    using thread_step_stopped(3) [OF usable, of i v clock x] that stop
    by (cases "thread_step clock v (sc_registry sc') x") (auto simp: stopped_def list_all_iff)
  with stop show ?thesis by (auto simp: stopped_def unexecuted_def list_all_iff)
qed

lemma device_error_code_codes: "device_error_code e \<noteq> BackendUnavailable \<and> device_error_code e \<noteq> Timeout"
  by (cases e) simp_all

lemma plan_error_code_codes: "plan_error_code e \<noteq> BackendUnavailable \<and> plan_error_code e \<noteq> Timeout"
  by (cases e) (simp_all add: device_error_code_codes)

text \<open>The error of a life cycle request that was rejected, and of one whose outcome is known.\<close>

lemma rejected_task_error:
  "tr_error (lifecycle_task_result (Inl e)) = Some
     \<lparr>err_code = (case e of Plan_Error p \<Rightarrow> plan_error_code p | _ \<Rightarrow> BackendUnavailable),
      err_message = ''operation was rejected before execution'',
      err_retryable = (case e of Plan_Error _ \<Rightarrow> False | _ \<Rightarrow> True),
      err_current_generation = None, err_diagnostics = []\<rparr>"
  by (cases e)
    (simp_all add: lifecycle_task_result_def failure_result_def scheduler_api_error_def
      plan_error_code_codes)

lemma executed_task_error:
  assumes "lo_state outcome \<in> {Succeeded, Failed, Indeterminate}"
  shows "tr_error (lifecycle_task_result (Inr outcome)) =
    (if lo_state outcome = Succeeded then None
     else Some
       \<lparr>err_code = BackendUnavailable,
        err_message =
          (if lo_state outcome = Indeterminate then ''operation outcome is indeterminate''
           else ''host mutation did not reach the requested result''),
        err_retryable = True, err_current_generation = None,
        err_diagnostics = lo_diagnostics outcome\<rparr>)"
  using assms by (auto simp: lifecycle_task_result_def outcome_result_def scheduler_api_error_def)

lemma task_result_fields:
  "tr_state (lifecycle_task_result result)
     = (case result of Inl _ \<Rightarrow> Failed | Inr outcome \<Rightarrow> lo_state outcome)"
  "tr_observed_generation (lifecycle_task_result result)
     = (case result of Inl _ \<Rightarrow> None | Inr outcome \<Rightarrow> Some (hs_generation (lo_snapshot outcome)))"
  by (cases result; simp add: lifecycle_task_result_def outcome_result_def failure_result_def)+


lemma indeterminate_outcome_retryable:
  "lo_state outcome = Indeterminate \<Longrightarrow>
     map_option err_retryable (tr_error (lifecycle_task_result (Inr outcome))) = Some True"
  by (simp add: lifecycle_task_result_def outcome_result_def scheduler_api_error_def)

section \<open>Witnesses\<close>

definition example_task :: "unit locked_task" where
  "example_task x = (Some (succeeded_result 5), x)"

definition example_worker :: "unit worker" where
  "example_worker = new_worker (operation_name 1) (guarded_task example_task)"

definition submitted_scheduler :: "unit operation_scheduler" where
  "submitted_scheduler =
     \<lparr>sc_registry = example_registry, sc_workers = [example_worker], sc_spawned = [],
      sc_draining = [], sc_executor = ()\<rparr>"

lemma reap_from_simps [simp]:
  "reap_from 0 [] = []"
  "\<not> is_finished w \<Longrightarrow> reap_from 0 [w] = [w]"
  by (simp_all add: reap_from.simps)

interpretation example_mutation: mutation_task example_task
  by unfold_locales (simp add: example_task_def succeeded_result_def)

lemma example_operation_id: "create example_new_operation empty_registry
    = (queued_operation 1 example_new_operation, example_registry)"
  by (simp add: example_registry_def create_def empty_registry_def Let_def)

lemma submitted_reachable: "scheduler_reachable submitted_scheduler"
proof -
  let ?sc0 = "new_scheduler empty_registry ()"
  let ?sc1 = "?sc0\<lparr>sc_registry := example_registry, sc_spawned := [example_worker]\<rparr>"
  have r0: "scheduler_reachable ?sc0"
    by (rule reach_new [of 2 1]) (simp add: new_registry_def empty_registry_def)
  have "submit_spawn True ''t1'' example_new_operation (guarded_task example_task) ?sc0
      = (Inr (queued_operation 1 example_new_operation), ?sc1)"
    by (simp add: submit_spawn_def reap_finished_def new_scheduler_def example_operation_id
        example_worker_def new_worker_def queued_operation_def)
  from reach_step [OF r0 sched_submit [OF example_mutation.task_settles this]]
  have "scheduler_reachable (register_worker (operation_name 1) ?sc1)"
    by (rule reach_step) (rule sched_register)
  also have "register_worker (operation_name 1) ?sc1 = submitted_scheduler"
    by (simp add: register_worker_def submitted_scheduler_def new_scheduler_def example_worker_def
        new_worker_def)
  finally show ?thesis .
qed

lemma example_get:
  "get example_registry (operation_name 1) = Some (queued_operation 1 example_new_operation)"
  "rs_next_operation (sh_state example_registry) = 2"
  by (simp_all add: get_def example_registry_defs)

theorem no_orphaned_operation_witness:
  "\<exists>w. w \<in> set (all_workers submitted_scheduler) \<and> wk_operation_id w = operation_name 1 \<and>
     \<not> is_finished w"
  by (rule no_orphaned_operation [OF submitted_reachable, of "operation_name 1"
        "queued_operation 1 example_new_operation"])
    (simp_all add: submitted_scheduler_def example_get queued_operation_def)

theorem drain_settles_witness:
  "worker_count (drain ''t2'' submitted_scheduler) = 0 \<and>
   is_none_or is_terminal
     (operation_status (sc_registry (drain ''t2'' submitted_scheduler)) (operation_name 1))"
  by (rule drain_settles [OF submitted_reachable])
    (simp_all add: submitted_scheduler_def example_get)

theorem cancel_before_execution_witness:
  "operation_status (sc_registry (snd (cancel (operation_name 1) submitted_scheduler)))
     (operation_name 1) \<in> {None, Some Queued, Some Running, Some Cancelled}"
proof -
  have "rs_next_operation (sh_state (sc_registry (snd (cancel (operation_name 1) submitted_scheduler))))
      \<noteq> - 1"
    using cancel_registry [of "operation_name 1" submitted_scheduler, OF prod.collapse [symmetric]]
    by (simp add: example_get) (simp add: submitted_scheduler_def example_get)
  then show ?thesis
    using cancel_before_execution [OF submitted_reachable _ _ _ prod.collapse [symmetric]
        rtranclp.rtrancl_refl, of example_worker "operation_name 1"]
    by (simp add: submitted_scheduler_def example_worker_def new_worker_def cancellable_def
        stops_on_cancel_programs)
qed


end
