(* ===== verification/Console.thy ===== *)
theory Console
  imports Api_V1 Admission
begin

text \<open>
  The console proxy, \<open>crates/kernmux-daemon/src/console.rs\<close>: exclusive attachment, the binary-safe
  session over the MKTTY device, and the framed protocol with the client.  The device and the
  client are the traits \<open>Read\<close> and \<open>Write\<close> of the standard library, so they are parameters: a
  \<open>stream_ops\<close> on a state of any type.  A loop that retries an interrupted call need not end, and
  is a \<open>partial_function\<close>; the outer \<open>option\<close> of a result is \<open>None\<close> when it does not.  The JSON
  encodings that serde produces are the parameter \<open>console_codec\<close>.
\<close>

section \<open>Streams\<close>

datatype io_error_kind =
    Interrupted | WouldBlock | NotFound_Kind | BrokenPipe | ConnectionAborted | ConnectionReset
  | UnexpectedEof | WriteZero | Other_Kind

record io_error =
  ioe_kind :: io_error_kind
  ioe_raw_os_error :: "32 word option"

record 'c stream_ops =
  so_read :: "'c \<Rightarrow> nat \<Rightarrow> (io_error + u8 list) \<times> 'c"
  so_write :: "'c \<Rightarrow> u8 list \<Rightarrow> (io_error + nat) \<times> 'c"

definition io_kind :: "io_error_kind \<Rightarrow> io_error" where
  "io_kind k = \<lparr>ioe_kind = k, ioe_raw_os_error = None\<rparr>"

section \<open>Errors\<close>

datatype console_error_kind =
    InvalidInstance | AlreadyAttached | FrameTooLarge | ResizeUnsupported
  | Closed_Error console_close_reason | DeviceUnavailable_Error | DeviceIo

record console_error =
  ce_kind :: console_error_kind
  ce_source :: "io_error option"

definition stable_error :: "console_error_kind \<Rightarrow> console_error" where
  "stable_error kind = \<lparr>ce_kind = kind, ce_source = None\<rparr>"

definition device_error :: "io_error \<Rightarrow> console_error" where
  "device_error e =
     \<lparr>ce_kind = (if ioe_kind e = NotFound_Kind \<or> ioe_raw_os_error e = Some 19
                 then DeviceUnavailable_Error else DeviceIo),
      ce_source = Some e\<rparr>"

fun console_error_fields :: "console_error_kind \<Rightarrow> error_code \<times> string \<times> bool" where
  "console_error_fields InvalidInstance = (InvalidRequest, ''invalid console instance'', False)"
| "console_error_fields AlreadyAttached =
     (Conflict, ''instance console already has an attached client'', True)"
| "console_error_fields FrameTooLarge = (InvalidRequest, ''console frame exceeds its limit'', False)"
| "console_error_fields ResizeUnsupported =
     (Unsupported, ''console resize is not supported by this host transport'', False)"
| "console_error_fields (Closed_Error _) = (Conflict, ''console session is closed'', False)"
| "console_error_fields DeviceUnavailable_Error =
     (BackendUnavailable, ''console device is unavailable'', True)"
| "console_error_fields DeviceIo = (BackendUnavailable, ''console device operation failed'', True)"

definition console_api_error :: "console_error \<Rightarrow> api_error" where
  "console_api_error e =
     (case console_error_fields (ce_kind e) of (code, message, retryable) \<Rightarrow>
        \<lparr>err_code = code, err_message = message, err_retryable = retryable,
         err_current_generation = None, err_diagnostics = []\<rparr>)"

datatype console_protocol_error =
    Protocol_Io io_error
  | Protocol_Console console_error
  | InvalidFrame

fun console_protocol_message :: "console_protocol_error \<Rightarrow> string" where
  "console_protocol_message (Protocol_Io _) = ''console transport failed''"
| "console_protocol_message (Protocol_Console e) = err_message (console_api_error e)"
| "console_protocol_message InvalidFrame = ''console frame is invalid''"

datatype console_read =
    Data "u8 list"
  | Pending
  | Closed_Read console_close_reason

section \<open>Retrying reads and writes\<close>

partial_function (option) write_all_retry ::
  "('d \<Rightarrow> u8 list \<Rightarrow> (io_error + nat) \<times> 'd) \<Rightarrow> 'd \<Rightarrow> u8 list \<Rightarrow> ((io_error + unit) \<times> 'd) option" where
  "write_all_retry wr d data =
     (if data = [] then Some (Inr (), d)
      else (case wr d data of
          (Inr written, d') \<Rightarrow>
            if written = 0 then Some (Inl (io_kind WriteZero), d')
            else write_all_retry wr d' (drop written data)
        | (Inl e, d') \<Rightarrow>
            if ioe_kind e = Interrupted then write_all_retry wr d' data else Some (Inl e, d')))"

partial_function (option) write_selector ::
  "('d \<Rightarrow> u8 list \<Rightarrow> (io_error + nat) \<times> 'd) \<Rightarrow> 'd \<Rightarrow> u8 list \<Rightarrow> ((io_error + unit) \<times> 'd) option" where
  "write_selector wr d data =
     (case wr d data of
        (Inr written, d') \<Rightarrow>
          if written = length data then Some (Inr (), d') else Some (Inl (io_kind WriteZero), d')
      | (Inl e, d') \<Rightarrow>
          if ioe_kind e = Interrupted then write_selector wr d' data else Some (Inl e, d'))"

partial_function (option) read_retry ::
  "('d \<Rightarrow> nat \<Rightarrow> (io_error + u8 list) \<times> 'd) \<Rightarrow> 'd \<Rightarrow> nat \<Rightarrow> ((io_error + u8 list) \<times> 'd) option" where
  "read_retry rd d n =
     (case rd d n of
        (Inr bytes, d') \<Rightarrow> Some (Inr bytes, d')
      | (Inl e, d') \<Rightarrow>
          if ioe_kind e = Interrupted then read_retry rd d' n else Some (Inl e, d'))"

text \<open>\<open>Read::read_exact\<close> of the standard library: reads until the buffer is full.\<close>

partial_function (option) read_exact ::
  "('d \<Rightarrow> nat \<Rightarrow> (io_error + u8 list) \<times> 'd) \<Rightarrow> 'd \<Rightarrow> nat \<Rightarrow> u8 list \<Rightarrow>
   ((io_error + u8 list) \<times> 'd) option" where
  "read_exact rd d n acc =
     (if n = 0 then Some (Inr acc, d)
      else (case rd d n of
          (Inr bytes, d') \<Rightarrow>
            if bytes = [] then Some (Inl (io_kind UnexpectedEof), d')
            else read_exact rd d' (n - length bytes) (acc @ bytes)
        | (Inl e, d') \<Rightarrow>
            if ioe_kind e = Interrupted then read_exact rd d' n acc else Some (Inl e, d')))"

section \<open>Frames\<close>

definition FRAME_ATTACHMENT :: u8 where "FRAME_ATTACHMENT = 0x01"
definition FRAME_INPUT :: u8 where "FRAME_INPUT = 0x10"
definition FRAME_READ :: u8 where "FRAME_READ = 0x11"
definition FRAME_DETACH :: u8 where "FRAME_DETACH = 0x12"
definition FRAME_RESIZE :: u8 where "FRAME_RESIZE = 0x13"
definition FRAME_OUTPUT :: u8 where "FRAME_OUTPUT = 0x20"
definition FRAME_ACK :: u8 where "FRAME_ACK = 0x21"
definition FRAME_CLOSED :: u8 where "FRAME_CLOSED = 0x22"
definition FRAME_ERROR :: u8 where "FRAME_ERROR = 0x7f"

text \<open>One write after the other: the first failure is the result.\<close>

definition write_then ::
  "((io_error + unit) \<times> 'c) option \<Rightarrow> ('c \<Rightarrow> ((console_protocol_error + unit) \<times> 'c) option) \<Rightarrow>
   ((console_protocol_error + unit) \<times> 'c) option" where
  "write_then first continue =
     (case first of
        None \<Rightarrow> None
      | Some (Inl e, c) \<Rightarrow> Some (Inl (Protocol_Io e), c)
      | Some (Inr _, c) \<Rightarrow> continue c)"

definition write_protocol_frame ::
  "'c stream_ops \<Rightarrow> 'c \<Rightarrow> u8 \<Rightarrow> u8 list \<Rightarrow> ((console_protocol_error + unit) \<times> 'c) option" where
  "write_protocol_frame ops c kind payload =
     (if length payload \<ge> 2 ^ 32 then Some (Inl InvalidFrame, c)
      else write_then (write_all_retry (so_write ops) c [kind]) (\<lambda>c.
           write_then (write_all_retry (so_write ops) c (to_be_bytes (of_nat (length payload)))) (\<lambda>c.
           write_then (write_all_retry (so_write ops) c payload) (\<lambda>c. Some (Inr (), c)))))"

partial_function (option) read_kind ::
  "('c \<Rightarrow> nat \<Rightarrow> (io_error + u8 list) \<times> 'c) \<Rightarrow> 'c \<Rightarrow>
   ((console_protocol_error + u8 option) \<times> 'c) option" where
  "read_kind rd c =
     (case rd c 1 of
        (Inr bytes, c') \<Rightarrow> (case bytes of [] \<Rightarrow> Some (Inr None, c') | b # _ \<Rightarrow> Some (Inr (Some b), c'))
      | (Inl e, c') \<Rightarrow>
          if ioe_kind e = Interrupted then read_kind rd c'
          else Some (Inl (Protocol_Io e), c'))"

definition read_protocol_frame ::
  "'c stream_ops \<Rightarrow> 'c \<Rightarrow> nat \<Rightarrow>
   ((console_protocol_error + (u8 \<times> u8 list) option) \<times> 'c) option" where
  "read_protocol_frame ops c max_payload =
     (case read_kind (so_read ops) c of
        None \<Rightarrow> None
      | Some (Inl e, c) \<Rightarrow> Some (Inl e, c)
      | Some (Inr None, c) \<Rightarrow> Some (Inr None, c)
      | Some (Inr (Some kind), c) \<Rightarrow>
          (case read_exact (so_read ops) c 4 [] of
             None \<Rightarrow> None
           | Some (Inl e, c) \<Rightarrow> Some (Inl (Protocol_Io e), c)
           | Some (Inr bytes, c) \<Rightarrow>
               let len = from_be_bytes bytes in
               if len > max_payload then Some (Inl InvalidFrame, c)
               else (case read_exact (so_read ops) c len [] of
                   None \<Rightarrow> None
                 | Some (Inl e, c) \<Rightarrow> Some (Inl (Protocol_Io e), c)
                 | Some (Inr payload, c) \<Rightarrow> Some (Inr (Some (kind, payload)), c))))"

section \<open>Attachment\<close>

definition MAX_INSTANCE_ID :: u32 where "MAX_INSTANCE_ID = 511"
definition DEFAULT_MAX_CONSOLE_FRAME_BYTES :: nat where "DEFAULT_MAX_CONSOLE_FRAME_BYTES = 64 * 1024"
definition MAX_CONSOLE_CONTROL_FRAME_BYTES :: nat where "MAX_CONSOLE_CONTROL_FRAME_BYTES = 4 * 1024"

text \<open>The set behind the mutex that the proxy shares with the leases.\<close>

record console_proxy =
  px_attached :: "instance_id set"
  px_max_frame_bytes :: nat

definition new_proxy :: console_proxy where
  "new_proxy = \<lparr>px_attached = {}, px_max_frame_bytes = DEFAULT_MAX_CONSOLE_FRAME_BYTES\<rparr>"

definition with_frame_limit :: "nat \<Rightarrow> console_error + console_proxy" where
  "with_frame_limit max_frame_bytes =
     (if max_frame_bytes = 0 \<or> max_frame_bytes \<ge> 2 ^ 32 then Inl (stable_error FrameTooLarge)
      else Inr \<lparr>px_attached = {}, px_max_frame_bytes = max_frame_bytes\<rparr>)"

definition acquire_lease :: "instance_id \<Rightarrow> console_proxy \<Rightarrow> console_error + console_proxy" where
  "acquire_lease i proxy =
     (if i \<in> px_attached proxy then Inl (stable_error AlreadyAttached)
      else Inr (proxy\<lparr>px_attached := insert i (px_attached proxy)\<rparr>))"

definition drop_lease :: "instance_id \<Rightarrow> console_proxy \<Rightarrow> console_proxy" where
  "drop_lease i proxy = proxy\<lparr>px_attached := px_attached proxy - {i}\<rparr>"

record 'd console_session =
  sn_attachment :: console_attachment
  sn_device :: "'d option"
  sn_lease :: "instance_id option"
  sn_closed :: "console_close_reason option"

definition as_bytes :: "string \<Rightarrow> u8 list" where
  "as_bytes s = map (\<lambda>c. of_nat (byte c)) s"

text \<open>An error after the lease was acquired drops the lease.\<close>

definition attach ::
  "('f \<Rightarrow> (io_error + 'd) \<times> 'f) \<Rightarrow> 'd stream_ops \<Rightarrow> instance_id \<Rightarrow> console_proxy \<times> 'f \<Rightarrow>
   ((console_error + 'd console_session) \<times> console_proxy \<times> 'f) option" where
  "attach open ops i st =
     (case st of (proxy, factory) \<Rightarrow>
      if i = 0 \<or> i > MAX_INSTANCE_ID then Some (Inl (stable_error InvalidInstance), proxy, factory)
      else (case acquire_lease i proxy of
          Inl e \<Rightarrow> Some (Inl e, proxy, factory)
        | Inr leased \<Rightarrow>
            (case open factory of
               (Inl e, factory) \<Rightarrow> Some (Inl (device_error e), drop_lease i leased, factory)
             | (Inr device, factory) \<Rightarrow>
                 (case write_selector (so_write ops) device (as_bytes (show_word i) @ [10]) of
                    None \<Rightarrow> None
                  | Some (Inl e, _) \<Rightarrow> Some (Inl (device_error e), drop_lease i leased, factory)
                  | Some (Inr _, device) \<Rightarrow>
                      if px_max_frame_bytes proxy \<ge> 2 ^ 32
                      then Some (Inl (stable_error FrameTooLarge), drop_lease i leased, factory)
                      else Some
                        (Inr \<lparr>sn_attachment =
                                \<lparr>ca_instance_id = i,
                                 ca_capabilities = \<lparr>cc_binary = True, cc_resize = False\<rparr>,
                                 ca_max_frame_bytes = of_nat (px_max_frame_bytes proxy)\<rparr>,
                              sn_device = Some device, sn_lease = Some i, sn_closed = None\<rparr>,
                         leased, factory)))))"

section \<open>Sessions\<close>

definition close_reason_for_io :: "io_error \<Rightarrow> console_close_reason" where
  "close_reason_for_io e =
     (if ioe_kind e \<in> {BrokenPipe, ConnectionAborted, ConnectionReset, UnexpectedEof} \<or>
         ioe_raw_os_error e \<in> {Some 19, Some 107}
      then InstanceStopped
      else if ioe_kind e = NotFound_Kind then DeviceUnavailable_Close
      else TransportError)"

definition close_session :: "console_close_reason \<Rightarrow> 'd console_session \<times> console_proxy \<Rightarrow>
    console_close_reason \<times> 'd console_session \<times> console_proxy" where
  "close_session reason st =
     (case st of (s, proxy) \<Rightarrow>
      case sn_closed s of
        Some existing \<Rightarrow> (existing, s, proxy)
      | None \<Rightarrow> (reason,
                 s\<lparr>sn_device := None, sn_lease := None, sn_closed := Some reason\<rparr>,
                 (case sn_lease s of None \<Rightarrow> proxy | Some i \<Rightarrow> drop_lease i proxy)))"

definition instance_stopped where
  "instance_stopped = close_session InstanceStopped"

definition detach where
  "detach = close_session ClientDetached"

definition read_frame :: "'d stream_ops \<Rightarrow> 'd console_session \<times> console_proxy \<Rightarrow>
    ((console_error + console_read) \<times> 'd console_session \<times> console_proxy) option" where
  "read_frame ops st =
     (case st of (s, proxy) \<Rightarrow>
      case sn_closed s of
        Some reason \<Rightarrow> Some (Inr (Closed_Read reason), s, proxy)
      | None \<Rightarrow>
          (case sn_device s of
             None \<Rightarrow> Some (Inl (stable_error (Closed_Error DeviceUnavailable_Close)), s, proxy)
           | Some device \<Rightarrow>
               (case read_retry (so_read ops) device (unat (ca_max_frame_bytes (sn_attachment s))) of
                  None \<Rightarrow> None
                | Some (result, device) \<Rightarrow>
                    let s = s\<lparr>sn_device := Some device\<rparr> in
                    (case result of
                       Inl e \<Rightarrow>
                         if ioe_kind e = WouldBlock then Some (Inr Pending, s, proxy)
                         else Some (Inl (device_error e),
                                    snd (close_session (close_reason_for_io e) (s, proxy)))
                     | Inr bytes \<Rightarrow>
                         if bytes = []
                         then (case close_session EndOfStream (s, proxy) of
                                 (reason, st) \<Rightarrow> Some (Inr (Closed_Read reason), st))
                         else Some (Inr (Data bytes), s, proxy)))))"

definition write_frame :: "'d stream_ops \<Rightarrow> u8 list \<Rightarrow> 'd console_session \<times> console_proxy \<Rightarrow>
    ((console_error + unit) \<times> 'd console_session \<times> console_proxy) option" where
  "write_frame ops data st =
     (case st of (s, proxy) \<Rightarrow>
      if length data > unat (ca_max_frame_bytes (sn_attachment s))
      then Some (Inl (stable_error FrameTooLarge), s, proxy)
      else (case sn_closed s of
          Some reason \<Rightarrow> Some (Inl (stable_error (Closed_Error reason)), s, proxy)
        | None \<Rightarrow>
            (case sn_device s of
               None \<Rightarrow> Some (Inl (stable_error (Closed_Error DeviceUnavailable_Close)), s, proxy)
             | Some device \<Rightarrow>
                 (case write_all_retry (so_write ops) device data of
                    None \<Rightarrow> None
                  | Some (Inl e, device) \<Rightarrow>
                      Some (Inl (device_error e),
                            snd (close_session (close_reason_for_io e)
                                   (s\<lparr>sn_device := Some device\<rparr>, proxy)))
                  | Some (Inr _, device) \<Rightarrow>
                      Some (Inr (), s\<lparr>sn_device := Some device\<rparr>, proxy)))))"

definition resize :: "console_size \<Rightarrow> 'd console_session \<Rightarrow> (console_error + unit) \<times> 'd console_session" where
  "resize dims s = (Inl (stable_error ResizeUnsupported), s)"

section \<open>Serving a client\<close>

record console_codec =
  cx_attachment :: "console_attachment \<Rightarrow> u8 list option"
  cx_error :: "api_error \<Rightarrow> u8 list option"
  cx_reason :: "console_close_reason \<Rightarrow> u8 list option"
  cx_size :: "u8 list \<Rightarrow> console_size option"

definition write_console_error :: "console_codec \<Rightarrow> 'c stream_ops \<Rightarrow> 'c \<Rightarrow> console_error \<Rightarrow>
    ((console_protocol_error + unit) \<times> 'c) option" where
  "write_console_error codec ops c e =
     (case cx_error codec (console_api_error e) of
        None \<Rightarrow> Some (Inl InvalidFrame, c)
      | Some payload \<Rightarrow> write_protocol_frame ops c FRAME_ERROR payload)"

definition write_close :: "console_codec \<Rightarrow> 'c stream_ops \<Rightarrow> 'c \<Rightarrow> console_close_reason \<Rightarrow>
    ((console_protocol_error + unit) \<times> 'c) option" where
  "write_close codec ops c reason =
     (case cx_reason codec reason of
        None \<Rightarrow> Some (Inl InvalidFrame, c)
      | Some payload \<Rightarrow> write_protocol_frame ops c FRAME_CLOSED payload)"

type_synonym ('c, 'd) serve_state = "'c \<times> 'd console_session \<times> console_proxy"

text \<open>An answer to the client, then either the next request (\<open>Inl\<close>) or the end (\<open>Inr\<close>).\<close>

definition answer ::
  "((console_protocol_error + unit) \<times> 'c) option \<Rightarrow> 'd console_session \<times> console_proxy \<Rightarrow>
   (console_protocol_error + console_close_reason) option \<Rightarrow>
   (('c, 'd) serve_state +
    (console_protocol_error + console_close_reason) \<times> ('c, 'd) serve_state) option" where
  "answer written st outcome =
     (case written of
        None \<Rightarrow> None
      | Some (Inl e, c) \<Rightarrow> Some (Inr (Inl e, c, st))
      | Some (Inr _, c) \<Rightarrow>
          (case outcome of None \<Rightarrow> Some (Inl (c, st)) | Some r \<Rightarrow> Some (Inr (r, c, st))))"

definition serve_request ::
  "console_codec \<Rightarrow> 'c stream_ops \<Rightarrow> 'd stream_ops \<Rightarrow> u8 \<Rightarrow> u8 list \<Rightarrow> ('c, 'd) serve_state \<Rightarrow>
   (('c, 'd) serve_state +
    (console_protocol_error + console_close_reason) \<times> ('c, 'd) serve_state) option" where
  "serve_request codec ops dev kind payload st =
     (case st of (c, session) \<Rightarrow>
      if kind = FRAME_INPUT then
        (case write_frame dev payload session of
           None \<Rightarrow> None
         | Some (Inr _, session) \<Rightarrow> answer (write_protocol_frame ops c FRAME_ACK []) session None
         | Some (Inl e, session) \<Rightarrow>
             answer (write_console_error codec ops c e) session (Some (Inl (Protocol_Console e))))
      else if kind = FRAME_READ \<and> payload = [] then
        (case read_frame dev session of
           None \<Rightarrow> None
         | Some (Inr (Data data), session) \<Rightarrow>
             answer (write_protocol_frame ops c FRAME_OUTPUT data) session None
         | Some (Inr Pending, session) \<Rightarrow>
             answer (write_protocol_frame ops c FRAME_ACK []) session None
         | Some (Inr (Closed_Read reason), session) \<Rightarrow>
             answer (write_close codec ops c reason) session (Some (Inr reason))
         | Some (Inl e, session) \<Rightarrow>
             answer (write_console_error codec ops c e) session (Some (Inl (Protocol_Console e))))
      else if kind = FRAME_DETACH \<and> payload = [] then
        (case detach session of (reason, session) \<Rightarrow>
           answer (write_close codec ops c reason) session (Some (Inr reason)))
      else if kind = FRAME_RESIZE then
        (case cx_size codec payload of
           None \<Rightarrow> Some (Inr (Inl InvalidFrame, c, session))
         | Some dims \<Rightarrow>
             (case resize dims (fst session) of
                (Inr _, s) \<Rightarrow> Some (Inl (c, s, snd session))
              | (Inl e, s) \<Rightarrow> answer (write_console_error codec ops c e) (s, snd session) None))
      else Some (Inr (Inl InvalidFrame, c, session)))"

definition serve_step ::
  "console_codec \<Rightarrow> 'c stream_ops \<Rightarrow> 'd stream_ops \<Rightarrow> ('c, 'd) serve_state \<Rightarrow>
   (('c, 'd) serve_state +
    (console_protocol_error + console_close_reason) \<times> ('c, 'd) serve_state) option" where
  "serve_step codec ops dev st =
     (case st of (c, session) \<Rightarrow>
      case read_protocol_frame ops c
             (max (unat (ca_max_frame_bytes (sn_attachment (fst session))))
                  MAX_CONSOLE_CONTROL_FRAME_BYTES) of
        None \<Rightarrow> None
      | Some (Inl e, c) \<Rightarrow> Some (Inr (Inl e, c, session))
      | Some (Inr None, c) \<Rightarrow>
          (case detach session of (reason, session) \<Rightarrow> Some (Inr (Inr reason, c, session)))
      | Some (Inr (Some (kind, payload)), c) \<Rightarrow> serve_request codec ops dev kind payload (c, session))"

partial_function (option) serve_loop ::
  "console_codec \<Rightarrow> 'c stream_ops \<Rightarrow> 'd stream_ops \<Rightarrow> ('c, 'd) serve_state \<Rightarrow>
   ((console_protocol_error + console_close_reason) \<times> ('c, 'd) serve_state) option" where
  "serve_loop codec ops dev st =
     (case serve_step codec ops dev st of
        None \<Rightarrow> None
      | Some (Inl st) \<Rightarrow> serve_loop codec ops dev st
      | Some (Inr result) \<Rightarrow> Some result)"

definition serve_framed_console ::
  "console_codec \<Rightarrow> 'c stream_ops \<Rightarrow> 'd stream_ops \<Rightarrow> ('c, 'd) serve_state \<Rightarrow>
   ((console_protocol_error + console_close_reason) \<times> ('c, 'd) serve_state) option" where
  "serve_framed_console codec ops dev st =
     (case st of (c, session) \<Rightarrow>
      case cx_attachment codec (sn_attachment (fst session)) of
        None \<Rightarrow> Some (Inl InvalidFrame, c, session)
      | Some attachment \<Rightarrow>
          (case write_protocol_frame ops c FRAME_ATTACHMENT attachment of
             None \<Rightarrow> None
           | Some (Inl e, c) \<Rightarrow> Some (Inl e, c, session)
           | Some (Inr _, c) \<Rightarrow> serve_loop codec ops dev (c, session)))"

section \<open>Streams that lose nothing\<close>

text \<open>
  What the standard library documents of \<open>Write\<close> and \<open>Read\<close> on an open connection, as named
  hypotheses: a call accepts or delivers some non-empty part of the bytes, or it is interrupted
  and nothing has moved; interruptions in a row are finite (\<open>patience\<close> counts them down).
\<close>

definition faithful_writer ::
  "('c \<Rightarrow> u8 list \<Rightarrow> (io_error + nat) \<times> 'c) \<Rightarrow> ('c \<Rightarrow> u8 list) \<Rightarrow> ('c \<Rightarrow> nat) \<Rightarrow> bool" where
  "faithful_writer wr contents patience \<longleftrightarrow> (\<forall>s data. data \<noteq> [] \<longrightarrow>
     (case wr s data of
        (Inr n, s') \<Rightarrow> 0 < n \<and> n \<le> length data \<and> contents s' = contents s @ take n data
      | (Inl e, s') \<Rightarrow> ioe_kind e = Interrupted \<and> contents s' = contents s \<and> patience s' < patience s))"

definition faithful_reader ::
  "('c \<Rightarrow> nat \<Rightarrow> (io_error + u8 list) \<times> 'c) \<Rightarrow> ('c \<Rightarrow> u8 list) \<Rightarrow> ('c \<Rightarrow> nat) \<Rightarrow> bool" where
  "faithful_reader rd contents patience \<longleftrightarrow> (\<forall>s n. 0 < n \<longrightarrow>
     (case rd s n of
        (Inr bytes, s') \<Rightarrow> length bytes \<le> n \<and> contents s = bytes @ contents s' \<and>
           (contents s \<noteq> [] \<longrightarrow> bytes \<noteq> [])
      | (Inl e, s') \<Rightarrow> ioe_kind e = Interrupted \<and> contents s' = contents s \<and> patience s' < patience s))"

lemma write_all_retry_total:
  assumes "faithful_writer wr contents patience"
  shows "\<exists>s'. write_all_retry wr s data = Some (Inr (), s') \<and> contents s' = contents s @ data"
proof (induction "(length data, patience s)" arbitrary: data s
    rule: wf_induct_rule [OF wf_lex_prod [OF wf_less_than wf_less_than]])
  case 1
  show ?case
  proof (cases "data = []")
    case True
    then show ?thesis by (subst write_all_retry.simps) simp
  next
    case False
    obtain r s1 where w: "wr s data = (r, s1)" by (cases "wr s data")
    have faithful: "case wr s data of
        (Inr n, s') \<Rightarrow> 0 < n \<and> n \<le> length data \<and> contents s' = contents s @ take n data
      | (Inl e, s') \<Rightarrow> ioe_kind e = Interrupted \<and> contents s' = contents s \<and> patience s' < patience s"
      by (rule assms [unfolded faithful_writer_def, rule_format, OF False])
    show ?thesis
    proof (cases r)
      case (Inl e)
      with faithful w have e: "ioe_kind e = Interrupted" "contents s1 = contents s" "patience s1 < patience s"
        by auto
      have "\<exists>s'. write_all_retry wr s1 data = Some (Inr (), s') \<and> contents s' = contents s1 @ data"
        by (rule 1) (simp add: e)
      moreover have "write_all_retry wr s data = write_all_retry wr s1 data"
        by (subst write_all_retry.simps) (simp only: w Inl False e prod.case sum.case if_False if_True simp_thms)
      ultimately show ?thesis using e(2) by simp
    next
      case (Inr n)
      with faithful w have n: "0 < n" "n \<le> length data" "contents s1 = contents s @ take n data"
        by auto
      have "\<exists>s'. write_all_retry wr s1 (drop n data) = Some (Inr (), s') \<and>
          contents s' = contents s1 @ drop n data"
        by (rule 1) (use n in auto)
      moreover have "write_all_retry wr s data = write_all_retry wr s1 (drop n data)"
        by (subst write_all_retry.simps) (use n False w Inr in simp)
      ultimately show ?thesis using n(3) by simp
    qed
  qed
qed

lemma read_exact_total:
  assumes "faithful_reader rd contents patience" and "contents s = bs @ rest"
  shows "\<exists>s'. read_exact rd s (length bs) acc = Some (Inr (acc @ bs), s') \<and> contents s' = rest"
  using assms(2)
proof (induction "(length bs, patience s)" arbitrary: bs s acc
    rule: wf_induct_rule [OF wf_lex_prod [OF wf_less_than wf_less_than]])
  case 1
  show ?case
  proof (cases "bs = []")
    case True
    then show ?thesis using "1.prems" by (subst read_exact.simps) simp
  next
    case False
    obtain r s1 where rd: "rd s (length bs) = (r, s1)" by (cases "rd s (length bs)")
    have "0 < length bs" using False by simp
    then have faithful: "case rd s (length bs) of
        (Inr bytes, s') \<Rightarrow> length bytes \<le> length bs \<and> contents s = bytes @ contents s' \<and>
           (contents s \<noteq> [] \<longrightarrow> bytes \<noteq> [])
      | (Inl e, s') \<Rightarrow> ioe_kind e = Interrupted \<and> contents s' = contents s \<and> patience s' < patience s"
      by (rule assms(1) [unfolded faithful_reader_def, rule_format])
    show ?thesis
    proof (cases r)
      case (Inl e)
      with faithful rd have e: "ioe_kind e = Interrupted" "contents s1 = contents s" "patience s1 < patience s"
        by auto
      have "\<exists>s'. read_exact rd s1 (length bs) acc = Some (Inr (acc @ bs), s') \<and> contents s' = rest"
        by (rule "1.hyps") (simp_all add: e "1.prems")
      moreover have "read_exact rd s (length bs) acc = read_exact rd s1 (length bs) acc"
        by (subst read_exact.simps) (use e False rd Inl in simp)
      ultimately show ?thesis by simp
    next
      case (Inr bytes)
      have bytes: "length bytes \<le> length bs" "contents s = bytes @ contents s1"
        "contents s \<noteq> [] \<longrightarrow> bytes \<noteq> []"
        using faithful unfolding rd Inr prod.case sum.case by blast+
      have "bytes @ contents s1 = bs @ rest" using bytes(2) "1.prems" by simp
      with bytes(1) obtain tail where bs: "bs = bytes @ tail" "contents s1 = tail @ rest"
        by (auto simp: append_eq_append_conv2)
      have "contents s \<noteq> []" using False "1.prems" by simp
      with bytes(3) have "bytes \<noteq> []" by blast
      then have "\<exists>s'. read_exact rd s1 (length tail) (acc @ bytes) = Some (Inr ((acc @ bytes) @ tail), s') \<and>
          contents s' = rest"
        by (intro "1.hyps") (simp_all add: bs)
      moreover have "read_exact rd s (length bs) acc = read_exact rd s1 (length tail) (acc @ bytes)"
        by (subst read_exact.simps) (use \<open>bytes \<noteq> []\<close> bs(1) rd Inr in simp)
      ultimately show ?thesis using bs(1) by simp
    qed
  qed
qed

lemma read_kind_total:
  assumes "faithful_reader rd contents patience" and "contents s = k # rest"
  shows "\<exists>s'. read_kind rd s = Some (Inr (Some k), s') \<and> contents s' = rest"
  using assms(2)
proof (induction "patience s" arbitrary: s rule: less_induct)
  case less
  obtain r s1 where rd: "rd s 1 = (r, s1)" by (cases "rd s 1")
  have faithful: "case rd s 1 of
      (Inr bytes, s') \<Rightarrow> length bytes \<le> 1 \<and> contents s = bytes @ contents s' \<and>
         (contents s \<noteq> [] \<longrightarrow> bytes \<noteq> [])
    | (Inl e, s') \<Rightarrow> ioe_kind e = Interrupted \<and> contents s' = contents s \<and> patience s' < patience s"
    by (rule assms(1) [unfolded faithful_reader_def, rule_format]) simp
  show ?case
  proof (cases r)
    case (Inl e)
    have e: "ioe_kind e = Interrupted" "contents s1 = contents s" "patience s1 < patience s"
      using faithful unfolding rd Inl prod.case sum.case by blast+
    have "read_kind rd s = read_kind rd s1"
      by (subst read_kind.simps) (use e rd Inl in simp)
    then show ?thesis using less.hyps [OF e(3)] e(2) less.prems by simp
  next
    case (Inr bytes)
    have bytes: "length bytes \<le> 1" "contents s = bytes @ contents s1" "contents s \<noteq> [] \<longrightarrow> bytes \<noteq> []"
      using faithful unfolding rd Inr prod.case sum.case by blast+
    then have "bytes = [k]" "contents s1 = rest" using less.prems by (cases bytes; simp)+
    then show ?thesis by (subst read_kind.simps) (use rd Inr in simp)
  qed
qed

definition frame_bytes :: "u8 \<Rightarrow> u8 list \<Rightarrow> u8 list" where
  "frame_bytes kind payload = kind # to_be_bytes (of_nat (length payload)) @ payload"

lemma write_protocol_frame_total:
  assumes "faithful_writer (so_write ops) contents patience" and "length payload < 2 ^ 32"
  shows "\<exists>c'. write_protocol_frame ops c kind payload = Some (Inr (), c') \<and>
    contents c' = contents c @ frame_bytes kind payload"
proof -
  note total = write_all_retry_total [OF assms(1)]
  obtain c1 where c1: "write_all_retry (so_write ops) c [kind] = Some (Inr (), c1)"
    "contents c1 = contents c @ [kind]" using total [of c "[kind]"] by blast
  obtain c2 where c2: "write_all_retry (so_write ops) c1 (to_be_bytes (of_nat (length payload)))
      = Some (Inr (), c2)" "contents c2 = contents c1 @ to_be_bytes (of_nat (length payload))"
    using total [of c1] by blast
  obtain c3 where c3: "write_all_retry (so_write ops) c2 payload = Some (Inr (), c3)"
    "contents c3 = contents c2 @ payload" using total [of c2] by blast
  show ?thesis
    using assms(2) c1 c2 c3 by (simp add: write_protocol_frame_def write_then_def frame_bytes_def)
qed

lemma read_protocol_frame_total:
  assumes "faithful_reader (so_read ops) contents patience" and "length payload < 2 ^ 32"
    and "contents c = frame_bytes kind payload @ rest"
  shows "if length payload \<le> limit
    then \<exists>c'. read_protocol_frame ops c limit = Some (Inr (Some (kind, payload)), c') \<and> contents c' = rest
    else \<exists>c'. read_protocol_frame ops c limit = Some (Inl InvalidFrame, c')"
proof -
  let ?len = "to_be_bytes (of_nat (length payload))"
  obtain c1 where c1: "read_kind (so_read ops) c = Some (Inr (Some kind), c1)"
    "contents c1 = ?len @ payload @ rest"
    using read_kind_total [OF assms(1), of c] assms(3) by (auto simp: frame_bytes_def)
  have "length ?len = 4" by (simp add: to_be_bytes_def)
  then obtain c2 where c2: "read_exact (so_read ops) c1 4 [] = Some (Inr ?len, c2)"
    "contents c2 = payload @ rest"
    using read_exact_total [OF assms(1) c1(2), of "[]"] by auto
  obtain c3 where c3: "read_exact (so_read ops) c2 (length payload) [] = Some (Inr payload, c3)"
    "contents c3 = rest"
    using read_exact_total [OF assms(1) c2(2), of "[]"] by auto
  have "from_be_bytes ?len = length payload"
    using assms(2) by (simp add: from_be_to_be unat_of_nat)
  with c1 c2 c3 show ?thesis by (simp add: read_protocol_frame_def)
qed

section \<open>Attachment and sessions\<close>

text \<open>A console lease is a guard with one permit for each instance.\<close>

interpretation lease: bounded_admission
  "\<lambda>i proxy. ok (acquire_lease i proxy)" drop_lease
  "\<lambda>proxy i. if i \<in> px_attached proxy then 1 else 0" "\<lambda>proxy i. 1"
  by unfold_locales
    (auto simp: acquire_lease_def drop_lease_def fun_eq_iff split: if_splits)

definition session_ok :: "'d console_session \<Rightarrow> bool" where
  "session_ok s \<longleftrightarrow>
     (case sn_closed s of
        None \<Rightarrow> sn_device s \<noteq> None \<and> sn_lease s = Some (ca_instance_id (sn_attachment s))
      | Some reason \<Rightarrow> sn_device s = None \<and> sn_lease s = None)"

text \<open>
  One session's view from one point to a later one: still open with its lease, or closed with the
  device dropped and the lease given back.
\<close>

definition session_step :: "'d console_session \<times> console_proxy \<Rightarrow> 'd console_session \<times> console_proxy \<Rightarrow> bool" where
  "session_step a b \<longleftrightarrow>
     session_ok (fst b) \<and> sn_attachment (fst b) = sn_attachment (fst a) \<and>
     (if sn_closed (fst a) = None \<and> sn_closed (fst b) \<noteq> None
      then snd b = drop_lease (ca_instance_id (sn_attachment (fst a))) (snd a)
      else sn_closed (fst b) = sn_closed (fst a) \<and> snd b = snd a)"

lemma session_step_refl: "session_ok (fst a) \<Longrightarrow> session_step a a"
  by (auto simp: session_step_def)

lemma session_step_trans: "session_step a b \<Longrightarrow> session_step b c \<Longrightarrow> session_step a c"
  by (auto simp: session_step_def split: if_splits)

lemma close_session_step:
  assumes "session_ok (fst st)" and "close_session reason st = (r, st')"
  shows "session_step st st'" and "sn_closed (fst st') = Some r"
  using assms
  by (auto simp: close_session_def session_step_def session_ok_def split: prod.splits option.splits)

lemma session_step_device:
  "session_ok s \<Longrightarrow> sn_closed s = None \<Longrightarrow> session_step (s, proxy) (s\<lparr>sn_device := Some d\<rparr>, proxy)"
  by (simp add: session_step_def session_ok_def)

lemma close_after_device:
  assumes "session_ok s" and "sn_closed s = None"
    and "close_session reason (s\<lparr>sn_device := Some d\<rparr>, proxy) = (r, st')"
  shows "session_step (s, proxy) st'" and "sn_closed (fst st') = Some r"
proof -
  have "session_ok (fst (s\<lparr>sn_device := Some d\<rparr>, proxy))" using assms(1,2) by (simp add: session_ok_def)
  note closed = close_session_step [OF this assms(3)]
  show "session_step (s, proxy) st'"
    by (rule session_step_trans [OF session_step_device [OF assms(1,2)] closed(1)])
  show "sn_closed (fst st') = Some r" by (rule closed(2))
qed

lemma read_frame_step:
  assumes ok: "session_ok (fst st)" and read: "read_frame ops st = Some (r, st')"
  shows "session_step st st' \<and> (\<forall>reason. r = Inr (Closed_Read reason) \<longrightarrow> sn_closed (fst st') = Some reason)"
proof -
  obtain s proxy where st: "st = (s, proxy)" by (cases st)
  show ?thesis
  proof (cases "sn_closed s")
    case (Some reason)
    then show ?thesis using read ok by (auto simp: read_frame_def st session_step_refl)
  next
    case None
    with ok st obtain d where d: "sn_device s = Some d" by (auto simp: session_ok_def)
    obtain res d' where res: "read_retry (so_read ops) d (unat (ca_max_frame_bytes (sn_attachment s)))
        = Some (res, d')"
      using read None d by (auto simp: read_frame_def st split: option.splits)
    have ok': "session_ok s" using ok st by simp
    note open_step = session_step_device [OF ok' None, of proxy d']
      and close = close_after_device [OF ok' None, of _ d' proxy]
    show ?thesis
    proof (cases res)
      case (Inl e)
      then show ?thesis
        using read None d res open_step close(1) [OF prod.collapse [symmetric]]
        by (auto simp: read_frame_def st Let_def split: if_splits)
    next
      case (Inr bytes)
      then show ?thesis
        using read None d res open_step close
        by (auto simp: read_frame_def st Let_def split: if_splits prod.splits)
    qed
  qed
qed

lemma write_frame_step:
  assumes ok: "session_ok (fst st)" and "write_frame ops data st = Some (r, st')"
  shows "session_step st st'"
proof -
  obtain s proxy where st: "st = (s, proxy)" by (cases st)
  have ok': "session_ok s" using ok st by simp
  show ?thesis
    using assms(2) session_step_refl [OF ok] session_step_device [OF ok', of proxy]
      close_after_device(1) [OF ok' _ prod.collapse [symmetric]]
    by (auto simp: write_frame_def st split: if_splits option.splits prod.splits sum.splits)
qed

lemma answer_cases:
  assumes "answer written st outcome = Some r"
  shows "(\<exists>c. r = Inl (c, st) \<and> outcome = None) \<or>
    (\<exists>c e. r = Inr (Inl e, c, st)) \<or> (\<exists>c res. r = Inr (res, c, st) \<and> outcome = Some res)"
  using assms by (auto simp: answer_def split: option.splits prod.splits sum.splits)

definition serve_ok :: "'d console_session \<times> console_proxy \<Rightarrow>
    ('c, 'd) serve_state + (console_protocol_error + console_close_reason) \<times> ('c, 'd) serve_state \<Rightarrow> bool" where
  "serve_ok st r \<longleftrightarrow>
     (case r of
        Inl (c, st') \<Rightarrow> session_step st st'
      | Inr (res, c, st') \<Rightarrow> session_step st st' \<and>
          (\<forall>reason. res = Inr reason \<longrightarrow> sn_closed (fst st') = Some reason))"

lemma answer_ok:
  assumes "answer written st' outcome = Some r" and "session_step st st'"
    and "\<And>reason. outcome = Some (Inr reason) \<Longrightarrow> sn_closed (fst st') = Some reason"
  shows "serve_ok st r"
  using answer_cases [OF assms(1)] assms(2,3) by (auto simp: serve_ok_def)

lemma detach_step:
  assumes "session_ok (fst st)" and "detach st = (r, st')"
  shows "session_step st st'" and "sn_closed (fst st') = Some r"
  using close_session_step [OF assms(1), of ClientDetached] assms(2) by (auto simp: detach_def)

lemma frame_kinds_distinct [simp]:
  "FRAME_READ \<noteq> FRAME_INPUT" "FRAME_DETACH \<noteq> FRAME_INPUT" "FRAME_DETACH \<noteq> FRAME_READ"
  "FRAME_RESIZE \<noteq> FRAME_INPUT" "FRAME_RESIZE \<noteq> FRAME_READ" "FRAME_RESIZE \<noteq> FRAME_DETACH"
  by (simp_all add: FRAME_INPUT_def FRAME_READ_def FRAME_DETACH_def FRAME_RESIZE_def)

lemma serve_request_ok:
  assumes ok: "session_ok (fst st)"
    and serve: "serve_request codec ops dev kind payload (c, st) = Some r"
  shows "serve_ok st r"
proof -
  consider (input) "kind = FRAME_INPUT" | (read) "kind \<noteq> FRAME_INPUT" "kind = FRAME_READ \<and> payload = []"
    | (detach) "kind \<noteq> FRAME_INPUT" "\<not> (kind = FRAME_READ \<and> payload = [])"
        "kind = FRAME_DETACH \<and> payload = []"
    | (resize) "kind \<noteq> FRAME_INPUT" "\<not> (kind = FRAME_READ \<and> payload = [])"
        "\<not> (kind = FRAME_DETACH \<and> payload = [])" "kind = FRAME_RESIZE"
    | (other) "r = Inr (Inl InvalidFrame, c, st)"
    using serve by (auto simp: serve_request_def split: if_splits)
  then show ?thesis
  proof cases
    case input
    then obtain w st' where w: "write_frame dev payload st = Some (w, st')"
      using serve by (auto simp: serve_request_def split: option.splits)
    note step = write_frame_step [OF ok w]
    from serve input w show ?thesis
      by (cases w) (auto simp: serve_request_def elim!: answer_ok [OF _ step])
  next
    case read
    then obtain w st' where w: "read_frame dev st = Some (w, st')"
      using serve by (auto simp: serve_request_def split: option.splits)
    note step = read_frame_step [OF ok w]
    from serve read w step show ?thesis
      by (auto simp: serve_request_def split: sum.splits console_read.splits elim!: answer_ok)
  next
    case detach
    obtain reason st' where d: "detach st = (reason, st')" by (cases "detach st")
    note step = detach_step [OF ok d]
    have "answer (write_close codec ops c reason) st' (Some (Inr reason)) = Some r"
      using serve detach d by (simp add: serve_request_def)
    then show ?thesis by (rule answer_ok) (use step in auto)
  next
    case resize
    show ?thesis
    proof (cases "cx_size codec payload")
      case None
      then show ?thesis
        using serve resize session_step_refl [OF ok] by (auto simp: serve_request_def serve_ok_def)
    next
      case (Some dims)
      then have "answer (write_console_error codec ops c (stable_error ResizeUnsupported)) st None
          = Some r"
        using serve resize by (simp add: serve_request_def resize_def)
      then show ?thesis by (rule answer_ok) (simp_all add: session_step_refl [OF ok])
    qed
  next
    case other
    then show ?thesis using session_step_refl [OF ok] by (simp add: serve_ok_def)
  qed
qed

lemma serve_step_ok:
  assumes ok: "session_ok (fst st)" and step: "serve_step codec ops dev (c, st) = Some r"
  shows "serve_ok st r"
proof -
  let ?limit = "max (unat (ca_max_frame_bytes (sn_attachment (fst st)))) MAX_CONSOLE_CONTROL_FRAME_BYTES"
  obtain frame c1 where frame: "read_protocol_frame ops c ?limit = Some (frame, c1)"
    using step by (auto simp: serve_step_def split: option.splits)
  consider (error) e where "frame = Inl e" | (eof) "frame = Inr None"
    | (request) kind payload where "frame = Inr (Some (kind, payload))"
    by (metis option.exhaust old.sum.exhaust surj_pair)
  then show ?thesis
  proof cases
    case error
    then show ?thesis
      using step frame session_step_refl [OF ok] by (auto simp: serve_step_def serve_ok_def)
  next
    case eof
    obtain reason st' where d: "detach st = (reason, st')" by (cases "detach st")
    with step frame eof have "r = Inr (Inr reason, c1, st')" by (simp add: serve_step_def)
    then show ?thesis using detach_step [OF ok d] by (simp add: serve_ok_def)
  next
    case request
    then have "serve_request codec ops dev kind payload (c1, st) = Some r"
      using step frame by (simp add: serve_step_def)
    then show ?thesis by (rule serve_request_ok [OF ok])
  qed
qed

definition serve_final :: "('c, 'd) serve_state \<Rightarrow>
    (console_protocol_error + console_close_reason) \<times> ('c, 'd) serve_state \<Rightarrow> bool" where
  "serve_final st r \<longleftrightarrow> (session_ok (fst (snd st)) \<longrightarrow> serve_ok (snd st) (Inr r))"

lemma serve_final_step:
  assumes "\<And>st1. q = Inl st1 \<Longrightarrow> serve_final st1 r" and "\<And>result. q = Inr result \<Longrightarrow> r = result"
    and "serve_step codec ops dev st = Some q"
  shows "serve_final st r"
  unfolding serve_final_def
proof
  assume ok: "session_ok (fst (snd st))"
  have step: "serve_ok (snd st) q"
    using serve_step_ok [OF ok, of codec ops dev "fst st"] assms(3) by simp
  show "serve_ok (snd st) (Inr r)"
  proof (cases q)
    case (Inl st1)
    with step have s1: "session_step (snd st) (snd st1)" by (auto simp: serve_ok_def)
    then have "session_ok (fst (snd st1))" by (simp add: session_step_def)
    with assms(1) [OF Inl] have "serve_ok (snd st1) (Inr r)" by (simp add: serve_final_def)
    then show ?thesis
      using session_step_trans [OF s1] by (auto simp: serve_ok_def split: prod.splits)
  next
    case (Inr result)
    with assms(2) step show ?thesis by simp
  qed
qed

lemma serve_loop_final: "serve_loop codec ops dev st = Some r \<Longrightarrow> serve_final st r"
proof (rule serve_loop.raw_induct [where P = "\<lambda>_ _ _ st r. serve_final st r"])
  fix loop codec ops dev st r
  assume IH: "\<And>codec ops dev st r. loop codec ops dev st = Some r \<Longrightarrow> serve_final st r"
    and body: "(case serve_step codec ops dev st of None \<Rightarrow> None | Some (Inl st) \<Rightarrow> loop codec ops dev st
      | Some (Inr result) \<Rightarrow> Some result) = Some r"
  then obtain q where q: "serve_step codec ops dev st = Some q" by (auto split: option.splits)
  from body q show "serve_final st r"
    by (intro serve_final_step [OF _ _ q]) (auto intro: IH)
qed

lemma count_list_le_1: "(\<And>x. count_list xs x \<le> 1) \<Longrightarrow> distinct xs"
proof (induction xs)
  case (Cons y ys)
  have "count_list ys x \<le> 1" for x using Cons.prems [of x] by (cases "y = x") simp_all
  moreover have "y \<notin> set ys" using Cons.prems [of y] by (auto simp: count_list_0_iff)
  ultimately show ?case using Cons.IH by simp
qed simp

lemma lease_accounting:
  assumes "px_attached proxy0 = {}"
    and "fold (admission_step (\<lambda>i p. ok (acquire_lease i p)) drop_lease) events (proxy0, [])
      = (proxy, held)"
  shows "distinct held" and "px_attached proxy = set held"
proof -
  have acc: "lease.accounted (proxy, held)"
    using lease.run_accounted [of proxy0 events] assms by simp
  then have "count_list held i \<le> 1" for i unfolding lease.accounted_def prod.case by blast
  then show "distinct held" by (rule count_list_le_1)
  have eq: "(\<lambda>i. if i \<in> px_attached proxy then 1 else 0) = count_list held"
    using acc unfolding lease.accounted_def prod.case by blast
  have "i \<in> px_attached proxy \<longleftrightarrow> count_list held i \<noteq> 0" for i
    unfolding eq [symmetric] by simp
  then show "px_attached proxy = set held" by (auto simp: count_list_0_iff)
qed

lemma attach_effect:
  assumes "attach open ops i (proxy, factory) = Some (r, proxy', factory')"
  shows "case r of
      Inl e \<Rightarrow> px_attached proxy' = px_attached proxy
    | Inr s \<Rightarrow> 1 \<le> i \<and> i \<le> 511 \<and> i \<notin> px_attached proxy \<and>
        px_attached proxy' = insert i (px_attached proxy) \<and> session_ok s \<and> sn_lease s = Some i"
proof -
  have "i \<noteq> 0 \<Longrightarrow> 1 \<le> i" by (simp add: word_le_nat_alt unat_gt_0 Suc_leI)
  then show ?thesis
    using assms
    by (auto simp: attach_def acquire_lease_def drop_lease_def session_ok_def MAX_INSTANCE_ID_def
        not_less split: if_splits sum.splits prod.splits option.splits)
qed

section \<open>Properties\<close>

text \<open>Consoles are exclusive.  Whatever leases were taken and dropped before, at most one is
  alive for each instance and the attached set is exactly the instances with a live lease.  From
  there an attachment succeeds only for a valid instance that has none, and takes it; whichever
  step fails, the attached set is left as it was, so a failed attachment neither steals nor leaks
  a lease.\<close>

theorem attach_exclusive:
  assumes "px_attached proxy0 = {}"
    and "fold (admission_step (\<lambda>i p. ok (acquire_lease i p)) drop_lease) events (proxy0, [])
      = (proxy, held)"
    and "attach open ops i (proxy, factory) = Some (r, proxy', factory')"
  shows "distinct held \<and> px_attached proxy = set held \<and>
    (case r of
      Inl e \<Rightarrow> px_attached proxy' = set held
    | Inr s \<Rightarrow> 1 \<le> i \<and> i \<le> 511 \<and> i \<notin> set held \<and> px_attached proxy' = set (i # held) \<and>
        session_ok s \<and> sn_lease s = Some i)"
  using lease_accounting [OF assms(1,2)] attach_effect [OF assms(3)] by (cases r) auto

text \<open>C14: Frames survive the wire.  Over any connection that delivers bytes in order, in pieces of
  any size and with any finite number of interruptions, writing a frame succeeds, and reading at
  the other end returns exactly its kind and payload and stops at the end of the frame; a frame
  over the reader's limit is rejected as invalid.\<close>

theorem frame_round_trip:
  assumes "faithful_writer (so_write out) sent patience_w"
    and "faithful_reader (so_read inp) received patience_r" and "length payload < 2 ^ 32"
  shows "\<exists>w' bytes. write_protocol_frame out w kind payload = Some (Inr (), w') \<and>
    sent w' = sent w @ bytes \<and>
    (\<forall>r rest. received r = bytes @ rest \<longrightarrow>
      (if length payload \<le> limit
       then \<exists>r'. read_protocol_frame inp r limit = Some (Inr (Some (kind, payload)), r') \<and>
              received r' = rest
       else \<exists>r'. read_protocol_frame inp r limit = Some (Inl InvalidFrame, r')))"
  using write_protocol_frame_total [OF assms(1,3), of w kind]
    read_protocol_frame_total [OF assms(2,3), of _ kind _ limit] by blast

text \<open>C20: Serving ends with the console given back.  If serving a client on an open session returns
  a close reason, the session is closed with that reason, its device is dropped and its lease
  released; if it returns an error, the lease is released exactly when the session was closed.
  No other instance's lease is touched.\<close>

theorem serve_releases_console:
  assumes "session_ok s" and "sn_closed s = None"
    and "serve_framed_console codec ops dev (c, s, proxy) = Some (res, c', s', proxy')"
  shows "session_ok s' \<and>
    px_attached proxy' = (if sn_closed s' = None then px_attached proxy
      else px_attached proxy - {ca_instance_id (sn_attachment s)}) \<and>
    (case res of Inr reason \<Rightarrow> sn_closed s' = Some reason \<and> sn_device s' = None \<and> sn_lease s' = None
     | Inl e \<Rightarrow> True)"
proof -
  have "serve_ok (s, proxy) (Inr (res, c', s', proxy'))"
    using assms serve_loop_final session_step_refl [of "(s, proxy)"]
    by (fastforce simp: serve_framed_console_def serve_final_def serve_ok_def
        split: option.splits sum.splits)
  with assms(2) show ?thesis
    by (auto simp: serve_ok_def session_step_def session_ok_def drop_lease_def
        split: if_splits sum.splits option.splits)
qed

section \<open>Witnesses\<close>

text \<open>A stream over byte lists that moves one byte at a time: what was sent, what is to be read.\<close>

definition byte_stream :: "(u8 list \<times> u8 list) stream_ops" where
  "byte_stream =
     \<lparr>so_read = (\<lambda>(sent, todo) n. (Inr (take 1 todo), sent, drop 1 todo)),
      so_write = (\<lambda>(sent, todo) data. (Inr 1, sent @ take 1 data, todo))\<rparr>"

definition accepting_device :: "unit stream_ops" where
  "accepting_device = \<lparr>so_read = (\<lambda>d n. (Inr [], d)), so_write = (\<lambda>d data. (Inr (length data), d))\<rparr>"

definition plain_codec :: console_codec where
  "plain_codec = \<lparr>cx_attachment = (\<lambda>_. Some []), cx_error = (\<lambda>_. Some []),
     cx_reason = (\<lambda>_. Some []), cx_size = (\<lambda>_. None)\<rparr>"

lemma byte_stream_faithful:
  "faithful_writer (so_write byte_stream) fst (\<lambda>_. 0)"
  "faithful_reader (so_read byte_stream) snd (\<lambda>_. 0)"
  by (auto simp: byte_stream_def faithful_writer_def faithful_reader_def Suc_le_eq)

definition example_session :: "unit console_session" where
  "example_session =
     \<lparr>sn_attachment = \<lparr>ca_instance_id = 7,
                       ca_capabilities = \<lparr>cc_binary = True, cc_resize = False\<rparr>,
                       ca_max_frame_bytes = 65536\<rparr>,
      sn_device = Some (), sn_lease = Some 7, sn_closed = None\<rparr>"

lemma example_attach:
  "attach (\<lambda>f. (Inr (), f)) accepting_device 7 (new_proxy, ())
     = Some (Inr example_session, new_proxy\<lparr>px_attached := {7}\<rparr>, ())"
  by (simp add: attach_def MAX_INSTANCE_ID_def new_proxy_def acquire_lease_def write_selector.simps
      accepting_device_def example_session_def DEFAULT_MAX_CONSOLE_FRAME_BYTES_def)

theorem attach_exclusive_witness:
  "px_attached (new_proxy\<lparr>px_attached := {7}\<rparr>) = set [7] \<and> session_ok example_session"
proof -
  have "px_attached new_proxy = {}" by (simp add: new_proxy_def)
  moreover have "fold (admission_step (\<lambda>i p. ok (acquire_lease i p)) drop_lease) [] (new_proxy, [])
      = (new_proxy, [])" by simp
  ultimately show ?thesis using attach_exclusive [OF _ _ example_attach] by fastforce
qed

theorem frame_round_trip_witness:
  "\<exists>w' bytes. write_protocol_frame byte_stream ([], []) 0x10 [1, 2] = Some (Inr (), w') \<and>
    fst w' = bytes \<and>
    (\<exists>r'. read_protocol_frame byte_stream ([], bytes) 4096 = Some (Inr (Some (0x10, [1, 2])), r'))"
proof -
  have "length ([1, 2] :: u8 list) < 2 ^ 32" by simp
  from frame_round_trip [OF byte_stream_faithful this, of "([], [])" "0x10" 4096]
  obtain w' bytes where w: "write_protocol_frame byte_stream ([], []) 0x10 [1, 2] = Some (Inr (), w')"
      "fst w' = bytes"
    and r: "\<forall>r rest. snd r = bytes @ rest \<longrightarrow> (\<exists>r'. read_protocol_frame byte_stream r 4096
      = Some (Inr (Some (0x10, [1, 2])), r') \<and> snd r' = rest)"
    by (auto simp del: split_paired_All split_paired_Ex)
  from r [rule_format, of "([], bytes)" "[]"] w show ?thesis by auto
qed

theorem serve_releases_console_witness:
  "\<exists>c' s' proxy'. serve_framed_console plain_codec byte_stream accepting_device
      (([], []), example_session, new_proxy\<lparr>px_attached := {7}\<rparr>)
      = Some (Inr ClientDetached, c', s', proxy') \<and>
    px_attached proxy' = {} \<and> sn_closed s' = Some ClientDetached"
proof -
  obtain w' where w': "write_protocol_frame byte_stream ([], []) FRAME_ATTACHMENT [] = Some (Inr (), w')"
    "snd w' = []"
    by (simp add: write_protocol_frame_def write_then_def write_all_retry.simps byte_stream_def
        to_be_bytes_def)
  let ?st = "(example_session, new_proxy\<lparr>px_attached := {7}\<rparr>)"
  have "read_kind (so_read byte_stream) w' = Some (Inr None, fst w', [])"
    using w'(2) by (cases w', subst read_kind.simps) (simp add: byte_stream_def)
  then have "serve_step plain_codec byte_stream accepting_device (w', ?st)
      = Some (Inr (Inr ClientDetached, (fst w', []), snd (detach ?st)))"
    by (simp add: serve_step_def read_protocol_frame_def detach_def close_session_def example_session_def)
  then have "serve_framed_console plain_codec byte_stream accepting_device (([], []), ?st)
      = Some (Inr ClientDetached, (fst w', []), snd (detach ?st))"
    using w'(1) by (simp add: serve_framed_console_def plain_codec_def serve_loop.simps)
  then obtain c' s' proxy' where served: "serve_framed_console plain_codec byte_stream accepting_device
      (([], []), ?st) = Some (Inr ClientDetached, c', s', proxy')"
    by (metis surj_pair)
  have "session_ok example_session" "sn_closed example_session = None"
    by (simp_all add: session_ok_def example_session_def)
  from serve_releases_console [OF this served] served show ?thesis
    by (auto simp: example_session_def split: if_splits)
qed

end
