(* ===== verification/Storage_Inventory.thy ===== *)
theory Storage_Inventory
  imports Api_V1 Host_Files "HOL-Library.Multiset"
begin

text \<open>
  The block-device inventory, \<open>crates/kernmux-daemon/src/storage_inventory.rs\<close>: which disks an image
  may be deployed to.  One observation reads the view \<open>v\<close> below the directory \<open>root\<close>; the JSON
  encoder and SHA-256, from which the generation is computed, are arguments.  The sets of the source
  are lists, of which only the elements matter.
\<close>

section \<open>Rejection reasons\<close>

text \<open>The derived order of the enumeration.\<close>

fun rank_reason :: "storage_rejection_reason \<Rightarrow> nat" where
  "rank_reason NotWholeDevice = 0"
| "rank_reason VirtualDevice = 1"
| "rank_reason ReadOnly_Device = 2"
| "rank_reason ZeroSized = 3"
| "rank_reason Mounted = 4"
| "rank_reason HostRoot = 5"
| "rank_reason Swap = 6"
| "rank_reason HasHolders = 7"
| "rank_reason PeerAssigned = 8"
| "rank_reason IncompleteIdentity = 9"
| "rank_reason Unknown_Reason = 10"

lemma rank_reason_inject: "rank_reason a = rank_reason b \<longleftrightarrow> a = b"
  by (cases a; cases b) simp_all

instantiation storage_rejection_reason :: linorder
begin

definition less_eq_storage_rejection_reason :: "storage_rejection_reason \<Rightarrow> storage_rejection_reason \<Rightarrow> bool" where
  "less_eq_storage_rejection_reason a b \<longleftrightarrow> rank_reason a \<le> rank_reason b"

definition less_storage_rejection_reason :: "storage_rejection_reason \<Rightarrow> storage_rejection_reason \<Rightarrow> bool" where
  "less_storage_rejection_reason a b \<longleftrightarrow> rank_reason a < rank_reason b"

instance
  by standard (auto simp: less_eq_storage_rejection_reason_def less_storage_rejection_reason_def rank_reason_inject)

end

section \<open>Errors\<close>

datatype storage_inventory_error =
    Storage_Io string read_error
  | Storage_Invalid string
  | Storage_Serialize

fun storage_error_message :: "(read_error \<Rightarrow> string) \<Rightarrow> string \<Rightarrow> storage_inventory_error \<Rightarrow> string" where
  "storage_error_message io json (Storage_Io context e) = ''failed to read '' @ context @ '': '' @ io e"
| "storage_error_message io json (Storage_Invalid detail) = detail"
| "storage_error_message io json Storage_Serialize = ''failed to fingerprint storage inventory: '' @ json"

section \<open>Reading\<close>

definition storage_read_trimmed :: "file_view \<Rightarrow> string \<Rightarrow> storage_inventory_error + string" where
  "storage_read_trimmed v path = map_ok trim (map_err (Storage_Io path) (read_to_string v path))"

definition optional_trimmed :: "file_view \<Rightarrow> string \<Rightarrow> storage_inventory_error + string option" where
  "optional_trimmed v path =
     (case read_to_string v path of
        Inr text \<Rightarrow> Inr (if trim text = [] then None else Some (trim text))
      | Inl e \<Rightarrow> if e = Os_Error ENOENT then Inr None else Inl (Storage_Io path e))"

definition has_entries :: "file_view \<Rightarrow> string \<Rightarrow> storage_inventory_error + bool" where
  "has_entries v path =
     (case fv_read_dir v path of
        Inr [] \<Rightarrow> Inr False
      | Inr (Inl e # _) \<Rightarrow> Inl (Storage_Io path (Os_Error e))
      | Inr (Inr _ # _) \<Rightarrow> Inr True
      | Inl e \<Rightarrow> if e = ENOENT then Inl (Storage_Invalid (''missing holders state: '' @ path))
                 else Inl (Storage_Io path (Os_Error e)))"

definition valid_major_minor :: "string \<Rightarrow> storage_inventory_error + unit" where
  "valid_major_minor value =
     (case split_once CHR '':'' value of
        None \<Rightarrow> Inl (Storage_Invalid ''invalid major:minor identity'')
      | Some (major, minor) \<Rightarrow>
          if (parse_word major :: u32 option) = None \<or> (parse_word minor :: u32 option) = None
          then Inl (Storage_Invalid ''invalid major:minor identity'') else Inr ())"

definition valid_pci_id :: "string \<Rightarrow> bool" where
  "valid_pci_id value \<longleftrightarrow>
     length value = 12 \<and> value ! 4 = CHR '':'' \<and> value ! 7 = CHR '':'' \<and> value ! 10 = CHR ''.'' \<and>
     list_all (\<lambda>i. i \<in> {4, 7, 10} \<or> is_ascii_hexdigit (value ! i)) [0..<length value]"

definition storage_path :: "string \<Rightarrow> string \<Rightarrow> string" where
  "storage_path root relative = path_join root (dropWhile (\<lambda>c. c = CHR ''/'') relative)"

definition block_class :: "string \<Rightarrow> string" where
  "block_class root = storage_path root ''sys/class/block''"

definition block_entry :: "string \<Rightarrow> nat + string \<Rightarrow> storage_inventory_error + string" where
  "block_entry root entry = map_err (\<lambda>e. Storage_Io (block_class root) (Os_Error e)) entry"

definition read_block_class :: "file_view \<Rightarrow> string \<Rightarrow> storage_inventory_error + (nat + string) list" where
  "read_block_class v root =
     map_err (\<lambda>e. Storage_Io (block_class root) (Os_Error e)) (fv_read_dir v (block_class root))"

definition canonical_entry :: "file_view \<Rightarrow> string \<Rightarrow> string \<Rightarrow> storage_inventory_error + string" where
  "canonical_entry v root name =
     (let path = path_join (block_class root) name in
      map_err (\<lambda>e. Storage_Io path (Os_Error e)) (fv_canonicalize v path))"

definition block_ident :: "file_view \<Rightarrow> string \<Rightarrow> string \<Rightarrow> storage_inventory_error + string" where
  "block_ident v root name = storage_read_trimmed v (path_join (path_join (block_class root) name) ''dev'')"

definition block_held :: "file_view \<Rightarrow> string \<Rightarrow> string \<Rightarrow> storage_inventory_error + bool" where
  "block_held v root name = has_entries v (path_join (path_join (block_class root) name) ''holders'')"

definition below :: "string \<Rightarrow> string \<Rightarrow> bool" where
  "below child target \<longleftrightarrow> child = target \<or> path_starts_with child target"

section \<open>Kernel state\<close>

definition mount_of :: "string \<Rightarrow> storage_inventory_error + string \<times> string" where
  "mount_of line =
     (let fields = split_whitespace line in
      if length fields < 5 then Inl (Storage_Invalid ''malformed mountinfo'')
      else and_then (valid_major_minor (fields ! 2)) (\<lambda>_. Inr (fields ! 2, fields ! 4)))"

definition mounts :: "file_view \<Rightarrow> string \<Rightarrow> storage_inventory_error + (string \<times> string) list" where
  "mounts v root =
     (let path = storage_path root ''proc/self/mountinfo'' in
      and_then (map_err (Storage_Io path) (read_to_string v path)) (\<lambda>text.
        traverse_list mount_of (str_lines text)))"

definition swaps :: "file_view \<Rightarrow> string \<Rightarrow> storage_inventory_error + string list" where
  "swaps v root =
     (let path = storage_path root ''proc/swaps'' in
      and_then (map_err (Storage_Io path) (read_to_string v path)) (\<lambda>text.
        case str_lines text of
          [] \<Rightarrow> Inl (Storage_Invalid ''missing swaps header'')
        | header # lines \<Rightarrow>
            if \<not> starts_with header ''Filename'' then Inl (Storage_Invalid ''malformed swaps header'')
            else Inr (concat (map (take 1) (map split_whitespace lines)))))"

definition descendant :: "file_view \<Rightarrow> string \<Rightarrow> string \<Rightarrow> nat + string \<Rightarrow>
    storage_inventory_error + (string \<times> string) option" where
  "descendant v root target entry =
     and_then (block_entry root entry) (\<lambda>name.
     and_then (canonical_entry v root name) (\<lambda>child.
       if \<not> below child target then Inr None
       else
       and_then (block_ident v root name) (\<lambda>ident.
       and_then (ok_or (Storage_Invalid ''non-UTF-8 block device name'') (to_str name)) (\<lambda>name.
         Inr (Some (ident, ''/dev/'' @ name))))))"

definition descendants :: "file_view \<Rightarrow> string \<Rightarrow> string \<Rightarrow> storage_inventory_error + string list \<times> string list" where
  "descendants v root target =
     and_then (read_block_class v root) (\<lambda>entries.
     map_ok (\<lambda>found. (map fst (somes found), map snd (somes found)))
       (traverse_list (descendant v root target) entries))"

fun holders_from :: "file_view \<Rightarrow> string \<Rightarrow> string \<Rightarrow> (nat + string) list \<Rightarrow> storage_inventory_error + bool" where
  "holders_from v root target [] = Inr False"
| "holders_from v root target (entry # entries) =
     and_then (block_entry root entry) (\<lambda>name.
     and_then (canonical_entry v root name) (\<lambda>child.
       if below child target
       then and_then (block_held v root name) (\<lambda>held.
              if held then Inr True else holders_from v root target entries)
       else holders_from v root target entries))"

definition descendant_has_holders :: "file_view \<Rightarrow> string \<Rightarrow> string \<Rightarrow> storage_inventory_error + bool" where
  "descendant_has_holders v root target =
     and_then (read_block_class v root) (holders_from v root target)"

section \<open>One device\<close>

record storage_facts =
  sf_mounted :: "string list"
  sf_roots :: "string list"
  sf_swaps :: "string list"
  sf_peers :: "string list"

definition rejection_reasons :: "storage_facts \<Rightarrow> bool \<Rightarrow> string \<Rightarrow> bool \<Rightarrow> u64 \<Rightarrow> string list \<Rightarrow> string list \<Rightarrow>
    bool \<Rightarrow> string option \<Rightarrow> string \<Rightarrow> string \<Rightarrow> storage_rejection_reason list" where
  "rejection_reasons facts whole_device target read_only size_bytes ids paths holders pci_id major_minor device_path =
     btree_set (concat
       [if \<not> whole_device then [NotWholeDevice] else [],
        if contains ''/devices/virtual/'' target then [VirtualDevice] else [],
        if read_only then [ReadOnly_Device] else [],
        if size_bytes = 0 then [ZeroSized] else [],
        if list_ex (\<lambda>i. i \<in> set (sf_mounted facts)) ids then [Mounted] else [],
        if list_ex (\<lambda>i. i \<in> set (sf_roots facts)) ids then [HostRoot] else [],
        if device_path \<in> set (sf_swaps facts) \<or> list_ex (\<lambda>p. p \<in> set (sf_swaps facts)) paths then [Swap] else [],
        if holders then [HasHolders] else [],
        if is_some_and (\<lambda>i. i \<in> set (sf_peers facts)) pci_id then [PeerAssigned] else [],
        if major_minor = [] \<or> length device_path \<le> 5 then [IncompleteIdentity] else []])"

definition device :: "file_view \<Rightarrow> string \<Rightarrow> storage_facts \<Rightarrow> string \<Rightarrow> storage_inventory_error + storage_device" where
  "device v root facts name =
     (if name = [] \<or> CHR ''/'' \<in> set name then Inl (Storage_Invalid ''invalid block device name'')
      else
      let node = storage_path root (''sys/class/block/'' @ name) in
      and_then (map_err (\<lambda>e. Storage_Io node (Os_Error e)) (fv_canonicalize v node)) (\<lambda>target.
      and_then (storage_read_trimmed v (path_join node ''dev'')) (\<lambda>major_minor.
      and_then (valid_major_minor major_minor) (\<lambda>_.
      and_then (storage_read_trimmed v (path_join node ''size'')) (\<lambda>size.
      and_then (ok_or (Storage_Invalid (''invalid size for '' @ name)) (parse_word size)) (\<lambda>sectors.
      and_then (ok_or (Storage_Invalid (''size overflow for '' @ name)) (checked_mul sectors 512)) (\<lambda>size_bytes.
      and_then (storage_read_trimmed v (path_join node ''ro'')) (\<lambda>ro.
      and_then (ok_or (Storage_Invalid (''invalid read-only state for '' @ name)) (parse_word ro :: u8 option)) (\<lambda>ro.
      let read_only = ro \<noteq> 0; whole_device = \<not> fv_exists v (path_join node ''partition'') in
      and_then (descendants v root target) (\<lambda>(ids, paths).
      let device_path = ''/dev/'' @ name; pci_id = find valid_pci_id (path_components target) in
      and_then (descendant_has_holders v root target) (\<lambda>holders.
      let reasons = rejection_reasons facts whole_device target read_only size_bytes ids paths holders
                      pci_id major_minor device_path in
      and_then (optional_trimmed v (path_join node ''device/serial'')) (\<lambda>serial.
      and_then (optional_trimmed v (path_join node ''wwid'')) (\<lambda>wwid.
      and_then (optional_trimmed v (path_join node ''device/wwid'')) (\<lambda>device_wwid.
      and_then (optional_trimmed v (path_join node ''device/transport'')) (\<lambda>transport.
        Inr \<lparr>sd_name = name, sd_device_path = device_path, sd_major_minor = major_minor,
             sd_size_bytes = size_bytes, sd_whole_device = whole_device, sd_read_only = read_only,
             sd_serial = serial, sd_wwn = (if wwid = None then device_wwid else wwid),
             sd_transport = transport, sd_pci_id = pci_id, sd_eligible = (reasons = []),
             sd_rejection_reasons = reasons\<rparr>)))))))))))))))"

section \<open>The inventory\<close>

definition named_device :: "file_view \<Rightarrow> string \<Rightarrow> storage_facts \<Rightarrow> string \<Rightarrow> storage_inventory_error + storage_device" where
  "named_device v root facts name =
     and_then (ok_or (Storage_Invalid ''non-UTF-8 block device name'') (to_str name)) (device v root facts)"

definition observe_storage :: "(storage_device list \<Rightarrow> u8 list option) \<Rightarrow> (u8 list \<Rightarrow> u8 list) \<Rightarrow> file_view \<Rightarrow>
    string \<Rightarrow> string list \<Rightarrow> storage_inventory_error + storage_inventory" where
  "observe_storage encode sha256 v root peers =
     and_then (mounts v root) (\<lambda>mounts.
     let roots = map fst (filter (\<lambda>(dev, point). point = ''/'') mounts); mounted = map fst mounts in
     and_then (swaps v root) (\<lambda>swaps.
     and_then (read_block_class v root) (\<lambda>entries.
     and_then (traverse_list (block_entry root) entries) (\<lambda>names.
     and_then (traverse_list
         (named_device v root \<lparr>sf_mounted = mounted, sf_roots = roots, sf_swaps = swaps, sf_peers = peers\<rparr>)
         (sort names)) (\<lambda>devices.
     let devices = sort_key sd_name devices in
     and_then (ok_or Storage_Serialize (encode devices)) (\<lambda>encoded.
       Inr \<lparr>si_generation = of_nat (from_be_bytes (take 8 (sha256 encoded))), si_devices = devices\<rparr>))))))"

section \<open>What an observation knows\<close>

text \<open>Neither mounted, nor swap, nor held by another block device, as far as it was readable.\<close>

definition idle :: "file_view \<Rightarrow> string \<Rightarrow> (string \<times> string) list \<Rightarrow> string list \<Rightarrow> string \<Rightarrow> bool" where
  "idle v root ms ss name \<longleftrightarrow>
     (\<exists>i. block_ident v root name = Inr i \<and> i \<notin> fst ` set ms) \<and>
     ''/dev/'' @ name \<notin> set ss \<and> block_held v root name = Inr False"

lemma all_block_entries:
  "list_all2 (\<lambda>entry name. block_entry root entry = Inr name) entries names \<longleftrightarrow> entries = map Inr names"
  by (induction entries arbitrary: names) (auto simp: block_entry_def result_iff list_all2_Cons1)

lemma class_path:
  "name \<noteq> [] \<Longrightarrow> storage_path root (''sys/class/block/'' @ name) = path_join (block_class root) name"
  by (simp add: storage_path_def block_class_def path_join_def)

text \<open>The entries below a device that were found.\<close>

definition found_below :: "file_view \<Rightarrow> string \<Rightarrow> string \<Rightarrow> string list \<Rightarrow> (string \<times> string) set" where
  "found_below v root target names =
     {(i, ''/dev/'' @ name) | name i child. name \<in> set names \<and> canonical_entry v root name = Inr child \<and>
        below child target \<and> block_ident v root name = Inr i}"

lemma descendant_eq_Inr:
  "descendant v root target (Inr name) = Inr x \<longleftrightarrow>
     (\<exists>child. canonical_entry v root name = Inr child \<and>
       (if below child target then to_str name = Some name \<and>
          (\<exists>i. block_ident v root name = Inr i \<and> x = Some (i, ''/dev/'' @ name)) else x = None))"
  by (auto simp: descendant_def block_entry_def result_iff to_str_def split: if_splits)

lemma descendants_known:
  "traverse_list (descendant v root target) (map Inr names) = Inr found \<Longrightarrow>
     set (somes found) = found_below v root target names \<and>
     (\<forall>name \<in> set names. \<exists>child. canonical_entry v root name = Inr child \<and>
        (below child target \<longrightarrow> is_ok (block_ident v root name)))"
proof (induction names arbitrary: found)
  case (Cons name names)
  then obtain x rest where "found = x # rest" and d: "descendant v root target (Inr name) = Inr x"
    and "traverse_list (descendant v root target) (map Inr names) = Inr rest"
    by (auto simp: result_iff)
  with Cons.IH d show ?case
    unfolding descendant_eq_Inr
    by (cases x) (auto simp: found_below_def split: if_splits)
qed (simp add: found_below_def)

lemma holders_Cons:
  "holders_from v root target (Inr name # entries) = Inr held \<longleftrightarrow>
     (\<exists>child. canonical_entry v root name = Inr child \<and>
       (if below child target \<and> block_held v root name \<noteq> Inr False
        then held \<and> block_held v root name = Inr True
        else holders_from v root target entries = Inr held))"
  by (cases "canonical_entry v root name"; cases "block_held v root name") (auto simp: block_entry_def)

lemma holders_False:
  "holders_from v root target (map Inr names) = Inr False \<Longrightarrow> name \<in> set names \<Longrightarrow>
     canonical_entry v root name = Inr child \<Longrightarrow> below child target \<Longrightarrow> block_held v root name = Inr False"
  by (induction names) (auto simp: holders_Cons simp del: holders_from.simps(2) split: if_splits)

lemma holders_True:
  "holders_from v root target (map Inr names) = Inr True \<Longrightarrow>
     \<exists>name child. name \<in> set names \<and> canonical_entry v root name = Inr child \<and> below child target \<and>
       block_held v root name = Inr True"
proof (induction names)
  case (Cons name names)
  then have "holders_from v root target (Inr name # map Inr names) = Inr True" by simp
  with Cons.IH show ?case unfolding holders_Cons by (metis list.set_intros)
qed simp

lemma btree_concat_Nil: "btree_set (concat xss) = [] \<longleftrightarrow> (\<forall>xs \<in> set xss. xs = [])"
  by simp

lemma no_reason_iff:
  assumes "major_minor \<noteq> []" and "name \<noteq> []"
  shows "rejection_reasons facts whole target ro bytes ids paths held pci major_minor (''/dev/'' @ name) = [] \<longleftrightarrow>
    whole \<and> \<not> contains ''/devices/virtual/'' target \<and> \<not> ro \<and> bytes \<noteq> 0 \<and>
    is_none_or (\<lambda>i. i \<notin> set (sf_peers facts)) pci \<and>
    set ids \<inter> (set (sf_mounted facts) \<union> set (sf_roots facts)) = {} \<and>
    insert (''/dev/'' @ name) (set paths) \<inter> set (sf_swaps facts) = {} \<and> \<not> held"
proof -
  have "length (''/dev/'' @ name) > 5" using assms(2) by (cases name) auto
  then show ?thesis
    using assms(1) unfolding rejection_reasons_def btree_concat_Nil
    by (cases pci) (auto simp: list_ex_iff disjoint_iff)
qed

lemma and_thenE:
  "and_then r k = Inr y \<Longrightarrow> (\<And>x. r = Inr x \<Longrightarrow> k x = Inr y \<Longrightarrow> P) \<Longrightarrow> P"
  by (auto simp: result_iff)

lemma valid_major_minor_nonempty: "valid_major_minor mm = Inr u \<Longrightarrow> mm \<noteq> []"
  by (auto simp: valid_major_minor_def split: option.splits)

lemma device_eq_Inr:
  assumes "device v root facts name = Inr d"
  obtains target ids paths held where "name \<noteq> []" and "sd_name d = name"
    and "canonical_entry v root name = Inr target" and "sd_pci_id d = find valid_pci_id (path_components target)"
    and "descendants v root target = Inr (ids, paths)" and "descendant_has_holders v root target = Inr held"
    and "sd_eligible d \<longleftrightarrow> sd_whole_device d \<and> \<not> contains ''/devices/virtual/'' target \<and> \<not> sd_read_only d \<and>
      sd_size_bytes d \<noteq> 0 \<and> is_none_or (\<lambda>i. i \<notin> set (sf_peers facts)) (sd_pci_id d) \<and>
      set ids \<inter> (set (sf_mounted facts) \<union> set (sf_roots facts)) = {} \<and>
      insert (''/dev/'' @ name) (set paths) \<inter> set (sf_swaps facts) = {} \<and> \<not> held"
proof -
  have name: "name \<noteq> []" "CHR ''/'' \<notin> set name" using assms by (auto simp: device_def)
  show ?thesis
    using assms unfolding device_def Let_def class_path [OF name(1)] split_beta
    apply (simp only: name simp_thms if_False)
    apply (elim and_thenE)
    subgoal premises prems for target mm u _ _ bytes _ ro idp held
      by (rule that [of target "fst idp" "snd idp" held])
        (simp_all only: prems name simp_thms canonical_entry_def Let_def prod.collapse
          iffD1 [OF sum.inject(2) prems(15), symmetric] storage_device.select_convs
          no_reason_iff [OF valid_major_minor_nonempty [OF prems(3)] name(1)])
    done
qed

text \<open>What the two passes over the block devices know about the entries below a device.\<close>

lemma below_idle:
  assumes entries: "traverse_list (descendant v root target) (map Inr names) = Inr found"
    and held: "holders_from v root target (map Inr names) = Inr False"
    and unused: "fst ` found_below v root target names \<inter> fst ` set ms = {}"
      "snd ` found_below v root target names \<inter> set ss = {}" and other: "other \<in> set names"
  shows "\<exists>child. canonical_entry v root other = Inr child \<and> (below child target \<longrightarrow> idle v root ms ss other)"
proof -
  obtain child where child: "canonical_entry v root other = Inr child"
    "below child target \<Longrightarrow> is_ok (block_ident v root other)"
    using descendants_known [OF entries] other by blast
  have "idle v root ms ss other" if below: "below child target"
  proof -
    obtain i where i: "block_ident v root other = Inr i" using child(2) [OF below] by (auto simp: is_ok_iff)
    then have "(i, ''/dev/'' @ other) \<in> found_below v root target names"
      using other child(1) below unfolding found_below_def by blast
    then have "i \<notin> fst ` set ms" "''/dev/'' @ other \<notin> set ss"
      using unused by (metis IntI emptyE fst_conv image_eqI, metis IntI emptyE snd_conv image_eqI)
    with i holders_False [OF held other child(1) below] show ?thesis unfolding idle_def by blast
  qed
  with child(1) show ?thesis by blast
qed

lemma idle_unused:
  assumes held: "holders_from v root target (map Inr names) = Inr held"
    and idle: "\<And>other child. other \<in> set names \<Longrightarrow> canonical_entry v root other = Inr child \<Longrightarrow>
      below child target \<Longrightarrow> idle v root ms ss other"
  shows "\<not> held" and "(i, p) \<in> found_below v root target names \<Longrightarrow> i \<notin> fst ` set ms \<and> p \<notin> set ss"
proof -
  show "\<not> held"
  proof
    assume held
    with held holders_True [of v root target names] obtain other child where
      "other \<in> set names" "canonical_entry v root other = Inr child" "below child target"
      "block_held v root other = Inr True" by auto
    with idle show False by (fastforce simp: idle_def)
  qed
  assume "(i, p) \<in> found_below v root target names"
  then obtain other child where "p = ''/dev/'' @ other" "other \<in> set names"
    "canonical_entry v root other = Inr child" "below child target" "block_ident v root other = Inr i"
    unfolding found_below_def by blast
  with idle [of other child] show "i \<notin> fst ` set ms \<and> p \<notin> set ss" unfolding idle_def by auto
qed

lemma unused_iff_idle:
  assumes entries: "traverse_list (descendant v root target) (map Inr names) = Inr found"
    and held: "holders_from v root target (map Inr names) = Inr held"
  shows "(fst ` found_below v root target names \<inter> fst ` set ms = {} \<and>
      snd ` found_below v root target names \<inter> set ss = {} \<and> \<not> held) \<longleftrightarrow>
    (\<forall>other \<in> set names. \<exists>child. canonical_entry v root other = Inr child \<and>
       (below child target \<longrightarrow> idle v root ms ss other))" (is "?unused \<longleftrightarrow> ?idle")
proof
  assume ?unused
  then show ?idle using below_idle [OF entries] held by simp
next
  assume ?idle
  then have "other \<in> set names \<Longrightarrow> canonical_entry v root other = Inr child \<Longrightarrow> below child target \<Longrightarrow>
      idle v root ms ss other" for other child by fastforce
  from idle_unused [OF held this] show ?unused by (auto simp: disjoint_iff) force+
qed

lemma list_all2_right_elem: "list_all2 P xs ys \<Longrightarrow> y \<in> set ys \<Longrightarrow> \<exists>x \<in> set xs. P x y"
  by (induction rule: list_all2_induct) auto

lemma map_sort_key: "map f (sort_key f xs) = sort (map f xs)"
  by (rule properties_for_sort [symmetric]) simp_all

text \<open>One device of a complete observation.\<close>

lemma device_eligible_iff:
  assumes d: "device v root facts name = Inr d"
    and names: "fv_read_dir v (block_class root) = Inr (map Inr names)" and "name \<in> set names"
    and facts: "sf_mounted facts = map fst ms" "sf_swaps facts = ss" "set (sf_roots facts) \<subseteq> set (sf_mounted facts)"
  shows "\<exists>target. canonical_entry v root name = Inr target \<and>
    sd_pci_id d = find valid_pci_id (path_components target) \<and>
    (sd_eligible d \<longleftrightarrow> sd_whole_device d \<and> \<not> contains ''/devices/virtual/'' target \<and> \<not> sd_read_only d \<and>
      sd_size_bytes d \<noteq> 0 \<and> is_none_or (\<lambda>i. i \<notin> set (sf_peers facts)) (sd_pci_id d) \<and>
      (\<forall>other \<in> set names. \<exists>child. canonical_entry v root other = Inr child \<and>
         (below child target \<longrightarrow> idle v root ms ss other)))"
proof -
  obtain target ids paths held where *: "canonical_entry v root name = Inr target"
    "sd_pci_id d = find valid_pci_id (path_components target)"
    "descendants v root target = Inr (ids, paths)" "descendant_has_holders v root target = Inr held"
    and eligible: "sd_eligible d \<longleftrightarrow> sd_whole_device d \<and> \<not> contains ''/devices/virtual/'' target \<and> \<not> sd_read_only d \<and>
      sd_size_bytes d \<noteq> 0 \<and> is_none_or (\<lambda>i. i \<notin> set (sf_peers facts)) (sd_pci_id d) \<and>
      set ids \<inter> (set (sf_mounted facts) \<union> set (sf_roots facts)) = {} \<and>
      insert (''/dev/'' @ name) (set paths) \<inter> set (sf_swaps facts) = {} \<and> \<not> held"
    using device_eq_Inr [OF d] by metis
  obtain found where entries: "traverse_list (descendant v root target) (map Inr names) = Inr found"
    and split: "ids = map fst (somes found)" "paths = map snd (somes found)"
    using *(3) names by (auto simp: descendants_def read_block_class_def result_iff)
  note known = descendants_known [OF entries]
  have sets: "set ids = fst ` found_below v root target names" "set paths = snd ` found_below v root target names"
    using known split by auto
  have held: "holders_from v root target (map Inr names) = Inr held"
    using *(4) names by (simp add: descendant_has_holders_def read_block_class_def)
  have "below target target" by (simp add: below_def)
  with *(1) assms(3) known have self: "''/dev/'' @ name \<in> set paths"
    unfolding sets found_below_def is_ok_iff by (force simp: image_iff)
  have unused: "(set ids \<inter> (set (sf_mounted facts) \<union> set (sf_roots facts)) = {} \<and>
      insert (''/dev/'' @ name) (set paths) \<inter> set (sf_swaps facts) = {} \<and> \<not> held) \<longleftrightarrow>
      (fst ` found_below v root target names \<inter> fst ` set ms = {} \<and>
       snd ` found_below v root target names \<inter> set ss = {} \<and> \<not> held)"
    using insert_absorb [OF self] Un_absorb2 [OF facts(3)] by (simp only: sets facts(1,2) set_map)
  show ?thesis
    unfolding eligible unused unused_iff_idle [OF entries held] by (intro exI [of _ target] conjI *(1,2) refl)
qed

section \<open>Properties\<close>

text \<open>C21: A successful observation reports every block device of the host once, in order.  A device is
  eligible exactly when it is a whole, real, writable disk of non-zero size, is not assigned to a peer,
  and every block device below it, itself included, was readable and is neither mounted, nor swap,
  nor held by another device.  What cannot be read makes the observation fail instead.\<close>

theorem eligible_storage_unused:
  assumes "observe_storage encode sha256 v root peers = Inr inventory"
  shows "\<exists>ms ss names. mounts v root = Inr ms \<and> swaps v root = Inr ss \<and>
    fv_read_dir v (block_class root) = Inr (map Inr names) \<and> map sd_name (si_devices inventory) = sort names \<and>
    (\<forall>d \<in> set (si_devices inventory). \<exists>target. canonical_entry v root (sd_name d) = Inr target \<and>
       sd_pci_id d = find valid_pci_id (path_components target) \<and>
       (sd_eligible d \<longleftrightarrow> sd_whole_device d \<and> \<not> contains ''/devices/virtual/'' target \<and> \<not> sd_read_only d \<and>
          sd_size_bytes d \<noteq> 0 \<and> is_none_or (\<lambda>i. i \<notin> set peers) (sd_pci_id d) \<and>
          (\<forall>other \<in> set names. \<exists>child. canonical_entry v root other = Inr child \<and>
             (below child target \<longrightarrow> idle v root ms ss other))))"
proof -
  obtain ms ss names devices where m: "mounts v root = Inr ms" and s: "swaps v root = Inr ss"
    and n: "fv_read_dir v (block_class root) = Inr (map Inr names)"
    and d: "list_all2 (\<lambda>name d. named_device v root \<lparr>sf_mounted = map fst ms,
        sf_roots = map fst (filter (\<lambda>(dev, point). point = ''/'') ms), sf_swaps = ss, sf_peers = peers\<rparr> name = Inr d)
      (sort names) devices"
    and i: "si_devices inventory = sort_key sd_name devices"
    using assms unfolding observe_storage_def Let_def
    by (auto simp: result_iff all_block_entries read_block_class_def traverse_list_eq_Inr)
  let ?facts = "\<lparr>sf_mounted = map fst ms, sf_roots = map fst (filter (\<lambda>(dev, point). point = ''/'') ms),
    sf_swaps = ss, sf_peers = peers\<rparr>"
  have dev: "device v root facts name = Inr d \<Longrightarrow> sd_name d = name" for facts name d
    by (metis device_eq_Inr)
  have each: "list_all2 (\<lambda>name d. device v root ?facts name = Inr d) (sort names) devices"
    using d by (rule list_all2_mono) (auto simp: named_device_def result_iff to_str_def split: if_splits)
  then have "map sd_name devices = sort names"
    by (induction rule: list_all2_induct) (auto dest: dev)
  then have sorted: "map sd_name (si_devices inventory) = sort names"
    by (simp add: i map_sort_key sorted_sort_id)
  have "\<exists>target. canonical_entry v root (sd_name d) = Inr target \<and>
       sd_pci_id d = find valid_pci_id (path_components target) \<and>
       (sd_eligible d \<longleftrightarrow> sd_whole_device d \<and> \<not> contains ''/devices/virtual/'' target \<and> \<not> sd_read_only d \<and>
          sd_size_bytes d \<noteq> 0 \<and> is_none_or (\<lambda>i. i \<notin> set peers) (sd_pci_id d) \<and>
          (\<forall>other \<in> set names. \<exists>child. canonical_entry v root other = Inr child \<and>
             (below child target \<longrightarrow> idle v root ms ss other)))"
    if "d \<in> set (si_devices inventory)" for d
  proof -
    from that each obtain name where name: "name \<in> set names" "device v root ?facts name = Inr d"
      using list_all2_right_elem [OF each, of d] by (auto simp: i)
    have "set (sf_roots ?facts) \<subseteq> set (sf_mounted ?facts)" by auto
    from device_eligible_iff [OF name(2) n name(1) _ _ this] show ?thesis
      by (simp only: storage_facts.select_convs simp_thms dev [OF name(2)])
  qed
  with m s n sorted show ?thesis by blast
qed

text \<open>A host whose only block device is a virtio disk that nothing uses.\<close>

definition demo_view :: file_view where
  "demo_view =
     \<lparr>fv_read = (\<lambda>p. if p = ''/proc/self/mountinfo'' then Inr ''22 1 8:1 / / rw''
        else if p = ''/proc/swaps'' then Inr ''Filename''
        else if p = ''/sys/class/block/vda/dev'' then Inr ''252:0''
        else if p = ''/sys/class/block/vda/size'' then Inr ''8''
        else if p = ''/sys/class/block/vda/ro'' then Inr ''0'' else Inl ENOENT),
      fv_read_dir = (\<lambda>p. if p = ''/sys/class/block'' then Inr [Inr ''vda'']
        else if p = ''/sys/class/block/vda/holders'' then Inr [] else Inl ENOENT),
      fv_is_dir = (\<lambda>_. Inl ENOENT),
      fv_canonicalize = (\<lambda>p. if p = ''/sys/class/block/vda'' then Inr ''/sys/devices/pci0000:00/0000:00:03.0/block/vda''
        else Inl ENOENT),
      fv_exists = (\<lambda>_. False), fv_read_link = (\<lambda>_. Inl ENOENT)\<rparr>"

lemma demo_parse:
  "parse_word ''8'' = Some (8 :: u64)" "parse_word ''0'' = Some (0 :: u8)" "parse_word ''252'' = Some (252 :: u32)"
  "parse_word ''0'' = Some (0 :: u32)" "parse_word ''8'' = Some (8 :: u32)" "parse_word ''1'' = Some (1 :: u32)"
  by (simp_all add: parse_word_def parse_unsigned_def is_ascii_digit_def byte_def)

lemma demo_texts:
  "split_whitespace ''22 1 8:1 / / rw'' = [''22'', ''1'', ''8:1'', ''/'', ''/'', ''rw'']"
  "trim ''252:0'' = ''252:0''" "trim ''8'' = ''8''" "trim ''0'' = ''0''"
  by code_simp+

lemma demo_reads:
  "read_to_string demo_view ''/sys/class/block/vda/dev'' = Inr ''252:0''"
  "read_to_string demo_view ''/sys/class/block/vda/size'' = Inr ''8''"
  "read_to_string demo_view ''/sys/class/block/vda/ro'' = Inr ''0''"
  "read_to_string demo_view ''/proc/swaps'' = Inr ''Filename''"
  "read_to_string demo_view ''/proc/self/mountinfo'' = Inr ''22 1 8:1 / / rw''"
  "optional_trimmed demo_view ''/sys/class/block/vda/device/serial'' = Inr None"
  "optional_trimmed demo_view ''/sys/class/block/vda/wwid'' = Inr None"
  "optional_trimmed demo_view ''/sys/class/block/vda/device/wwid'' = Inr None"
  "optional_trimmed demo_view ''/sys/class/block/vda/device/transport'' = Inr None"
  by code_simp+

lemma demo_below:
  "below ''/sys/devices/pci0000:00/0000:00:03.0/block/vda'' ''/sys/devices/pci0000:00/0000:00:03.0/block/vda''"
  "\<not> contains ''/devices/virtual/'' ''/sys/devices/pci0000:00/0000:00:03.0/block/vda''"
  "find valid_pci_id (path_components ''/sys/devices/pci0000:00/0000:00:03.0/block/vda'') = Some ''0000:00:03.0''"
  by code_simp+

lemma demo_paths:
  "to_str ''vda'' = Some ''vda''" "block_class ''/'' = ''/sys/class/block''"
  "storage_path ''/'' ''sys/class/block/vda'' = ''/sys/class/block/vda''"
  "storage_path ''/'' ''proc/swaps'' = ''/proc/swaps''"
  "storage_path ''/'' ''proc/self/mountinfo'' = ''/proc/self/mountinfo''"
  by code_simp+

lemma demo_joins:
  "path_join ''/sys/class/block'' x = ''/sys/class/block/'' @ x"
  "path_join ''/sys/class/block/vda'' x = ''/sys/class/block/vda/'' @ x"
  by (simp_all add: path_join_def)

lemma demo_state:
  "mounts demo_view ''/'' = Inr [(''8:1'', ''/'')]" "swaps demo_view ''/'' = Inr []"
  "read_block_class demo_view ''/'' = Inr [Inr ''vda'']"
  "canonical_entry demo_view ''/'' ''vda'' = Inr ''/sys/devices/pci0000:00/0000:00:03.0/block/vda''"
  "block_ident demo_view ''/'' ''vda'' = Inr ''252:0''" "block_held demo_view ''/'' ''vda'' = Inr False"
proof -
  show "mounts demo_view ''/'' = Inr [(''8:1'', ''/'')]" "swaps demo_view ''/'' = Inr []"
    "block_ident demo_view ''/'' ''vda'' = Inr ''252:0''"
    by (simp_all add: mounts_def swaps_def demo_paths demo_joins demo_reads str_lines_def mount_of_def demo_texts
        valid_major_minor_def demo_parse starts_with_def Let_def block_ident_def storage_read_trimmed_def)
  show "read_block_class demo_view ''/'' = Inr [Inr ''vda'']"
    "canonical_entry demo_view ''/'' ''vda'' = Inr ''/sys/devices/pci0000:00/0000:00:03.0/block/vda''"
    "block_held demo_view ''/'' ''vda'' = Inr False"
    by (simp_all add: read_block_class_def demo_paths demo_joins canonical_entry_def Let_def block_held_def has_entries_def
        demo_view_def)
qed

lemma demo_device:
  "\<exists>d. device demo_view ''/'' \<lparr>sf_mounted = [''8:1''], sf_roots = [''8:1''], sf_swaps = [], sf_peers = []\<rparr> ''vda'' = Inr d \<and>
     sd_name d = ''vda'' \<and> sd_eligible d"
proof -
  let ?target = "''/sys/devices/pci0000:00/0000:00:03.0/block/vda''"
  have "fv_canonicalize demo_view ''/sys/class/block/vda'' = Inr ?target" "\<not> fv_exists demo_view p" for p
    by (simp_all add: demo_view_def)
  moreover have "descendants demo_view ''/'' ?target = Inr ([''252:0''], [''/dev/vda''])"
    by (simp add: descendants_def demo_state descendant_def block_entry_def demo_below demo_paths demo_joins)
  moreover have "descendant_has_holders demo_view ''/'' ?target = Inr False"
    by (simp add: descendant_has_holders_def demo_state block_entry_def demo_below)
  moreover have "checked_mul 8 512 = Some (4096 :: u64)" by (simp add: checked_mul_def)
  ultimately show ?thesis
    by (simp add: device_def demo_paths demo_joins storage_read_trimmed_def demo_reads demo_texts valid_major_minor_def
        demo_parse demo_below Let_def rejection_reasons_def)
qed

theorem eligible_storage_unused_witness:
  "\<exists>inventory. observe_storage (\<lambda>_. Some []) (\<lambda>_. []) demo_view ''/'' [] = Inr inventory \<and>
     map sd_name (si_devices inventory) = [''vda''] \<and> list_all sd_eligible (si_devices inventory)"
proof -
  obtain d where d: "device demo_view ''/'' \<lparr>sf_mounted = [''8:1''], sf_roots = [''8:1''], sf_swaps = [], sf_peers = []\<rparr>
      ''vda'' = Inr d" "sd_eligible d" using demo_device by blast
  have "\<exists>inventory. observe_storage (\<lambda>_. Some []) (\<lambda>_. []) demo_view ''/'' [] = Inr inventory \<and>
      si_devices inventory = [d]"
    by (simp add: observe_storage_def demo_state block_entry_def named_device_def demo_paths demo_joins d Let_def)
  then obtain inventory where i: "observe_storage (\<lambda>_. Some []) (\<lambda>_. []) demo_view ''/'' [] = Inr inventory"
    "si_devices inventory = [d]" by blast
  have "fv_read_dir demo_view (block_class ''/'') = Inr (map Inr [''vda''])"
    by (simp add: demo_view_def demo_paths demo_joins)
  with eligible_storage_unused [OF i(1)] i d(2) show ?thesis by (auto simp: map_eq_Cons_conv)
qed

end
