(* ===== verification/Host_Api.thy ===== *)
theory Host_Api
  imports Routes Scheduler Console Storage_Inventory
begin

text \<open>
  The dispatcher of the daemon, \<open>crates/kernmux-daemon/src/host_api.rs\<close>, over the models of the
  components it connects: inventory, executors, scheduler, limits, image catalog and consoles.

  \<open>host_backend\<close> is the state behind the locks on which workers act; \<open>host_state\<close> is the dispatcher
  itself.  \<open>host_env\<close> holds what one request asks of the outside: the inventory source, the Kerf
  runners, the path resolution of the file system, the JSON codecs, the files that the storage
  inventory reads, the clock and
  whether a thread can be started.  Each section of a worker and each handler is one atomic step
  on the state; an inventory read that overlaps an execution is ordered before or after it.
\<close>

section \<open>State\<close>

record ('r, 's) host_backend =
  hb_runner :: 'r
  hb_pool_runner :: 'r
  hb_inventory :: 's
  hb_catalog :: image_catalog
  hb_fs :: store_fs

record ('r, 's, 'f) host_state =
  ha_scheduler :: "('r, 's) host_backend operation_scheduler"
  ha_limiter :: service_limiter
  ha_console :: console_proxy
  ha_factory :: 'f

datatype api_data =
    Data_Snapshot host_snapshot
  | Data_Report host_compatibility_report
  | Data_ResourcePool resource_pool
  | Data_Instances "inst list"
  | Data_Instance inst
  | Data_Images "image_artifact_info list"
  | Data_Image image_artifact_info
  | Data_OsImages "os_image_info list"
  | Data_OsImage os_image_info
  | Data_Storage storage_inventory
  | Data_Operations "operation list"
  | Data_Operation operation
  | Data_Events event_page

record ('r, 's, 'f, 'd, 'e, 'x) host_env =
  he_refresh :: "'s \<Rightarrow> ('e + host_snapshot) \<times> 's"
  he_run :: "kerf_invocation \<Rightarrow> 'r \<Rightarrow> ('x + kerf_run_result) \<times> 'r"
  he_store :: store_env
  he_roots :: "string list"
  he_canonicalize :: "string \<Rightarrow> string option"
  he_is_file :: "string \<Rightarrow> bool option"
  he_report :: "(generation \<times> host_compatibility_report) option"
  he_files :: file_view
  he_encode_devices :: "storage_device list \<Rightarrow> u8 list option"
  he_encode :: "api_data response \<Rightarrow> u8 list option"
  he_decode_pool :: "u8 list \<Rightarrow> resource_pool_mutation option"
  he_decode_create :: "u8 list \<Rightarrow> create_instance_mutation option"
  he_decode_update :: "u8 list \<Rightarrow> update_instance_mutation option"
  he_decode_load :: "u8 list \<Rightarrow> load_instance_mutation option"
  he_decode_managed :: "u8 list \<Rightarrow> load_managed_image_mutation option"
  he_decode_import :: "u8 list \<Rightarrow> import_image_mutation option"
  he_decode_import_os :: "u8 list \<Rightarrow> import_os_image_mutation option"
  he_decode_lifecycle :: "u8 list \<Rightarrow> instance_lifecycle_mutation option"
  he_decode_stop :: "u8 list \<Rightarrow> stop_instance_mutation option"
  he_open_device :: "'f \<Rightarrow> (io_error + 'd) \<times> 'f"
  he_device_ops :: "'d stream_ops"
  he_now :: string
  he_spawned :: bool

section \<open>Image policy\<close>

fun new_roots :: "(string \<Rightarrow> string option) \<Rightarrow> (string \<Rightarrow> bool) \<Rightarrow> string list \<Rightarrow> string list \<Rightarrow>
    api_error + string list" where
  "new_roots canonicalize is_dir canonical [] =
     (if canonical = [] then Inl (invalid ''at least one image root is required'') else Inr canonical)"
| "new_roots canonicalize is_dir canonical (root # roots) =
     and_then (ok_or (invalid ''image root is unavailable'') (canonicalize root)) (\<lambda>root.
       if \<not> is_dir root then Inl (invalid ''image root is not a directory'')
       else new_roots canonicalize is_dir
              (if root \<in> set canonical then canonical else canonical @ [root]) roots)"

definition new_image_policy :: "(string \<Rightarrow> string option) \<Rightarrow> (string \<Rightarrow> bool) \<Rightarrow> string list \<Rightarrow>
    api_error + string list" where
  "new_image_policy canonicalize is_dir roots = new_roots canonicalize is_dir [] roots"

definition resolve_image :: "('r, 's, 'f, 'd, 'e, 'x) host_env \<Rightarrow> string \<Rightarrow> api_error + string" where
  "resolve_image env path =
     (if \<not> starts_with path ''/'' then Inl (invalid ''image path must be absolute'')
      else
      and_then (ok_or (invalid ''image file is unavailable'') (he_canonicalize env path)) (\<lambda>canonical.
        if \<not> list_ex (path_starts_with canonical) (he_roots env)
        then Inl (host_error Forbidden ''image path is outside configured roots'' False)
        else
        and_then (ok_or (invalid ''image file is unavailable'') (he_is_file env canonical)) (\<lambda>is_file.
          if is_file then Inr canonical else Inl (invalid ''image path is not a regular file''))))"

section \<open>Responses\<close>

definition result_response :: "('r, 's, 'f, 'd, 'e, 'x) host_env \<Rightarrow> generation \<Rightarrow> api_data \<Rightarrow>
    api_error + local_response" where
  "result_response env generation data =
     json_response 200 (he_encode env (Result_Response generation data))"

definition accepted_response :: "('r, 's, 'f, 'd, 'e, 'x) host_env \<Rightarrow> operation \<Rightarrow> api_error + local_response" where
  "accepted_response env operation = json_response 202 (he_encode env (Accepted_Response operation))"

definition decode_body :: "(u8 list \<Rightarrow> 'a option) \<Rightarrow> u8 list \<Rightarrow> api_error + 'a" where
  "decode_body decoder body = ok_or (invalid ''request JSON is invalid'') (decoder body)"

section \<open>Reading\<close>

type_synonym ('r, 's, 'f) handler =
  "('r, 's, 'f) host_state \<Rightarrow> (api_error + local_response) \<times> ('r, 's, 'f) host_state"

definition backend_of :: "('r, 's, 'f) host_state \<Rightarrow> ('r, 's) host_backend" where
  "backend_of st = sc_executor (ha_scheduler st)"

definition set_backend :: "('r, 's) host_backend \<Rightarrow> ('r, 's, 'f) host_state \<Rightarrow> ('r, 's, 'f) host_state" where
  "set_backend b st = st\<lparr>ha_scheduler := (ha_scheduler st)\<lparr>sc_executor := b\<rparr>\<rparr>"

definition registry_of :: "('r, 's, 'f) host_state \<Rightarrow> shared" where
  "registry_of st = sc_registry (ha_scheduler st)"

definition with_snapshot :: "('r, 's, 'f, 'd, 'e, 'x) host_env \<Rightarrow>
    (host_snapshot \<Rightarrow> api_error + local_response) \<Rightarrow> ('r, 's, 'f) handler" where
  "with_snapshot env k st =
     (case he_refresh env (hb_inventory (backend_of st)) of
        (observed, inventory) \<Rightarrow>
          (and_then (map_err (\<lambda>_. backend ''host inventory is unavailable'') observed) k,
           set_backend ((backend_of st)\<lparr>hb_inventory := inventory\<rparr>) st))"

definition get_snapshot :: "('r, 's, 'f, 'd, 'e, 'x) host_env \<Rightarrow> ('r, 's, 'f) handler" where
  "get_snapshot env st =
     with_snapshot env (\<lambda>s. result_response env (hs_generation s)
       (Data_Snapshot (s\<lparr>hs_operations := operations (registry_of st)\<rparr>))) st"

definition get_compatibility :: "('r, 's, 'f, 'd, 'e, 'x) host_env \<Rightarrow> ('r, 's, 'f) handler" where
  "get_compatibility env st =
     (and_then (ok_or (backend ''compatibility manifest is not configured'') (he_report env))
        (\<lambda>(generation, report). result_response env generation (Data_Report report)), st)"

definition get_instance :: "('r, 's, 'f, 'd, 'e, 'x) host_env \<Rightarrow> instance_id \<Rightarrow> ('r, 's, 'f) handler" where
  "get_instance env i =
     with_snapshot env (\<lambda>s. and_then (ok_or not_found (find (\<lambda>x. in_id x = i) (hs_instances s)))
       (\<lambda>x. result_response env (hs_generation s) (Data_Instance x)))"

definition get_instances :: "('r, 's, 'f, 'd, 'e, 'x) host_env \<Rightarrow> ('r, 's, 'f) handler" where
  "get_instances env =
     with_snapshot env (\<lambda>s. result_response env (hs_generation s) (Data_Instances (hs_instances s)))"

definition get_resource_pool :: "('r, 's, 'f, 'd, 'e, 'x) host_env \<Rightarrow> ('r, 's, 'f) handler" where
  "get_resource_pool env =
     with_snapshot env (\<lambda>s. result_response env (hs_generation s) (Data_ResourcePool (hs_resource_pool s)))"

definition get_storage_devices :: "('r, 's, 'f, 'd, 'e, 'x) host_env \<Rightarrow> ('r, 's, 'f) handler" where
  "get_storage_devices env =
     with_snapshot env (\<lambda>s.
       and_then (map_err (\<lambda>_. backend ''storage inventory is unavailable'')
           (observe_storage (he_encode_devices env) (env_sha256 (he_store env)) (he_files env) ''/''
              (btree_set (concat (map (\<lambda>x. ra_device_ids (in_resources x)) (hs_instances s))))))
         (\<lambda>inventory. result_response env (si_generation inventory) (Data_Storage inventory)))"

definition with_catalog :: "('r, 's, 'f, 'd, 'e, 'x) host_env \<Rightarrow>
    (image_catalog_snapshot \<Rightarrow> api_error + local_response) \<Rightarrow> ('r, 's, 'f) handler" where
  "with_catalog env k st =
     (case catalog_refresh (he_store env) (hb_catalog (backend_of st), hb_fs (backend_of st)) of
        (listed, catalog, fs) \<Rightarrow>
          (and_then (map_err image_catalog_api_error listed) k,
           set_backend ((backend_of st)\<lparr>hb_catalog := catalog, hb_fs := fs\<rparr>) st))"

definition get_images :: "('r, 's, 'f, 'd, 'e, 'x) host_env \<Rightarrow> ('r, 's, 'f) handler" where
  "get_images env =
     with_catalog env (\<lambda>s. result_response env (ics_generation s)
       (Data_Images (map image_artifact (filter (\<lambda>a. ar_kind a \<noteq> Art_OsImage) (ics_artifacts s)))))"

definition get_image :: "('r, 's, 'f, 'd, 'e, 'x) host_env \<Rightarrow> artifact_kind \<Rightarrow> artifact_id \<Rightarrow> ('r, 's, 'f) handler" where
  "get_image env kind i =
     with_catalog env (\<lambda>s.
       and_then (ok_or not_found (find (\<lambda>a. ar_kind a = kind \<and> ar_id a = i) (ics_artifacts s)))
         (\<lambda>a. result_response env (ics_generation s) (Data_Image (image_artifact a))))"

definition get_os_images :: "('r, 's, 'f, 'd, 'e, 'x) host_env \<Rightarrow> ('r, 's, 'f) handler" where
  "get_os_images env =
     with_catalog env (\<lambda>s.
       and_then (traverse_list os_image_view (filter (\<lambda>a. ar_kind a = Art_OsImage) (ics_artifacts s)))
         (\<lambda>images. result_response env (ics_generation s) (Data_OsImages images)))"

definition get_os_image :: "('r, 's, 'f, 'd, 'e, 'x) host_env \<Rightarrow> artifact_id \<Rightarrow> ('r, 's, 'f) handler" where
  "get_os_image env i =
     with_catalog env (\<lambda>s.
       and_then (ok_or not_found (find (\<lambda>a. ar_kind a = Art_OsImage \<and> ar_id a = i) (ics_artifacts s)))
         (\<lambda>a. and_then (os_image_view a)
            (\<lambda>image. result_response env (ics_generation s) (Data_OsImage image))))"

definition get_operations :: "('r, 's, 'f, 'd, 'e, 'x) host_env \<Rightarrow> ('r, 's, 'f) handler" where
  "get_operations env st =
     (result_response env (latest_generation (registry_of st)) (Data_Operations (operations (registry_of st))), st)"

definition get_operation :: "('r, 's, 'f, 'd, 'e, 'x) host_env \<Rightarrow> operation_id \<Rightarrow> ('r, 's, 'f) handler" where
  "get_operation env i st =
     (and_then (ok_or not_found (get (registry_of st) i))
        (\<lambda>operation. result_response env (latest_generation (registry_of st)) (Data_Operation operation)), st)"

definition get_events :: "('r, 's, 'f, 'd, 'e, 'x) host_env \<Rightarrow> string option \<Rightarrow> ('r, 's, 'f) handler" where
  "get_events env query st =
     (and_then (parse_cursor query) (\<lambda>cursor.
        let batch = events_after (registry_of st) cursor in
        result_response env (latest_generation (registry_of st))
          (Data_Events \<lparr>ep_events = eb_events batch, ep_overflowed = eb_overflowed batch,
                        ep_latest_sequence = eb_latest_sequence batch\<rparr>)), st)"

section \<open>Closures of workers\<close>

definition lifecycle_section :: "('r, 's, 'f, 'd, 'e, 'x) host_env \<Rightarrow> lifecycle_request \<Rightarrow>
    ('r, 's) host_backend locked_task" where
  "lifecycle_section env request b =
     (case lifecycle_task (he_refresh env) (he_run env) request (hb_runner b, hb_inventory b) of
        (result, runner, inventory) \<Rightarrow> (result, b\<lparr>hb_runner := runner, hb_inventory := inventory\<rparr>))"

definition run_lifecycle :: "('r, 's, 'f, 'd, 'e, 'x) host_env \<Rightarrow> lifecycle_request \<Rightarrow>
    ('r, 's) host_backend task_program" where
  "run_lifecycle env request = guarded_task (lifecycle_section env request)"

definition pool_section :: "('r, 's, 'f, 'd, 'e, 'x) host_env \<Rightarrow> resource_pool_request \<Rightarrow>
    ('r, 's) host_backend locked_task" where
  "pool_section env request b =
     (case resource_pool_task (he_refresh env) (he_run env) request (hb_pool_runner b, hb_inventory b) of
        (result, runner, inventory) \<Rightarrow> (result, b\<lparr>hb_pool_runner := runner, hb_inventory := inventory\<rparr>))"

definition catalog_failure :: "image_catalog_error \<Rightarrow> operation_task_result" where
  "catalog_failure e = (case image_catalog_task_error e of (api_error, generation) \<Rightarrow> failed_result api_error generation)"

text \<open>The two image imports differ in the import of the catalog that they call.\<close>

definition import_section :: "(image_catalog \<times> store_fs \<Rightarrow>
      (image_catalog_error + artifact_record \<times> image_catalog_snapshot) \<times> image_catalog \<times> store_fs) \<Rightarrow>
    ('r, 's) host_backend locked_task" where
  "import_section import b =
     (case import (hb_catalog b, hb_fs b) of
        (result, catalog, fs) \<Rightarrow>
          (Some (case result of
               Inr (_, snapshot) \<Rightarrow> succeeded_result (ics_generation snapshot)
             | Inl e \<Rightarrow> catalog_failure e),
           b\<lparr>hb_catalog := catalog, hb_fs := fs\<rparr>))"

definition image_import_program :: "('r, 's, 'f, 'd, 'e, 'x) host_env \<Rightarrow> generation \<Rightarrow> artifact_kind \<Rightarrow>
    string \<Rightarrow> artifact_id option \<Rightarrow> ('r, 's) host_backend task_program" where
  "image_import_program env generation kind source expected_id =
     guarded_task (import_section (catalog_import_path (he_store env) generation kind source expected_id))"

text \<open>This closure does not look at the flag again once it holds the catalog.\<close>

definition os_image_import_program :: "('r, 's, 'f, 'd, 'e, 'x) host_env \<Rightarrow> string \<Rightarrow>
    import_os_image_mutation \<Rightarrow> artifact_id option \<Rightarrow> ('r, 's) host_backend task_program" where
  "os_image_import_program env source mutation expected_id =
     check_cancelled (Section (\<lambda>_ b.
       (case import_section (catalog_import_os_image (he_store env) (iom_expected_generation mutation) source
               (iom_label mutation) (iom_architecture mutation) expected_id) b of
          (result, b') \<Rightarrow> (map_option Answer result, b'))))"

record managed_load_request =
  ml_instance_id :: instance_id
  ml_expected_generation :: generation
  ml_kernel_id :: artifact_id
  ml_initrd_id :: "artifact_id option"
  ml_command_line :: "string option"

definition instance_request_of :: "generation \<Rightarrow> instance_id \<Rightarrow> instance_request" where
  "instance_request_of generation i = \<lparr>ir_expected_generation = generation, ir_id = i\<rparr>"

definition resolve_managed :: "store_env \<Rightarrow> managed_load_request \<Rightarrow> image_catalog \<times> store_fs \<Rightarrow>
    (image_catalog_error + string \<times> string option) \<times> image_catalog \<times> store_fs" where
  "resolve_managed env request st =
     (case catalog_resolve env Art_Kernel (ml_kernel_id request) st of
        (Inl e, st) \<Rightarrow> (Inl e, st)
      | (Inr kernel_file, st) \<Rightarrow>
          (case ml_initrd_id request of
             None \<Rightarrow> (Inr (kernel_file, None), st)
           | Some i \<Rightarrow>
               (case catalog_resolve env Art_Initrd i st of
                  (Inl e, st) \<Rightarrow> (Inl e, st)
                | (Inr initrd, st) \<Rightarrow> (Inr (kernel_file, Some initrd), st))))"

definition managed_load_program :: "('r, 's, 'f, 'd, 'e, 'x) host_env \<Rightarrow> managed_load_request \<Rightarrow>
    ('r, 's) host_backend task_program" where
  "managed_load_program env request =
     check_cancelled (Section (\<lambda>_ b.
       (case resolve_managed (he_store env) request (hb_catalog b, hb_fs b) of
          (resolved, catalog, fs) \<Rightarrow>
            (Some (case resolved of
                Inl e \<Rightarrow> Answer (catalog_failure e)
              | Inr (kernel_file, initrd) \<Rightarrow>
                  run_lifecycle env (Load
                    \<lparr>lr_instance = instance_request_of (ml_expected_generation request) (ml_instance_id request),
                     lr_kernel = kernel_file, lr_initrd = initrd, lr_cmdline = ml_command_line request\<rparr>)),
             b\<lparr>hb_catalog := catalog, hb_fs := fs\<rparr>))))"

section \<open>Submitting\<close>

definition new_operation_of :: "('r, 's, 'f, 'd, 'e, 'x) host_env \<Rightarrow> operation_kind \<Rightarrow> generation \<Rightarrow>
    resource_reference \<Rightarrow> peer_identity \<Rightarrow> string option \<Rightarrow> new_operation" where
  "new_operation_of env kind expected_generation resource peer audit_id =
     \<lparr>no_kind = kind, no_expected_generation = expected_generation, no_affected_resources = [resource],
      no_actor = Some (pi_actor peer), no_audit_id = audit_id, no_created_at = he_now env\<rparr>"

text \<open>
  The tail that the submissions share: take a permit, hand the closure with the permit to the
  scheduler, answer with the accepted operation.  A closure that could not be started is dropped
  together with its permit.
\<close>

definition submit_mutation :: "('r, 's, 'f, 'd, 'e, 'x) host_env \<Rightarrow> new_operation \<Rightarrow>
    ('r, 's) host_backend task_program \<Rightarrow> ('r, 's, 'f) handler" where
  "submit_mutation env request program st =
     (case acquire_permit Mutation_Limit (ha_limiter st) of
        Inl e \<Rightarrow> (Inl e, st)
      | Inr limiter \<Rightarrow>
          (case submit (he_spawned env) (he_now env) request program (ha_scheduler st) of
             (Inl _, scheduler) \<Rightarrow>
               (Inl schedule_error,
                st\<lparr>ha_scheduler := scheduler, ha_limiter := drop_permit Mutation_Limit limiter\<rparr>)
           | (Inr operation, scheduler) \<Rightarrow>
               (accepted_response env operation, st\<lparr>ha_scheduler := scheduler, ha_limiter := limiter\<rparr>)))"

definition submit_lifecycle :: "('r, 's, 'f, 'd, 'e, 'x) host_env \<Rightarrow> lifecycle_request \<Rightarrow> operation_kind \<Rightarrow>
    generation \<Rightarrow> instance_id \<Rightarrow> peer_identity \<Rightarrow> string option \<Rightarrow> ('r, 's, 'f) handler" where
  "submit_lifecycle env request kind expected_generation i peer audit_id =
     submit_mutation env
       (new_operation_of env kind expected_generation
          \<lparr>rr_kind = Instance_Resource, rr_id = show_word i\<rparr> peer audit_id)
       (run_lifecycle env request)"

definition submit_resource_pool :: "('r, 's, 'f, 'd, 'e, 'x) host_env \<Rightarrow> resource_pool_mutation \<Rightarrow>
    peer_identity \<Rightarrow> string option \<Rightarrow> ('r, 's, 'f) handler" where
  "submit_resource_pool env mutation peer audit_id =
     submit_mutation env
       (new_operation_of env
          (if rpm_cpu_hardware_ids mutation = [] \<and> rpm_memory_bytes mutation = 0
           then ReleaseResourcePool else InitializeResourcePool)
          (rpm_expected_generation mutation)
          \<lparr>rr_kind = ResourcePool_Resource, rr_id = ''host''\<rparr> peer audit_id)
       (guarded_task (pool_section env
          \<lparr>pr_expected_generation = rpm_expected_generation mutation,
           pr_cpu_hardware_ids = rpm_cpu_hardware_ids mutation,
           pr_memory_bytes = rpm_memory_bytes mutation\<rparr>))"

definition parse_expected_id :: "string option \<Rightarrow> api_error + artifact_id option" where
  "parse_expected_id i = map_err image_store_api_error (traverse_option parse_artifact_id i)"

definition catalog_reference :: "resource_kind \<Rightarrow> artifact_id option \<Rightarrow> resource_reference" where
  "catalog_reference kind expected_id =
     \<lparr>rr_kind = kind, rr_id = (case expected_id of None \<Rightarrow> ''catalog'' | Some i \<Rightarrow> i)\<rparr>"

definition submit_image_import :: "('r, 's, 'f, 'd, 'e, 'x) host_env \<Rightarrow> import_image_mutation \<Rightarrow>
    peer_identity \<Rightarrow> string option \<Rightarrow> ('r, 's, 'f) handler" where
  "submit_image_import env mutation peer audit_id st =
     (case and_then (artifact_kind_of (iim_kind mutation)) (\<lambda>kind.
           and_then (resolve_image env (iim_source_path mutation)) (\<lambda>source.
           and_then (parse_expected_id (iim_expected_id mutation)) (\<lambda>expected_id.
             Inr (kind, source, expected_id)))) of
        Inl e \<Rightarrow> (Inl e, st)
      | Inr (kind, source, expected_id) \<Rightarrow>
          submit_mutation env
            (new_operation_of env ImportImage (iim_expected_generation mutation)
               (catalog_reference Image_Resource expected_id) peer audit_id)
            (image_import_program env (iim_expected_generation mutation) kind source expected_id) st)"

definition submit_os_image_import :: "('r, 's, 'f, 'd, 'e, 'x) host_env \<Rightarrow> import_os_image_mutation \<Rightarrow>
    peer_identity \<Rightarrow> string option \<Rightarrow> ('r, 's, 'f) handler" where
  "submit_os_image_import env mutation peer audit_id st =
     (case and_then (resolve_image env (iom_source_path mutation)) (\<lambda>source.
           and_then (parse_expected_id (iom_expected_id mutation)) (\<lambda>expected_id.
             Inr (source, expected_id))) of
        Inl e \<Rightarrow> (Inl e, st)
      | Inr (source, expected_id) \<Rightarrow>
          submit_mutation env
            (new_operation_of env ImportOsImage (iom_expected_generation mutation)
               (catalog_reference OsImage_Resource expected_id) peer audit_id)
            (os_image_import_program env source mutation expected_id) st)"

definition submit_managed_load :: "('r, 's, 'f, 'd, 'e, 'x) host_env \<Rightarrow> managed_load_request \<Rightarrow>
    peer_identity \<Rightarrow> string option \<Rightarrow> ('r, 's, 'f) handler" where
  "submit_managed_load env request peer audit_id =
     submit_mutation env
       (new_operation_of env LoadInstance (ml_expected_generation request)
          \<lparr>rr_kind = Instance_Resource, rr_id = show_word (ml_instance_id request)\<rparr> peer audit_id)
       (managed_load_program env request)"

definition cancel_operation :: "('r, 's, 'f, 'd, 'e, 'x) host_env \<Rightarrow> operation_id \<Rightarrow> ('r, 's, 'f) handler" where
  "cancel_operation env i st =
     (case cancel i (ha_scheduler st) of
        (Inl e, scheduler) \<Rightarrow> (Inl (registry_error e), st\<lparr>ha_scheduler := scheduler\<rparr>)
      | (Inr _, scheduler) \<Rightarrow>
          (and_then (ok_or not_found (get (sc_registry scheduler) i)) (accepted_response env),
           st\<lparr>ha_scheduler := scheduler\<rparr>))"

section \<open>Dispatch\<close>

definition on_decoded :: "api_error + 'a \<Rightarrow> ('a \<Rightarrow> ('r, 's, 'f) handler) \<Rightarrow> ('r, 's, 'f) handler" where
  "on_decoded decoded k st = (case decoded of Inl e \<Rightarrow> (Inl e, st) | Inr m \<Rightarrow> k m st)"

definition dispatch_instance_load :: "('r, 's, 'f, 'd, 'e, 'x) host_env \<Rightarrow> instance_action \<Rightarrow> u8 list \<Rightarrow>
    instance_id \<Rightarrow> peer_identity \<Rightarrow> string option \<Rightarrow> ('r, 's, 'f) handler" where
  "dispatch_instance_load env action body i peer audit_id =
     (if action = Action_Load then
        on_decoded
          (and_then (decode_body (he_decode_load env) body) (\<lambda>m.
           and_then (resolve_image env (lim_kernel_path m)) (\<lambda>kernel_file.
           and_then (traverse_option (resolve_image env) (lim_initrd_path m)) (\<lambda>initrd.
           and_then (validate_command_line (lim_command_line m)) (\<lambda>_. Inr (m, kernel_file, initrd))))))
          (\<lambda>(m, kernel_file, initrd).
             submit_lifecycle env
               (Load \<lparr>lr_instance = instance_request_of (lim_expected_generation m) i, lr_kernel = kernel_file,
                      lr_initrd = initrd, lr_cmdline = lim_command_line m\<rparr>)
               LoadInstance (lim_expected_generation m) i peer audit_id)
      else
        on_decoded
          (and_then (decode_body (he_decode_managed env) body) (\<lambda>m.
           and_then (validate_command_line (lmm_command_line m)) (\<lambda>_.
           and_then (map_err image_store_api_error (parse_artifact_id (lmm_kernel_id m))) (\<lambda>kernel_id.
           and_then (parse_expected_id (lmm_initrd_id m)) (\<lambda>initrd_id. Inr (m, kernel_id, initrd_id))))))
          (\<lambda>(m, kernel_id, initrd_id).
             submit_managed_load env
               \<lparr>ml_instance_id = i, ml_expected_generation = lmm_expected_generation m,
                ml_kernel_id = kernel_id, ml_initrd_id = initrd_id, ml_command_line = lmm_command_line m\<rparr>
               peer audit_id))"

definition dispatch_instance :: "('r, 's, 'f, 'd, 'e, 'x) host_env \<Rightarrow> local_request \<Rightarrow> peer_identity \<Rightarrow>
    instance_id \<Rightarrow> instance_action option \<Rightarrow> string option \<Rightarrow> ('r, 's, 'f) handler" where
  "dispatch_instance env request peer i action audit_id =
     (case (req_method request, action) of
        (GET, None) \<Rightarrow> get_instance env i
      | (PATCH, None) \<Rightarrow>
          on_decoded (decode_body (he_decode_update env) (req_body request)) (\<lambda>m.
            submit_lifecycle env
              (Update \<lparr>ur_instance = instance_request_of (uim_expected_generation m) i,
                       ur_cpu_hardware_ids = uim_cpu_hardware_ids m, ur_memory_bytes = uim_memory_bytes m,
                       ur_device_ids = uim_device_ids m, ur_dry_run = uim_dry_run m\<rparr>)
              UpdateInstance (uim_expected_generation m) i peer audit_id)
      | (DELETE, None) \<Rightarrow>
          on_decoded (decode_body (he_decode_lifecycle env) (req_body request)) (\<lambda>m.
            submit_lifecycle env (Delete (instance_request_of (ilm_expected_generation m) i))
              DeleteInstance (ilm_expected_generation m) i peer audit_id)
      | (POST, Some Action_Load) \<Rightarrow> dispatch_instance_load env Action_Load (req_body request) i peer audit_id
      | (POST, Some Action_LoadImage) \<Rightarrow>
          dispatch_instance_load env Action_LoadImage (req_body request) i peer audit_id
      | (POST, Some Action_Start) \<Rightarrow>
          on_decoded (decode_body (he_decode_lifecycle env) (req_body request)) (\<lambda>m.
            submit_lifecycle env (Start (instance_request_of (ilm_expected_generation m) i))
              StartInstance (ilm_expected_generation m) i peer audit_id)
      | (POST, Some Action_Stop) \<Rightarrow>
          on_decoded (decode_body (he_decode_stop env) (req_body request)) (\<lambda>m.
            submit_lifecycle env
              (Stop \<lparr>sr_instance = instance_request_of (sim_expected_generation m) i, sr_force = sim_force m\<rparr>)
              StopInstance (sim_expected_generation m) i peer audit_id)
      | (POST, Some Action_Unload) \<Rightarrow>
          on_decoded (decode_body (he_decode_lifecycle env) (req_body request)) (\<lambda>m.
            submit_lifecycle env (Unload (instance_request_of (ilm_expected_generation m) i))
              UnloadInstance (ilm_expected_generation m) i peer audit_id)
      | _ \<Rightarrow> Pair (Inl not_found))"

definition dispatch_resource :: "('r, 's, 'f, 'd, 'e, 'x) host_env \<Rightarrow> local_request \<Rightarrow> peer_identity \<Rightarrow>
    ('r, 's, 'f) handler" where
  "dispatch_resource env request peer =
     (case operation_id_from_path (req_path request) of
        Some i \<Rightarrow>
          (case req_method request of
             GET \<Rightarrow> get_operation env i
           | DELETE \<Rightarrow> cancel_operation env i
           | _ \<Rightarrow> Pair (Inl not_found))
      | None \<Rightarrow>
          (case image_resource (req_path request) of
             Some (kind, i) \<Rightarrow>
               (case req_method request of GET \<Rightarrow> get_image env kind i | _ \<Rightarrow> Pair (Inl not_found))
           | None \<Rightarrow>
               (case os_image_resource (req_path request) of
                  Some i \<Rightarrow> (case req_method request of GET \<Rightarrow> get_os_image env i | _ \<Rightarrow> Pair (Inl not_found))
                | None \<Rightarrow>
                    (case instance_resource (req_path request) of
                       None \<Rightarrow> Pair (Inl not_found)
                     | Some (i, action) \<Rightarrow>
                         dispatch_instance env request peer i action (req_request_id request)))))"

definition dispatch :: "('r, 's, 'f, 'd, 'e, 'x) host_env \<Rightarrow> local_request \<Rightarrow> peer_identity \<Rightarrow>
    ('r, 's, 'f) handler" where
  "dispatch env request peer =
     (let path = req_path request; audit_id = req_request_id request; body = req_body request in
      case req_method request of
        GET \<Rightarrow>
          if path = ''/1.0'' then get_snapshot env
          else if path = ''/1.0/compatibility'' then get_compatibility env
          else if path = ''/1.0/resource-pool'' then get_resource_pool env
          else if path = ''/1.0/instances'' then get_instances env
          else if path = ''/1.0/images'' then get_images env
          else if path = ''/1.0/os-images'' then get_os_images env
          else if path = ''/1.0/storage-devices'' then get_storage_devices env
          else if path = ''/1.0/operations'' then get_operations env
          else if path = ''/1.0/events'' then get_events env (req_query request)
          else dispatch_resource env request peer
      | PUT \<Rightarrow>
          if path = ''/1.0/resource-pool''
          then on_decoded (decode_body (he_decode_pool env) body)
                 (\<lambda>m. submit_resource_pool env m peer audit_id)
          else dispatch_resource env request peer
      | POST \<Rightarrow>
          if path = ''/1.0/instances''
          then on_decoded (decode_body (he_decode_create env) body) (\<lambda>m.
                 submit_lifecycle env
                   (Create \<lparr>cr_expected_generation = cim_expected_generation m, cr_id = cim_id m,
                            cr_name = cim_name m, cr_cpu_hardware_ids = cim_cpu_hardware_ids m,
                            cr_memory_bytes = cim_memory_bytes m\<rparr>)
                   CreateInstance (cim_expected_generation m) (cim_id m) peer audit_id)
          else if path = ''/1.0/images''
          then on_decoded (decode_body (he_decode_import env) body)
                 (\<lambda>m. submit_image_import env m peer audit_id)
          else if path = ''/1.0/os-images''
          then on_decoded (decode_body (he_decode_import_os env) body)
                 (\<lambda>m. submit_os_image_import env m peer audit_id)
          else dispatch_resource env request peer
      | _ \<Rightarrow> dispatch_resource env request peer)"

section \<open>The dispatcher as a local API\<close>

definition encode_error_of :: "('r, 's, 'f, 'd, 'e, 'x) host_env \<Rightarrow> api_error \<Rightarrow> u8 list option" where
  "encode_error_of env e = he_encode env (Error_Response e)"

definition handle :: "('r, 's, 'f, 'd, 'e, 'x) host_env \<Rightarrow> local_request \<Rightarrow> peer_identity \<Rightarrow>
    ('r, 's, 'f) host_state \<Rightarrow> local_response option \<times> ('r, 's, 'f) host_state" where
  "handle env request peer st =
     (case dispatch env request peer st of
        (Inr response, st') \<Rightarrow> (Some response, st')
      | (Inl e, st') \<Rightarrow> (Some (api_error_response (encode_error_of env) e), st'))"

definition CONSOLE_UPGRADE_PROTOCOL :: string where
  "CONSOLE_UPGRADE_PROTOCOL = ''kernmux-console-v1''"

definition prepare_upgrade :: "('r, 's, 'f, 'd, 'e, 'x) host_env \<Rightarrow> local_request \<Rightarrow> peer_identity \<Rightarrow>
    ('r, 's, 'f) host_state \<Rightarrow>
    ((api_error + 'd console_session local_upgrade) option \<times> ('r, 's, 'f) host_state) option" where
  "prepare_upgrade env request peer st =
     (case instance_resource (req_path request) of
        Some (i, Some Action_Console) \<Rightarrow>
          if req_method request \<noteq> POST then Some (Some (Inl not_found), st)
          else (case he_refresh env (hb_inventory (backend_of st)) of
              (observed, inventory) \<Rightarrow>
                let st1 = set_backend ((backend_of st)\<lparr>hb_inventory := inventory\<rparr>) st in
                (case observed of
                   Inl _ \<Rightarrow> Some (Some (Inl (backend ''host inventory is unavailable'')), st1)
                 | Inr snapshot \<Rightarrow>
                     if \<not> list_ex (\<lambda>x. in_id x = i \<and> in_state x = Active) (hs_instances snapshot)
                     then Some (Some (Inl (host_error Conflict
                            ''instance must be active before attaching its console'' False)), st1)
                     else (case acquire_permit Console_Limit (ha_limiter st1) of
                         Inl e \<Rightarrow> Some (Some (Inl e), st1)
                       | Inr limiter \<Rightarrow>
                           (case attach (he_open_device env) (he_device_ops env) i
                                   (ha_console st1, ha_factory st1) of
                              None \<Rightarrow> None
                            | Some (Inl e, proxy, factory) \<Rightarrow>
                                Some (Some (Inl (console_api_error e)),
                                  st1\<lparr>ha_limiter := drop_permit Console_Limit limiter,
                                      ha_console := proxy, ha_factory := factory\<rparr>)
                            | Some (Inr session, proxy, factory) \<Rightarrow>
                                Some (Some (Inr \<lparr>up_protocol = CONSOLE_UPGRADE_PROTOCOL, up_handler = session\<rparr>),
                                  st1\<lparr>ha_limiter := limiter, ha_console := proxy, ha_factory := factory\<rparr>)))))
      | _ \<Rightarrow> Some (Some (Inl not_found), st))"

text \<open>Dropping the closure of an upgrade: the session gives back its lease, the permit its slot.\<close>

definition drop_upgrade :: "'d console_session local_upgrade \<Rightarrow> ('r, 's, 'f) host_state \<Rightarrow> ('r, 's, 'f) host_state" where
  "drop_upgrade upgrade st =
     st\<lparr>ha_limiter := drop_permit Console_Limit (ha_limiter st),
        ha_console := (case sn_lease (up_handler upgrade) of None \<Rightarrow> ha_console st
                       | Some i \<Rightarrow> drop_lease i (ha_console st))\<rparr>"

definition host_api :: "('r, 's, 'f, 'd, 'e, 'x) host_env \<Rightarrow>
    (('r, 's, 'f) host_state, 'd console_session) local_api" where
  "host_api env =
     \<lparr>api_route = route_for, api_handle = handle env, api_prepare_upgrade = prepare_upgrade env,
      api_drop_upgrade = drop_upgrade\<rparr>"

end
