(* ===== verification/Host_Service.thy ===== *)
theory Host_Service
  imports Host_Api
begin

text \<open>
  Properties of the running daemon as a whole: the dispatcher of \<open>Host_Api\<close> behind the transport of
  \<open>Transport\<close>, with the workers that its submissions start.
\<close>

section \<open>Reads change nothing that matters\<close>

lemma set_backend_simps [simp]:
  "backend_of (set_backend b st) = b" "registry_of (set_backend b st) = registry_of st"
  "ha_limiter (set_backend b st) = ha_limiter st" "ha_console (set_backend b st) = ha_console st"
  "ha_factory (set_backend b st) = ha_factory st"
  "sc_workers (ha_scheduler (set_backend b st)) = sc_workers (ha_scheduler st)"
  "sc_spawned (ha_scheduler (set_backend b st)) = sc_spawned (ha_scheduler st)"
  "sc_draining (ha_scheduler (set_backend b st)) = sc_draining (ha_scheduler st)"
  by (simp_all add: set_backend_def backend_of_def registry_of_def)

text \<open>Only the caches of the inventory and of the catalog may differ.\<close>

definition quiet :: "('r, 's, 'f) host_state \<Rightarrow> ('r, 's, 'f) host_state \<Rightarrow> bool" where
  "quiet st st' \<longleftrightarrow>
     ha_limiter st' = ha_limiter st \<and> ha_console st' = ha_console st \<and> ha_factory st' = ha_factory st \<and>
     registry_of st' = registry_of st \<and>
     sc_workers (ha_scheduler st') = sc_workers (ha_scheduler st) \<and>
     sc_spawned (ha_scheduler st') = sc_spawned (ha_scheduler st) \<and>
     sc_draining (ha_scheduler st') = sc_draining (ha_scheduler st) \<and>
     hb_runner (backend_of st') = hb_runner (backend_of st) \<and>
     hb_pool_runner (backend_of st') = hb_pool_runner (backend_of st) \<and>
     same_disk (hb_fs (backend_of st)) (hb_fs (backend_of st'))"

lemma quiet_refl [simp]: "quiet st st"
  by (simp add: quiet_def)

lemma quiet_trans: "quiet a b \<Longrightarrow> quiet b c \<Longrightarrow> quiet a c"
  by (auto simp: quiet_def intro: same_disk_trans)

lemma quiet_with_snapshot: "quiet st (snd (with_snapshot env k st))"
  by (simp add: with_snapshot_def quiet_def split: prod.split)

lemma quiet_with_catalog: "quiet st (snd (with_catalog env k st))"
proof -
  obtain listed catalog fs where r: "catalog_refresh (he_store env) (hb_catalog (backend_of st), hb_fs (backend_of st))
      = (listed, catalog, fs)" by (metis surj_pair)
  from catalog_refresh_same [OF r] show ?thesis
    by (simp add: with_catalog_def r quiet_def)
qed

lemmas reading_handlers = get_snapshot_def get_instance_def get_instances_def get_resource_pool_def
  get_storage_devices_def get_images_def get_image_def get_os_images_def get_os_image_def

lemma quiet_reading:
  "quiet st (snd (get_snapshot env st))" "quiet st (snd (get_compatibility env st))"
  "quiet st (snd (get_instance env i st))" "quiet st (snd (get_instances env st))"
  "quiet st (snd (get_resource_pool env st))" "quiet st (snd (get_storage_devices env st))"
  "quiet st (snd (get_images env st))" "quiet st (snd (get_image env kind a st))"
  "quiet st (snd (get_os_images env st))" "quiet st (snd (get_os_image env a st))"
  "quiet st (snd (get_operations env st))" "quiet st (snd (get_operation env oid st))"
  "quiet st (snd (get_events env query st))"
  by (simp_all add: reading_handlers quiet_with_snapshot quiet_with_catalog get_compatibility_def
      get_operations_def get_operation_def get_events_def)

lemma quiet_get_resource: "req_method rq = GET \<Longrightarrow> quiet st (snd (dispatch_resource env rq peer st))"
  by (auto simp: dispatch_resource_def dispatch_instance_def quiet_reading split: option.split)

lemma quiet_get: "req_method rq = GET \<Longrightarrow> quiet st (snd (dispatch env rq peer st))"
  by (simp add: dispatch_def Let_def quiet_reading quiet_get_resource)

lemma snd_handle: "snd (handle env rq peer st) = snd (dispatch env rq peer st)"
  by (simp add: handle_def split: prod.split sum.split)

interpretation host_service: local_service host_api quiet
proof
  fix w and rq :: local_request and route s peer
  assume "api_route (host_api w) (req_method rq) (req_path rq) = Some route" "sec_class route = ReadOnly"
  then have "req_method rq = GET" using route_for_read_only by (auto simp: host_api_def)
  then show "quiet s (snd (api_handle (host_api w) rq peer s))"
    by (simp add: host_api_def snd_handle quiet_get)
qed (use quiet_trans in auto)

section \<open>What a dispatch can do\<close>

text \<open>
  Every handler reads, submits one closure that begins with a look at the cancellation flag, or
  cancels.
\<close>

inductive dispatched :: "('r, 's, 'f, 'd, 'e, 'x) host_env \<Rightarrow> ('r, 's, 'f) host_state \<Rightarrow>
    ('r, 's, 'f) host_state \<Rightarrow> bool" for env where
  did_read: "quiet st st' \<Longrightarrow> dispatched env st st'"
| did_submit: "settles (check_cancelled program) \<Longrightarrow>
     submit_mutation env request (check_cancelled program) st = (r, st') \<Longrightarrow> dispatched env st st'"
| did_cancel: "cancel_operation env i st = (r, st') \<Longrightarrow> dispatched env st st'"

lemma settles_check [simp]: "settles (check_cancelled program) \<longleftrightarrow> settles program"
  by (auto simp: check_cancelled_def)

lemma settles_locked:
  "(\<And>x r x'. task x = (Some r, x') \<Longrightarrow> is_terminal (tr_state r)) \<Longrightarrow> settles (run_locked task)"
  unfolding run_locked_def by (auto split: if_splits prod.splits)

lemma terminal_failures [simp]:
  "is_terminal (tr_state (failed_result e g))" "is_terminal (tr_state (succeeded_result h))"
  "is_terminal (tr_state (catalog_failure c))"
  by (simp_all add: failed_result_def succeeded_result_def catalog_failure_def split: prod.split)

lemma settles_lifecycle: "settles (run_locked (lifecycle_section env request))"
proof (rule settles_locked)
  fix x r x' assume "lifecycle_section env request x = (Some r, x')"
  then show "is_terminal (tr_state r)"
    using lifecycle_task_result_terminal [of "he_refresh env" "he_run env" request "(hb_runner x, hb_inventory x)"]
    by (auto simp: lifecycle_section_def lifecycle_task_def split: prod.splits)
qed

lemma settles_pool: "settles (run_locked (pool_section env request))"
proof (rule settles_locked)
  fix x r x' assume "pool_section env request x = (Some r, x')"
  then show "is_terminal (tr_state r)"
    using resource_pool_task_result_terminal
      [of "he_refresh env" "he_run env" request "(hb_pool_runner x, hb_inventory x)"]
    by (auto simp: pool_section_def resource_pool_task_def split: prod.splits)
qed

lemma import_section_terminal: "import_section f x = (Some r, x') \<Longrightarrow> is_terminal (tr_state r)"
  by (auto simp: import_section_def split: prod.splits sum.splits)

lemma settles_run_lifecycle: "settles (run_lifecycle env request)"
  by (simp add: run_lifecycle_def guarded_task_def settles_lifecycle)

lemma settles_managed_load:
  "settles (Section (\<lambda>_ b. (case resolve_managed (he_store env) request (hb_catalog b, hb_fs b) of
     (resolved, catalog, fs) \<Rightarrow> (Some (case resolved of Inl e \<Rightarrow> Answer (catalog_failure e)
        | Inr (kernel_file, initrd) \<Rightarrow> run_lifecycle env (load kernel_file initrd)),
      b\<lparr>hb_catalog := catalog, hb_fs := fs\<rparr>))))"
  by (auto simp: settles_run_lifecycle split: prod.splits sum.splits)

lemma dispatched_submit:
  "settles program \<Longrightarrow> dispatched env st (snd (submit_mutation env request (check_cancelled program) st))"
  by (rule did_submit [OF _ prod.collapse [symmetric]]) simp

lemma dispatched_decoded:
  "(\<And>m. decoded = Inr m \<Longrightarrow> dispatched env st (snd (k m st))) \<Longrightarrow>
     dispatched env st (snd (on_decoded decoded k st))"
  by (cases decoded) (simp_all add: on_decoded_def did_read)

lemma dispatched_submissions:
  "dispatched env st (snd (submit_lifecycle env request kind g i peer audit_id st))"
  "dispatched env st (snd (submit_resource_pool env pool peer audit_id st))"
  "dispatched env st (snd (submit_image_import env mutation peer audit_id st))"
  "dispatched env st (snd (submit_os_image_import env os_image peer audit_id st))"
  "dispatched env st (snd (submit_managed_load env managed peer audit_id st))"
proof -
  show "dispatched env st (snd (submit_lifecycle env request kind g i peer audit_id st))"
    by (simp add: submit_lifecycle_def run_lifecycle_def guarded_task_def dispatched_submit settles_lifecycle)
  show "dispatched env st (snd (submit_resource_pool env pool peer audit_id st))"
    by (simp add: submit_resource_pool_def guarded_task_def dispatched_submit settles_pool)
  show "dispatched env st (snd (submit_image_import env mutation peer audit_id st))"
    by (auto simp: submit_image_import_def image_import_program_def guarded_task_def did_read
        intro!: dispatched_submit settles_locked dest: import_section_terminal split: sum.split)
  show "dispatched env st (snd (submit_os_image_import env os_image peer audit_id st))"
    by (auto simp: submit_os_image_import_def os_image_import_program_def did_read
        intro!: dispatched_submit split: sum.split prod.splits) (erule import_section_terminal)
  show "dispatched env st (snd (submit_managed_load env managed peer audit_id st))"
    by (simp add: submit_managed_load_def managed_load_program_def dispatched_submit settles_managed_load
        del: settles_section_iff)
qed

lemma dispatched_cancel: "dispatched env st (snd (cancel_operation env i st))"
  by (rule did_cancel [OF prod.collapse [symmetric]])

lemma dispatched_load: "dispatched env st (snd (dispatch_instance_load env action body i peer audit_id st))"
  by (auto simp: dispatch_instance_load_def intro!: dispatched_decoded dispatched_submissions)

lemma dispatched_instance: "dispatched env st (snd (dispatch_instance env rq peer i action audit_id st))"
  unfolding dispatch_instance_def
  by (auto simp: did_read quiet_reading intro!: dispatched_decoded dispatched_submissions dispatched_load
      split: http_method.split option.split instance_action.split)

lemma dispatched_resource: "dispatched env st (snd (dispatch_resource env rq peer st))"
  unfolding dispatch_resource_def
  by (auto simp: did_read quiet_reading dispatched_cancel dispatched_instance
      split: http_method.split option.split)

lemma dispatched_dispatch: "dispatched env st (snd (dispatch env rq peer st))"
proof (cases "req_method rq = GET")
  case True
  then show ?thesis by (simp add: did_read quiet_get)
next
  case False
  then show ?thesis
    unfolding dispatch_def Let_def
    by (cases "req_method rq")
      (simp_all add: dispatched_resource dispatched_decoded dispatched_submissions)
qed

section \<open>The daemon's steps\<close>

text \<open>A worker whose closure has not ended yet still owns its permit.\<close>

definition holds_permit :: "'x worker \<Rightarrow> bool" where
  "holds_permit w \<longleftrightarrow> wk_phase w = Spawned \<or> (\<exists>f. wk_phase w = Running_Task (Section f))"

definition release_permit :: "'x worker \<Rightarrow> 'x worker \<Rightarrow> service_limiter \<Rightarrow> service_limiter" where
  "release_permit w w' limiter =
     (if holds_permit w \<and> \<not> holds_permit w' then drop_permit Mutation_Limit limiter else limiter)"

definition worker_moves :: "string \<Rightarrow> nat \<Rightarrow> ('r, 's, 'f) host_state \<Rightarrow> ('r, 's, 'f) host_state" where
  "worker_moves clock i st =
     (let sc = ha_scheduler st; w = sc_workers sc ! i in
      case thread_step clock w (sc_registry sc) (sc_executor sc) of
        (w', registry, executor) \<Rightarrow>
          st\<lparr>ha_scheduler := sc\<lparr>sc_workers := (sc_workers sc)[i := w'], sc_registry := registry,
                               sc_executor := executor\<rparr>,
             ha_limiter := release_permit w w' (ha_limiter st)\<rparr>)"

text \<open>
  The daemon between start and shutdown, with the console sessions that are being served: a request
  is handled, a worker moves, or a session ends.  \<open>envs\<close> are the environments that requests may meet.
\<close>

inductive daemon_step :: "('r, 's, 'f, 'd, 'e, 'x) host_env set \<Rightarrow>
    ('r, 's, 'f) host_state \<times> 'd console_session local_upgrade list \<Rightarrow>
    ('r, 's, 'f) host_state \<times> 'd console_session local_upgrade list \<Rightarrow> bool" for envs where
  step_request: "env \<in> envs \<Longrightarrow> handle_request (host_api env) enc policy limit request peer st
     = Some (response, upgrade, audits, st') \<Longrightarrow>
   daemon_step envs (st, live) (st', live @ (case upgrade of None \<Rightarrow> [] | Some u \<Rightarrow> [u]))"
| step_worker: "i < length (sc_workers (ha_scheduler st)) \<Longrightarrow>
   daemon_step envs (st, live) (worker_moves clock i st, live)"
| step_console_closed: "live = us @ u # vs \<Longrightarrow> daemon_step envs (st, live) (drop_upgrade u st, us @ vs)"

definition new_host :: "shared \<Rightarrow> service_limiter \<Rightarrow> ('r, 's) host_backend \<Rightarrow> 'f \<Rightarrow> ('r, 's, 'f) host_state" where
  "new_host registry limiter b factory =
     \<lparr>ha_scheduler = new_scheduler registry b, ha_limiter = limiter, ha_console = new_proxy, ha_factory = factory\<rparr>"

inductive daemon_reachable :: "('r, 's, 'f, 'd, 'e, 'x) host_env set \<Rightarrow> service_limits \<Rightarrow>
    ('r, 's, 'f) host_state \<times> 'd console_session local_upgrade list \<Rightarrow> bool" for envs limits where
  daemon_start: "new_registry oc ec = Inr registry \<Longrightarrow> new_limiter limits = Inr limiter \<Longrightarrow>
   daemon_reachable envs limits (new_host registry limiter b factory, [])"
| daemon_moves: "daemon_reachable envs limits s \<Longrightarrow> daemon_step envs s s' \<Longrightarrow> daemon_reachable envs limits s'"

section \<open>Slots\<close>

definition slots_ok :: "service_limits \<Rightarrow>
    ('r, 's, 'f) host_state \<times> 'd console_session local_upgrade list \<Rightarrow> bool" where
  "slots_ok limits s \<longleftrightarrow> (case s of (st, live) \<Rightarrow>
     lm_limits (ha_limiter st) = limits \<and>
     sc_spawned (ha_scheduler st) = [] \<and>
     limit_current (lm_state (ha_limiter st)) Mutation_Limit
       = length (filter holds_permit (sc_workers (ha_scheduler st))) \<and>
     limit_current (lm_state (ha_limiter st)) Console_Limit = length live \<and>
     limit_current (lm_state (ha_limiter st)) Mutation_Limit \<le> sl_mutations limits \<and>
     limit_current (lm_state (ha_limiter st)) Console_Limit \<le> sl_consoles limits \<and>
     list_all (\<lambda>u. sn_lease (up_handler u) \<noteq> None) live \<and>
     distinct (map (\<lambda>u. the (sn_lease (up_handler u))) live) \<and>
     px_attached (ha_console st) = (\<lambda>u. the (sn_lease (up_handler u))) ` set live)"

lemma filter_permit_reap:
  "length (filter holds_permit (reap_from 0 ws)) = length (filter holds_permit ws)"
proof -
  have "filter_mset holds_permit (mset (reap_from 0 ws)) = filter_mset holds_permit (mset ws)"
    unfolding mset_reap by (auto simp: is_finished_def holds_permit_def filter_filter_mset intro: filter_mset_cong)
  then show ?thesis by (metis mset_filter size_mset)
qed

lemma slots_new:
  assumes "new_limiter limits = Inr limiter"
  shows "slots_ok limits (new_host registry limiter b factory, [])"
  using new_limiter_zero [OF assms, of Mutation_Limit] new_limiter_zero [OF assms, of Console_Limit]
  by (simp add: slots_ok_def new_host_def new_scheduler_def new_proxy_def)

lemma slots_quiet: "slots_ok limits (st, live) \<Longrightarrow> quiet st st' \<Longrightarrow> slots_ok limits (st', live)"
  by (simp add: slots_ok_def quiet_def)

lemma slots_worker:
  assumes "slots_ok limits (st, live)" and "i < length (sc_workers (ha_scheduler st))"
  shows "slots_ok limits (worker_moves clock i st, live)"
proof -
  let ?ws = "sc_workers (ha_scheduler st)"
  obtain w' registry executor where step: "thread_step clock (?ws ! i) (sc_registry (ha_scheduler st))
      (sc_executor (ha_scheduler st)) = (w', registry, executor)" by (metis surj_pair)
  have mono: "holds_permit w' \<Longrightarrow> holds_permit (?ws ! i)"
    using step by (auto simp: thread_step_def holds_permit_def
        split: thread_phase.splits task_program.splits prod.splits sum.splits)
  have split: "?ws = take i ?ws @ ?ws ! i # drop (Suc i) ?ws" by (rule id_take_nth_drop [OF assms(2)])
  have upd: "?ws[i := w'] = take i ?ws @ w' # drop (Suc i) ?ws" by (rule upd_conv_take_nth_drop [OF assms(2)])
  have "length (filter holds_permit ?ws) = length (filter holds_permit (take i ?ws))
      + (if holds_permit (?ws ! i) then 1 else 0) + length (filter holds_permit (drop (Suc i) ?ws))"
    by (subst split) simp
  moreover have "length (filter holds_permit (?ws[i := w'])) = length (filter holds_permit (take i ?ws))
      + (if holds_permit w' then 1 else 0) + length (filter holds_permit (drop (Suc i) ?ws))"
    by (simp add: upd)
  ultimately show ?thesis
    using assms(1) mono
    by (auto simp: slots_ok_def worker_moves_def step Let_def release_permit_def drop_permit_def)
qed

lemma submit_workers:
  assumes "submit spawned clock request program sc = (r, sc')" and "sc_spawned sc = []"
  shows "sc_spawned sc' = []" and "sc_workers sc' = reap_from 0 (sc_workers sc) @
      (case r of Inl _ \<Rightarrow> [] | Inr operation \<Rightarrow> [new_worker (op_id operation) program])"
  using assms
  by (auto simp: submit_def submit_spawn_def register_worker_def reap_finished_def new_worker_def Let_def
      split: prod.splits if_splits)

lemma slots_submit:
  assumes ok: "slots_ok limits (st, live)"
    and submit: "submit_mutation env request (check_cancelled program) st = (r, st')"
  shows "slots_ok limits (st', live)"
proof (cases "acquire_permit Mutation_Limit (ha_limiter st)")
  case (Inl e)
  then show ?thesis using assms by (simp add: submit_mutation_def)
next
  case (Inr limiter)
  obtain res sc where sub: "submit (he_spawned env) (he_now env) request (check_cancelled program)
      (ha_scheduler st) = (res, sc)" by fastforce
  have spawned: "sc_spawned (ha_scheduler st) = []" using ok by (simp add: slots_ok_def)
  note ws = submit_workers [OF sub spawned]
  have "holds_permit (new_worker i (check_cancelled program))" for i
    by (simp add: holds_permit_def new_worker_def)
  with ws have "length (filter holds_permit (sc_workers sc))
      = length (filter holds_permit (sc_workers (ha_scheduler st))) + (if is_ok res then 1 else 0)"
    by (cases res) (simp_all add: filter_permit_reap)
  then show ?thesis
    using ok submit Inr sub ws(1)
    by (cases res) (auto simp: submit_mutation_def slots_ok_def acquire_permit_def drop_permit_def Let_def
        split: if_splits)
qed

lemma filter_permit_flag:
  "find p ws = Some w \<Longrightarrow> length (filter holds_permit (replace_first p (w\<lparr>wk_cancelled := True\<rparr>) ws))
     = length (filter holds_permit ws)"
  by (induction ws) (auto simp: holds_permit_def split: if_splits)

lemma slots_cancel:
  assumes "slots_ok limits (st, live)" and "cancel_operation env i st = (r, st')"
  shows "slots_ok limits (st', live)"
proof -
  obtain res sc where c: "cancel i (ha_scheduler st) = (res, sc)" by fastforce
  have "length (filter holds_permit (sc_workers sc))
      = length (filter holds_permit (sc_workers (ha_scheduler st))) \<and> sc_spawned sc = sc_spawned (ha_scheduler st)"
    using c by (auto simp: cancel_def reap_finished_def filter_permit_reap filter_permit_flag Let_def split: option.splits)
  then show ?thesis
    using assms c by (cases res) (auto simp: cancel_operation_def slots_ok_def)
qed

lemma slots_dispatched:
  "dispatched env st st' \<Longrightarrow> slots_ok limits (st, live) \<Longrightarrow> slots_ok limits (st', live)"
  by (cases rule: dispatched.cases) (auto intro: slots_quiet slots_submit slots_cancel)

lemma attach_Inr:
  "attach open ops i (proxy, factory) = Some (Inr session, proxy', factory') \<Longrightarrow>
     i \<notin> px_attached proxy \<and> proxy' = proxy\<lparr>px_attached := insert i (px_attached proxy)\<rparr> \<and>
     sn_lease session = Some i"
  by (auto simp: attach_def acquire_lease_def split: if_splits sum.splits prod.splits option.splits)

lemma attach_Inl:
  "attach open ops i (proxy, factory) = Some (Inl e, proxy', factory') \<Longrightarrow> proxy' = proxy"
  by (auto simp: attach_def acquire_lease_def drop_lease_def
      split: if_splits sum.splits prod.splits option.splits)

lemma slots_prepare:
  assumes ok: "slots_ok limits (st, live)"
    and prepare: "prepare_upgrade env rq peer st = Some (result, st')"
  shows "slots_ok limits (st', live @ (case result of Some (Inr u) \<Rightarrow> [u] | _ \<Rightarrow> []))"
proof -
  have inv: "slots_ok limits (set_backend b st, live)" for b
    using ok by (simp add: slots_ok_def)
  show ?thesis
    using prepare ok inv
    unfolding prepare_upgrade_def Let_def
    by (auto simp: slots_ok_def acquire_permit_def drop_permit_def Let_def
        dest!: attach_Inr attach_Inl
        split: option.splits prod.splits instance_action.splits if_splits sum.splits)
qed

lemma slots_close:
  assumes "slots_ok limits (st, us @ u # vs)"
  shows "slots_ok limits (drop_upgrade u st, us @ vs)"
proof -
  let ?lease = "\<lambda>u. the (sn_lease (up_handler u))"
  obtain i where i: "sn_lease (up_handler u) = Some i" using assms by (auto simp: slots_ok_def)
  have "i \<notin> ?lease ` set us" "i \<notin> ?lease ` set vs"
    using assms i by (auto simp: slots_ok_def image_iff)
  then have "insert i (?lease ` set us \<union> ?lease ` set vs) - {i} = ?lease ` set us \<union> ?lease ` set vs" by blast
  then show ?thesis
    using assms i by (auto simp: slots_ok_def drop_upgrade_def drop_lease_def drop_permit_def image_Un)
qed

lemma slots_request:
  assumes ok: "slots_ok limits (st, live)"
    and h: "handle_request (host_api env) enc policy limit request peer st = Some (response, upgrade, audits, st')"
  shows "slots_ok limits (st', live @ (case upgrade of None \<Rightarrow> [] | Some u \<Rightarrow> [u]))"
proof (rule handle_request_cases [OF h])
  fix rq assume "st' = snd (api_handle (host_api env) rq peer st)" "upgrade = None"
  then show ?thesis
    using slots_dispatched [OF dispatched_dispatch ok] by (simp add: host_api_def snd_handle)
next
  fix rq result s1 assume p: "api_prepare_upgrade (host_api env) rq peer st = Some (result, s1)"
    and cases: "(\<forall>u. result \<noteq> Some (Inr u)) \<and> upgrade = None \<and> st' = s1 \<or>
      (\<exists>u. result = Some (Inr u) \<and> (upgrade = Some u \<and> st' = s1 \<or>
         upgrade = None \<and> st' = api_drop_upgrade (host_api env) u s1))"
  have "slots_ok limits (s1, live @ (case result of Some (Inr u) \<Rightarrow> [u] | _ \<Rightarrow> []))"
    using slots_prepare [OF ok] p by (simp add: host_api_def)
  with cases slots_close [of limits s1 live _ "[]"] show ?thesis
    by (auto simp: host_api_def split: option.splits sum.splits)
qed (use ok in simp)

lemma slots_reachable: "daemon_reachable envs limits s \<Longrightarrow> slots_ok limits s"
proof (induction rule: daemon_reachable.induct)
  case (daemon_moves s s')
  from daemon_moves.hyps(2) daemon_moves.IH show ?case
    by (cases rule: daemon_step.cases) (auto intro: slots_request slots_worker slots_close)
qed (rule slots_new)

section \<open>The scheduler under the dispatcher\<close>

lemma scheduler_invar_executor:
  "sc_registry sc' = sc_registry sc \<Longrightarrow> sc_workers sc' = sc_workers sc \<Longrightarrow> sc_spawned sc' = sc_spawned sc \<Longrightarrow>
     sc_draining sc' = sc_draining sc \<Longrightarrow> scheduler_invar sc \<Longrightarrow> scheduler_invar sc'"
  by (simp add: scheduler_invar_def all_workers_def)

lemma invar_quiet: "quiet st st' \<Longrightarrow> scheduler_invar (ha_scheduler st) \<Longrightarrow> scheduler_invar (ha_scheduler st')"
  by (erule scheduler_invar_executor [rotated -1]) (simp_all add: quiet_def registry_of_def)

lemma invar_submit:
  "submit spawned clock request program sc = (r, sc') \<Longrightarrow> settles program \<Longrightarrow> scheduler_invar sc \<Longrightarrow>
     scheduler_invar sc'"
  by (auto simp: submit_def intro: submit_invar register_invar split: prod.splits sum.splits)

lemma invar_dispatched:
  assumes "dispatched env st st'" and "scheduler_invar (ha_scheduler st)"
  shows "scheduler_invar (ha_scheduler st')"
  using assms
proof (cases rule: dispatched.cases)
  case (did_submit program request r)
  obtain res sc where sub: "submit (he_spawned env) (he_now env) request (check_cancelled program)
      (ha_scheduler st) = (res, sc)" by fastforce
  have "scheduler_invar sc" using invar_submit [OF sub] did_submit(1) assms(2) by simp
  with did_submit(2) sub assms(2) show ?thesis
    by (auto simp: submit_mutation_def split: sum.splits)
next
  case (did_cancel i r)
  obtain res sc where c: "cancel i (ha_scheduler st) = (res, sc)" by fastforce
  from cancel_invar [OF assms(2) c] did_cancel c show ?thesis
    by (auto simp: cancel_operation_def split: sum.splits)
qed (rule invar_quiet)

lemma prepare_quiet_scheduler:
  assumes "prepare_upgrade env rq peer st = Some (result, st')"
  shows "sc_registry (ha_scheduler st') = sc_registry (ha_scheduler st)"
    "sc_workers (ha_scheduler st') = sc_workers (ha_scheduler st)"
    "sc_spawned (ha_scheduler st') = sc_spawned (ha_scheduler st)"
    "sc_draining (ha_scheduler st') = sc_draining (ha_scheduler st)"
  using assms unfolding prepare_upgrade_def Let_def set_backend_def
  by (auto split: option.splits prod.splits instance_action.splits if_splits sum.splits)

lemma drop_upgrade_scheduler [simp]: "ha_scheduler (drop_upgrade u st) = ha_scheduler st"
  by (simp add: drop_upgrade_def)

lemma invar_request:
  assumes invar: "scheduler_invar (ha_scheduler st)"
    and h: "handle_request (host_api env) enc policy limit request peer st = Some (response, upgrade, audits, st')"
  shows "scheduler_invar (ha_scheduler st')"
proof (rule handle_request_cases [OF h])
  fix rq assume "st' = snd (api_handle (host_api env) rq peer st)"
  then show ?thesis
    using invar_dispatched [OF dispatched_dispatch invar] by (simp add: host_api_def snd_handle)
next
  fix rq result s1 assume p: "api_prepare_upgrade (host_api env) rq peer st = Some (result, s1)"
    and cases: "(\<forall>u. result \<noteq> Some (Inr u)) \<and> upgrade = None \<and> st' = s1 \<or>
      (\<exists>u. result = Some (Inr u) \<and> (upgrade = Some u \<and> st' = s1 \<or>
         upgrade = None \<and> st' = api_drop_upgrade (host_api env) u s1))"
  have prepared: "prepare_upgrade env rq peer st = Some (result, s1)" using p by (simp add: host_api_def)
  have "scheduler_invar (ha_scheduler s1)"
    by (rule scheduler_invar_executor [OF prepare_quiet_scheduler [OF prepared] invar])
  with cases show ?thesis by (auto simp: host_api_def)
qed (use invar in simp)

lemma invar_worker:
  assumes "i < length (sc_workers (ha_scheduler st))" and "scheduler_invar (ha_scheduler st)"
  shows "scheduler_invar (ha_scheduler (worker_moves clock i st))"
proof -
  let ?sc = "ha_scheduler st"
  obtain w registry executor where
    step: "thread_step clock (sc_workers ?sc ! i) (sc_registry ?sc) (sc_executor ?sc) = (w, registry, executor)"
    by (metis surj_pair)
  show ?thesis
    using scheduler_step_invar [OF sched_worker [OF assms(1), of clock] assms(2)]
    by (simp add: worker_moves_def step_worker_def step Let_def)
qed

lemma invar_reachable: "daemon_reachable envs limits (st, live) \<Longrightarrow> scheduler_invar (ha_scheduler st)"
proof (induction "(st, live)" arbitrary: st live rule: daemon_reachable.induct)
  case (daemon_start oc ec registry limiter b factory)
  then show ?case
    using scheduler_reachable_invar [OF reach_new] by (simp add: new_host_def)
next
  case (daemon_moves s)
  from daemon_moves(3) show ?case
    by (cases rule: daemon_step.cases) (use daemon_moves(2) in \<open>auto intro: invar_request invar_worker\<close>)
qed

section \<open>Properties\<close>

text \<open>C18: Whatever sequence of requests peers send that the policy lets at most read, and whatever
  the environment answers meanwhile, the daemon's operations, events, workers, cancellation flags,
  permits, console leases and the artifacts and records on the disk are as they were, and no Kerf
  command was run.\<close>

theorem readers_cannot_mutate:
  assumes "\<forall>(env, peer, request) \<in> set requests. at_most_reader policy peer"
    and "converse host_api enc policy limit requests st = Some st'"
  shows "registry_of st' = registry_of st \<and>
    sc_workers (ha_scheduler st') = sc_workers (ha_scheduler st) \<and>
    sc_spawned (ha_scheduler st') = sc_spawned (ha_scheduler st) \<and>
    ha_limiter st' = ha_limiter st \<and> ha_console st' = ha_console st \<and> ha_factory st' = ha_factory st \<and>
    hb_runner (backend_of st') = hb_runner (backend_of st) \<and>
    hb_pool_runner (backend_of st') = hb_pool_runner (backend_of st) \<and>
    same_disk (hb_fs (backend_of st)) (hb_fs (backend_of st'))"
  using host_service.readers_quiet [OF assms] by (simp add: quiet_def)

text \<open>C19: In every state the daemon can reach by requests, worker moves and ends of console sessions,
  the used mutation slots are exactly the closures that have not ended and the used console slots
  exactly the sessions being served, both within their limits; no two sessions share an instance, the
  leases are exactly those of the sessions, and every operation that is not over has its worker.\<close>

theorem slots_exact:
  assumes "daemon_reachable envs limits (st, live)"
  shows "limit_current (lm_state (ha_limiter st)) Mutation_Limit
      = length (filter holds_permit (sc_workers (ha_scheduler st))) \<and>
    length (filter holds_permit (sc_workers (ha_scheduler st))) \<le> sl_mutations limits \<and>
    limit_current (lm_state (ha_limiter st)) Console_Limit = length live \<and>
    length live \<le> sl_consoles limits \<and>
    distinct (map (\<lambda>u. sn_lease (up_handler u)) live) \<and>
    Some ` px_attached (ha_console st) = (\<lambda>u. sn_lease (up_handler u)) ` set live \<and>
    (rs_next_operation (sh_state (registry_of st)) \<noteq> - 1 \<longrightarrow>
       (\<forall>i operation. get (registry_of st) i = Some operation \<longrightarrow> is_terminal (op_state operation) \<or>
          (\<exists>w. w \<in> set (all_workers (ha_scheduler st)) \<and> wk_operation_id w = i \<and> \<not> is_finished w)))"
proof (intro conjI impI allI)
  note ok = slots_reachable [OF assms, unfolded slots_ok_def split]
  have leases: "sn_lease (up_handler u) = Some (the (sn_lease (up_handler u)))" if "u \<in> set live" for u
    using ok that by (auto simp: list_all_iff)
  then have "map (\<lambda>u. sn_lease (up_handler u)) live = map Some (map (\<lambda>u. the (sn_lease (up_handler u))) live)"
    by simp
  then show "distinct (map (\<lambda>u. sn_lease (up_handler u)) live)" using ok by (simp only: distinct_map) simp
  show "Some ` px_attached (ha_console st) = (\<lambda>u. sn_lease (up_handler u)) ` set live"
    using ok leases by (simp add: image_image cong: image_cong)
  fix i operation
  assume "rs_next_operation (sh_state (registry_of st)) \<noteq> - 1" "get (registry_of st) i = Some operation"
  then show "is_terminal (op_state operation) \<or>
      (\<exists>w. w \<in> set (all_workers (ha_scheduler st)) \<and> wk_operation_id w = i \<and> \<not> is_finished w)"
    using live_operation_has_worker [OF invar_reachable [OF assms]] by (auto simp: registry_of_def)
qed (use slots_reachable [OF assms] in \<open>simp_all add: slots_ok_def\<close>)

definition demo_host_env :: "(unit, unit, unit, unit, unit, unit) host_env" where
  "demo_host_env =
     \<lparr>he_refresh = (\<lambda>s. (Inl (), s)), he_run = (\<lambda>_ r. (Inl (), r)), he_store = demo_env, he_roots = [],
      he_canonicalize = (\<lambda>_. None), he_is_file = (\<lambda>_. None), he_report = None,
      he_files = demo_view, he_encode_devices = (\<lambda>_. None), he_encode = (\<lambda>_. None),
      he_decode_pool = (\<lambda>_. Some \<lparr>rpm_expected_generation = 1, rpm_cpu_hardware_ids = [1], rpm_memory_bytes = 0\<rparr>),
      he_decode_create = (\<lambda>_. None), he_decode_update = (\<lambda>_. None), he_decode_load = (\<lambda>_. None),
      he_decode_managed = (\<lambda>_. None), he_decode_import = (\<lambda>_. None), he_decode_import_os = (\<lambda>_. None),
      he_decode_lifecycle = (\<lambda>_. None), he_decode_stop = (\<lambda>_. None), he_open_device = (\<lambda>f. (Inr (), f)),
      he_device_ops = accepting_device, he_now = ''t1'', he_spawned = True\<rparr>"

definition demo_limits :: service_limits where
  "demo_limits = \<lparr>sl_connections = 1, sl_mutations = 1, sl_consoles = 1\<rparr>"

definition demo_limiter :: service_limiter where
  "demo_limiter = \<lparr>lm_state = \<lparr>ls_connections = 0, ls_mutations = 0, ls_consoles = 0\<rparr>, lm_limits = demo_limits\<rparr>"

definition demo_host :: "(unit, unit, unit) host_state" where
  "demo_host = new_host empty_registry demo_limiter
     \<lparr>hb_runner = (), hb_pool_runner = (), hb_inventory = (), hb_catalog = new_catalog, hb_fs = demo_fs []\<rparr> ()"

definition demo_read :: incoming_request where
  "demo_read = demo_request\<lparr>inc_method := GET, inc_path := ''/1.0/operations''\<rparr>"

lemma demo_routes:
  "route_for PUT ''/1.0/resource-pool'' = Some \<lparr>sec_class = Mutation, sec_audit_action = MutateResourcePool\<rparr>"
  "map_option sec_class (route_for GET ''/1.0/operations'') = Some ReadOnly"
  by code_simp+

text \<open>An unprivileged peer lists the operations and then tries to change the resource pool.\<close>

theorem readers_cannot_mutate_witness:
  "\<exists>st'. converse host_api (\<lambda>_. None) (with_unprivileged_reads True deny_by_default) 16
     [(demo_host_env, demo_peer 1000, demo_read), (demo_host_env, demo_peer 1000, demo_request)] demo_host = Some st' \<and>
     registry_of st' = registry_of demo_host \<and> ha_limiter st' = demo_limiter"
proof -
  let ?policy = "with_unprivileged_reads True deny_by_default"
  have roles: "role_of ?policy (pi_actor (demo_peer 1000)) = None"
    by (simp add: role_of_def with_unprivileged_reads_def deny_by_default_def demo_peer_def)
  have allowed: "\<exists>u. authorize ?policy (pi_actor (demo_peer 1000)) ReadOnly = Inr u"
    "\<exists>e. authorize ?policy (pi_actor (demo_peer 1000)) Mutation = Inl e"
    using roles by (simp_all add: authorize_def with_unprivileged_reads_def)
  obtain route where route: "route_for GET ''/1.0/operations'' = Some route" "sec_class route = ReadOnly"
    using demo_routes(2) by (cases "route_for GET ''/1.0/operations''") auto
  have "\<exists>response audits st. handle_request (host_api demo_host_env) (\<lambda>_. None) ?policy 16 demo_read
      (demo_peer 1000) demo_host = Some (response, None, audits, st)"
    using allowed(1)
    by (auto simp: handle_request_def demo_read_def demo_request_def host_api_def route request_id_def
        collect_body_def split: prod.split option.split)
  then obtain response audits st where first: "handle_request (host_api demo_host_env) (\<lambda>_. None) ?policy 16
      demo_read (demo_peer 1000) demo_host = Some (response, None, audits, st)" by blast
  obtain response' audits' where second: "handle_request (host_api demo_host_env) (\<lambda>_. None) ?policy 16
      demo_request (demo_peer 1000) st = Some (response', None, audits', st)"
    using allowed(2)
    by (auto simp: handle_request_def demo_request_def host_api_def demo_routes request_id_def)
  have run: "converse host_api (\<lambda>_. None) ?policy 16
     [(demo_host_env, demo_peer 1000, demo_read), (demo_host_env, demo_peer 1000, demo_request)] demo_host = Some st"
    by (simp add: first second)
  have "ha_limiter demo_host = demo_limiter" by (simp add: demo_host_def new_host_def)
  with readers_cannot_mutate [OF _ run] run roles show ?thesis by (simp add: at_most_reader_def)
qed

text \<open>An administrator changes the resource pool, which takes the only mutation slot.\<close>

theorem slots_exact_witness:
  "\<exists>st. daemon_reachable {demo_host_env} demo_limits (st, []) \<and>
     length (sc_workers (ha_scheduler st)) = 1 \<and>
     length (filter holds_permit (sc_workers (ha_scheduler st))) \<le> 1 \<and>
     limit_current (lm_state (ha_limiter st)) Mutation_Limit = 1"
proof -
  have "\<exists>response audits st. handle_request (host_api demo_host_env) (\<lambda>_. None) deny_by_default 16 demo_request
      (demo_peer 0) demo_host = Some (response, None, audits, st) \<and>
      length (sc_workers (ha_scheduler st)) = 1 \<and> limit_current (lm_state (ha_limiter st)) Mutation_Limit = 1"
    by (simp add: handle_request_def demo_request_def host_api_def demo_routes request_id_def authorize_def
        less_eq_role_def role_of_def demo_peer_def collect_body_def handle_def dispatch_def on_decoded_def decode_body_def
        demo_host_env_def submit_resource_pool_def submit_mutation_def demo_host_def new_host_def
        demo_limiter_def demo_limits_def acquire_permit_def submit_def submit_spawn_def new_scheduler_def
        reap_finished_def register_worker_def accepted_response_def json_response_def Let_def case_prod_unfold)
  then obtain response audits st where
    h: "handle_request (host_api demo_host_env) (\<lambda>_. None) deny_by_default 16 demo_request
      (demo_peer 0) demo_host = Some (response, None, audits, st)"
      "length (sc_workers (ha_scheduler st)) = 1" "limit_current (lm_state (ha_limiter st)) Mutation_Limit = 1"
    by blast
  have "daemon_reachable {demo_host_env} demo_limits (demo_host, [])"
    unfolding demo_host_def
    by (rule daemon_start [of 2 1]) (simp_all add: new_registry_def empty_registry_def new_limiter_def
        demo_limiter_def demo_limits_def validate_limits_def)
  from daemon_moves [OF this step_request [OF _ h(1)]] have "daemon_reachable {demo_host_env} demo_limits (st, [])"
    by simp
  with h(2,3) slots_exact [OF this] show ?thesis by (auto simp: demo_limits_def)
qed

end
