(* ===== verification/Host_Probe.thy ===== *)
theory Host_Probe
  imports Inventory Host_Files
begin

text \<open>
  Linux host discovery, \<open>crates/kernmux-core/src/host.rs\<close>: kernel release, capabilities, processors,
  NUMA nodes and memory, read from procfs and sysfs below \<open>root\<close> in the view \<open>v\<close>.  An error keeps the
  path and the values that its message prints; the architecture is a constant of the build.
\<close>

section \<open>Errors\<close>

datatype probe_failure =
    Probe_Read read_error
  | Invalid_Integer string
  | Reversed_Range
  | Missing_Value string
  | Overflows_Bytes string
  | Missing_Field string

record probe_error =
  pe_path :: string
  pe_source :: probe_failure

definition probe_failed :: "string \<Rightarrow> probe_failure \<Rightarrow> probe_error" where
  "probe_failed path source = \<lparr>pe_path = path, pe_source = source\<rparr>"

section \<open>Parsing\<close>

definition parse_u32_value :: "string \<Rightarrow> string \<Rightarrow> probe_error + u32" where
  "parse_u32_value value context = ok_or (probe_failed context (Invalid_Integer value)) (parse_word value)"

definition parse_u64_value :: "string \<Rightarrow> string \<Rightarrow> probe_error + u64" where
  "parse_u64_value value context = ok_or (probe_failed context (Invalid_Integer value)) (parse_word value)"

text \<open>The integers of \<open>start..=end\<close>.\<close>

definition inclusive_range :: "u32 \<Rightarrow> u32 \<Rightarrow> u32 list" where
  "inclusive_range a b = map of_nat [unat a..<Suc (unat b)]"

definition parse_cpu_part :: "string \<Rightarrow> probe_error + u32 list" where
  "parse_cpu_part part =
     (case split_once CHR ''-'' part of
        Some (a, b) \<Rightarrow>
          and_then (parse_u32_value a ''cpu list'') (\<lambda>a.
          and_then (parse_u32_value b ''cpu list'') (\<lambda>b.
            if a > b then Inl (probe_failed ''cpu-list'' Reversed_Range) else Inr (inclusive_range a b)))
      | None \<Rightarrow> map_ok (\<lambda>a. [a]) (parse_u32_value part ''cpu list''))"

definition parse_cpu_list :: "string \<Rightarrow> probe_error + u32 list" where
  "parse_cpu_list value =
     map_ok (\<lambda>parts. remdups_adj (sort (concat parts)))
       (traverse_list parse_cpu_part (filter (\<lambda>part. part \<noteq> []) (map trim (split_char CHR '','' value))))"

fun parse_kib_lines :: "string list \<Rightarrow> string \<Rightarrow> probe_error + u64" where
  "parse_kib_lines [] field = Inl (probe_failed ''meminfo'' (Missing_Field field))"
| "parse_kib_lines (line # lines) field =
     (case split_once CHR '':'' line of
        None \<Rightarrow> parse_kib_lines lines field
      | Some (prefix, rest) \<Rightarrow>
          if split_whitespace prefix = [] \<or> last (split_whitespace prefix) \<noteq> field
          then parse_kib_lines lines field
          else (case split_whitespace rest of
              [] \<Rightarrow> Inl (probe_failed ''meminfo'' (Missing_Value field))
            | kib # _ \<Rightarrow>
                and_then (parse_u64_value kib field) (\<lambda>kib.
                  ok_or (probe_failed ''meminfo'' (Overflows_Bytes field)) (checked_mul kib 1024))))"

definition parse_kib_field :: "string \<Rightarrow> string \<Rightarrow> probe_error + u64" where
  "parse_kib_field contents field = parse_kib_lines (str_lines contents) field"

section \<open>Reading\<close>

definition probe_read_trimmed :: "file_view \<Rightarrow> string \<Rightarrow> string \<Rightarrow> probe_error + string" where
  "probe_read_trimmed v root relative =
     (let path = path_join root relative in
      map_ok trim (map_err (\<lambda>e. probe_failed path (Probe_Read e)) (read_to_string v path)))"

definition read_u32 :: "file_view \<Rightarrow> string \<Rightarrow> string \<Rightarrow> probe_error + u32" where
  "read_u32 v root relative =
     and_then (probe_read_trimmed v root relative) (\<lambda>value.
       ok_or (probe_failed (path_join root relative) (Invalid_Integer value)) (parse_word value))"

definition host_exists :: "file_view \<Rightarrow> string \<Rightarrow> string \<Rightarrow> bool" where
  "host_exists v root relative = fv_exists v (path_join root relative)"

definition has_nonempty_iommu_group :: "file_view \<Rightarrow> string \<Rightarrow> bool" where
  "has_nonempty_iommu_group v root =
     (let groups = path_join root ''sys/kernel/iommu_groups'' in
      case fv_read_dir v groups of
        Inl _ \<Rightarrow> False
      | Inr entries \<Rightarrow>
          list_ex (\<lambda>entry. case entry of
              Inl _ \<Rightarrow> False
            | Inr name \<Rightarrow>
                (case fv_read_dir v (path_join (path_join groups name) ''devices'') of
                   Inl _ \<Rightarrow> False | Inr devices \<Rightarrow> devices \<noteq> [])) entries)"

text \<open>The candidates stand in the order of the enumeration, which is the order of the set.\<close>

definition host_capabilities :: "file_view \<Rightarrow> string \<Rightarrow> host_capability list" where
  "host_capabilities v root =
     map fst (filter (\<lambda>(capability, path). host_exists v root path)
       [(Host_Multikernel, ''sys/fs/multikernel/device_tree''),
        (Host_InstanceLifecycle, ''sys/fs/multikernel/instances''),
        (Host_Transactions, ''sys/fs/multikernel/overlays''),
        (Host_DynamicResources, ''dev/lazy_cma''),
        (Host_Console, ''dev/mktty''),
        (Host_SharedMemory, ''dev/dma_heap/multikernel'')])
     @ (if host_exists v root ''sys/fs/multikernel/device_tree'' \<and> has_nonempty_iommu_group v root
        then [Host_DeviceAssignment] else [])"

section \<open>Processors\<close>

definition cpu_fields :: "string \<Rightarrow> (string \<times> string) list" where
  "cpu_fields block =
     map (\<lambda>(key, value). (trim key, trim value)) (List.map_filter (split_once CHR '':'') (str_lines block))"

definition hardware_cpu_id :: "string \<Rightarrow> (u32 \<times> u32) option" where
  "hardware_cpu_id block =
     (let fields = cpu_fields block in
      case Option.bind (btree_map_get fields ''processor'') parse_word of
        None \<Rightarrow> None
      | Some logical \<Rightarrow>
          let apicid = (case btree_map_get fields ''apicid'' of
                Some value \<Rightarrow> Some value | None \<Rightarrow> btree_map_get fields ''initial apicid'')
          in Some (logical, case Option.bind apicid parse_word of Some hardware \<Rightarrow> hardware | None \<Rightarrow> logical))"

definition read_hardware_cpu_ids :: "file_view \<Rightarrow> string \<Rightarrow> probe_error + (u32 \<times> u32) list" where
  "read_hardware_cpu_ids v root =
     map_ok (\<lambda>contents. List.map_filter hardware_cpu_id (split_blank_lines contents))
       (probe_read_trimmed v root ''proc/cpuinfo'')"

definition numa_node_of :: "numa_node_observation list \<Rightarrow> u32 \<Rightarrow> u32" where
  "numa_node_of numa_nodes logical_id =
     (case find (\<lambda>node. logical_id \<in> set (no_logical_cpu_ids node)) numa_nodes of
        None \<Rightarrow> 0 | Some node \<Rightarrow> no_id node)"

definition read_cpu :: "file_view \<Rightarrow> string \<Rightarrow> numa_node_observation list \<Rightarrow> (u32 \<times> u32) list \<Rightarrow> u32 \<Rightarrow>
    probe_error + cpu_observation" where
  "read_cpu v root numa_nodes hardware_ids logical_id =
     (let base = ''sys/devices/system/cpu/cpu'' @ show_word logical_id @ ''/topology'' in
      and_then (read_u32 v root (base @ ''/physical_package_id'')) (\<lambda>package_id.
      and_then (read_u32 v root (base @ ''/core_id'')) (\<lambda>core_id.
        Inr \<lparr>co_logical_id = logical_id,
             co_hardware_id = (case btree_map_get hardware_ids logical_id of
               Some hardware \<Rightarrow> hardware | None \<Rightarrow> logical_id),
             co_package_id = package_id, co_core_id = core_id, co_thread_index = 0,
             co_numa_node = numa_node_of numa_nodes logical_id\<rparr>)))"

fun assign_threads :: "(u32 \<times> u32 \<Rightarrow> u32) \<Rightarrow> cpu_observation list \<Rightarrow> cpu_observation list" where
  "assign_threads next_thread [] = []"
| "assign_threads next_thread (cpu # cpus) =
     (let core = (co_package_id cpu, co_core_id cpu) in
      cpu\<lparr>co_thread_index := next_thread core\<rparr> #
      assign_threads (next_thread(core := saturating_add (next_thread core) 1)) cpus)"

definition read_cpus :: "file_view \<Rightarrow> string \<Rightarrow> numa_node_observation list \<Rightarrow> probe_error + cpu_observation list" where
  "read_cpus v root numa_nodes =
     and_then (probe_read_trimmed v root ''sys/devices/system/cpu/online'') (\<lambda>text.
     and_then (parse_cpu_list text) (\<lambda>online.
     and_then (read_hardware_cpu_ids v root) (\<lambda>hardware_ids.
     and_then (traverse_list (read_cpu v root numa_nodes hardware_ids) online) (\<lambda>cpus.
       Inr (assign_threads (\<lambda>_. 0) cpus)))))"

section \<open>NUMA nodes and memory\<close>

definition read_numa_node :: "file_view \<Rightarrow> string \<Rightarrow> nat + string \<Rightarrow> probe_error + numa_node_observation option" where
  "read_numa_node v root entry =
     and_then (map_err (\<lambda>e. probe_failed (path_join root ''sys/devices/system/node'') (Probe_Read (Os_Error e))) entry)
       (\<lambda>raw. let name = to_string_lossy raw in
       case Option.bind (strip_prefix ''node'' name) parse_word of
         None \<Rightarrow> Inr None
       | Some ident \<Rightarrow>
           let relative = ''sys/devices/system/node/'' @ name in
           and_then (probe_read_trimmed v root (relative @ ''/cpulist'')) (\<lambda>cpulist.
           and_then (parse_cpu_list cpulist) (\<lambda>logical_cpu_ids.
           and_then (probe_read_trimmed v root (relative @ ''/meminfo'')) (\<lambda>memory.
           and_then (parse_kib_field memory ''MemTotal'') (\<lambda>total_bytes.
           and_then (parse_kib_field memory ''MemFree'') (\<lambda>free_bytes.
             Inr (Some \<lparr>no_id = ident, no_logical_cpu_ids = logical_cpu_ids,
                        no_total_memory_bytes = total_bytes, no_available_memory_bytes = free_bytes\<rparr>)))))))"

definition read_numa_nodes :: "file_view \<Rightarrow> string \<Rightarrow> probe_error + numa_node_observation list" where
  "read_numa_nodes v root =
     (let directory = path_join root ''sys/devices/system/node'' in
      and_then (map_err (\<lambda>e. probe_failed directory (Probe_Read (Os_Error e))) (fv_read_dir v directory)) (\<lambda>entries.
      map_ok (\<lambda>nodes. sort_key no_id (somes nodes)) (traverse_list (read_numa_node v root) entries)))"

definition read_host_memory :: "file_view \<Rightarrow> string \<Rightarrow> probe_error + host_memory_observation" where
  "read_host_memory v root =
     and_then (probe_read_trimmed v root ''proc/meminfo'') (\<lambda>contents.
     and_then (parse_kib_field contents ''MemTotal'') (\<lambda>total_bytes.
     and_then (case parse_kib_field contents ''MemAvailable'' of
                 Inr available \<Rightarrow> Inr available
               | Inl _ \<Rightarrow> parse_kib_field contents ''MemFree'') (\<lambda>available_bytes.
       Inr \<lparr>ho_total_bytes = total_bytes, ho_available_bytes = available_bytes\<rparr>)))"

definition observe_host :: "string \<Rightarrow> file_view \<Rightarrow> string \<Rightarrow> probe_error + linux_host_observation" where
  "observe_host arch v root =
     and_then (probe_read_trimmed v root ''proc/sys/kernel/osrelease'') (\<lambda>kernel_release.
     and_then (read_numa_nodes v root) (\<lambda>numa_nodes.
     and_then (read_cpus v root numa_nodes) (\<lambda>cpus.
     and_then (read_host_memory v root) (\<lambda>memory.
       Inr \<lparr>lo_kernel_release = kernel_release, lo_architecture = arch,
            lo_capabilities = host_capabilities v root, lo_cpus = cpus, lo_numa_nodes = numa_nodes,
            lo_memory = memory\<rparr>))))"

section \<open>Lists of processors\<close>

text \<open>The notation of the kernel: a single processor or an inclusive range, separated by commas.\<close>

fun show_range :: "u32 \<times> u32 \<Rightarrow> string" where
  "show_range (a, b) = (if a = b then show_word a else show_word a @ ''-'' @ show_word b)"

lemma distinct_remdups_adj: "sorted xs \<Longrightarrow> distinct (remdups_adj xs)"
  by (induction xs rule: remdups_adj.induct) (auto simp: antisym)

lemma parse_cpu_list_ordered:
  "parse_cpu_list s = Inr cpus \<Longrightarrow> sorted cpus \<and> distinct cpus"
  by (auto simp: parse_cpu_list_def result_iff distinct_remdups_adj)

lemma set_inclusive_range: "set (inclusive_range a b) = {a..b}"
proof -
  have "x \<in> of_nat ` {unat a..unat b} \<longleftrightarrow> x \<in> {a..b}" for x
  proof
    assume "x \<in> {a..b}"
    then have "unat x \<in> {unat a..unat b}" by (simp add: word_le_nat_alt)
    then show "x \<in> of_nat ` {unat a..unat b}" by (intro image_eqI [of _ _ "unat x"]) simp_all
  next
    assume "x \<in> of_nat ` {unat a..unat b}"
    then obtain n where n: "x = of_nat n" "unat a \<le> n" "n \<le> unat b" by auto
    have "n < 2 ^ 32" using n unsigned_less [of b, where 'a = nat] by simp
    then have "unat x = n" using n by (simp add: unat_of_nat take_bit_nat_eq_self)
    with n show "x \<in> {a..b}" by (simp add: word_le_nat_alt)
  qed
  then have "of_nat ` {unat a..unat b} = {a..b}" by blast
  then show ?thesis by (simp only: inclusive_range_def set_map set_upt atLeastLessThanSuc_atLeastAtMost)
qed

lemma show_word_no_dash: "CHR ''-'' \<notin> set (show_word w)"
  using show_word_digits [of "CHR ''-''" w] by (auto simp: is_ascii_digit_def byte_def)

lemma parse_show_range: "a \<le> b \<Longrightarrow> parse_cpu_part (show_range (a, b)) = Inr (inclusive_range a b)"
proof (cases "a = b")
  case True
  have "split_once CHR ''-'' (show_word a) = None"
    using show_word_no_dash [of a]
    by (cases "split_once CHR ''-'' (show_word a)") (auto simp: split_once_eq_Some)
  then show ?thesis using True
    by (simp add: parse_cpu_part_def parse_u32_value_def parse_word_show_word inclusive_range_def)
next
  case False
  assume "a \<le> b"
  have "split_once CHR ''-'' (show_word a @ ''-'' @ show_word b) = Some (show_word a, show_word b)"
    by (simp add: split_once_eq_Some show_word_no_dash)
  then show ?thesis using False \<open>a \<le> b\<close>
    by (simp add: parse_cpu_part_def parse_u32_value_def parse_word_show_word)
qed

lemma show_range_text:
  "show_range r \<noteq> []" "is_ascii_digit (hd (show_range r))" "is_ascii_digit (last (show_range r))"
  "CHR '','' \<notin> set (show_range r)"
proof -
  obtain a b where r: "r = (a, b)" by (cases r)
  have "is_ascii_digit (hd (show_word a))" "is_ascii_digit (last (show_word b))"
    "a = b \<Longrightarrow> is_ascii_digit (hd (show_word b))"
    using show_word_digits [OF hd_in_set, of a] show_word_digits [OF last_in_set, of b] by auto
  then show "show_range r \<noteq> []" "is_ascii_digit (hd (show_range r))" "is_ascii_digit (last (show_range r))"
    "CHR '','' \<notin> set (show_range r)"
    using r by (simp_all add: show_word_no_comma)
qed

lemma trim_show_range: "trim (show_range r) = show_range r"
  using show_range_text [of r] by (intro trim_alphanumeric) (simp_all add: is_ascii_alphanumeric_def)

lemma split_show_ranges:
  "filter (\<lambda>part. part \<noteq> []) (map trim (split_char CHR '','' (join '','' (map show_range rs)))) = map show_range rs"
proof (cases "rs = []")
  case True
  have "trim [] = []" by (simp add: trim_def trim_start.simps trim_end.simps leading_whitespace_def
      trailing_whitespace_def starts_with_def utf8_whitespace_def find_None_iff2)
  with True show ?thesis by simp
next
  case False
  then have "split_char CHR '','' (join '','' (map show_range rs)) = map show_range rs"
    by (intro split_char_join) (auto simp: show_range_text)
  then show ?thesis by (auto simp: trim_show_range show_range_text filter_id_conv comp_def)
qed

section \<open>Threads of a core\<close>

definition core_of :: "cpu_observation \<Rightarrow> u32 \<times> u32" where
  "core_of cpu = (co_package_id cpu, co_core_id cpu)"

lemma assign_threads_fields:
  "map co_logical_id (assign_threads next_thread cpus) = map co_logical_id cpus"
  "map core_of (assign_threads next_thread cpus) = map core_of cpus"
  by (induction next_thread cpus rule: assign_threads.induct) (simp_all add: core_of_def Let_def)

lemma assign_threads_Cons:
  "assign_threads next_thread (cpu # cpus) = cpu\<lparr>co_thread_index := next_thread (core_of cpu)\<rparr> #
     assign_threads (next_thread(core_of cpu := saturating_add (next_thread (core_of cpu)) 1)) cpus"
  by (simp add: core_of_def Let_def)

lemma assign_threads_index:
  "j < length cpus \<Longrightarrow> unat (co_thread_index (assign_threads next_thread cpus ! j))
     = min (unat (next_thread (core_of (cpus ! j)))
        + length (filter (\<lambda>c. core_of c = core_of (cpus ! j)) (take j cpus))) (2 ^ 32 - 1)"
proof (induction cpus arbitrary: next_thread j)
  case (Cons cpu cpus)
  have bound: "unat (next_thread (core_of cpu)) \<le> 2 ^ 32 - 1"
    using unsigned_less [of "next_thread (core_of cpu)", where 'a = nat] by simp
  show ?case
  proof (cases j)
    case 0
    then show ?thesis using bound unfolding assign_threads_Cons by simp
  next
    case (Suc i)
    then have "i < length cpus" using Cons.prems by simp
    define later where "later = next_thread(core_of cpu := saturating_add (next_thread (core_of cpu)) 1)"
    have "unat (later core) = (if core = core_of cpu then min (unat (next_thread core) + 1) (2 ^ 32 - 1)
        else unat (next_thread core))" for core
      by (simp add: later_def unat_saturating_add)
    with Cons.IH [OF \<open>i < length cpus\<close>, of later] show ?thesis
      unfolding assign_threads_Cons later_def [symmetric] by (auto simp: Suc)
  qed
qed simp

lemma filter_take_less:
  assumes "i < j" "j \<le> length xs" "p (xs ! i)"
  shows "length (filter p (take i xs)) < length (filter p (take j xs))"
proof -
  have "take j xs = take (Suc i) xs @ take (j - Suc i) (drop (Suc i) xs)"
    using assms(1) take_add [of "Suc i" "j - Suc i" xs] by simp
  moreover have "take (Suc i) xs = take i xs @ [xs ! i]"
    using assms by (simp add: take_Suc_conv_app_nth)
  ultimately show ?thesis using assms(3) by simp
qed

lemma distinct_words_length: "distinct (xs :: u32 list) \<Longrightarrow> length xs \<le> 2 ^ 32"
proof -
  assume "distinct xs"
  have "inj_on unat (set xs)" by (rule inj_onI) (simp add: word_eq_iff_unsigned [where 'a = nat])
  with \<open>distinct xs\<close> have "length xs = card (unat ` set xs)" by (simp add: card_image distinct_card)
  also have "\<dots> \<le> card {..<2 ^ 32 :: nat}"
    using unsigned_less [where 'a = nat and 'b = 32] by (intro card_mono) auto
  finally show ?thesis by simp
qed

lemma read_cpus_logical:
  assumes "list_all2 (\<lambda>i cpu. read_cpu v root nodes ids i = Inr cpu) online cpus"
  shows "map co_logical_id cpus = online"
  using assms by (induction rule: list_all2_induct) (auto simp: read_cpu_def result_iff Let_def)

lemma assigned_thread_index:
  assumes len: "length cpus \<le> 2 ^ 32" and j: "j < length (assign_threads (\<lambda>_. 0) cpus)"
  defines "out \<equiv> assign_threads (\<lambda>_. 0) cpus"
  shows "unat (co_thread_index (out ! j)) = length (filter (\<lambda>c. core_of c = core_of (out ! j)) (take j out))"
proof -
  have cores: "map core_of out = map core_of cpus" by (simp add: out_def assign_threads_fields)
  then have same: "length out = length cpus" by (metis length_map)
  have j': "j < length cpus" using j same by (simp add: out_def)
  have core: "core_of (cpus ! j) = core_of (out ! j)"
    using arg_cong [OF cores, of "\<lambda>xs. xs ! j"] j' same by simp
  have count: "length (filter (\<lambda>c. core_of c = k) (take j cpus)) = length (filter (\<lambda>c. core_of c = k) (take j out))" for k
    using arg_cong [OF cores, of "\<lambda>xs. length (filter (\<lambda>c. c = k) (take j xs))"]
    by (simp add: take_map filter_map comp_def)
  have "length (filter p (take j out)) \<le> 2 ^ 32 - 1" for p
    using length_filter_le [of p "take j out"] j' len same by simp
  then show ?thesis
    using assign_threads_index [OF j', of "\<lambda>_. 0"] unfolding out_def [symmetric] core count by simp
qed

lemma assigned_threads_distinct:
  assumes "length cpus \<le> 2 ^ 32"
  shows "distinct (map (\<lambda>c. (core_of c, co_thread_index c)) (assign_threads (\<lambda>_. 0) cpus))"
proof -
  let ?out = "assign_threads (\<lambda>_. 0) cpus"
  have "(core_of (?out ! i), co_thread_index (?out ! i)) \<noteq> (core_of (?out ! j), co_thread_index (?out ! j))"
    if "i < j" "j < length ?out" for i j
    using that assigned_thread_index [OF assms, of i] assigned_thread_index [OF assms, of j]
      filter_take_less [of i j ?out "\<lambda>c. core_of c = core_of (?out ! i)"] by auto
  then show ?thesis
    unfolding distinct_conv_nth length_map by (simp add: nth_map) (metis linorder_neqE_nat)
qed

section \<open>Properties\<close>

text \<open>Whatever list of single processors and ranges the kernel prints, parsing it succeeds and gives
  exactly the processors in the ranges, in increasing order and without repetition, even when the
  ranges overlap or are out of order.\<close>

theorem cpu_ranges_round_trip:
  assumes "\<forall>(a, b) \<in> set rs. a \<le> b"
  shows "\<exists>cpus. parse_cpu_list (join '','' (map show_range rs)) = Inr cpus \<and>
    sorted cpus \<and> distinct cpus \<and> set cpus = (\<Union>(a, b) \<in> set rs. {a..b})"
proof -
  have "traverse_list parse_cpu_part (map show_range rs) = Inr (map (\<lambda>(a, b). inclusive_range a b) rs)"
    using assms by (induction rs) (auto simp: parse_show_range simp del: show_range.simps)
  then have parsed: "parse_cpu_list (join '','' (map show_range rs))
      = Inr (remdups_adj (sort (concat (map (\<lambda>(a, b). inclusive_range a b) rs))))"
    by (simp only: parse_cpu_list_def split_show_ranges map_ok.simps)
  show ?thesis
    unfolding parsed by (auto simp: distinct_remdups_adj set_inclusive_range)
qed

text \<open>The processors of an observation are in increasing order of their logical number, which
  identifies them, and so do package, core and thread: the thread index is the number of earlier
  processors of the same core, with no wrap-around at 32 bits.\<close>

theorem observed_cpus_identified:
  assumes "observe_host arch v root = Inr observed"
  shows "sorted (map co_logical_id (lo_cpus observed)) \<and> distinct (map co_logical_id (lo_cpus observed)) \<and>
    (\<forall>j < length (lo_cpus observed). unat (co_thread_index (lo_cpus observed ! j))
       = length (filter (\<lambda>c. core_of c = core_of (lo_cpus observed ! j)) (take j (lo_cpus observed)))) \<and>
    distinct (map (\<lambda>c. (core_of c, co_thread_index c)) (lo_cpus observed))"
proof -
  obtain nodes listing online ids cpus where online: "parse_cpu_list listing = Inr online"
    and read: "list_all2 (\<lambda>i cpu. read_cpu v root nodes ids i = Inr cpu) online cpus"
    and lo: "lo_cpus observed = assign_threads (\<lambda>_. 0) cpus"
    using assms by (auto simp: observe_host_def read_cpus_def result_iff traverse_list_eq_Inr)
  note logical = read_cpus_logical [OF read]
  have order: "sorted (map co_logical_id (lo_cpus observed))" "distinct (map co_logical_id (lo_cpus observed))"
    using parse_cpu_list_ordered [OF online] by (simp_all add: lo assign_threads_fields logical)
  have "length cpus \<le> 2 ^ 32"
    using distinct_words_length [OF order(2)] assign_threads_fields(1) [of "\<lambda>_. 0" cpus] lo
    by (metis length_map)
  from order assigned_thread_index [OF this] assigned_threads_distinct [OF this] show ?thesis
    unfolding lo by blast
qed

lemma digit_chars:
  "digit_char 0 = CHR ''0''" "digit_char 1 = CHR ''1''" "digit_char (Suc 0) = CHR ''1''"
  "digit_char 2 = CHR ''2''" "digit_char 3 = CHR ''3''" "digit_char 4 = CHR ''4''"
  by code_simp+

theorem cpu_ranges_round_trip_witness:
  "\<exists>cpus. parse_cpu_list ''4,0-2,1-3'' = Inr cpus \<and> sorted cpus \<and> distinct cpus \<and> set cpus = {0..4}"
proof -
  have listing: "join '','' (map show_range [(4, 4), (0, 2), (1, 3)]) = ''4,0-2,1-3''"
    by (simp add: show_word_def show_nat.simps digit_chars)
  have "(\<Union>(a, b) \<in> set [(4, 4), (0, 2), (1, 3)]. {a..b}) = {0..4 :: u32}"
    by (auto simp: word_le_nat_alt word_eq_iff_unsigned [where 'a = nat])
  then show ?thesis
    using cpu_ranges_round_trip [of "[(4, 4), (0, 2), (1, 3)]"] unfolding listing by simp
qed

text \<open>A host with two threads of one core.\<close>

definition two_fields :: string where
  "two_fields = ''MemTotal: 8 kB'' @ [CHR 0x0A] @ ''MemFree: 8 kB''"

definition two_threads :: file_view where
  "two_threads =
     \<lparr>fv_read = (\<lambda>p. if p = ''/proc/sys/kernel/osrelease'' then Inr ''7.0.0''
        else if p = ''/sys/devices/system/cpu/online'' then Inr ''0-1''
        else if p = ''/proc/meminfo'' then Inr two_fields
        else Inr ''0''),
      fv_read_dir = (\<lambda>_. Inr []), fv_is_dir = (\<lambda>_. Inr True), fv_canonicalize = (\<lambda>_. Inl ENOENT),
      fv_exists = (\<lambda>_. True), fv_read_link = (\<lambda>_. Inl ENOENT)\<rparr>"

lemma two_threads_texts:
  "probe_read_trimmed two_threads ''/'' ''proc/sys/kernel/osrelease'' = Inr ''7.0.0''"
  "probe_read_trimmed two_threads ''/'' ''sys/devices/system/cpu/online'' = Inr ''0-1''"
  "probe_read_trimmed two_threads ''/'' ''proc/cpuinfo'' = Inr ''0''"
  "probe_read_trimmed two_threads ''/'' ''sys/devices/system/cpu/cpu0/topology/physical_package_id'' = Inr ''0''"
  "probe_read_trimmed two_threads ''/'' ''sys/devices/system/cpu/cpu0/topology/core_id'' = Inr ''0''"
  "probe_read_trimmed two_threads ''/'' ''sys/devices/system/cpu/cpu1/topology/physical_package_id'' = Inr ''0''"
  "probe_read_trimmed two_threads ''/'' ''sys/devices/system/cpu/cpu1/topology/core_id'' = Inr ''0''"
  "probe_read_trimmed two_threads ''/'' ''proc/meminfo'' = Inr two_fields"
  "str_lines two_fields = [''MemTotal: 8 kB'', ''MemFree: 8 kB'']"
  "List.map_filter hardware_cpu_id (split_blank_lines ''0'') = []"
  by code_simp+

lemma two_threads_words:
  "split_whitespace ''MemTotal'' = [''MemTotal'']" "split_whitespace ''MemFree'' = [''MemFree'']"
  "split_whitespace '' 8 kB'' = [''8'', ''kB'']"
  by code_simp+

lemma two_threads_online: "parse_cpu_list ''0-1'' = Inr [0, 1]"
proof -
  have "trim ''0-1'' = ''0-1''" by code_simp
  then show ?thesis
    by (simp add: parse_cpu_list_def parse_cpu_part_def parse_u32_value_def parse_word_def parse_unsigned_def
        is_ascii_digit_def byte_def inclusive_range_def)
qed

theorem observed_cpus_identified_witness:
  "\<exists>observed. observe_host ''x86_64'' two_threads ''/'' = Inr observed \<and>
     map co_logical_id (lo_cpus observed) = [0, 1] \<and>
     distinct (map (\<lambda>c. (core_of c, co_thread_index c)) (lo_cpus observed))"
proof -
  have zero: "parse_word ''0'' = Some (0 :: u32)" "parse_word ''8'' = Some (8 :: u64)"
    "checked_mul 8 1024 = Some (8192 :: u64)"
    by (simp_all add: parse_word_def parse_unsigned_def is_ascii_digit_def byte_def checked_mul_def)
  have cpus: "show_word (0 :: u32) = ''0''" "show_word (1 :: u32) = ''1''"
    by (simp_all add: show_word_def show_nat.simps digit_chars)
  have "read_numa_nodes two_threads ''/'' = Inr []"
    by (simp add: read_numa_nodes_def two_threads_def Let_def List.map_filter_def)
  moreover have "\<exists>cpus. read_cpus two_threads ''/'' [] = Inr cpus \<and> map co_logical_id cpus = [0, 1]"
    by (simp add: read_cpus_def two_threads_texts two_threads_online read_hardware_cpu_ids_def read_cpu_def
        read_u32_def Let_def cpus zero)
  moreover have "\<exists>memory. read_host_memory two_threads ''/'' = Inr memory"
    by (simp add: read_host_memory_def two_threads_texts parse_kib_field_def two_threads_words parse_u64_value_def zero)
  ultimately obtain observed where "observe_host ''x86_64'' two_threads ''/'' = Inr observed"
    "map co_logical_id (lo_cpus observed) = [0, 1]"
    by (auto simp: observe_host_def two_threads_texts)
  with observed_cpus_identified [OF this(1)] show ?thesis by (intro exI [of _ observed] conjI) simp_all
qed

end
