(* ===== verification/Multikernel_Probe.thy ===== *)
theory Multikernel_Probe
  imports Inventory Host_Files "HOL-Library.Multiset"
begin

text \<open>
  Multikernel discovery, \<open>crates/kernmux-core/src/multikernel.rs\<close>: the resource pool, the instances and
  the transactions that the kernel exports below \<open>root\<close> in the view \<open>v\<close>.  The device-tree parser is a
  library: \<open>fdt_library\<close> holds its calls, a node is its name, its properties and its children.  An
  error keeps the location and the values that its message prints.
\<close>

section \<open>Device trees\<close>

datatype fdt_node =
  Fdt_Node (node_name: string) (node_property: "string \<Rightarrow> u8 list option") (node_children: "fdt_node list")

record 't fdt_library =
  fdt_new :: "string \<Rightarrow> string + 't"
  fdt_find_node :: "'t \<Rightarrow> string \<Rightarrow> fdt_node option"
  fdt_all_nodes :: "'t \<Rightarrow> fdt_node list"
  fdt_as_str :: "u8 list \<Rightarrow> string option"

section \<open>Errors\<close>

datatype inventory_failure =
    Inventory_Read read_error
  | Bad_Tree string
  | Missing_Property string
  | Not_Cells string
  | Not_One_Cell string
  | Not_Two_Cells string
  | Not_Pairs string
  | Hardware_Id_Too_Large string
  | Bad_Property_String string
  | Bad_Memory_Reg nat
  | Missing_Resources
  | Bad_Instance_Id string
  | Bad_Transaction_Id string
  | Unknown_Instance_State string
  | Unknown_Transaction_Status string
  | No_Group_Id
  | Bad_Group_Id string

record inventory_error =
  ie_location :: string
  ie_detail :: inventory_failure

definition inventory_failed :: "string \<Rightarrow> inventory_failure \<Rightarrow> inventory_error" where
  "inventory_failed location detail = \<lparr>ie_location = location, ie_detail = detail\<rparr>"

abbreviation tree_failed :: "inventory_failure \<Rightarrow> inventory_error" where
  "tree_failed \<equiv> inventory_failed ''device_tree''"

section \<open>Properties of nodes\<close>

text \<open>\<open>as_chunks\<close> on a length that the chunk divides.\<close>

fun chunks :: "nat \<Rightarrow> 'a list \<Rightarrow> 'a list list" where
  "chunks n xs = (if n = 0 \<or> length xs < n then [] else take n xs # chunks n (drop n xs))"

declare chunks.simps [simp del]

definition join_cells :: "u32 \<Rightarrow> u32 \<Rightarrow> u64" where
  "join_cells high low = or (push_bit 32 (ucast high)) (ucast low)"

definition property_cells :: "u8 list option \<Rightarrow> string \<Rightarrow> inventory_error + u32 list" where
  "property_cells prop name =
     and_then (ok_or (tree_failed (Missing_Property name)) prop) (\<lambda>value.
       if length value mod 4 \<noteq> 0 then Inl (tree_failed (Not_Cells name))
       else Inr (map (\<lambda>chunk. of_nat (from_be_bytes chunk)) (chunks 4 value)))"

definition property_u32 :: "u8 list option \<Rightarrow> string \<Rightarrow> inventory_error + u32" where
  "property_u32 prop name =
     and_then (property_cells prop name) (\<lambda>cells.
       case cells of [value] \<Rightarrow> Inr value | _ \<Rightarrow> Inl (tree_failed (Not_One_Cell name)))"

definition property_optional_u32 :: "u8 list option \<Rightarrow> string \<Rightarrow> inventory_error + u32 option" where
  "property_optional_u32 prop name = traverse_option (\<lambda>value. property_u32 (Some value) name) prop"

definition property_string :: "'t fdt_library \<Rightarrow> u8 list option \<Rightarrow> string \<Rightarrow> inventory_error + string" where
  "property_string lib prop name =
     ok_or (tree_failed (Bad_Property_String name)) (Option.bind prop (fdt_as_str lib))"

definition property_u64 :: "u8 list option \<Rightarrow> string \<Rightarrow> inventory_error + u64" where
  "property_u64 prop name =
     and_then (property_cells prop name) (\<lambda>cells.
       case cells of [high, low] \<Rightarrow> Inr (join_cells high low) | _ \<Rightarrow> Inl (tree_failed (Not_Two_Cells name)))"

definition hardware_id :: "string \<Rightarrow> u32 list \<Rightarrow> inventory_error + u32" where
  "hardware_id name pair =
     (let value = join_cells (pair ! 0) (pair ! 1) in
      if unat value < 2 ^ 32 then Inr (ucast value) else Inl (tree_failed (Hardware_Id_Too_Large name)))"

definition property_hardware_ids :: "u8 list option \<Rightarrow> string \<Rightarrow> inventory_error + u32 list" where
  "property_hardware_ids prop name =
     (case prop of
        None \<Rightarrow> Inr []
      | Some value \<Rightarrow>
          and_then (property_cells (Some value) name) (\<lambda>cells.
            if cells = [0, 0] then Inr []
            else if length cells mod 2 \<noteq> 0 then Inl (tree_failed (Not_Pairs name))
            else traverse_list (hardware_id name) (chunks 2 cells)))"

section \<open>Reading\<close>

definition inventory_read :: "file_view \<Rightarrow> string \<Rightarrow> string \<Rightarrow> inventory_error + string" where
  "inventory_read v root relative =
     (let path = path_join root relative in
      map_err (\<lambda>e. inventory_failed path (Inventory_Read (Os_Error e))) (fv_read v path))"

definition inventory_read_trimmed :: "file_view \<Rightarrow> string \<Rightarrow> string \<Rightarrow> inventory_error + string" where
  "inventory_read_trimmed v root relative =
     (let path = path_join root relative in
      map_ok trim (map_err (\<lambda>e. inventory_failed path (Inventory_Read e)) (read_to_string v path)))"

definition read_optional_trimmed :: "file_view \<Rightarrow> string \<Rightarrow> string \<Rightarrow> inventory_error + string option" where
  "read_optional_trimmed v root relative =
     (let path = path_join root relative in
      case read_to_string v path of
        Inr contents \<Rightarrow> Inr (Some (trim contents))
      | Inl e \<Rightarrow> if e = Os_Error ENOENT then Inr None else Inl (inventory_failed path (Inventory_Read e)))"

definition inventory_read_dir :: "file_view \<Rightarrow> string \<Rightarrow> inventory_error + (nat + string) list" where
  "inventory_read_dir v directory =
     map_err (\<lambda>e. inventory_failed directory (Inventory_Read (Os_Error e))) (fv_read_dir v directory)"

definition inventory_entry :: "string \<Rightarrow> nat + string \<Rightarrow> inventory_error + string" where
  "inventory_entry directory entry =
     map_err (\<lambda>e. inventory_failed directory (Inventory_Read (Os_Error e))) entry"

definition entry_is_dir :: "file_view \<Rightarrow> string \<Rightarrow> string \<Rightarrow> inventory_error + bool" where
  "entry_is_dir v directory raw =
     (let path = path_join directory raw in
      map_err (\<lambda>e. inventory_failed path (Inventory_Read (Os_Error e))) (fv_is_dir v path))"

definition parse_fdt :: "'t fdt_library \<Rightarrow> string \<Rightarrow> string \<Rightarrow> inventory_error + 't" where
  "parse_fdt lib bytes location = map_err (\<lambda>e. inventory_failed location (Bad_Tree e)) (fdt_new lib bytes)"

definition read_iommu_group :: "file_view \<Rightarrow> string \<Rightarrow> string \<Rightarrow> inventory_error + (u32 \<times> string list) option" where
  "read_iommu_group v root pci_id =
     (let link = path_join root (''sys/bus/pci/devices/'' @ pci_id @ ''/iommu_group'') in
      case fv_read_link v link of
        Inl e \<Rightarrow> if e = ENOENT then Inr None else Inl (inventory_failed link (Inventory_Read (Os_Error e)))
      | Inr target \<Rightarrow>
          and_then (ok_or (inventory_failed link No_Group_Id)
              (Option.bind (path_file_name target) to_str)) (\<lambda>name.
          and_then (ok_or (inventory_failed link (Bad_Group_Id name)) (parse_word name)) (\<lambda>ident.
          let directory = path_join root (''sys/kernel/iommu_groups/'' @ show_word (ident :: u32) @ ''/devices'') in
          and_then (inventory_read_dir v directory) (\<lambda>entries.
          and_then (traverse_list (\<lambda>entry. map_ok to_string_lossy (inventory_entry directory entry)) entries) (\<lambda>members.
            Inr (Some (ident, sort members)))))))"

definition read_device :: "'t fdt_library \<Rightarrow> file_view \<Rightarrow> string \<Rightarrow> fdt_node \<Rightarrow>
    inventory_error + pci_device_observation" where
  "read_device lib v root node =
     and_then (property_string lib (node_property node ''pci-id'') ''pci-id'') (\<lambda>pci_id.
     and_then (read_iommu_group v root pci_id) (\<lambda>iommu_group.
     and_then (property_optional_u32 (node_property node ''vendor-id'') ''vendor-id'') (\<lambda>vendor_id.
     and_then (property_optional_u32 (node_property node ''device-id'') ''device-id'') (\<lambda>device_id.
       Inr \<lparr>po_pool_name = node_name node, po_pci_id = pci_id, po_vendor_id = vendor_id,
            po_device_id = device_id, po_iommu_group = map_option fst iommu_group,
            po_iommu_group_members = (case iommu_group of None \<Rightarrow> [] | Some (_, members) \<Rightarrow> members)\<rparr>))))"

definition read_devices :: "'t fdt_library \<Rightarrow> file_view \<Rightarrow> string \<Rightarrow> fdt_node \<Rightarrow>
    inventory_error + pci_device_observation list" where
  "read_devices lib v root resources =
     (case find (\<lambda>node. node_name node = ''devices'') (node_children resources) of
        None \<Rightarrow> Inr []
      | Some devices \<Rightarrow> traverse_list (read_device lib v root) (node_children devices))"

section \<open>The resource pool\<close>

definition read_memory_region :: "fdt_node \<Rightarrow> inventory_error + memory_region_observation" where
  "read_memory_region node =
     and_then (property_cells (node_property node ''reg'') ''reg'') (\<lambda>cells.
       if length cells \<noteq> 4 then Inl (tree_failed (Bad_Memory_Reg (length cells)))
       else
       and_then (property_u32 (node_property node ''numa-node-id'') ''numa-node-id'') (\<lambda>numa_node.
         Inr \<lparr>mo_base = join_cells (cells ! 0) (cells ! 1), mo_bytes = join_cells (cells ! 2) (cells ! 3),
              mo_numa_node = numa_node\<rparr>))"

definition read_resource_pool :: "'t fdt_library \<Rightarrow> file_view \<Rightarrow> string \<Rightarrow>
    inventory_error + resource_pool_observation" where
  "read_resource_pool lib v root =
     (let relative = ''sys/fs/multikernel/device_tree'' in
      and_then (inventory_read v root relative) (\<lambda>bytes.
      and_then (parse_fdt lib bytes (path_join root relative)) (\<lambda>tree.
      case fdt_find_node lib tree ''/resources'' of
        None \<Rightarrow> Inr \<lparr>ro_cpu_hardware_ids = [], ro_available_cpu_hardware_ids = [], ro_memory_regions = [],
                     ro_devices = []\<rparr>
      | Some resources \<Rightarrow>
          and_then (property_hardware_ids (node_property resources ''cpus'') ''cpus'') (\<lambda>cpus.
          and_then (property_hardware_ids (node_property resources ''cpus-available'') ''cpus-available'')
            (\<lambda>available.
          and_then (traverse_list read_memory_region
              (filter (\<lambda>node. starts_with (node_name node) ''memory@'') (node_children resources))) (\<lambda>regions.
          and_then (read_devices lib v root resources) (\<lambda>devices.
            Inr \<lparr>ro_cpu_hardware_ids = sort cpus, ro_available_cpu_hardware_ids = sort available,
                 ro_memory_regions = sort_key mo_base regions, ro_devices = devices\<rparr>)))))))"

section \<open>Instances\<close>

definition parse_instance_state :: "string \<Rightarrow> inventory_error + instance_lifecycle_state" where
  "parse_instance_state value =
     (if value = ''ready'' then Inr Ready_Observed
      else if value = ''loaded'' then Inr Loaded_Observed
      else if value = ''active'' then Inr Active_Observed
      else Inl (inventory_failed ''status'' (Unknown_Instance_State value)))"

definition instances_path :: string where
  "instances_path = ''sys/fs/multikernel/instances''"

definition find_resources :: "'t fdt_library \<Rightarrow> string \<Rightarrow> 't \<Rightarrow> fdt_node option" where
  "find_resources lib name tree =
     (case fdt_find_node lib tree (''/'' @ name @ ''/resources'') of
        Some node \<Rightarrow> Some node
      | None \<Rightarrow> find (\<lambda>node. node_name node = ''resources'') (fdt_all_nodes lib tree))"

definition read_instance :: "'t fdt_library \<Rightarrow> file_view \<Rightarrow> string \<Rightarrow> string \<Rightarrow>
    inventory_error + instance_observation" where
  "read_instance lib v root name =
     (let base = instances_path @ ''/'' @ name in
      and_then (inventory_read_trimmed v root (base @ ''/id'')) (\<lambda>id_text.
      and_then (ok_or (inventory_failed base (Bad_Instance_Id id_text)) (parse_word id_text)) (\<lambda>ident.
      and_then (inventory_read_trimmed v root (base @ ''/status'')) (\<lambda>status.
      and_then (parse_instance_state status) (\<lambda>state.
      let device_tree_path = base @ ''/device_tree'' in
      and_then (inventory_read v root device_tree_path) (\<lambda>bytes.
      and_then (parse_fdt lib bytes (path_join root device_tree_path)) (\<lambda>tree.
      and_then (ok_or (inventory_failed device_tree_path Missing_Resources) (find_resources lib name tree))
        (\<lambda>resources.
      and_then (property_hardware_ids (node_property resources ''cpus'') ''cpus'') (\<lambda>cpus.
      and_then (property_u64 (node_property resources ''memory-base'') ''memory-base'') (\<lambda>memory_base.
      and_then (property_u64 (node_property resources ''memory-bytes'') ''memory-bytes'') (\<lambda>memory_bytes.
      and_then (read_devices lib v root resources) (\<lambda>devices.
        Inr \<lparr>io_id = ident, io_name = name, io_state = state,
             io_resources = \<lparr>iro_cpu_hardware_ids = sort cpus, iro_memory_base = memory_base,
                             iro_memory_bytes = memory_bytes, iro_devices = devices\<rparr>,
             io_image = \<lparr>ko_present = (state = Loaded_Observed \<or> state = Active_Observed)\<rparr>\<rparr>))))))))))))"

definition read_instance_entry :: "'t fdt_library \<Rightarrow> file_view \<Rightarrow> string \<Rightarrow> nat + string \<Rightarrow>
    inventory_error + instance_observation option" where
  "read_instance_entry lib v root entry =
     (let directory = path_join root instances_path in
      and_then (inventory_entry directory entry) (\<lambda>raw.
      and_then (entry_is_dir v directory raw) (\<lambda>is_dir.
        if \<not> is_dir then Inr None else map_ok Some (read_instance lib v root (to_string_lossy raw)))))"

definition read_instances :: "'t fdt_library \<Rightarrow> file_view \<Rightarrow> string \<Rightarrow>
    inventory_error + instance_observation list" where
  "read_instances lib v root =
     and_then (inventory_read_dir v (path_join root instances_path)) (\<lambda>entries.
     map_ok (\<lambda>instances. sort_key io_id (somes instances))
       (traverse_list (read_instance_entry lib v root) entries))"

section \<open>Transactions\<close>

definition parse_transaction_status :: "string \<Rightarrow> inventory_error + transaction_status" where
  "parse_transaction_status value =
     (if value = ''pending'' then Inr Pending
      else if value = ''applied'' then Inr Applied
      else if value = ''rolled_back'' \<or> value = ''rolled-back'' then Inr RolledBack
      else if value = ''failed'' then Inr Failed_Status
      else Inl (inventory_failed ''transaction status'' (Unknown_Transaction_Status value)))"

definition overlays_path :: string where
  "overlays_path = ''sys/fs/multikernel/overlays''"

definition read_transaction :: "file_view \<Rightarrow> string \<Rightarrow> string \<Rightarrow> inventory_error + transaction_observation" where
  "read_transaction v root name =
     (let base = overlays_path @ ''/'' @ name in
      and_then (inventory_read_trimmed v root (base @ ''/id'')) (\<lambda>id_text.
      and_then (ok_or (inventory_failed base (Bad_Transaction_Id id_text)) (parse_word id_text)) (\<lambda>ident.
      and_then (inventory_read_trimmed v root (base @ ''/status'')) (\<lambda>status_text.
      and_then (parse_transaction_status status_text) (\<lambda>status.
      and_then (read_optional_trimmed v root (base @ ''/instance'')) (\<lambda>instance_path.
      and_then (read_optional_trimmed v root (base @ ''/resources'')) (\<lambda>resources.
        Inr \<lparr>to_id = ident, to_status = status, to_instance_path = instance_path,
             to_resource_summary = (if resources = Some ''unknown'' then None else resources)\<rparr>)))))))"

definition read_transaction_entry :: "file_view \<Rightarrow> string \<Rightarrow> nat + string \<Rightarrow>
    inventory_error + transaction_observation option" where
  "read_transaction_entry v root entry =
     (let directory = path_join root overlays_path in
      and_then (inventory_entry directory entry) (\<lambda>raw.
      and_then (entry_is_dir v directory raw) (\<lambda>is_dir.
        if \<not> is_dir \<or> \<not> starts_with (to_string_lossy raw) ''tx_'' then Inr None
        else map_ok Some (read_transaction v root (to_string_lossy raw)))))"

definition read_transactions :: "file_view \<Rightarrow> string \<Rightarrow> inventory_error + transaction_observation list" where
  "read_transactions v root =
     and_then (inventory_read_dir v (path_join root overlays_path)) (\<lambda>entries.
     map_ok (\<lambda>transactions. sort_key to_id (somes transactions))
       (traverse_list (read_transaction_entry v root) entries))"

definition observe_multikernel :: "'t fdt_library \<Rightarrow> file_view \<Rightarrow> string \<Rightarrow> inventory_error + multikernel_observation" where
  "observe_multikernel lib v root =
     and_then (read_resource_pool lib v root) (\<lambda>pool.
     and_then (read_instances lib v root) (\<lambda>instances.
     and_then (read_transactions v root) (\<lambda>transactions.
       Inr \<lparr>mk_pool = pool, mk_instances = instances, mk_transactions = transactions\<rparr>)))"

section \<open>Cells\<close>

text \<open>The encoding of a list of hardware identifiers: for each two big-endian cells, the high one zero.\<close>

definition hardware_cells :: "u32 list \<Rightarrow> u8 list" where
  "hardware_cells ids = concat (map to_be_bytes (concat (map (\<lambda>i. [0, i]) ids)))"

lemma chunks_concat: "0 < n \<Longrightarrow> \<forall>xs \<in> set xss. length xs = n \<Longrightarrow> chunks n (concat xss) = xss"
  by (induction xss) (simp_all add: chunks.simps)

lemma length_to_be_bytes [simp]: "length (to_be_bytes w) = 4"
  by (simp add: to_be_bytes_def)

lemma property_cells_encoded: "property_cells (Some (concat (map to_be_bytes ws))) name = Inr ws"
proof -
  have "chunks 4 (concat (map to_be_bytes ws)) = map to_be_bytes ws" by (rule chunks_concat) auto
  moreover have "length (concat (map to_be_bytes ws)) mod 4 = 0" by (induction ws) simp_all
  ultimately show ?thesis by (simp add: property_cells_def comp_def from_be_to_be)
qed

lemma hardware_id_encoded: "hardware_id name [0, i] = Inr i"
proof -
  have "unat (ucast i :: u64) = unat i" by (simp add: unsigned_ucast_eq take_bit_nat_eq_self_iff)
      (use unsigned_less [of i, where 'a = nat] in simp)
  moreover have "ucast (ucast i :: u64) = i" by (rule ucast_up_ucast_id) (simp add: is_up)
  ultimately show ?thesis
    using unsigned_less [of i, where 'a = nat] by (simp add: hardware_id_def join_cells_def)
qed

section \<open>Directory entries\<close>

lemma read_instance_name: "read_instance lib v root name = Inr i \<Longrightarrow> io_name i = name"
  by (auto simp: read_instance_def result_iff Let_def)

text \<open>The entries of a directory that are directories.\<close>

definition subdirectories :: "file_view \<Rightarrow> string \<Rightarrow> (nat + string) list \<Rightarrow> string list" where
  "subdirectories v directory entries =
     concat (map (\<lambda>entry. case entry of Inr raw \<Rightarrow> if fv_is_dir v (path_join directory raw) = Inr True then [raw] else []
        | Inl _ \<Rightarrow> []) entries)"

lemma subdirectories_Cons:
  "subdirectories v directory (Inr raw # entries) =
     (if fv_is_dir v (path_join directory raw) = Inr True then [raw] else []) @ subdirectories v directory entries"
  by (simp add: subdirectories_def)

lemma read_instance_entry_eq_Inr:
  "read_instance_entry lib v root entry = Inr x \<longleftrightarrow>
     (\<exists>raw b. entry = Inr raw \<and> fv_is_dir v (path_join (path_join root instances_path) raw) = Inr b \<and>
       (if b then \<exists>i. read_instance lib v root (to_string_lossy raw) = Inr i \<and> x = Some i else x = None))"
  by (cases entry) (auto simp: read_instance_entry_def inventory_entry_def entry_is_dir_def Let_def result_iff
      split: if_splits)

lemma read_instance_entries:
  "traverse_list (read_instance_entry lib v root) entries = Inr found \<Longrightarrow>
     list_all2 (\<lambda>raw i. read_instance lib v root (to_string_lossy raw) = Inr i)
       (subdirectories v (path_join root instances_path) entries) (somes found)"
proof (induction entries arbitrary: found)
  case (Cons entry entries)
  then obtain x rest where found: "found = x # rest" and x: "read_instance_entry lib v root entry = Inr x"
    and rest: "traverse_list (read_instance_entry lib v root) entries = Inr rest" by (auto simp: result_iff)
  from Cons.IH [OF rest] x show ?case
    unfolding read_instance_entry_eq_Inr found
    by (auto simp: subdirectories_Cons split: if_splits)
qed (simp add: subdirectories_def)

section \<open>Properties\<close>

text \<open>Decoding the cells of a device tree gives back the hardware identifiers that were encoded,
  with one exception: the encoding of processor 0 alone is read as the empty list, which the kernel
  encodes in the same way.\<close>

theorem hardware_ids_round_trip:
  "property_hardware_ids (Some (hardware_cells ids)) name = Inr (if ids = [0] then [] else ids)"
proof -
  have pairs: "chunks 2 (concat (map (\<lambda>i. [0, i]) ids)) = map (\<lambda>i. [0, i]) ids" by (rule chunks_concat) auto
  have decoded: "traverse_list (hardware_id name) (map (\<lambda>i. [0, i]) ids) = Inr ids"
    by (induction ids) (simp_all add: hardware_id_encoded)
  have "concat (map (\<lambda>i. [0, i]) ids) = [0, 0] \<longleftrightarrow> ids = [0]" by (cases ids; cases "tl ids") auto
  moreover have "length (concat (map (\<lambda>i. [0, i]) ids)) mod 2 = 0" by (induction ids) simp_all
  ultimately show ?thesis
    by (simp add: property_hardware_ids_def hardware_cells_def property_cells_encoded pairs decoded
        del: map_concat)
qed

text \<open>A successful observation misses no instance and invents none: up to order its instances are
  exactly the directories that the kernel exports, each read in full, in increasing order of their
  identifiers, and an image is present exactly when the instance is loaded or active.  An unreadable
  directory entry, an unknown state or a broken device tree makes the observation fail.\<close>

theorem observed_instances_complete:
  assumes "observe_multikernel lib v root = Inr observed"
  shows "\<exists>entries instances. fv_read_dir v (path_join root instances_path) = Inr entries \<and>
    list_all2 (\<lambda>raw i. read_instance lib v root (to_string_lossy raw) = Inr i)
      (subdirectories v (path_join root instances_path) entries) instances \<and>
    mset (mk_instances observed) = mset instances \<and>
    sorted (map io_id (mk_instances observed)) \<and>
    (\<forall>i \<in> set (mk_instances observed). ko_present (io_image i) \<longleftrightarrow> io_state i \<noteq> Ready_Observed)"
proof -
  obtain entries found where e: "fv_read_dir v (path_join root instances_path) = Inr entries"
    and f: "traverse_list (read_instance_entry lib v root) entries = Inr found"
    and i: "mk_instances observed = sort_key io_id (somes found)"
    using assms by (auto simp: observe_multikernel_def read_instances_def inventory_read_dir_def result_iff)
  have image: "read_instance lib v root name = Inr x \<Longrightarrow> ko_present (io_image x) \<longleftrightarrow> io_state x \<noteq> Ready_Observed"
    for name x by (cases "io_state x") (auto simp: read_instance_def result_iff Let_def)
  note all = read_instance_entries [OF f]
  have "ko_present (io_image x) \<longleftrightarrow> io_state x \<noteq> Ready_Observed" if "x \<in> set (somes found)" for x
    using all that by (induction rule: list_all2_induct) (auto dest: image)
  with e all i show ?thesis by (intro exI [of _ entries] exI [of _ "somes found"]) simp
qed

text \<open>A host with one instance, whose device tree is a single node.\<close>

definition one_node :: "unit fdt_library" where
  "one_node =
     \<lparr>fdt_new = (\<lambda>_. Inr ()),
      fdt_find_node = (\<lambda>_ path. if path = ''/resources'' then None
        else Some (Fdt_Node ''resources'' (\<lambda>p. if p = ''cpus'' then None else Some (concat (map to_be_bytes [0, 7]))) [])),
      fdt_all_nodes = (\<lambda>_. []), fdt_as_str = (\<lambda>_. None)\<rparr>"

definition one_instance :: file_view where
  "one_instance =
     \<lparr>fv_read = (\<lambda>p. if p = ''/sys/fs/multikernel/instances/lab/id'' then Inr ''1''
        else if p = ''/sys/fs/multikernel/instances/lab/status'' then Inr ''loaded'' else Inr []),
      fv_read_dir = (\<lambda>p. if p = ''/sys/fs/multikernel/instances'' then Inr [Inr ''lab''] else Inr []),
      fv_is_dir = (\<lambda>_. Inr True), fv_canonicalize = (\<lambda>_. Inl ENOENT), fv_exists = (\<lambda>_. True),
      fv_read_link = (\<lambda>_. Inl ENOENT)\<rparr>"

lemma one_instance_texts:
  "inventory_read_trimmed one_instance ''/'' ''sys/fs/multikernel/instances/lab/id'' = Inr ''1''"
  "inventory_read_trimmed one_instance ''/'' ''sys/fs/multikernel/instances/lab/status'' = Inr ''loaded''"
  "to_string_lossy ''lab'' = ''lab''" "path_join ''/'' instances_path = ''/sys/fs/multikernel/instances''"
  "path_join ''/'' overlays_path = ''/sys/fs/multikernel/overlays''"
  by code_simp+

theorem observed_instances_complete_witness:
  "\<exists>observed i. observe_multikernel one_node one_instance ''/'' = Inr observed \<and>
     mk_instances observed = [i] \<and> io_name i = ''lab'' \<and> ko_present (io_image i)"
proof -
  have one: "parse_word ''1'' = Some (1 :: u32)"
    by (simp add: parse_word_def parse_unsigned_def is_ascii_digit_def byte_def)
  have cells: "property_u64 (Some (concat (map to_be_bytes [0, 7]))) name = Inr (join_cells 0 7)" for name
    by (simp only: property_u64_def property_cells_encoded and_then.simps list.case)
  have "read_resource_pool one_node one_instance ''/'' = Inr \<lparr>ro_cpu_hardware_ids = [],
      ro_available_cpu_hardware_ids = [], ro_memory_regions = [], ro_devices = []\<rparr>"
    by (simp add: read_resource_pool_def inventory_read_def parse_fdt_def one_node_def one_instance_def Let_def)
  moreover have "\<exists>i. read_instance one_node one_instance ''/'' ''lab'' = Inr i \<and> io_state i = Loaded_Observed"
    using cells
    by (simp add: read_instance_def one_instance_texts instances_path_def one parse_instance_state_def Let_def
        parse_fdt_def find_resources_def property_hardware_ids_def read_devices_def)
      (simp add: inventory_read_def one_instance_def one_node_def Let_def)
  then obtain i where i: "read_instance one_node one_instance ''/'' ''lab'' = Inr i" "io_state i = Loaded_Observed"
    by blast
  have dirs: "fv_read_dir one_instance ''/sys/fs/multikernel/instances'' = Inr [Inr ''lab'']"
    "fv_read_dir one_instance ''/sys/fs/multikernel/overlays'' = Inr []" "\<And>p. fv_is_dir one_instance p = Inr True"
    by (simp_all add: one_instance_def)
  have "read_instance_entry one_node one_instance ''/'' (Inr ''lab'') = Inr (Some i)"
    by (auto simp: read_instance_entry_eq_Inr one_instance_texts dirs i(1))
  then have "read_instances one_node one_instance ''/'' = Inr [i]" "read_transactions one_instance ''/'' = Inr []"
    by (simp_all add: read_instances_def read_transactions_def inventory_read_dir_def one_instance_texts dirs)
  ultimately obtain observed where o: "observe_multikernel one_node one_instance ''/'' = Inr observed"
    "mk_instances observed = [i]" by (auto simp: observe_multikernel_def)
  with observed_instances_complete [OF o(1)] i read_instance_name [OF i(1)] show ?thesis by auto
qed

end
