(* ===== verification/Supervision.thy ===== *)
theory Supervision
  imports Executor Host_Probe Multikernel_Probe
begin

text \<open>
  Child processes under a deadline: the Kerf runner of \<open>crates/kernmux-daemon/src/lifecycle_executor.rs\<close>
  and the isolated inventory probe of \<open>crates/kernmux-daemon/src/inventory.rs\<close>, with the filesystem
  source that the probe runs.  The operating system is a parameter, \<open>process_os\<close>, on a world \<open>'w\<close>; times
  are in nanoseconds.  A polling loop that does not end is \<open>None\<close>; that it ends is proved for a clock
  that does not go back and a sleep that lasts.
\<close>

section \<open>The operating system\<close>

datatype exit_status = Exit_Code "32 word" | By_Signal

record ('w, 'c) process_os =
  os_tempfile :: "'w \<Rightarrow> (nat + unit) \<times> 'w"
  os_try_clone :: "'w \<Rightarrow> (nat + unit) \<times> 'w"
  os_spawn :: "string \<Rightarrow> string list \<Rightarrow> 'w \<Rightarrow> (nat + 'c) \<times> 'w"
  os_try_wait :: "'c \<Rightarrow> 'w \<Rightarrow> (nat + exit_status option) \<times> 'w"
  os_kill :: "'c \<Rightarrow> 'w \<Rightarrow> 'w"
  os_now :: "'w \<Rightarrow> nat"
  os_sleep :: "nat \<Rightarrow> 'w \<Rightarrow> 'w"
  os_read_stdout :: "'c \<Rightarrow> nat \<Rightarrow> 'w \<Rightarrow> (nat + u8 list) \<times> 'w"
  os_read_stderr :: "'c \<Rightarrow> nat \<Rightarrow> 'w \<Rightarrow> (nat + u8 list) \<times> 'w"

text \<open>A step on the world and what follows when it succeeds.\<close>

definition then_do :: "('e + 'a) \<times> 'w \<Rightarrow> ('a \<Rightarrow> 'w \<Rightarrow> ('e + 'b) \<times> 'w) \<Rightarrow> ('e + 'b) \<times> 'w" where
  "then_do step k = (case step of (Inl e, w) \<Rightarrow> (Inl e, w) | (Inr x, w) \<Rightarrow> k x w)"

definition fail_with :: "('d \<Rightarrow> 'e) \<Rightarrow> ('d + 'a) \<times> 'w \<Rightarrow> ('e + 'a) \<times> 'w" where
  "fail_with f step = (map_err f (fst step), snd step)"

text \<open>
  The loop of both supervisors: the status of a child that has ended, or \<open>None\<close> once the deadline has
  passed.
\<close>

partial_function (option) poll_child :: "('w, 'c) process_os \<Rightarrow> 'c \<Rightarrow> nat \<Rightarrow> nat \<Rightarrow> nat \<Rightarrow> 'w \<Rightarrow>
    ((nat + exit_status option) \<times> 'w) option" where
  "poll_child os child deadline interval started w =
     (case os_try_wait os child w of
        (Inl e, w) \<Rightarrow> Some (Inl e, w)
      | (Inr (Some status), w) \<Rightarrow> Some (Inr (Some status), w)
      | (Inr None, w) \<Rightarrow>
          if os_now os w - started \<ge> deadline then Some (Inr None, w)
          else poll_child os child deadline interval started (os_sleep os (min interval deadline) w))"

section \<open>The Kerf runner\<close>

datatype kerf_run_error =
    Kerf_Spawn nat
  | Kerf_Inspect nat
  | Kerf_Output nat
  | Kerf_OutputTooLarge
  | Kerf_PreviousProcessBlocked

fun kerf_run_error_message :: "(nat \<Rightarrow> string) \<Rightarrow> kerf_run_error \<Rightarrow> string" where
  "kerf_run_error_message io (Kerf_Spawn e) = ''failed to start Kerf: '' @ io e"
| "kerf_run_error_message io (Kerf_Inspect e) = ''failed to inspect Kerf: '' @ io e"
| "kerf_run_error_message io (Kerf_Output e) = ''failed to read Kerf output: '' @ io e"
| "kerf_run_error_message io Kerf_OutputTooLarge = ''Kerf output exceeded its limit''"
| "kerf_run_error_message io Kerf_PreviousProcessBlocked = ''previous Kerf process is still blocked''"

record 'c process_kerf_runner =
  kn_executable :: string
  kn_deadline :: nat
  kn_output_limit :: u64
  kn_pending :: "'c option"

definition new_kerf_runner :: "string \<Rightarrow> nat \<Rightarrow> u64 \<Rightarrow> 'c process_kerf_runner" where
  "new_kerf_runner executable deadline output_limit =
     \<lparr>kn_executable = executable, kn_deadline = deadline, kn_output_limit = output_limit, kn_pending = None\<rparr>"

definition system_kerf_runner :: "nat \<Rightarrow> u64 \<Rightarrow> 'c process_kerf_runner" where
  "system_kerf_runner = new_kerf_runner ''kerf''"

definition POLL_INTERVAL :: nat where
  "POLL_INTERVAL = 5 * 1000000"

definition kerf_reap_pending :: "('w, 'c) process_os \<Rightarrow> 'c process_kerf_runner \<Rightarrow> 'w \<Rightarrow>
    (kerf_run_error + unit) \<times> 'c process_kerf_runner \<times> 'w" where
  "kerf_reap_pending os runner w =
     (case kn_pending runner of
        None \<Rightarrow> (Inr (), runner, w)
      | Some child \<Rightarrow>
          (case os_try_wait os child w of
             (Inl e, w) \<Rightarrow> (Inl (Kerf_Inspect e), runner, w)
           | (Inr None, w) \<Rightarrow> (Inl Kerf_PreviousProcessBlocked, runner, w)
           | (Inr (Some _), w) \<Rightarrow> (Inr (), runner\<lparr>kn_pending := None\<rparr>, w)))"

definition kerf_spawn :: "('w, 'c) process_os \<Rightarrow> 'c process_kerf_runner \<Rightarrow> string list \<Rightarrow> 'w \<Rightarrow>
    (kerf_run_error + 'c) \<times> 'w" where
  "kerf_spawn os runner arguments w =
     then_do (fail_with Kerf_Output (os_tempfile os w)) (\<lambda>_ w.
     then_do (fail_with Kerf_Output (os_tempfile os w)) (\<lambda>_ w.
     then_do (fail_with Kerf_Output (os_try_clone os w)) (\<lambda>_ w.
     then_do (fail_with Kerf_Output (os_try_clone os w)) (\<lambda>_ w.
       fail_with Kerf_Spawn (os_spawn os (kn_executable runner) arguments w)))))"

text \<open>\<open>take(limit + 1)\<close> reads one byte more than the limit, to see that there is more.\<close>

definition read_bounded :: "(nat \<Rightarrow> 'w \<Rightarrow> (nat + u8 list) \<times> 'w) \<Rightarrow> u64 \<Rightarrow> 'w \<Rightarrow> (kerf_run_error + u8 list) \<times> 'w" where
  "read_bounded read limit w =
     then_do (fail_with Kerf_Output (read (unat (saturating_add limit 1)) w)) (\<lambda>bytes w.
       (if length bytes > unat limit then Inl Kerf_OutputTooLarge else Inr bytes, w))"

definition collect_result :: "('w, 'c) process_os \<Rightarrow> kerf_termination \<Rightarrow> 'c \<Rightarrow> u64 \<Rightarrow> 'w \<Rightarrow>
    (kerf_run_error + kerf_run_result) \<times> 'w" where
  "collect_result os termination child limit w =
     then_do (read_bounded (os_read_stdout os child) limit w) (\<lambda>out w.
     then_do (read_bounded (os_read_stderr os child) limit w) (\<lambda>err w.
       (Inr \<lparr>kr_termination = termination, kr_stdout = out, kr_stderr = err\<rparr>, w)))"

definition termination_of :: "exit_status \<Rightarrow> kerf_termination" where
  "termination_of status = (case status of Exit_Code c \<Rightarrow> Exited c | By_Signal \<Rightarrow> Signalled)"

text \<open>After the deadline: kill, and look once whether the child is gone.\<close>

definition kerf_timed_out :: "('w, 'c) process_os \<Rightarrow> 'c process_kerf_runner \<Rightarrow> 'c \<Rightarrow> 'w \<Rightarrow>
    (kerf_run_error + kerf_run_result) \<times> 'c process_kerf_runner \<times> 'w" where
  "kerf_timed_out os runner child w =
     (case os_try_wait os child (os_kill os child w) of
        (Inl e, w) \<Rightarrow> (Inl (Kerf_Inspect e), runner, w)
      | (Inr None, w) \<Rightarrow>
          (Inr \<lparr>kr_termination = TimedOut, kr_stdout = [], kr_stderr = []\<rparr>,
           runner\<lparr>kn_pending := Some child\<rparr>, w)
      | (Inr (Some _), w) \<Rightarrow>
          (case collect_result os TimedOut child (kn_output_limit runner) w of (r, w) \<Rightarrow> (r, runner, w)))"

definition kerf_run_raw :: "('w, 'c) process_os \<Rightarrow> string list \<Rightarrow> 'c process_kerf_runner \<times> 'w \<Rightarrow>
    ((kerf_run_error + kerf_run_result) \<times> 'c process_kerf_runner \<times> 'w) option" where
  "kerf_run_raw os arguments st =
     (case kerf_reap_pending os (fst st) (snd st) of
        (Inl e, runner, w) \<Rightarrow> Some (Inl e, runner, w)
      | (Inr _, runner, w) \<Rightarrow>
          (case kerf_spawn os runner arguments w of
             (Inl e, w) \<Rightarrow> Some (Inl e, runner, w)
           | (Inr child, w) \<Rightarrow>
               (case poll_child os child (kn_deadline runner) POLL_INTERVAL (os_now os w) w of
                  None \<Rightarrow> None
                | Some (Inl e, w) \<Rightarrow> Some (Inl (Kerf_Inspect e), runner, w)
                | Some (Inr (Some status), w) \<Rightarrow>
                    (case collect_result os (termination_of status) child (kn_output_limit runner) w of
                       (r, w) \<Rightarrow> Some (r, runner, w))
                | Some (Inr None, w) \<Rightarrow> Some (kerf_timed_out os runner child w))))"

definition kerf_run :: "('w, 'c) process_os \<Rightarrow> kerf_invocation \<Rightarrow> 'c process_kerf_runner \<times> 'w \<Rightarrow>
    ((kerf_run_error + kerf_run_result) \<times> 'c process_kerf_runner \<times> 'w) option" where
  "kerf_run os invocation = kerf_run_raw os (inv_arguments invocation)"

section \<open>The inventory probe\<close>

datatype process_inventory_error =
    Probe_Spawn nat
  | Probe_Wait nat
  | Probe_TemporaryFile nat
  | Probe_Output nat
  | Probe_Failed exit_status string
  | Probe_InvalidOutput
  | Probe_OutputTooLarge
  | Probe_TimedOut nat
  | Probe_PreviousProbeHung

record 'c process_inventory_source =
  pis_executable :: string
  pis_arguments :: "string list"
  pis_deadline :: nat
  pis_pending :: "'c option"

definition new_inventory_source :: "string \<Rightarrow> string list \<Rightarrow> nat \<Rightarrow> 'c process_inventory_source" where
  "new_inventory_source executable arguments deadline =
     \<lparr>pis_executable = executable, pis_arguments = arguments, pis_deadline = deadline, pis_pending = None\<rparr>"

definition running_inventory_source :: "nat + string \<Rightarrow> nat \<Rightarrow> nat + 'c process_inventory_source" where
  "running_inventory_source current_exe deadline =
     map_ok (\<lambda>exe. new_inventory_source exe [''--inventory-helper''] deadline) current_exe"

definition MAX_HELPER_OUTPUT_BYTES :: u64 where
  "MAX_HELPER_OUTPUT_BYTES = 4 * 1024 * 1024"

definition PROBE_POLL_INTERVAL :: nat where
  "PROBE_POLL_INTERVAL = 5 * 1000000"

definition probe_reap_pending :: "('w, 'c) process_os \<Rightarrow> 'c process_inventory_source \<Rightarrow> 'w \<Rightarrow>
    (process_inventory_error + unit) \<times> 'c process_inventory_source \<times> 'w" where
  "probe_reap_pending os source w =
     (case pis_pending source of
        None \<Rightarrow> (Inr (), source, w)
      | Some child \<Rightarrow>
          (case os_try_wait os child w of
             (Inl e, w) \<Rightarrow> (Inl (Probe_Wait e), source, w)
           | (Inr None, w) \<Rightarrow> (Inl Probe_PreviousProbeHung, source, w)
           | (Inr (Some _), w) \<Rightarrow> (Inr (), source\<lparr>pis_pending := None\<rparr>, w)))"

definition probe_spawn :: "('w, 'c) process_os \<Rightarrow> 'c process_inventory_source \<Rightarrow> 'w \<Rightarrow>
    (process_inventory_error + 'c) \<times> 'w" where
  "probe_spawn os source w =
     then_do (fail_with Probe_TemporaryFile (os_tempfile os w)) (\<lambda>_ w.
     then_do (fail_with Probe_TemporaryFile (os_tempfile os w)) (\<lambda>_ w.
     then_do (fail_with Probe_TemporaryFile (os_try_clone os w)) (\<lambda>_ w.
     then_do (fail_with Probe_TemporaryFile (os_try_clone os w)) (\<lambda>_ w.
       fail_with Probe_Spawn (os_spawn os (pis_executable source) (pis_arguments source) w)))))"

definition read_limited :: "(nat \<Rightarrow> 'w \<Rightarrow> (nat + u8 list) \<times> 'w) \<Rightarrow> u64 \<Rightarrow> 'w \<Rightarrow>
    (process_inventory_error + u8 list) \<times> 'w" where
  "read_limited read limit w =
     then_do (fail_with Probe_Output (read (unat (saturating_add limit 1)) w)) (\<lambda>bytes w.
       (if length bytes > unat limit then Inl Probe_OutputTooLarge else Inr bytes, w))"

definition decode_probe_result :: "('w, 'c) process_os \<Rightarrow> (u8 list \<Rightarrow> host_observations option) \<Rightarrow>
    exit_status \<Rightarrow> 'c \<Rightarrow> 'w \<Rightarrow> (process_inventory_error + host_observations) \<times> 'w" where
  "decode_probe_result os decode status child w =
     (if status \<noteq> Exit_Code 0
      then then_do (read_limited (os_read_stderr os child) 4096 w) (\<lambda>detail w.
             (Inl (Probe_Failed status (trim (to_string_lossy (map (\<lambda>b. char_of (unat b)) detail)))), w))
      else then_do (read_limited (os_read_stdout os child) MAX_HELPER_OUTPUT_BYTES w) (\<lambda>bytes w.
             (ok_or Probe_InvalidOutput (decode bytes), w)))"

definition probe_timed_out :: "('w, 'c) process_os \<Rightarrow> 'c process_inventory_source \<Rightarrow> 'c \<Rightarrow> 'w \<Rightarrow>
    (process_inventory_error + host_observations) \<times> 'c process_inventory_source \<times> 'w" where
  "probe_timed_out os source child w =
     (case os_try_wait os child (os_kill os child w) of
        (Inl e, w) \<Rightarrow> (Inl (Probe_Wait e), source, w)
      | (Inr None, w) \<Rightarrow> (Inl (Probe_TimedOut (pis_deadline source)), source\<lparr>pis_pending := Some child\<rparr>, w)
      | (Inr (Some _), w) \<Rightarrow> (Inl (Probe_TimedOut (pis_deadline source)), source, w))"

definition observe_process :: "('w, 'c) process_os \<Rightarrow> (u8 list \<Rightarrow> host_observations option) \<Rightarrow>
    'c process_inventory_source \<times> 'w \<Rightarrow>
    ((process_inventory_error + host_observations) \<times> 'c process_inventory_source \<times> 'w) option" where
  "observe_process os decode st =
     (case probe_reap_pending os (fst st) (snd st) of
        (Inl e, source, w) \<Rightarrow> Some (Inl e, source, w)
      | (Inr _, source, w) \<Rightarrow>
          (case probe_spawn os source w of
             (Inl e, w) \<Rightarrow> Some (Inl e, source, w)
           | (Inr child, w) \<Rightarrow>
               (case poll_child os child (pis_deadline source) PROBE_POLL_INTERVAL (os_now os w) w of
                  None \<Rightarrow> None
                | Some (Inl e, w) \<Rightarrow> Some (Inl (Probe_Wait e), source, w)
                | Some (Inr (Some status), w) \<Rightarrow>
                    (case decode_probe_result os decode status child w of (r, w) \<Rightarrow> Some (r, source, w))
                | Some (Inr None, w) \<Rightarrow> Some (probe_timed_out os source child w))))"

section \<open>What the probe runs\<close>

datatype filesystem_inventory_error = Linux_Error probe_error | Multikernel_Error inventory_error

definition observe_filesystem :: "string \<Rightarrow> 't fdt_library \<Rightarrow> file_view \<Rightarrow> string \<Rightarrow>
    filesystem_inventory_error + host_observations" where
  "observe_filesystem arch lib v root =
     and_then (map_err Linux_Error (observe_host arch v root)) (\<lambda>linux.
     and_then (if supports (lo_capabilities linux) Host_Multikernel
               then map_err Multikernel_Error (observe_multikernel lib v root)
               else Inr \<lparr>mk_pool = \<lparr>ro_cpu_hardware_ids = [], ro_available_cpu_hardware_ids = [],
                                    ro_memory_regions = [], ro_devices = []\<rparr>,
                         mk_instances = [], mk_transactions = []\<rparr>) (\<lambda>multikernel.
       Inr \<lparr>obs_linux = linux, obs_multikernel = multikernel\<rparr>))"

datatype helper_error = Helper_Inventory filesystem_inventory_error | Helper_Serialize

definition run_inventory_helper :: "string \<Rightarrow> 't fdt_library \<Rightarrow> (host_observations \<Rightarrow> u8 list option) \<Rightarrow> file_view \<Rightarrow>
    helper_error + u8 list" where
  "run_inventory_helper arch lib encode v =
     and_then (map_err Helper_Inventory (observe_filesystem arch lib v ''/'')) (\<lambda>observations.
       ok_or Helper_Serialize (encode observations))"

section \<open>Polling ends\<close>

text \<open>What is assumed of the clock: waiting does not turn it back, and a sleep lasts as long as asked.\<close>

definition clock_advances :: "('w, 'c) process_os \<Rightarrow> bool" where
  "clock_advances os \<longleftrightarrow> (\<forall>c w. os_now os w \<le> os_now os (snd (os_try_wait os c w))) \<and>
     (\<forall>d w. os_now os w + d \<le> os_now os (os_sleep os d w))"

lemma poll_returns:
  assumes "clock_advances os" and "0 < interval"
  shows "\<exists>r. poll_child os child deadline interval started w = Some r"
proof (induction "started + deadline - os_now os w" arbitrary: w rule: less_induct)
  case less
  obtain r w' where wait: "os_try_wait os child w = (r, w')" by fastforce
  have later: "os_now os w \<le> os_now os w'" using assms(1) wait unfolding clock_advances_def by (metis snd_conv)
  show ?case
  proof (cases "r = Inr None \<and> os_now os w' - started < deadline")
    case True
    let ?next = "os_sleep os (min interval deadline) w'"
    have "os_now os w' + min interval deadline \<le> os_now os ?next" using assms(1) by (simp add: clock_advances_def)
    moreover have "0 < min interval deadline" using True assms(2) by simp
    ultimately have "started + deadline - os_now os ?next < started + deadline - os_now os w"
      using True later by linarith
    from less [OF this] True show ?thesis by (subst poll_child.simps) (simp add: wait)
  next
    case False
    then show ?thesis by (subst poll_child.simps) (auto simp: wait split: sum.split option.split)
  qed
qed

section \<open>Children\<close>

text \<open>
  \<open>alive\<close> bounds the children that may still run: only a spawn adds one, and a child whose status was
  reported is gone.
\<close>

definition spawned_from :: "'e + 'c \<Rightarrow> 'c set \<Rightarrow> 'c set" where
  "spawned_from r A = (case r of Inl _ \<Rightarrow> A | Inr c \<Rightarrow> insert c A)"

definition waited_on :: "nat + exit_status option \<Rightarrow> 'c \<Rightarrow> 'c set \<Rightarrow> 'c set" where
  "waited_on r c A = (case r of Inr (Some _) \<Rightarrow> A - {c} | _ \<Rightarrow> A)"

definition tracks_children :: "('w, 'c) process_os \<Rightarrow> ('w \<Rightarrow> 'c set) \<Rightarrow> bool" where
  "tracks_children os alive \<longleftrightarrow>
     (\<forall>w. alive (snd (os_tempfile os w)) \<subseteq> alive w) \<and> (\<forall>w. alive (snd (os_try_clone os w)) \<subseteq> alive w) \<and>
     (\<forall>exe args w r w'. os_spawn os exe args w = (r, w') \<longrightarrow> alive w' \<subseteq> spawned_from r (alive w)) \<and>
     (\<forall>c w r w'. os_try_wait os c w = (r, w') \<longrightarrow> alive w' \<subseteq> waited_on r c (alive w)) \<and>
     (\<forall>c w. alive (os_kill os c w) \<subseteq> alive w) \<and> (\<forall>d w. alive (os_sleep os d w) \<subseteq> alive w) \<and>
     (\<forall>c n w. alive (snd (os_read_stdout os c n w)) \<subseteq> alive w) \<and>
     (\<forall>c n w. alive (snd (os_read_stderr os c n w)) \<subseteq> alive w)"

lemma tracksD:
  assumes "tracks_children os alive"
  shows "alive (snd (os_tempfile os w)) \<subseteq> alive w" "alive (snd (os_try_clone os w)) \<subseteq> alive w"
    and "alive (os_kill os c w) \<subseteq> alive w" "alive (os_sleep os d w) \<subseteq> alive w"
    and "alive (snd (os_read_stdout os c n w)) \<subseteq> alive w" "alive (snd (os_read_stderr os c n w)) \<subseteq> alive w"
    and "os_spawn os exe args w = (r, w') \<Longrightarrow> alive w' \<subseteq> spawned_from r (alive w)"
    and "os_try_wait os c w = (x, w') \<Longrightarrow> alive w' \<subseteq> waited_on x c (alive w)"
  using assms by (simp_all add: tracks_children_def)

lemma waited_on_mono: "A \<subseteq> B \<Longrightarrow> waited_on x c A \<subseteq> waited_on x c B" and waited_on_subset: "waited_on x c A \<subseteq> A"
  and waited_on_simps [simp]: "waited_on (Inl e) c A = A" "waited_on (Inr None) c A = A"
    "waited_on (Inr (Some s)) c A = A - {c}"
  by (auto simp: waited_on_def split: sum.split option.split)

lemma spawned_from_simps [simp]: "spawned_from (Inl e) A = A" "spawned_from (Inr c) A = insert c A"
  by (simp_all add: spawned_from_def)

lemma poll_alive:
  assumes "poll_child os c deadline interval started w = Some r" and "tracks_children os alive"
  shows "alive (snd r) \<subseteq> waited_on (fst r) c (alive w)"
proof (rule poll_child.raw_induct [where P = "\<lambda>os c deadline interval started w r.
    tracks_children os alive \<longrightarrow> alive (snd r) \<subseteq> waited_on (fst r) c (alive w)",
    OF _ assms(1), rule_format, OF _ assms(2)], goal_cases)
  case (1 poll os c deadline interval started w r)
  note t = 1(3)
  obtain x w1 where wait: "os_try_wait os c w = (x, w1)" by fastforce
  note alive1 = tracksD(8) [OF t wait]
  show ?case
  proof (cases "x = Inr None \<and> os_now os w1 - started < deadline")
    case True
    let ?next = "os_sleep os (min interval deadline) w1"
    have "poll os c deadline interval started ?next = Some r" using True 1(2) by (simp add: wait)
    from 1(1) [OF this t] have "alive (snd r) \<subseteq> waited_on (fst r) c (alive ?next)" .
    moreover have "alive ?next \<subseteq> alive w"
      using tracksD(4) [OF t, of "min interval deadline" w1] alive1 True by auto
    ultimately show ?thesis by (rule order_trans [OF _ waited_on_mono])
  next
    case False
    with 1(2) alive1 show ?thesis by (auto simp: wait split: sum.splits option.splits if_splits)
  qed
qed

lemma then_do_mono:
  assumes "alive (snd step) \<subseteq> A" and "\<And>x w. step = (Inr x, w) \<Longrightarrow> alive w \<subseteq> A \<Longrightarrow> alive (snd (k x w)) \<subseteq> A"
  shows "alive (snd (then_do step k)) \<subseteq> A"
  using assms by (auto simp: then_do_def split: prod.splits sum.splits)

lemma fail_with_alive [simp]: "snd (fail_with f step) = snd step"
  by (simp add: fail_with_def)

lemma read_alive:
  assumes "\<And>n w. alive (snd (read n w)) \<subseteq> alive w"
  shows "alive (snd (read_bounded read limit w)) \<subseteq> alive w" and "alive (snd (read_limited read limit w)) \<subseteq> alive w"
  unfolding read_bounded_def read_limited_def by (rule then_do_mono; simp add: assms)+

lemma collect_result_alive:
  assumes "tracks_children os alive"
  shows "alive (snd (collect_result os termination c limit w)) \<subseteq> alive w"
  unfolding collect_result_def
proof (rule then_do_mono)
  show "alive (snd (read_bounded (os_read_stdout os c) limit w)) \<subseteq> alive w"
    by (rule read_alive) (rule tracksD(5) [OF assms])
  fix out w1 assume w1: "alive w1 \<subseteq> alive w"
  have "alive (snd (read_bounded (os_read_stderr os c) limit w1)) \<subseteq> alive w1"
    by (rule read_alive) (rule tracksD(6) [OF assms])
  then show "alive (snd (then_do (read_bounded (os_read_stderr os c) limit w1) (\<lambda>err w.
      (Inr \<lparr>kr_termination = termination, kr_stdout = out, kr_stderr = err\<rparr>, w)))) \<subseteq> alive w"
    using w1 by (rule then_do_mono [OF order_trans]) simp
qed

lemma decode_probe_result_alive:
  assumes "tracks_children os alive"
  shows "alive (snd (decode_probe_result os decode status c w)) \<subseteq> alive w"
proof -
  have "alive (snd (read_limited (os_read_stderr os c) n w)) \<subseteq> alive w"
    "alive (snd (read_limited (os_read_stdout os c) n w)) \<subseteq> alive w" for n
    by (rule read_alive; rule tracksD [OF assms])+
  then show ?thesis unfolding decode_probe_result_def
    by (cases "status = Exit_Code 0") (simp_all, (rule then_do_mono; simp)+)
qed

lemma prepared_spawn_alive:
  assumes t: "tracks_children os alive"
    and run: "then_do (fail_with f (os_tempfile os w)) (\<lambda>_ w. then_do (fail_with f (os_tempfile os w)) (\<lambda>_ w.
      then_do (fail_with f (os_try_clone os w)) (\<lambda>_ w. then_do (fail_with f (os_try_clone os w)) (\<lambda>_ w.
        fail_with g (os_spawn os exe args w))))) = (r, w')"
  shows "alive w' \<subseteq> spawned_from r (alive w)"
proof -
  obtain r1 w1 where s1: "os_tempfile os w = (r1, w1)" by fastforce
  obtain r2 w2 where s2: "os_tempfile os w1 = (r2, w2)" by fastforce
  obtain r3 w3 where s3: "os_try_clone os w2 = (r3, w3)" by fastforce
  obtain r4 w4 where s4: "os_try_clone os w3 = (r4, w4)" by fastforce
  obtain r5 w5 where s5: "os_spawn os exe args w4 = (r5, w5)" by fastforce
  have a: "alive w1 \<subseteq> alive w" "alive w2 \<subseteq> alive w" "alive w3 \<subseteq> alive w" "alive w4 \<subseteq> alive w"
    using tracksD(1) [OF t, of w] tracksD(1) [OF t, of w1] tracksD(2) [OF t, of w2] tracksD(2) [OF t, of w3]
    by (auto simp: s1 s2 s3 s4)
  have "alive w5 \<subseteq> spawned_from r5 (alive w4)" by (rule tracksD(7) [OF t s5])
  then have "alive w5 \<subseteq> spawned_from r5 (alive w)" using a(4) by (cases r5) auto
  with run a show ?thesis
    by (cases r1; cases r2; cases r3; cases r4; cases r5)
      (simp_all add: then_do_def fail_with_def s1 s2 s3 s4 s5 spawned_from_def, auto)
qed

lemma kerf_spawn_alive:
  "tracks_children os alive \<Longrightarrow> kerf_spawn os runner args w = (r, w') \<Longrightarrow> alive w' \<subseteq> spawned_from r (alive w)"
  unfolding kerf_spawn_def by (rule prepared_spawn_alive)

lemma probe_spawn_alive:
  "tracks_children os alive \<Longrightarrow> probe_spawn os source w = (r, w') \<Longrightarrow> alive w' \<subseteq> spawned_from r (alive w)"
  unfolding probe_spawn_def by (rule prepared_spawn_alive)

section \<open>The supervisors\<close>

text \<open>Every run of Kerf returns: on a clock that runs, the polling loop ends at the latest one interval
  after the deadline, whatever the child does.\<close>

theorem kerf_run_returns:
  assumes "clock_advances os"
  shows "\<exists>r. kerf_run os invocation st = Some r"
proof -
  have "0 < POLL_INTERVAL" by (simp add: POLL_INTERVAL_def)
  note polls = poll_returns [OF assms this]
  show ?thesis
    unfolding kerf_run_def kerf_run_raw_def
    by (simp split: prod.split sum.split option.split) (metis polls option.distinct(1) surj_pair)
qed

text \<open>After the reaping step no child but the one in \<open>pending\<close> is left.\<close>

lemma kerf_reap_alive:
  assumes t: "tracks_children os alive" and sub: "alive w \<subseteq> set_option (kn_pending runner)"
    and run: "kerf_reap_pending os runner w = (r, runner', w')"
  shows "alive w' \<subseteq> set_option (kn_pending runner')" and "r = Inr () \<Longrightarrow> kn_pending runner' = None"
proof -
  have *: "alive w' \<subseteq> set_option (kn_pending runner') \<and> (r = Inr () \<longrightarrow> kn_pending runner' = None)"
  proof (cases "kn_pending runner")
    case None
    then show ?thesis using sub run by (auto simp: kerf_reap_pending_def)
  next
    case (Some c)
    obtain x w1 where wait: "os_try_wait os c w = (x, w1)" by fastforce
    show ?thesis using tracksD(8) [OF t wait] sub run Some
      by (auto simp: kerf_reap_pending_def wait split: sum.splits option.splits)
  qed
  then show "alive w' \<subseteq> set_option (kn_pending runner')" and "r = Inr () \<Longrightarrow> kn_pending runner' = None" by auto
qed

lemma kerf_timed_out_alive:
  assumes t: "tracks_children os alive" and sub: "alive w \<subseteq> {c}"
    and run: "kerf_timed_out os runner c w = (r, runner', w')" and ok: "\<forall>e. r \<noteq> Inl (Kerf_Inspect e)"
    and idle: "kn_pending runner = None"
  shows "alive w' \<subseteq> set_option (kn_pending runner')"
proof -
  obtain x w1 where wait: "os_try_wait os c (os_kill os c w) = (x, w1)" by fastforce
  note a = tracksD(8) [OF t wait] tracksD(3) [OF t, of c w] collect_result_alive [OF t, of TimedOut c "kn_output_limit runner" w1]
  show ?thesis
  proof (cases x)
    case (Inl e)
    then show ?thesis using run ok by (auto simp: kerf_timed_out_def wait)
  next
    case (Inr s)
    show ?thesis
      using a sub run idle Inr
      by (cases s; cases "collect_result os TimedOut c (kn_output_limit runner) w1")
        (fastforce simp: kerf_timed_out_def wait)+
  qed
qed

text \<open>C22: At most one Kerf process is ever left running, and the runner knows it: when the children alive
  before a run are at most the pending one, so are those after it, unless the operating system failed to
  report the state of a child.\<close>

theorem one_kerf_at_a_time:
  assumes t: "tracks_children os alive" and sub: "alive w \<subseteq> set_option (kn_pending runner)"
    and run: "kerf_run os invocation (runner, w) = Some (r, runner', w')"
    and ok: "\<forall>e. r \<noteq> Inl (Kerf_Inspect e)"
  shows "alive w' \<subseteq> set_option (kn_pending runner')"
proof -
  obtain r1 n1 w1 where reap: "kerf_reap_pending os runner w = (r1, n1, w1)" by (metis prod_cases3)
  note a1 = kerf_reap_alive [OF t sub reap]
  show ?thesis
  proof (cases r1)
    case (Inl e)
    then show ?thesis using run a1(1) by (simp add: kerf_run_def kerf_run_raw_def reap)
  next
    case (Inr u)
    then have idle: "kn_pending n1 = None" and none: "alive w1 = {}" using a1 by auto
    obtain r2 w2 where spawn: "kerf_spawn os n1 (inv_arguments invocation) w1 = (r2, w2)" by fastforce
    note a2 = kerf_spawn_alive [OF t spawn]
    show ?thesis
    proof (cases r2)
      case (Inl e)
      then show ?thesis using run a2 none idle Inr by (simp add: kerf_run_def kerf_run_raw_def reap spawn)
    next
      case (Inr c)
      then have one: "alive w2 \<subseteq> {c}" using a2 none by simp
      obtain r3 w3 where poll: "poll_child os c (kn_deadline n1) POLL_INTERVAL (os_now os w2) w2 = Some (r3, w3)"
        using run \<open>r1 = Inr u\<close> Inr
        by (cases "poll_child os c (kn_deadline n1) POLL_INTERVAL (os_now os w2) w2")
          (auto simp: kerf_run_def kerf_run_raw_def reap spawn)
      note a3 = poll_alive [OF poll t, simplified]
      note run_simps = kerf_run_def kerf_run_raw_def reap spawn \<open>r1 = Inr u\<close> \<open>r2 = Inr c\<close> poll
      consider e where "r3 = Inl e" | s where "r3 = Inr (Some s)" | "r3 = Inr None" by (cases r3) auto
      then show ?thesis
      proof cases
        case 1
        then show ?thesis using run ok by (auto simp: run_simps)
      next
        case 2
        then have "alive w3 = {}" using a3 one by auto
        then show ?thesis using run 2 idle collect_result_alive [OF t, of "termination_of s" c "kn_output_limit n1" w3]
          by (cases "collect_result os (termination_of s) c (kn_output_limit n1) w3") (auto simp: run_simps)
      next
        case 3
        then have "alive w3 \<subseteq> {c}" using a3 one by auto
        from kerf_timed_out_alive [OF t this _ ok idle] show ?thesis using run 3 by (simp add: run_simps)
      qed
    qed
  qed
qed

section \<open>A child that hangs\<close>

text \<open>A world of a clock and one child that ignores signals and never ends.\<close>

definition hung_os :: "(nat \<times> bool, unit) process_os" where
  "hung_os = \<lparr>os_tempfile = \<lambda>w. (Inr (), w), os_try_clone = \<lambda>w. (Inr (), w),
     os_spawn = \<lambda>exe args w. (Inr (), (fst w, True)), os_try_wait = \<lambda>c w. (Inr None, w), os_kill = \<lambda>c w. w,
     os_now = fst, os_sleep = \<lambda>d w. (fst w + d, snd w),
     os_read_stdout = \<lambda>c n w. (Inr [], w), os_read_stderr = \<lambda>c n w. (Inr [], w)\<rparr>"

definition hung_alive :: "nat \<times> bool \<Rightarrow> unit set" where
  "hung_alive w = (if snd w then {()} else {})"

lemma hung_os_laws: "clock_advances hung_os" "tracks_children hung_os hung_alive"
  by (auto simp: clock_advances_def tracks_children_def hung_os_def hung_alive_def)

theorem kerf_run_returns_witness:
  "clock_advances hung_os \<and> (\<exists>r. kerf_run hung_os start_invocation (system_kerf_runner 1000 64, 0, False) = Some r)"
  using kerf_run_returns [OF hung_os_laws(1)] hung_os_laws(1) by blast

lemma hung_run:
  "kerf_run hung_os start_invocation (system_kerf_runner 1000 64, 0, False) =
     Some (Inr \<lparr>kr_termination = TimedOut, kr_stdout = [], kr_stderr = []\<rparr>,
           (system_kerf_runner 1000 64)\<lparr>kn_pending := Some ()\<rparr>, 1000, True)"
  by (simp add: kerf_run_def kerf_run_raw_def kerf_reap_pending_def system_kerf_runner_def new_kerf_runner_def
      kerf_spawn_def then_do_def fail_with_def hung_os_def POLL_INTERVAL_def poll_child.simps kerf_timed_out_def)

theorem one_kerf_at_a_time_witness: "hung_alive (1000, True) \<subseteq> {()} \<and>
    kerf_run hung_os start_invocation ((system_kerf_runner 1000 64)\<lparr>kn_pending := Some ()\<rparr>, 1000, True) =
      Some (Inl Kerf_PreviousProcessBlocked, (system_kerf_runner 1000 64)\<lparr>kn_pending := Some ()\<rparr>, 1000, True)"
proof -
  have "hung_alive (1000, True) \<subseteq> set_option (kn_pending ((system_kerf_runner 1000 64)\<lparr>kn_pending := Some ()\<rparr>))"
    by (rule one_kerf_at_a_time [OF hung_os_laws(2) _ hung_run])
      (simp_all add: hung_alive_def system_kerf_runner_def new_kerf_runner_def)
  moreover have "kerf_run hung_os start_invocation ((system_kerf_runner 1000 64)\<lparr>kn_pending := Some ()\<rparr>, 1000, True) =
      Some (Inl Kerf_PreviousProcessBlocked, (system_kerf_runner 1000 64)\<lparr>kn_pending := Some ()\<rparr>, 1000, True)"
    by (simp add: kerf_run_def kerf_run_raw_def kerf_reap_pending_def hung_os_def)
  ultimately show ?thesis by simp
qed

end
