(* ===== verification/Client.thy ===== *)
theory Client
  imports Routes Console
begin

text \<open>
  The management client, \<open>crates/kernmux-client/src/lib.rs\<close>: requests, the HTTP/1.1 transport over the
  daemon's socket with its strict response parser, the envelope checks and the polling of operations.
  JSON is a library: encoders and decoders are arguments.  The socket is a \<open>stream_ops\<close> of the console
  model; a call that never returns is \<open>None\<close>.
\<close>

section \<open>Requests and errors\<close>

record client_request =
  cq_method :: string
  cq_path :: string
  cq_body :: "u8 list"

record 'v raw_response =
  rw_status :: u16
  rw_value :: 'v

datatype client_error_kind =
    Kind_Transport | Kind_Protocol | Rejected | OperationFailed | OperationCancelled | OperationIndeterminate | Timeout

record client_error =
  cle_kind :: client_error_kind
  cle_message :: string
  cle_api_error :: "api_error option"
  cle_operation :: "operation option"

definition client_error_new :: "client_error_kind \<Rightarrow> string \<Rightarrow> client_error" where
  "client_error_new kind message =
     \<lparr>cle_kind = kind, cle_message = message, cle_api_error = None, cle_operation = None\<rparr>"

definition client_transport :: "string \<Rightarrow> client_error" where
  "client_transport = client_error_new Kind_Transport"

definition client_protocol :: "string \<Rightarrow> client_error" where
  "client_protocol = client_error_new Kind_Protocol"

definition request_get :: "string \<Rightarrow> client_request" where
  "request_get path = \<lparr>cq_method = ''GET'', cq_path = path, cq_body = []\<rparr>"

definition request_json :: "string \<Rightarrow> string \<Rightarrow> u8 list option \<Rightarrow> client_error + client_request" where
  "request_json method path body =
     map_ok (\<lambda>body. \<lparr>cq_method = method, cq_path = path, cq_body = body\<rparr>)
       (ok_or (client_protocol ''request serialization failed'') body)"

section \<open>Reading a response\<close>

text \<open>The first blank line: \<open>windows(4).position\<close>.\<close>

definition HEADER_END :: "u8 list" where
  "HEADER_END = [13, 10, 13, 10]"

fun header_position :: "u8 list \<Rightarrow> nat option" where
  "header_position [] = None"
| "header_position (b # bs) =
     (if starts_with (b # bs) HEADER_END then Some 0 else map_option Suc (header_position bs))"

text \<open>\<open>split("\r\n")\<close>\<close>

fun split_crlf :: "string \<Rightarrow> string list" where
  "split_crlf [] = [[]]"
| "split_crlf [c] = [[c]]"
| "split_crlf (c # d # cs) =
     (if c = CHR 0x0D \<and> d = CHR 0x0A then [] # split_crlf cs
      else (case split_crlf (d # cs) of [] \<Rightarrow> [[c]] | piece # pieces \<Rightarrow> (c # piece) # pieces))"

definition bytes_text :: "u8 list \<Rightarrow> string" where
  "bytes_text bytes = map (\<lambda>b. char_of (unat b)) bytes"

record response_head =
  rh_status :: u16
  rh_content_length :: u64

definition response_status :: "string \<Rightarrow> u16 option" where
  "response_status line =
     (case split_whitespace line of
        version # code # _ \<Rightarrow> if version = ''HTTP/1.1'' then parse_word code else None
      | _ \<Rightarrow> None)"

definition json_media_type :: "string \<Rightarrow> bool" where
  "json_media_type value = eq_ignore_ascii_case (hd (split_char CHR '';'' (trim value))) ''application/json''"

text \<open>One header: the content length and whether the content type is JSON, as far as they are known.\<close>

definition response_header :: "string \<Rightarrow> u64 option \<times> bool option \<Rightarrow> client_error + u64 option \<times> bool option" where
  "response_header line seen =
     (case split_once CHR '':'' line of
        None \<Rightarrow> Inl (client_protocol ''response header is invalid'')
      | Some (name, value) \<Rightarrow>
          if eq_ignore_ascii_case name ''transfer-encoding''
          then Inl (client_protocol ''chunked responses are not supported'')
          else
            and_then
              (if eq_ignore_ascii_case name ''content-length'' then
                 (if fst seen \<noteq> None then Inl (client_protocol ''response has duplicate content length'')
                  else map_ok (\<lambda>n. (Some n, snd seen))
                    (ok_or (client_protocol ''response content length is invalid'') (parse_word (trim value))))
               else Inr seen) (\<lambda>seen.
            if eq_ignore_ascii_case name ''content-type'' then
              (if snd seen \<noteq> None then Inl (client_protocol ''response has duplicate content type'')
               else Inr (fst seen, Some (json_media_type value)))
            else Inr seen))"

fun response_headers :: "string list \<Rightarrow> u64 option \<times> bool option \<Rightarrow> client_error + u64 option \<times> bool option" where
  "response_headers [] seen = Inr seen"
| "response_headers (line # lines) seen = and_then (response_header line seen) (response_headers lines)"

definition parse_response_head :: "u8 list \<Rightarrow> client_error + response_head" where
  "parse_response_head bytes =
     (if \<not> utf8_valid (map unat bytes) then Inl (client_protocol ''response headers are not valid UTF-8'')
      else case split_crlf (bytes_text bytes) of
        [] \<Rightarrow> Inl (client_protocol ''response status line is invalid'')
      | line # lines \<Rightarrow>
          and_then (ok_or (client_protocol ''response status line is invalid'') (response_status line)) (\<lambda>status.
          if status = 101 then Inl (client_protocol ''unexpected protocol upgrade'')
          else and_then (response_headers lines (None, None)) (\<lambda>(content_length, content_type_is_json).
          if content_type_is_json \<noteq> Some True
          then Inl (client_protocol ''response content type is not application/json'')
          else map_ok (\<lambda>n. \<lparr>rh_status = status, rh_content_length = n\<rparr>)
            (ok_or (client_protocol ''response content length is missing'') content_length))))"

type_synonym 'c reader = "'c \<Rightarrow> nat \<Rightarrow> (io_error + u8 list) \<times> 'c"

function read_headers :: "'c reader \<Rightarrow> (io_error \<Rightarrow> string) \<Rightarrow> nat \<Rightarrow> u8 list \<Rightarrow> 'c \<Rightarrow>
    (client_error + nat \<times> u8 list) \<times> 'c" where
  "read_headers rd io_text max_header_bytes received c =
     (case header_position received of
        Some position \<Rightarrow> (Inr (position + 4, received), c)
      | None \<Rightarrow>
          if length received \<ge> max_header_bytes
          then (Inl (client_protocol ''response headers exceed their limit''), c)
          else (case rd c 4096 of
              (Inl e, c) \<Rightarrow> (Inl (client_transport (''failed to read response: '' @ io_text e)), c)
            | (Inr chunk, c) \<Rightarrow>
                if chunk = [] then (Inl (client_protocol ''response ended before its headers''), c)
                else read_headers rd io_text max_header_bytes (received @ chunk) c))"
  by pat_completeness auto
termination
  by (relation "measure (\<lambda>(rd, io_text, limit, received, c). limit - length received)") (auto simp flip: length_greater_0_conv)

declare read_headers.simps [simp del]

text \<open>What follows the declared body must be the end of the stream.\<close>

definition finish_response :: "'c reader \<Rightarrow> (io_error \<Rightarrow> string) \<Rightarrow> (u8 list \<Rightarrow> 'v option) \<Rightarrow> u16 \<Rightarrow> u8 list \<Rightarrow> 'c \<Rightarrow>
    (client_error + 'v raw_response) \<times> 'c" where
  "finish_response rd io_text from_slice status body c =
     (case rd c 1 of
        (Inl e, c) \<Rightarrow> (Inl (client_transport (''failed to finish response: '' @ io_text e)), c)
      | (Inr extra, c) \<Rightarrow>
          if extra \<noteq> [] then (Inl (client_protocol ''response contains bytes beyond its declared body''), c)
          else (map_ok (\<lambda>value. \<lparr>rw_status = status, rw_value = value\<rparr>)
                  (ok_or (client_protocol ''response body is not valid JSON'') (from_slice body)), c))"

definition read_response :: "'c reader \<Rightarrow> (io_error \<Rightarrow> string) \<Rightarrow> (u8 list \<Rightarrow> 'v option) \<Rightarrow> nat \<Rightarrow> nat \<Rightarrow> 'c \<Rightarrow>
    ((client_error + 'v raw_response) \<times> 'c) option" where
  "read_response rd io_text from_slice max_header_bytes max_body_bytes c =
     (case read_headers rd io_text max_header_bytes [] c of
        (Inl e, c) \<Rightarrow> Some (Inl e, c)
      | (Inr (header_end, received), c) \<Rightarrow>
          if header_end > max_header_bytes
          then Some (Inl (client_protocol ''response headers exceed their limit''), c)
          else (case parse_response_head (take (header_end - 4) received) of
              Inl e \<Rightarrow> Some (Inl e, c)
            | Inr head \<Rightarrow>
                if unat (rh_content_length head) > max_body_bytes
                then Some (Inl (client_protocol ''response body exceeds its limit''), c)
                else let body = drop header_end received in
                  if length body > unat (rh_content_length head)
                  then Some (Inl (client_protocol ''response contains bytes beyond its declared body''), c)
                  else (case read_exact rd c (unat (rh_content_length head) - length body) body of
                      None \<Rightarrow> None
                    | Some (Inl e, c) \<Rightarrow>
                        Some (Inl (if ioe_kind e = UnexpectedEof
                                   then client_protocol ''response ended before its declared body''
                                   else client_transport (''failed to read response body: '' @ io_text e)), c)
                    | Some (Inr body, c) \<Rightarrow>
                        Some (finish_response rd io_text from_slice (rh_status head) body c))))"

section \<open>The transport\<close>

definition DEFAULT_MAX_HEADER_BYTES :: nat where "DEFAULT_MAX_HEADER_BYTES = 32 * 1024"
definition DEFAULT_MAX_BODY_BYTES :: nat where "DEFAULT_MAX_BODY_BYTES = 8 * 1024 * 1024"

record unix_transport =
  ut_socket :: string
  ut_max_header_bytes :: nat
  ut_max_body_bytes :: nat

definition new_unix_transport :: "string \<Rightarrow> unix_transport" where
  "new_unix_transport socket =
     \<lparr>ut_socket = socket, ut_max_header_bytes = DEFAULT_MAX_HEADER_BYTES, ut_max_body_bytes = DEFAULT_MAX_BODY_BYTES\<rparr>"

text \<open>\<open>nl\<close> is the end of a header line.\<close>

definition request_head :: "string \<Rightarrow> client_request \<Rightarrow> string" where
  "request_head rid request =
     (let nl = [CHR 0x0D, CHR 0x0A] in
      cq_method request @ '' '' @ cq_path request @ '' HTTP/1.1'' @ nl @ ''Host: localhost'' @ nl @
      ''Connection: close'' @ nl @ ''Accept: application/json'' @ nl @ ''Content-Type: application/json'' @ nl @
      ''Content-Length: '' @ show_nat (length (cq_body request)) @ nl @ ''X-Request-Id: '' @ rid @ nl @ nl)"

text \<open>The calls of the socket other than reading and writing: connecting and setting the two timeouts.\<close>

record 'c socket_calls =
  sk_connect :: "string \<Rightarrow> io_error + 'c"
  sk_read_timeout :: "'c \<Rightarrow> io_error + 'c"
  sk_write_timeout :: "'c \<Rightarrow> io_error + 'c"
  sk_stream :: "'c stream_ops"
  sk_io_text :: "io_error \<Rightarrow> string"

definition unix_execute :: "'c socket_calls \<Rightarrow> (u8 list \<Rightarrow> 'v option) \<Rightarrow> unix_transport \<Rightarrow> string \<Rightarrow> client_request \<Rightarrow>
    ((client_error + 'v raw_response) \<times> 'c option) option" where
  "unix_execute os from_slice transport rid request =
     (let failed = (\<lambda>c what e. Some (Inl (client_transport (what @ sk_io_text os e)), c)) in
      case sk_connect os (ut_socket transport) of
        Inl e \<Rightarrow> failed None (''failed to connect to '' @ ut_socket transport @ '': '') e
      | Inr c \<Rightarrow>
          (case sk_read_timeout os c of
             Inl e \<Rightarrow> failed (Some c) [] e
           | Inr c \<Rightarrow>
               (case sk_write_timeout os c of
                  Inl e \<Rightarrow> failed (Some c) [] e
                | Inr c \<Rightarrow>
                    (case write_all_retry (so_write (sk_stream os)) c (as_bytes (request_head rid request)) of
                       None \<Rightarrow> None
                     | Some (Inl e, c) \<Rightarrow> failed (Some c) ''failed to send request: '' e
                     | Some (Inr _, c) \<Rightarrow>
                         (case write_all_retry (so_write (sk_stream os)) c (cq_body request) of
                            None \<Rightarrow> None
                          | Some (Inl e, c) \<Rightarrow> failed (Some c) ''failed to send request: '' e
                          | Some (Inr _, c) \<Rightarrow>
                              map_option (apsnd Some)
                                (read_response (so_read (sk_stream os)) (sk_io_text os) from_slice
                                   (ut_max_header_bytes transport) (ut_max_body_bytes transport) c))))))"

section \<open>Calls\<close>

text \<open>
  The trait \<open>Transport\<close> and what the client takes from its process: \<open>cl_execute\<close> gets the request id,
  \<open>cl_sleep\<close> is \<open>thread::sleep\<close>.  The state of a client is that of its transport and the request counter.
\<close>

record ('v, 't) client =
  cl_execute :: "string \<Rightarrow> client_request \<Rightarrow> 't \<Rightarrow> ((client_error + 'v raw_response) \<times> 't) option"
  cl_sleep :: "nat \<Rightarrow> 't \<Rightarrow> 't"
  cl_process_id :: u32

definition client_request_id :: "u32 \<Rightarrow> u64 \<Rightarrow> string" where
  "client_request_id pid seq = ''kernmux-client-'' @ show_word pid @ ''-'' @ show_word seq"

definition status_agrees :: "'d response \<Rightarrow> u16 \<Rightarrow> bool" where
  "status_agrees response status =
     (case response of
        Error_Response _ \<Rightarrow> 400 \<le> status \<and> status \<le> 599
      | _ \<Rightarrow> 200 \<le> status \<and> status \<le> 299)"

definition decode_response :: "('v \<Rightarrow> 'd response option) \<Rightarrow> 'v raw_response \<Rightarrow> client_error + 'd response" where
  "decode_response from_value raw =
     and_then (ok_or (client_protocol ''response envelope is invalid'') (from_value (rw_value raw))) (\<lambda>response.
       if status_agrees response (rw_status raw) then Inr response
       else Inl (client_protocol ''HTTP status and response envelope disagree''))"

definition client_execute :: "('v, 't) client \<Rightarrow> ('v \<Rightarrow> 'd response option) \<Rightarrow> client_request \<Rightarrow> 't \<times> u64 \<Rightarrow>
    ((client_error + 'd response) \<times> 't \<times> u64) option" where
  "client_execute cl from_value request st =
     (case cl_execute cl (client_request_id (cl_process_id cl) (snd st)) request (fst st) of
        None \<Rightarrow> None
      | Some (raw, t) \<Rightarrow> Some (and_then raw (decode_response from_value), t, snd st + 1))"

datatype 'd client_outcome = Result_Outcome generation 'd | Accepted_Outcome operation

definition rejected_error :: "api_error \<Rightarrow> client_error" where
  "rejected_error e =
     \<lparr>cle_kind = Rejected, cle_message = err_message e, cle_api_error = Some e, cle_operation = None\<rparr>"

definition outcome_of :: "'d response \<Rightarrow> client_error + 'd client_outcome" where
  "outcome_of response =
     (case response of
        Result_Response g d \<Rightarrow> Inr (Result_Outcome g d)
      | Accepted_Response op \<Rightarrow> Inr (Accepted_Outcome op)
      | Error_Response e \<Rightarrow> Inl (rejected_error e))"

definition client_call :: "('v, 't) client \<Rightarrow> ('v \<Rightarrow> 'd response option) \<Rightarrow> client_request \<Rightarrow> 't \<times> u64 \<Rightarrow>
    ((client_error + 'd client_outcome) \<times> 't \<times> u64) option" where
  "client_call cl from_value request st =
     map_option (apfst (\<lambda>r. and_then r outcome_of)) (client_execute cl from_value request st)"

section \<open>The typed methods\<close>

text \<open>One constructor per method, in the order of the source, and the request that the method sends.\<close>

datatype client_read =
    Get_Host | Get_Compatibility | Get_ResourcePool | Get_Instances | Get_Instance instance_id | Get_Images
  | Get_OsImages | Get_OsImage string | Get_StorageDevices | Get_Operations | Get_Operation operation_id
  | Get_Events u64

fun read_request :: "client_read \<Rightarrow> client_request" where
  "read_request Get_Host = request_get ''/1.0''"
| "read_request Get_Compatibility = request_get ''/1.0/compatibility''"
| "read_request Get_ResourcePool = request_get ''/1.0/resource-pool''"
| "read_request Get_Instances = request_get ''/1.0/instances''"
| "read_request (Get_Instance i) = request_get (''/1.0/instances/'' @ show_word i)"
| "read_request Get_Images = request_get ''/1.0/images''"
| "read_request Get_OsImages = request_get ''/1.0/os-images''"
| "read_request (Get_OsImage i) = request_get (''/1.0/os-images/'' @ i)"
| "read_request Get_StorageDevices = request_get ''/1.0/storage-devices''"
| "read_request Get_Operations = request_get ''/1.0/operations''"
| "read_request (Get_Operation i) = request_get (''/1.0/operations/'' @ i)"
| "read_request (Get_Events cursor) = request_get (''/1.0/events?after='' @ show_word cursor)"

datatype client_mutation =
    Set_ResourcePool resource_pool_mutation
  | Import_OsImage import_os_image_mutation
  | Create_Instance create_instance_mutation
  | Update_Instance instance_id update_instance_mutation
  | Load_Instance instance_id load_instance_mutation
  | Load_ManagedImage instance_id load_managed_image_mutation
  | Start_Instance instance_id instance_lifecycle_mutation
  | Unload_Instance instance_id instance_lifecycle_mutation
  | Delete_Instance instance_id instance_lifecycle_mutation
  | Stop_Instance instance_id stop_instance_mutation
  | Import_Image import_image_mutation
  | Cancel_Operation operation_id

text \<open>The JSON encoders of the mutation bodies.\<close>

record mutation_codec =
  mc_resource_pool :: "resource_pool_mutation \<Rightarrow> u8 list option"
  mc_os_image :: "import_os_image_mutation \<Rightarrow> u8 list option"
  mc_create :: "create_instance_mutation \<Rightarrow> u8 list option"
  mc_update :: "update_instance_mutation \<Rightarrow> u8 list option"
  mc_load :: "load_instance_mutation \<Rightarrow> u8 list option"
  mc_load_image :: "load_managed_image_mutation \<Rightarrow> u8 list option"
  mc_lifecycle :: "instance_lifecycle_mutation \<Rightarrow> u8 list option"
  mc_stop :: "stop_instance_mutation \<Rightarrow> u8 list option"
  mc_image :: "import_image_mutation \<Rightarrow> u8 list option"

definition instance_request_path :: "instance_id \<Rightarrow> string \<Rightarrow> string" where
  "instance_request_path i suffix = ''/1.0/instances/'' @ show_word i @ suffix"

definition lifecycle_call :: "mutation_codec \<Rightarrow> instance_id \<Rightarrow> string \<Rightarrow> string \<Rightarrow> instance_lifecycle_mutation \<Rightarrow>
    client_error + client_request" where
  "lifecycle_call codec i method suffix mutation =
     request_json method (instance_request_path i suffix) (mc_lifecycle codec mutation)"

fun mutation_request :: "mutation_codec \<Rightarrow> client_mutation \<Rightarrow> client_error + client_request" where
  "mutation_request codec (Set_ResourcePool mut) = request_json ''PUT'' ''/1.0/resource-pool'' (mc_resource_pool codec mut)"
| "mutation_request codec (Import_OsImage mut) = request_json ''POST'' ''/1.0/os-images'' (mc_os_image codec mut)"
| "mutation_request codec (Create_Instance mut) = request_json ''POST'' ''/1.0/instances'' (mc_create codec mut)"
| "mutation_request codec (Update_Instance i mut) =
     request_json ''PATCH'' (instance_request_path i []) (mc_update codec mut)"
| "mutation_request codec (Load_Instance i mut) =
     request_json ''POST'' (instance_request_path i ''/load'') (mc_load codec mut)"
| "mutation_request codec (Load_ManagedImage i mut) =
     request_json ''POST'' (instance_request_path i ''/load-image'') (mc_load_image codec mut)"
| "mutation_request codec (Start_Instance i mut) = lifecycle_call codec i ''POST'' ''/start'' mut"
| "mutation_request codec (Unload_Instance i mut) = lifecycle_call codec i ''POST'' ''/unload'' mut"
| "mutation_request codec (Delete_Instance i mut) = lifecycle_call codec i ''DELETE'' [] mut"
| "mutation_request codec (Stop_Instance i mut) =
     request_json ''POST'' (instance_request_path i ''/stop'') (mc_stop codec mut)"
| "mutation_request codec (Import_Image mut) = request_json ''POST'' ''/1.0/images'' (mc_image codec mut)"
| "mutation_request codec (Cancel_Operation i) =
     Inr \<lparr>cq_method = ''DELETE'', cq_path = ''/1.0/operations/'' @ i, cq_body = []\<rparr>"

definition client_get :: "('v, 't) client \<Rightarrow> ('v \<Rightarrow> 'd response option) \<Rightarrow> client_read \<Rightarrow> 't \<times> u64 \<Rightarrow>
    ((client_error + 'd client_outcome) \<times> 't \<times> u64) option" where
  "client_get cl from_value query = client_call cl from_value (read_request query)"

definition client_mutate :: "('v, 't) client \<Rightarrow> ('v \<Rightarrow> 'd response option) \<Rightarrow> mutation_codec \<Rightarrow> client_mutation \<Rightarrow>
    't \<times> u64 \<Rightarrow> ((client_error + 'd client_outcome) \<times> 't \<times> u64) option" where
  "client_mutate cl from_value codec mutation st =
     (case mutation_request codec mutation of
        Inl e \<Rightarrow> Some (Inl e, st)
      | Inr request \<Rightarrow> client_call cl from_value request st)"

section \<open>Waiting for an operation\<close>

record wait_policy =
  wp_max_attempts :: u32
  wp_interval :: nat

definition default_wait_policy :: wait_policy where
  "default_wait_policy = \<lparr>wp_max_attempts = 120, wp_interval = 500 * 1000000\<rparr>"

definition debug_state :: "operation_state \<Rightarrow> string" where
  "debug_state s = (case s of
      Queued \<Rightarrow> ''Queued'' | Running \<Rightarrow> ''Running'' | Succeeded \<Rightarrow> ''Succeeded'' | Failed \<Rightarrow> ''Failed''
    | Cancelled \<Rightarrow> ''Cancelled'' | Indeterminate \<Rightarrow> ''Indeterminate'' | Unknown_Op_State \<Rightarrow> ''Unknown'')"

definition operation_error :: "client_error_kind \<Rightarrow> operation \<Rightarrow> client_error" where
  "operation_error kind op =
     \<lparr>cle_kind = kind,
      cle_message = (case op_error op of None \<Rightarrow> ''operation entered terminal state '' @ debug_state (op_state op)
                     | Some e \<Rightarrow> err_message e),
      cle_api_error = op_error op, cle_operation = Some op\<rparr>"

text \<open>The verdict on an observed operation; \<open>None\<close> when it still runs.\<close>

definition settled :: "operation \<Rightarrow> (client_error + operation) option" where
  "settled op = (case op_state op of
      Succeeded \<Rightarrow> Some (Inr op)
    | Failed \<Rightarrow> Some (Inl (operation_error OperationFailed op))
    | Cancelled \<Rightarrow> Some (Inl (operation_error OperationCancelled op))
    | Indeterminate \<Rightarrow> Some (Inl (operation_error OperationIndeterminate op))
    | Unknown_Op_State \<Rightarrow> Some (Inl (operation_error OperationIndeterminate op))
    | Queued \<Rightarrow> None
    | Running \<Rightarrow> None)"

definition observed_operation :: "operation response \<Rightarrow> client_error + operation" where
  "observed_operation response =
     (case response of
        Result_Response _ op \<Rightarrow> Inr op
      | Accepted_Response op \<Rightarrow> Inr op
      | Error_Response e \<Rightarrow> Inl (rejected_error e))"

text \<open>The loop with the number of attempts left; the interval separates two attempts.\<close>

fun wait_attempts :: "('v, 't) client \<Rightarrow> ('v \<Rightarrow> operation response option) \<Rightarrow> operation_id \<Rightarrow> nat \<Rightarrow> nat \<Rightarrow> 't \<times> u64 \<Rightarrow>
    ((client_error + operation) \<times> 't \<times> u64) option" where
  "wait_attempts cl from_value i interval 0 st =
     Some (Inl (client_error_new Timeout ''operation did not finish within the polling limit''), st)"
| "wait_attempts cl from_value i interval (Suc n) st =
     (case client_execute cl from_value (request_get (''/1.0/operations/'' @ i)) st of
        None \<Rightarrow> None
      | Some (r, t, seq) \<Rightarrow>
          (case and_then r observed_operation of
             Inl e \<Rightarrow> Some (Inl e, t, seq)
           | Inr op \<Rightarrow>
               (case settled op of
                  Some verdict \<Rightarrow> Some (verdict, t, seq)
                | None \<Rightarrow> wait_attempts cl from_value i interval n (if n = 0 then t else cl_sleep cl interval t, seq))))"

definition wait_operation :: "('v, 't) client \<Rightarrow> ('v \<Rightarrow> operation response option) \<Rightarrow> operation_id \<Rightarrow> wait_policy \<Rightarrow>
    't \<times> u64 \<Rightarrow> ((client_error + operation) \<times> 't \<times> u64) option" where
  "wait_operation cl from_value i policy st =
     (if wp_max_attempts policy = 0
      then Some (Inl (client_error_new Timeout ''operation wait has no attempts''), st)
      else wait_attempts cl from_value i (wp_interval policy) (unat (wp_max_attempts policy)) st)"

section \<open>Framing of responses\<close>

lemma length_HEADER_END [simp]: "length HEADER_END = 4"
  by (simp add: HEADER_END_def)

lemma header_position_iff:
  "header_position xs = Some p \<longleftrightarrow>
     starts_with (drop p xs) HEADER_END \<and> (\<forall>i<p. \<not> starts_with (drop i xs) HEADER_END)"
proof (induction xs arbitrary: p)
  case Nil
  then show ?case by (simp add: starts_with_def HEADER_END_def)
next
  case (Cons b bs)
  then show ?case by (cases p) (auto simp: All_less_Suc2)
qed

lemma header_position_room: "header_position xs = Some p \<Longrightarrow> p + 4 \<le> length xs"
  unfolding header_position_iff starts_with_def by (auto dest: arg_cong [where f = length])

lemma header_position_local:
  assumes "take (p + 4) xs = take (p + 4) ys"
  shows "header_position xs = Some p \<longleftrightarrow> header_position ys = Some p"
proof -
  have "starts_with (drop i xs) HEADER_END = starts_with (drop i ys) HEADER_END" if "i \<le> p" for i
  proof -
    have "take 4 (drop i (take (p + 4) xs)) = take 4 (drop i xs)" for xs :: "u8 list"
      using that by (simp add: drop_take)
    from this [of xs] this [of ys] assms show ?thesis by (simp add: starts_with_def)
  qed
  then show ?thesis unfolding header_position_iff by auto
qed

lemma header_position_append: "header_position xs = Some p \<Longrightarrow> header_position (xs @ ys) = Some p"
  using header_position_room [of xs p] by (intro iffD1 [OF header_position_local [of p xs "xs @ ys"]]) simp_all

lemma header_position_split:
  assumes "header_position xs = Some p"
  shows "xs = take p xs @ HEADER_END @ drop (p + 4) xs"
proof -
  have "take 4 (drop p xs) = HEADER_END"
    using assms by (simp add: header_position_iff starts_with_def)
  then have "drop p xs = HEADER_END @ drop (p + 4) xs" by (metis append_take_drop_id drop_drop add.commute)
  then show ?thesis by (metis append_take_drop_id)
qed

lemma faithful_steady:
  assumes "faithful_reader rd contents (\<lambda>_. 0)" and "0 < n"
  shows "\<exists>bytes c'. rd c n = (Inr bytes, c') \<and> contents c = bytes @ contents c' \<and> (contents c \<noteq> [] \<longrightarrow> bytes \<noteq> []) \<and>
     length bytes \<le> n"
proof -
  obtain r c' where rd: "rd c n = (r, c')" by (cases "rd c n")
  have "case rd c n of
      (Inr bytes, s') \<Rightarrow> length bytes \<le> n \<and> contents c = bytes @ contents s' \<and> (contents c \<noteq> [] \<longrightarrow> bytes \<noteq> [])
    | (Inl e, s') \<Rightarrow> ioe_kind e = Interrupted \<and> contents s' = contents c \<and> (0::nat) < 0"
    by (rule assms(1) [unfolded faithful_reader_def, rule_format, OF assms(2)])
  note step = this [unfolded rd prod.case]
  show ?thesis
  proof (cases r)
    case (Inl e)
    then show ?thesis using step by (simp only: sum.case less_irrefl simp_thms)
  next
    case (Inr bytes)
    then have "contents c = bytes @ contents c'" "contents c \<noteq> [] \<longrightarrow> bytes \<noteq> []" "length bytes \<le> n"
      using step unfolding Inr sum.case by blast+
    then show ?thesis by (intro exI [of _ bytes] exI [of _ c'] conjI) (simp_all only: rd Inr)
  qed
qed

lemma read_exact_keeps:
  assumes "faithful_reader rd contents (\<lambda>_. 0)" and "read_exact rd c n acc = Some (Inr out, c')"
  shows "\<exists>bs. out = acc @ bs \<and> length bs = n \<and> contents c = bs @ contents c'"
  using assms(2)
proof (induction n arbitrary: c acc rule: less_induct)
  case (less n)
  show ?case
  proof (cases "n = 0")
    case True
    then show ?thesis using less.prems by (subst (asm) read_exact.simps) simp
  next
    case False
    then obtain bytes c1 where rd: "rd c n = (Inr bytes, c1)" and bytes: "contents c = bytes @ contents c1" "length bytes \<le> n"
      using faithful_steady [OF assms(1), of n c] by blast
    have "bytes \<noteq> []" and step: "read_exact rd c1 (n - length bytes) (acc @ bytes) = Some (Inr out, c')"
      using less.prems False rd by (subst (asm) read_exact.simps, auto split: if_splits)+
    then obtain bs where "out = (acc @ bytes) @ bs" "length bs = n - length bytes" "contents c1 = bs @ contents c'"
      using less.IH [OF _ step] False by (cases bytes) auto
    then show ?thesis using bytes by (intro exI [of _ "bytes @ bs"]) simp
  qed
qed

text \<open>
  Reading the headers keeps every byte; it succeeds when the blank line comes within the limit, however
  the stream is cut into reads.
\<close>

lemma read_headers_keeps:
  assumes "faithful_reader rd contents (\<lambda>_. 0)"
    and "read_headers rd io_text limit received c = (Inr (e, all), c')"
  shows "all @ contents c' = received @ contents c \<and> 4 \<le> e \<and> header_position all = Some (e - 4)"
  using assms(2)
proof (induction "limit - length received" arbitrary: received c rule: less_induct)
  case less
  show ?case
  proof (cases "header_position received")
    case (Some p)
    then show ?thesis using less.prems by (subst (asm) read_headers.simps) auto
  next
    case None
    then have short: "length received < limit" using less.prems by (subst (asm) read_headers.simps) (auto split: if_splits)
    obtain bytes c1 where rd: "rd c 4096 = (Inr bytes, c1)" and bytes: "contents c = bytes @ contents c1"
      using faithful_steady [OF assms(1), of 4096 c, OF zero_less_numeral] by blast
    have "bytes \<noteq> []" and step: "read_headers rd io_text limit (received @ bytes) c1 = (Inr (e, all), c')"
      using less.prems None short rd by (subst (asm) read_headers.simps, auto split: if_splits)+
    from \<open>bytes \<noteq> []\<close> have "limit - length (received @ bytes) < limit - length received"
      using short by (cases bytes) simp_all
    from less.hyps [OF this step] show ?thesis by (simp add: bytes)
  qed
qed

lemma read_headers_finds:
  assumes "faithful_reader rd contents (\<lambda>_. 0)"
    and "header_position (received @ contents c) = Some p" and "p + 4 \<le> limit"
  shows "\<exists>all c'. read_headers rd io_text limit received c = (Inr (p + 4, all), c')"
  using assms(2)
proof (induction "limit - length received" arbitrary: received c rule: less_induct)
  case less
  show ?case
  proof (cases "header_position received")
    case (Some q)
    then have "q = p" using less.prems header_position_append [of received q "contents c"] by simp
    then show ?thesis using Some by (subst read_headers.simps) simp
  next
    case None
    have short: "length received < limit"
    proof (rule ccontr)
      assume "\<not> length received < limit"
      then have "header_position received = Some p"
        using less.prems assms(3) header_position_local [of p received "received @ contents c"] by simp
      then show False using None by simp
    qed
    obtain bytes c1 where rd: "rd c 4096 = (Inr bytes, c1)" and bytes: "contents c = bytes @ contents c1"
      "contents c \<noteq> [] \<longrightarrow> bytes \<noteq> []"
      using faithful_steady [OF assms(1), of 4096 c, OF zero_less_numeral] by blast
    have "bytes \<noteq> []" using None less.prems bytes(2) by (cases "contents c") auto
    then have "limit - length (received @ bytes) < limit - length received"
      using short by (cases bytes) simp_all
    from less.hyps [OF this, of c1] less.prems bytes(1)
    obtain all c' where "read_headers rd io_text limit (received @ bytes) c1 = (Inr (p + 4, all), c')" by auto
    then show ?thesis using None short rd \<open>bytes \<noteq> []\<close> by (subst read_headers.simps) simp
  qed
qed

lemma headers_split:
  assumes "header_position all = Some (length head)" and "all @ rest = head @ HEADER_END @ body"
  shows "all = head @ HEADER_END @ drop (length head + 4) all" and "body = drop (length head + 4) all @ rest"
proof -
  let ?tail = "drop (length head + 4) all"
  have split: "all = take (length head) all @ HEADER_END @ ?tail" by (rule header_position_split [OF assms(1)])
  have "length (take (length head) all) = length head" using header_position_room [OF assms(1)] by simp
  moreover have "take (length head) all @ HEADER_END @ ?tail @ rest = head @ HEADER_END @ body"
    using assms(2) split by (metis append.assoc)
  ultimately have "take (length head) all = head" and "?tail @ rest = body" by simp_all
  then show "all = head @ HEADER_END @ ?tail" and "body = ?tail @ rest" using split by simp_all
qed

text \<open>A complete response: the head, the blank line, and exactly the declared body.\<close>

definition complete_response :: "(u8 list \<Rightarrow> 'v option) \<Rightarrow> nat \<Rightarrow> nat \<Rightarrow> u8 list \<Rightarrow> 'v raw_response \<Rightarrow> bool" where
  "complete_response from_slice max_head max_body bytes raw \<longleftrightarrow> (\<exists>head body h.
     bytes = head @ HEADER_END @ body \<and> header_position bytes = Some (length head) \<and> length head + 4 \<le> max_head \<and>
     length body \<le> max_body \<and> parse_response_head head = Inr h \<and> unat (rh_content_length h) = length body \<and>
     rw_status raw = rh_status h \<and> from_slice body = Some (rw_value raw))"

text \<open>C28: The client accepts a response exactly when the stream holds one complete response and nothing more:
  headers up to the first blank line and within their limit, a head that parses, a body of exactly the
  declared length and within its limit, valid JSON.  This holds however the stream is cut into reads.\<close>

theorem response_framing_exact:
  assumes "faithful_reader rd contents (\<lambda>_. 0)"
  shows "(\<exists>c'. read_response rd io_text from_slice max_head max_body c = Some (Inr raw, c')) \<longleftrightarrow>
     complete_response from_slice max_head max_body (contents c) raw"
proof
  assume "complete_response from_slice max_head max_body (contents c) raw"
  then obtain head body h where whole: "contents c = head @ HEADER_END @ body"
    and pos: "header_position (contents c) = Some (length head)" and room: "length head + 4 \<le> max_head"
    and len: "length body \<le> max_body" "unat (rh_content_length h) = length body"
    and h: "parse_response_head head = Inr h" and raw: "rw_status raw = rh_status h" "from_slice body = Some (rw_value raw)"
    unfolding complete_response_def by blast
  obtain all c1 where hd: "read_headers rd io_text max_head [] c = (Inr (length head + 4, all), c1)"
    using read_headers_finds [OF assms, of "[]" c, simplified, OF pos room] by blast
  define tail where "tail = drop (length head + 4) all"
  have "header_position all = Some (length head)" "all @ contents c1 = head @ HEADER_END @ body"
    using read_headers_keeps [OF assms hd] whole by simp_all
  note all = headers_split [OF this, folded tail_def]
  obtain c2 where c2: "read_exact rd c1 (length (contents c1)) tail = Some (Inr (tail @ contents c1), c2)" "contents c2 = []"
    using read_exact_total [OF assms, of c1 "contents c1" "[]" tail] by auto
  obtain bytes c3 where c3: "rd c2 1 = (Inr bytes, c3)" "contents c2 = bytes @ contents c3"
    using faithful_steady [OF assms zero_less_one, of c2] by (elim exE conjE) assumption+
  have "bytes = []" using c2(2) c3(2) by simp
  have "read_response rd io_text from_slice max_head max_body c = Some (Inr raw, c3)"
    using hd room len raw h c2(1) c3(1) \<open>bytes = []\<close> all(2)
    by (simp add: read_response_def finish_response_def all(1) Let_def)
  then show "\<exists>c'. read_response rd io_text from_slice max_head max_body c = Some (Inr raw, c')" by blast
next
  assume "\<exists>c'. read_response rd io_text from_slice max_head max_body c = Some (Inr raw, c')"
  then obtain c' where run: "read_response rd io_text from_slice max_head max_body c = Some (Inr raw, c')" by blast
  obtain e all c1 where hd: "read_headers rd io_text max_head [] c = (Inr (e, all), c1)"
    using run by (auto simp: read_response_def split: prod.splits sum.splits)
  obtain h where room: "e \<le> max_head" and h: "parse_response_head (take (e - 4) all) = Inr h"
    and len: "unat (rh_content_length h) \<le> max_body" "length (drop e all) \<le> unat (rh_content_length h)"
    using run by (auto simp: read_response_def hd Let_def split: if_splits sum.splits)
  obtain body c2 where exact: "read_exact rd c1 (unat (rh_content_length h) - length (drop e all)) (drop e all) = Some (Inr body, c2)"
    and fin: "finish_response rd io_text from_slice (rh_status h) body c2 = (Inr raw, c')"
    using run room h len by (auto simp: read_response_def hd Let_def split: option.splits prod.splits sum.splits)
  obtain extra c3 where extra: "rd c2 1 = (Inr extra, c3)" "contents c2 = extra @ contents c3" "contents c2 \<noteq> [] \<longrightarrow> extra \<noteq> []"
    using faithful_steady [OF assms zero_less_one, of c2] by blast
  have raw: "contents c2 = []" "rw_status raw = rh_status h" "from_slice body = Some (rw_value raw)"
    using fin extra by (auto simp: finish_response_def result_iff split: if_splits)
  have body: "body = drop e all @ contents c1" "length body = unat (rh_content_length h)"
    using read_exact_keeps [OF assms exact] raw(1) len(2) by auto
  have all: "all @ contents c1 = contents c" "4 \<le> e" "header_position all = Some (e - 4)"
    using read_headers_keeps [OF assms hd] by simp_all
  have whole: "contents c = take (e - 4) all @ HEADER_END @ body"
    using header_position_split [OF all(3)] all(1,2) body(1) by (metis append.assoc le_add_diff_inverse2)
  have "length (take (e - 4) all) = e - 4" using header_position_room [OF all(3)] by simp
  moreover have "header_position (contents c) = Some (e - 4)"
    using header_position_append [OF all(3), of "contents c1"] all(1) by simp
  ultimately show "complete_response from_slice max_head max_body (contents c) raw"
    unfolding complete_response_def using whole room all(2) len(1) body(2) h raw(2,3)
    by (intro exI [of _ "take (e - 4) all"] exI [of _ body] exI [of _ h]) simp
qed

text \<open>A short response on a stream that delivers one byte at a time.\<close>

definition sample_head :: string where
  "sample_head = join [CHR 0x0D, CHR 0x0A]
     [''HTTP/1.1 200 OK'', ''content-type: application/json'', ''Content-Length: 2'']"

lemma unat_as_bytes: "map unat (as_bytes s) = map byte s" and bytes_text_as_bytes: "bytes_text (as_bytes s) = s"
proof -
  have "unat (of_nat (byte c) :: u8) = byte c" for c
    by (simp add: byte_def unat_of_nat)
  then show "map unat (as_bytes s) = map byte s" and "bytes_text (as_bytes s) = s"
    by (simp_all add: as_bytes_def bytes_text_def byte_def comp_def)
qed

lemma sample_status: "response_status ''HTTP/1.1 200 OK'' = Some 200"
proof -
  have "split_whitespace ''HTTP/1.1 200 OK'' = [''HTTP/1.1'', ''200'', ''OK'']" by code_simp
  then show ?thesis
    by (simp add: response_status_def parse_word_def parse_unsigned_def is_ascii_digit_def byte_def)
qed

lemma sample_headers:
  "response_headers [''content-type: application/json'', ''Content-Length: 2''] (None, None) = Inr (Some 2, Some True)"
proof -
  have "split_once CHR '':'' ''content-type: application/json'' = Some (''content-type'', '' application/json'')"
    "split_once CHR '':'' ''Content-Length: 2'' = Some (''Content-Length'', '' 2'')"
    "json_media_type '' application/json''" "trim '' 2'' = ''2''"
    "\<not> eq_ignore_ascii_case ''content-type'' ''transfer-encoding''" "\<not> eq_ignore_ascii_case ''Content-Length'' ''transfer-encoding''"
    "\<not> eq_ignore_ascii_case ''content-type'' ''content-length''" "eq_ignore_ascii_case ''Content-Length'' ''content-length''"
    "eq_ignore_ascii_case ''content-type'' ''content-type''" "\<not> eq_ignore_ascii_case ''Content-Length'' ''content-type''"
    by code_simp+
  moreover have "parse_word ''2'' = Some (2 :: u64)"
    by (simp add: parse_word_def parse_unsigned_def is_ascii_digit_def byte_def)
  ultimately show ?thesis
    by (simp only: response_headers.simps response_header_def option.case prod.case if_True if_False and_then.simps
        map_ok.simps ok_or.simps fst_conv snd_conv simp_thms)
qed

lemma sample_head_parses: "parse_response_head (as_bytes sample_head) = Inr \<lparr>rh_status = 200, rh_content_length = 2\<rparr>"
proof -
  have "utf8_valid (map byte sample_head)" by code_simp
  moreover have "split_crlf sample_head = [''HTTP/1.1 200 OK'', ''content-type: application/json'', ''Content-Length: 2'']"
    by code_simp
  ultimately show ?thesis
    by (simp add: parse_response_head_def unat_as_bytes bytes_text_as_bytes sample_status sample_headers
        del: response_headers.simps)
qed

lemma header_position_text:
  assumes "list_all (\<lambda>i. \<not> starts_with (drop i (map byte s @ [13, 10, 13, 10])) [13, 10, 13, 10]) [0..<length s]"
  shows "header_position (as_bytes s @ HEADER_END @ body) = Some (length (as_bytes s))"
proof -
  have inj: "starts_with (map unat xs) (map unat ys) = starts_with xs ys" for xs ys :: "u8 list"
    by (simp add: starts_with_def take_map inj_map_eq_map [of unat] injI word_unat_eq_iff)
  have bytes: "map unat (as_bytes s @ HEADER_END) = map byte s @ [13, 10, 13, 10]"
    by (simp add: unat_as_bytes HEADER_END_def)
  have "\<not> starts_with (drop i (as_bytes s @ HEADER_END)) HEADER_END" if "i < length s" for i
    using that assms unfolding inj [of "drop i (as_bytes s @ HEADER_END)" HEADER_END, symmetric] drop_map [symmetric] bytes
    by (simp add: list_all_iff HEADER_END_def)
  then have "header_position (as_bytes s @ HEADER_END) = Some (length (as_bytes s))"
    unfolding header_position_iff by (simp add: starts_with_def as_bytes_def)
  from header_position_append [OF this, of body] show ?thesis by simp
qed

lemma sample_head_ends: "header_position (as_bytes sample_head @ HEADER_END @ body) = Some (length (as_bytes sample_head))"
  by (rule header_position_text) code_simp

theorem response_framing_exact_witness:
  "\<exists>c'. read_response (so_read byte_stream) (\<lambda>_. []) (\<lambda>body. Some (length body)) 1024 16
     ([], as_bytes sample_head @ HEADER_END @ [123, 125]) = Some (Inr \<lparr>rw_status = 200, rw_value = 2\<rparr>, c')"
proof (rule iffD2 [OF response_framing_exact [OF byte_stream_faithful(2)]])
  have "header_position (as_bytes sample_head @ HEADER_END @ [123, 125]) = Some (length (as_bytes sample_head))"
    by (rule sample_head_ends)
  moreover have "length (as_bytes sample_head) = 66" by (simp add: as_bytes_def sample_head_def)
  ultimately show "complete_response (\<lambda>body. Some (length body)) 1024 16
      (snd ([], as_bytes sample_head @ HEADER_END @ [123, 125])) \<lparr>rw_status = 200, rw_value = 2\<rparr>"
    unfolding complete_response_def snd_conv
    by (intro exI [of _ "as_bytes sample_head"] exI [of _ "[123, 125]"]
      exI [of _ "\<lparr>rh_status = 200, rh_content_length = 2\<rparr>"]) (simp add: sample_head_parses)
qed

section \<open>Client and daemon agree on paths\<close>

text \<open>What the HTTP library of the daemon makes of a request line.\<close>

definition http_method_of :: "string \<Rightarrow> http_method" where
  "http_method_of name =
     (case map_of [(''GET'', GET), (''PUT'', PUT), (''POST'', POST), (''PATCH'', PATCH), (''DELETE'', DELETE)] name of
        Some method \<Rightarrow> method
      | None \<Rightarrow> Other_Method name)"

definition uri_split :: "string \<Rightarrow> string \<times> string option" where
  "uri_split target =
     (case split_once CHR ''?'' target of None \<Rightarrow> (target, None) | Some (path, query) \<Rightarrow> (path, Some query))"

text \<open>The instance and the action that a call addresses.\<close>

fun addressed_instance :: "client_mutation \<Rightarrow> (instance_id \<times> instance_action option) option" where
  "addressed_instance (Update_Instance i _) = Some (i, None)"
| "addressed_instance (Delete_Instance i _) = Some (i, None)"
| "addressed_instance (Load_Instance i _) = Some (i, Some Action_Load)"
| "addressed_instance (Load_ManagedImage i _) = Some (i, Some Action_LoadImage)"
| "addressed_instance (Start_Instance i _) = Some (i, Some Action_Start)"
| "addressed_instance (Stop_Instance i _) = Some (i, Some Action_Stop)"
| "addressed_instance (Unload_Instance i _) = Some (i, Some Action_Unload)"
| "addressed_instance _ = None"

text \<open>Identifiers that the daemon hands out: a path segment.\<close>

definition segment_id :: "string \<Rightarrow> bool" where
  "segment_id i \<longleftrightarrow> i \<noteq> [] \<and> CHR ''/'' \<notin> set i \<and> CHR ''?'' \<notin> set i"

lemma show_word_no_slash: "CHR ''/'' \<notin> set (show_word w)" and show_word_no_mark: "CHR ''?'' \<notin> set (show_word w)"
  using show_word_digits [of "CHR ''/''" w] show_word_digits [of "CHR ''?''" w] by (auto simp: is_ascii_digit_def byte_def)

lemma instance_path_bare: "instance_resource (instance_request_path i []) = Some (i, None)"
  unfolding instance_resource_def instance_request_path_def append_Nil2 strip_prefix_append option.case
    split_char_no_sep [OF show_word_no_slash] by (simp add: parse_word_show_word)

lemma instance_path_action:
  assumes "instance_action_of name = Some action" and "CHR ''/'' \<notin> set name"
  shows "instance_resource (instance_request_path i (CHR ''/'' # name)) = Some (i, Some action)"
  unfolding instance_resource_def instance_request_path_def strip_prefix_append option.case
    split_char_append_sep [OF show_word_no_slash] split_char_no_sep [OF assms(2)]
  by (simp add: parse_word_show_word assms(1))

lemma instance_path_actions:
  "instance_resource (instance_request_path i ''/load'') = Some (i, Some Action_Load)"
  "instance_resource (instance_request_path i ''/load-image'') = Some (i, Some Action_LoadImage)"
  "instance_resource (instance_request_path i ''/start'') = Some (i, Some Action_Start)"
  "instance_resource (instance_request_path i ''/stop'') = Some (i, Some Action_Stop)"
  "instance_resource (instance_request_path i ''/unload'') = Some (i, Some Action_Unload)"
  by (rule instance_path_action; code_simp)+

lemma operation_path: "segment_id i \<Longrightarrow> operation_id_from_path (''/1.0/operations/'' @ i) = Some i"
  unfolding operation_id_from_path_Some by (simp only: segment_id_def simp_thms)

lemma uri_split_plain: "CHR ''?'' \<notin> set p \<Longrightarrow> uri_split p = (p, None)"
proof -
  assume "CHR ''?'' \<notin> set p"
  then have "split_once CHR ''?'' p = None" by (induction p) auto
  then show ?thesis by (simp add: uri_split_def)
qed

lemma uri_split_query: "CHR ''?'' \<notin> set p \<Longrightarrow> uri_split (p @ CHR ''?'' # q) = (p, Some q)"
  by (simp add: uri_split_def split_once_eq_Some [THEN iffD2])

lemma request_json_path: "request_json method path body = Inr req \<Longrightarrow> cq_path req = path \<and> cq_method req = method"
  by (auto simp: request_json_def result_iff)

lemma other_paths_no_instance:
  "instance_resource ''/1.0/resource-pool'' = None" "instance_resource ''/1.0/os-images'' = None"
  "instance_resource ''/1.0/instances'' = None" "instance_resource ''/1.0/images'' = None"
  "instance_resource (''/1.0/operations/'' @ i) = None"
proof -
  show "instance_resource (''/1.0/operations/'' @ i) = None"
    using resource_heads(4) [of "''/1.0/operations/'' @ i"] by (cases "instance_resource (''/1.0/operations/'' @ i)") simp_all
qed (rule collection_not_resource; simp add: collection_paths_def)+

lemma mutation_addresses:
  "mutation_request codec mut = Inr req \<Longrightarrow> instance_resource (cq_path req) = addressed_instance mut"
  by (cases mut)
    (auto simp only: mutation_request.simps lifecycle_call_def addressed_instance.simps other_paths_no_instance
       instance_path_bare instance_path_actions client_request.simps sum.inject dest!: request_json_path)

text \<open>The daemon reads from the path of a request exactly the resource that the client named: the instance
  and the action of every mutation, the operation to cancel, the instance, operation and image of every
  read, and the cursor of the event stream.\<close>

theorem client_paths_round_trip:
  assumes "segment_id op" and "segment_id img" and "parse_artifact_id img = Inr img"
  shows "(\<forall>m req. mutation_request codec m = Inr req \<longrightarrow> instance_resource (cq_path req) = addressed_instance m) \<and>
    (\<forall>req. mutation_request codec (Cancel_Operation op) = Inr req \<longrightarrow> operation_id_from_path (cq_path req) = Some op) \<and>
    instance_resource (cq_path (read_request (Get_Instance i))) = Some (i, None) \<and>
    operation_id_from_path (cq_path (read_request (Get_Operation op))) = Some op \<and>
    os_image_resource (cq_path (read_request (Get_OsImage img))) = Some img \<and>
    (case uri_split (cq_path (read_request (Get_Events cursor))) of (path, query) \<Rightarrow>
       path = ''/1.0/events'' \<and> parse_cursor query = Inr cursor)"
proof (intro conjI allI impI)
  show "instance_resource (cq_path req) = addressed_instance m" if "mutation_request codec m = Inr req" for m req
    using that by (rule mutation_addresses)
  show "operation_id_from_path (cq_path req) = Some op" if "mutation_request codec (Cancel_Operation op) = Inr req" for req
    using that operation_path [OF assms(1)] by (auto simp only: mutation_request.simps client_request.simps sum.inject)
  show "instance_resource (cq_path (read_request (Get_Instance i))) = Some (i, None)"
    using instance_path_bare [of i] by (simp only: read_request.simps request_get_def client_request.simps
        instance_request_path_def append_Nil2)
  show "operation_id_from_path (cq_path (read_request (Get_Operation op))) = Some op"
    using operation_path [OF assms(1)] by (simp only: read_request.simps request_get_def client_request.simps)
  show "os_image_resource (cq_path (read_request (Get_OsImage img))) = Some img"
    unfolding read_request.simps request_get_def client_request.simps os_image_resource_def strip_prefix_append option.case
    using assms(2,3) by (simp add: segment_id_def)
  have "uri_split (''/1.0/events?after='' @ show_word cursor) = (''/1.0/events'', Some (''after='' @ show_word cursor))"
    using uri_split_query [of "''/1.0/events''" "''after='' @ show_word cursor"] by simp
  moreover have "parse_cursor (Some (''after='' @ show_word cursor)) = Inr cursor"
    unfolding parse_cursor_def option.case strip_prefix_append
    using show_word_digits [of "CHR ''&''" cursor] by (auto simp: parse_word_show_word is_ascii_digit_def byte_def)
  ultimately show "case uri_split (cq_path (read_request (Get_Events cursor))) of (path, query) \<Rightarrow>
      path = ''/1.0/events'' \<and> parse_cursor query = Inr cursor"
    by (simp only: read_request.simps request_get_def client_request.simps prod.case simp_thms)
qed

section \<open>Client and daemon agree on routes\<close>

lemma route_for_instance:
  assumes "instance_resource p = Some (i, a)"
  shows "route_for method p =
    (case (method, a) of
       (GET, None) \<Rightarrow> Some read_route
     | (PATCH, None) \<Rightarrow> Some mutation_route
     | (DELETE, None) \<Rightarrow> Some mutation_route
     | (POST, Some Action_Console) \<Rightarrow> Some \<lparr>sec_class = Console, sec_audit_action = AttachConsole\<rparr>
     | (POST, Some _) \<Rightarrow> Some mutation_route
     | _ \<Rightarrow> None)"
proof -
  have "{''/1.0/images'', ''/1.0/os-images'', ''/1.0/instances'', ''/1.0/resource-pool''} \<subseteq> set collection_paths"
    by (simp add: collection_paths_def)
  moreover have "instance_resource p \<noteq> None" using assms by simp
  note only = instance_path_only [OF this]
  ultimately have "p \<notin> {''/1.0/images'', ''/1.0/os-images''}" "p \<noteq> ''/1.0/instances''" "p \<noteq> ''/1.0/resource-pool''"
    by blast+
  then show ?thesis by (simp only: route_for_def only assms option.case prod.case simp_thms if_False)
qed

lemma operation_path_only:
  "''/1.0/operations/'' @ i \<notin> set collection_paths" "''/1.0/operations/'' @ i \<noteq> ''/1.0/images''"
  "''/1.0/operations/'' @ i \<noteq> ''/1.0/os-images''" "''/1.0/operations/'' @ i \<noteq> ''/1.0/resource-pool''"
  "''/1.0/operations/'' @ i \<noteq> ''/1.0/instances''"
  by (simp_all add: collection_paths_def)

lemma route_for_operation:
  assumes "segment_id i"
  shows "route_for GET (''/1.0/operations/'' @ i) = Some read_route"
    and "route_for DELETE (''/1.0/operations/'' @ i) = Some \<lparr>sec_class = Mutation, sec_audit_action = CancelOperation\<rparr>"
  by (simp_all only: route_for_def operation_path_only operation_path [OF assms] http_method.distinct http_method.case
      option.distinct if_True if_False simp_thms)

lemma route_for_os_image:
  assumes "segment_id i" and "parse_artifact_id i = Inr i"
  shows "route_for GET (''/1.0/os-images/'' @ i) = Some read_route"
proof -
  have res: "os_image_resource (''/1.0/os-images/'' @ i) \<noteq> None"
    unfolding os_image_resource_def strip_prefix_append option.case using assms by (simp add: segment_id_def)
  show ?thesis by (simp add: route_for_def res [simplified])
qed

lemma http_methods [simp]:
  "http_method_of ''GET'' = GET" "http_method_of ''PUT'' = PUT" "http_method_of ''POST'' = POST"
  "http_method_of ''PATCH'' = PATCH" "http_method_of ''DELETE'' = DELETE"
  by (simp_all add: http_method_of_def)

text \<open>What the policy of the daemon asks of a mutation, and how it is audited.\<close>

definition mutation_security :: "client_mutation \<Rightarrow> route_security" where
  "mutation_security mut =
     (case mut of
        Set_ResourcePool _ \<Rightarrow> \<lparr>sec_class = Mutation, sec_audit_action = MutateResourcePool\<rparr>
      | Import_OsImage _ \<Rightarrow> \<lparr>sec_class = Administration, sec_audit_action = ManageImages\<rparr>
      | Import_Image _ \<Rightarrow> \<lparr>sec_class = Administration, sec_audit_action = ManageImages\<rparr>
      | Cancel_Operation _ \<Rightarrow> \<lparr>sec_class = Mutation, sec_audit_action = CancelOperation\<rparr>
      | _ \<Rightarrow> \<lparr>sec_class = Mutation, sec_audit_action = MutateLifecycle\<rparr>)"

definition wellformed_read :: "client_read \<Rightarrow> bool" where
  "wellformed_read query =
     (case query of Get_Operation i \<Rightarrow> segment_id i
      | Get_OsImage i \<Rightarrow> segment_id i \<and> parse_artifact_id i = Inr i | _ \<Rightarrow> True)"

definition wellformed_mutation :: "client_mutation \<Rightarrow> bool" where
  "wellformed_mutation mut = (case mut of Cancel_Operation i \<Rightarrow> segment_id i | _ \<Rightarrow> True)"

lemma instance_request_path_plain:
  "CHR ''?'' \<notin> set suffix \<Longrightarrow> uri_split (instance_request_path i suffix) = (instance_request_path i suffix, None)"
  by (rule uri_split_plain) (auto simp: instance_request_path_def show_word_no_mark)

lemma fixed_mutation_routes:
  "route_for PUT ''/1.0/resource-pool'' = Some \<lparr>sec_class = Mutation, sec_audit_action = MutateResourcePool\<rparr>"
  "route_for POST ''/1.0/os-images'' = Some \<lparr>sec_class = Administration, sec_audit_action = ManageImages\<rparr>"
  "route_for POST ''/1.0/images'' = Some \<lparr>sec_class = Administration, sec_audit_action = ManageImages\<rparr>"
  "route_for POST ''/1.0/instances'' = Some mutation_route"
  by (simp_all add: route_for_def)

lemma fixed_request_routed:
  assumes "request_json method path body = Inr req" and "CHR ''?'' \<notin> set path"
    and "route_for (http_method_of method) path = Some security"
  shows "route_for (http_method_of (cq_method req)) (fst (uri_split (cq_path req))) = Some security"
  using assms(3) unfolding conjunct1 [OF request_json_path [OF assms(1)]] conjunct2 [OF request_json_path [OF assms(1)]]
    uri_split_plain [OF assms(2)] fst_conv .

lemma instance_request_routed:
  assumes "request_json method (instance_request_path i suffix) body = Inr req" and "CHR ''?'' \<notin> set suffix"
    and "instance_resource (instance_request_path i suffix) = Some (i, a)"
    and "(http_method_of method, a) \<in> {(PATCH, None), (DELETE, None)} \<or>
      http_method_of method = POST \<and> (\<exists>act. a = Some act \<and> act \<noteq> Action_Console)"
  shows "route_for (http_method_of (cq_method req)) (fst (uri_split (cq_path req))) =
    Some \<lparr>sec_class = Mutation, sec_audit_action = MutateLifecycle\<rparr>"
  using assms(4) unfolding conjunct1 [OF request_json_path [OF assms(1)]] conjunct2 [OF request_json_path [OF assms(1)]]
    instance_request_path_plain [OF assms(2)] fst_conv route_for_instance [OF assms(3)] mutation_route_def
  by (auto split: instance_action.split)

lemma mutation_routed:
  assumes "mutation_request codec mut = Inr req" and "wellformed_mutation mut"
  shows "route_for (http_method_of (cq_method req)) (fst (uri_split (cq_path req))) = Some (mutation_security mut)"
proof (cases mut)
  case (Cancel_Operation i)
  then have i: "segment_id i" using assms(2) by (simp add: wellformed_mutation_def)
  have "uri_split (''/1.0/operations/'' @ i) = (''/1.0/operations/'' @ i, None)"
    using i by (intro uri_split_plain) (simp add: segment_id_def)
  moreover have "cq_method req = ''DELETE''" "cq_path req = ''/1.0/operations/'' @ i"
    using assms(1) unfolding Cancel_Operation mutation_request.simps by (auto simp only: sum.inject client_request.simps)
  ultimately show ?thesis
    using route_for_operation(2) [OF i]
    by (simp only: Cancel_Operation mutation_security_def client_mutation.case http_methods fst_conv)
next
  case (Set_ResourcePool x)
  show ?thesis unfolding Set_ResourcePool mutation_security_def client_mutation.case
    by (rule fixed_request_routed [OF assms(1) [unfolded Set_ResourcePool mutation_request.simps]])
      (simp_all add: fixed_mutation_routes mutation_route_def)
next
  case (Import_OsImage x)
  show ?thesis unfolding Import_OsImage mutation_security_def client_mutation.case
    by (rule fixed_request_routed [OF assms(1) [unfolded Import_OsImage mutation_request.simps]])
      (simp_all add: fixed_mutation_routes mutation_route_def)
next
  case (Create_Instance x)
  show ?thesis unfolding Create_Instance mutation_security_def client_mutation.case
    by (rule fixed_request_routed [OF assms(1) [unfolded Create_Instance mutation_request.simps]])
      (simp_all add: fixed_mutation_routes mutation_route_def)
next
  case (Import_Image x)
  show ?thesis unfolding Import_Image mutation_security_def client_mutation.case
    by (rule fixed_request_routed [OF assms(1) [unfolded Import_Image mutation_request.simps]])
      (simp_all add: fixed_mutation_routes mutation_route_def)
next
  case (Update_Instance i x)
  show ?thesis unfolding Update_Instance mutation_security_def client_mutation.case
    by (rule instance_request_routed [OF assms(1) [unfolded Update_Instance mutation_request.simps lifecycle_call_def]
          _ instance_path_bare]) simp_all
next
  case (Load_Instance i x)
  show ?thesis unfolding Load_Instance mutation_security_def client_mutation.case
    by (rule instance_request_routed [OF assms(1) [unfolded Load_Instance mutation_request.simps lifecycle_call_def]
          _ instance_path_actions(1)]) simp_all
next
  case (Load_ManagedImage i x)
  show ?thesis unfolding Load_ManagedImage mutation_security_def client_mutation.case
    by (rule instance_request_routed [OF assms(1) [unfolded Load_ManagedImage mutation_request.simps lifecycle_call_def]
          _ instance_path_actions(2)]) simp_all
next
  case (Start_Instance i x)
  show ?thesis unfolding Start_Instance mutation_security_def client_mutation.case
    by (rule instance_request_routed [OF assms(1) [unfolded Start_Instance mutation_request.simps lifecycle_call_def]
          _ instance_path_actions(3)]) simp_all
next
  case (Unload_Instance i x)
  show ?thesis unfolding Unload_Instance mutation_security_def client_mutation.case
    by (rule instance_request_routed [OF assms(1) [unfolded Unload_Instance mutation_request.simps lifecycle_call_def]
          _ instance_path_actions(5)]) simp_all
next
  case (Delete_Instance i x)
  show ?thesis unfolding Delete_Instance mutation_security_def client_mutation.case
    by (rule instance_request_routed [OF assms(1) [unfolded Delete_Instance mutation_request.simps lifecycle_call_def]
          _ instance_path_bare]) simp_all
next
  case (Stop_Instance i x)
  show ?thesis unfolding Stop_Instance mutation_security_def client_mutation.case
    by (rule instance_request_routed [OF assms(1) [unfolded Stop_Instance mutation_request.simps lifecycle_call_def]
          _ instance_path_actions(4)]) simp_all
qed

text \<open>The reads of the client have a read-only route.\<close>

lemma read_routed:
  assumes "wellformed_read query"
  shows "route_for (http_method_of (cq_method (read_request query))) (fst (uri_split (cq_path (read_request query)))) =
    Some read_route"
proof -
  have coll: "route_for GET (fst (uri_split p)) = Some read_route" if "p \<in> set collection_paths" for p
  proof -
    have "list_all (\<lambda>p. CHR ''?'' \<notin> set p) collection_paths" by code_simp
    then have "CHR ''?'' \<notin> set p" using that by (simp add: list_all_iff)
    then show ?thesis using that by (simp only: uri_split_plain fst_conv route_for_def simp_thms if_True)
  qed
  note get = request_get_def client_request.simps read_request.simps http_methods
  show ?thesis
  proof (cases query)
    case (Get_Instance i)
    have "route_for GET (fst (uri_split (instance_request_path i []))) = Some read_route"
      by (simp add: instance_request_path_plain route_for_instance [OF instance_path_bare])
    then show ?thesis by (simp only: get Get_Instance instance_request_path_def append_Nil2)
  next
    case (Get_OsImage i)
    then have i: "segment_id i" "parse_artifact_id i = Inr i" using assms by (simp_all add: wellformed_read_def)
    have "uri_split (''/1.0/os-images/'' @ i) = (''/1.0/os-images/'' @ i, None)"
      using i(1) by (intro uri_split_plain) (simp add: segment_id_def)
    then show ?thesis using route_for_os_image [OF i] by (simp only: get Get_OsImage fst_conv)
  next
    case (Get_Operation i)
    then have i: "segment_id i" using assms by (simp add: wellformed_read_def)
    have "uri_split (''/1.0/operations/'' @ i) = (''/1.0/operations/'' @ i, None)"
      using i by (intro uri_split_plain) (simp add: segment_id_def)
    then show ?thesis using route_for_operation(1) [OF i] by (simp only: get Get_Operation fst_conv)
  next
    case (Get_Events cursor)
    have "uri_split (''/1.0/events?after='' @ show_word cursor) = (''/1.0/events'', Some (''after='' @ show_word cursor))"
      using uri_split_query [of "''/1.0/events''" "''after='' @ show_word cursor"] by simp
    then show ?thesis by (simp add: get Get_Events route_for_def collection_paths_def)
  qed (simp_all only: get, (rule coll, simp add: collection_paths_def)+)
qed

lemma no_route_os_image:
  assumes "segment_id i" and "parse_artifact_id i \<noteq> Inr i"
  shows "route_for GET (fst (uri_split (''/1.0/os-images/'' @ i))) = None"
proof -
  let ?p = "''/1.0/os-images/'' @ i"
  have "ok (parse_artifact_id i) = None"
    using assms(2) by (auto simp: parse_artifact_id_def split: option.splits if_splits)
  then have "os_image_resource ?p = None"
    unfolding os_image_resource_def strip_prefix_append option.case by simp
  moreover have "?p \<notin> set collection_paths" by (simp add: collection_paths_def)
  moreover have "strip_prefix ''/1.0/operations/'' ?p = None" "strip_prefix ''/1.0/images/'' ?p = None"
    "strip_prefix ''/1.0/instances/'' ?p = None"
    by (simp_all add: strip_prefix_def starts_with_iff)
  then have "operation_id_from_path ?p = None" "image_resource ?p = None" "instance_resource ?p = None"
    by (simp_all only: operation_id_from_path_def image_resource_def instance_resource_def option.case)
  moreover have "uri_split ?p = (?p, None)"
    using assms(1) by (intro uri_split_plain) (simp add: segment_id_def)
  ultimately show ?thesis by (simp add: route_for_def)
qed



definition sample_id :: string where
  "sample_id = ''sha256:'' @ replicate 64 CHR ''0''"

theorem client_paths_round_trip_witness:
  "operation_id_from_path ''/1.0/operations/operation-1'' = Some ''operation-1'' \<and>
   os_image_resource (''/1.0/os-images/'' @ sample_id) = Some sample_id"
proof -
  have "segment_id ''operation-1''" "segment_id sample_id" "parse_artifact_id sample_id = Inr sample_id" by code_simp+
  from client_paths_round_trip [OF this] show ?thesis by (simp add: request_get_def)
qed

section \<open>Waiting\<close>

text \<open>What the trait \<open>Transport\<close> documents: a call returns.\<close>

definition answering :: "('v, 't) client \<Rightarrow> bool" where
  "answering cl \<longleftrightarrow> (\<forall>rid req t. cl_execute cl rid req t \<noteq> None)"

text \<open>What the client sees of an operation when it asks a number of times, one interval apart: for each request the
  operation in the answer, or the error.\<close>

fun observations :: "('v, 't) client \<Rightarrow> ('v \<Rightarrow> operation response option) \<Rightarrow> operation_id \<Rightarrow> nat \<Rightarrow> nat \<Rightarrow> 't \<times> u64 \<Rightarrow>
    ((client_error + operation) list \<times> 't \<times> u64) option" where
  "observations cl from_value i interval 0 st = Some ([], st)"
| "observations cl from_value i interval (Suc n) st =
     (case client_execute cl from_value (request_get (''/1.0/operations/'' @ i)) st of
        None \<Rightarrow> None
      | Some (r, t, seq) \<Rightarrow>
          map_option (\<lambda>(obs, st). (and_then r observed_operation # obs, st))
            (observations cl from_value i interval n (if n = 0 then t else cl_sleep cl interval t, seq)))"

definition still_running :: "client_error + operation \<Rightarrow> bool" where
  "still_running ob \<longleftrightarrow> (\<exists>op. ob = Inr op \<and> op_state op \<in> {Queued, Running})"

text \<open>An outcome other than success, reported under its kind and with the operation and its error.\<close>

definition reported_as :: "client_error_kind \<Rightarrow> operation \<Rightarrow> client_error + operation \<Rightarrow> bool" where
  "reported_as kind op r \<longleftrightarrow>
     (\<exists>e. r = Inl e \<and> cle_kind e = kind \<and> cle_operation e = Some op \<and> cle_api_error e = op_error op)"

text \<open>What the last observation makes of the wait.\<close>

definition faithful_verdict :: "client_error + operation \<Rightarrow> client_error + operation \<Rightarrow> bool" where
  "faithful_verdict ob r =
     (case ob of
        Inl e \<Rightarrow> r = Inl e
      | Inr op \<Rightarrow>
          (case op_state op of
             Succeeded \<Rightarrow> r = Inr op
           | Failed \<Rightarrow> reported_as OperationFailed op r
           | Cancelled \<Rightarrow> reported_as OperationCancelled op r
           | Indeterminate \<Rightarrow> reported_as OperationIndeterminate op r
           | Unknown_Op_State \<Rightarrow> reported_as OperationIndeterminate op r
           | Queued \<Rightarrow> r = Inl (client_error_new Timeout ''operation did not finish within the polling limit'')
           | Running \<Rightarrow> r = Inl (client_error_new Timeout ''operation did not finish within the polling limit'')))"

lemma settled_verdict:
  "settled op = None \<longleftrightarrow> still_running (Inr op)"
  "settled op = Some r \<Longrightarrow> faithful_verdict (Inr op) r"
  by (cases "op_state op";
      auto simp: settled_def still_running_def faithful_verdict_def reported_as_def operation_error_def)+

lemma client_execute_answers:
  assumes "answering cl"
  shows "\<exists>r t'. client_execute cl from_value req (t, seq) = Some (r, t', seq + 1)"
proof -
  obtain r t' where "cl_execute cl (client_request_id (cl_process_id cl) seq) req t = Some (r, t')"
    using assms unfolding answering_def by (metis option.exhaust prod.exhaust)
  then show ?thesis by (auto simp: client_execute_def result_iff split: if_splits)
qed

declare wait_attempts.simps(2) [simp del] observations.simps(2) [simp del]

lemma wait_attempts_verdict:
  assumes "answering cl"
  shows "\<exists>r t' k obs. wait_attempts cl from_value i interval n (t, seq) = Some (r, t', seq + of_nat k) \<and>
    observations cl from_value i interval k (t, seq) = Some (obs, t', seq + of_nat k) \<and> k \<le> n \<and> (k = 0 \<longleftrightarrow> n = 0) \<and>
    length obs = k \<and> list_all still_running (butlast obs) \<and>
    (if n = 0 then r = Inl (client_error_new Timeout ''operation did not finish within the polling limit'')
     else faithful_verdict (last obs) r \<and> (still_running (last obs) \<longrightarrow> k = n))"
proof (induction n arbitrary: t seq)
  case 0
  show ?case
    by (intro exI [of _ "Inl (client_error_new Timeout ''operation did not finish within the polling limit'')"] exI [of _ t]
        exI [of _ 0] exI [of _ "[]"]) simp
next
  case (Suc n)
  obtain r t' where exec: "client_execute cl from_value (request_get (''/1.0/operations/'' @ i)) (t, seq) = Some (r, t', seq + 1)"
    using client_execute_answers [OF assms] by blast
  let ?ob = "and_then r observed_operation"
  note step = wait_attempts.simps(2) [of cl from_value i interval n "(t, seq)", unfolded exec option.case prod.case]
  note watch = observations.simps(2) [of cl from_value i interval _ "(t, seq)", unfolded exec option.case prod.case]
  have single: ?case if "wait_attempts cl from_value i interval (Suc n) (t, seq) = Some (v, t', seq + 1)"
    "faithful_verdict ?ob v" "still_running ?ob \<longrightarrow> n = 0" for v
    using that by (intro exI [of _ v] exI [of _ t'] exI [of _ 1] exI [of _ "[?ob]"]) (simp add: watch)
  show ?case
  proof (cases ?ob)
    case (Inl e)
    then show ?thesis by (intro single [of "Inl e"]) (simp_all add: step faithful_verdict_def still_running_def)
  next
    case (Inr op)
    show ?thesis
    proof (cases "settled op")
      case (Some v)
      then show ?thesis
        using settled_verdict [of op] Inr by (intro single [of v]) (simp_all add: step)
    next
      case None
      then have running: "still_running ?ob" unfolding Inr by (simp only: settled_verdict)
      show ?thesis
      proof (cases "n = 0")
        case True
        have "faithful_verdict ?ob (Inl (client_error_new Timeout ''operation did not finish within the polling limit''))"
          using running by (auto simp: still_running_def faithful_verdict_def)
        moreover have "wait_attempts cl from_value i interval (Suc n) (t, seq) = Some
            (Inl (client_error_new Timeout ''operation did not finish within the polling limit''), t', seq + 1)"
          unfolding step Inr None sum.case option.case using True by simp
        ultimately show ?thesis using True by (intro single) blast+
      next
        case False
        let ?t = "cl_sleep cl interval t'"
        obtain r' t'' k obs where next_run:
          "wait_attempts cl from_value i interval n (?t, seq + 1) = Some (r', t'', seq + 1 + of_nat k)"
          "observations cl from_value i interval k (?t, seq + 1) = Some (obs, t'', seq + 1 + of_nat k)"
          "k \<le> n" "k \<noteq> 0" "length obs = k" "list_all still_running (butlast obs)"
          "faithful_verdict (last obs) r'" "still_running (last obs) \<longrightarrow> k = n"
          using Suc.IH [of ?t "seq + 1"] False by (simp only: if_False) blast
        then have "obs \<noteq> []" by auto
        have "wait_attempts cl from_value i interval (Suc n) (t, seq) = Some (r', t'', seq + of_nat (Suc k))"
          using next_run(1) False by (simp add: step Inr None algebra_simps)
        moreover have "observations cl from_value i interval (Suc k) (t, seq) = Some (?ob # obs, t'', seq + of_nat (Suc k))"
          using next_run(2,4) by (simp add: watch algebra_simps)
        ultimately show ?thesis
          using next_run running \<open>obs \<noteq> []\<close>
          by (intro exI [of _ r'] exI [of _ t''] exI [of _ "Suc k"] exI [of _ "?ob # obs"]) simp
      qed
    qed
  qed
qed

text \<open>C30: Waiting for an operation ends after at most the allowed number of requests, and says what the daemon reported.
  If the policy allows no attempt, it times out at once.  Otherwise it asks one interval apart as long as
  it sees the operation queued or running, and what it sees last decides: an error of the request is returned as it is, a
  succeeded operation is returned, a failed or cancelled operation and one of an indeterminate or unknown outcome are each
  reported at once under their own kind, with the operation and its error, and the wait times out exactly when every
  allowed attempt has seen the operation queued or running.\<close>

theorem wait_operation_verdict:
  assumes "answering cl"
  shows "\<exists>r t' k obs. wait_operation cl from_value i policy (t, seq) = Some (r, t', seq + of_nat k) \<and>
    observations cl from_value i (wp_interval policy) k (t, seq) = Some (obs, t', seq + of_nat k) \<and>
    length obs = k \<and> k \<le> unat (wp_max_attempts policy) \<and> list_all still_running (butlast obs) \<and>
    (if wp_max_attempts policy = 0
     then r = Inl (client_error_new Timeout ''operation wait has no attempts'')
     else k \<noteq> 0 \<and> faithful_verdict (last obs) r \<and>
       (still_running (last obs) \<longrightarrow> k = unat (wp_max_attempts policy)))"
proof (cases "wp_max_attempts policy = 0")
  case True
  then show ?thesis
    by (intro exI [of _ "Inl (client_error_new Timeout ''operation wait has no attempts'')"] exI [of _ t] exI [of _ 0]
        exI [of _ "[]"]) (simp add: wait_operation_def)
next
  case False
  then have "unat (wp_max_attempts policy) \<noteq> 0" by (simp add: unat_eq_zero)
  then show ?thesis
    using wait_attempts_verdict [OF assms, of from_value i "wp_interval policy" "unat (wp_max_attempts policy)" t seq] False
    by (simp only: wait_operation_def if_False) blast
qed

text \<open>A daemon that reports the operation as running at first and as failed from the second request on.\<close>

definition failing_operation :: "nat \<Rightarrow> operation" where
  "failing_operation n =
     (queued_operation 1 example_new_operation)\<lparr>op_state := (if n = 0 then Running else Failed)\<rparr>"

definition failing_client :: "(operation response, nat) client" where
  "failing_client = \<lparr>cl_execute = \<lambda>rid req t.
       Some (Inr \<lparr>rw_status = 200, rw_value = Result_Response 4 (failing_operation t)\<rparr>, Suc t),
     cl_sleep = \<lambda>d t. t, cl_process_id = 1\<rparr>"

lemma failing_exec:
  "client_execute failing_client Some req (t, seq) = Some (Inr (Result_Response 4 (failing_operation t)), Suc t, seq + 1)"
  by (simp add: client_execute_def failing_client_def decode_response_def status_agrees_def)

theorem wait_operation_verdict_witness:
  "answering failing_client \<and>
   (\<exists>r. wait_operation failing_client Some ''op-1'' default_wait_policy (0, 1) = Some (r, 2, 3) \<and>
      reported_as OperationFailed (failing_operation 1) r)"
proof -
  have answers: "answering failing_client" by (simp add: answering_def failing_client_def)
  have max: "unat (wp_max_attempts default_wait_policy) = Suc (Suc 118)" by (simp add: default_wait_policy_def)
  have sleep: "cl_sleep failing_client d t = t" for d t by (simp add: failing_client_def)
  have states: "op_state (failing_operation 0) = Running" "op_state (failing_operation (Suc n)) = Failed" for n
    by (simp_all add: failing_operation_def)
  have "wp_max_attempts default_wait_policy \<noteq> 0" by (simp add: default_wait_policy_def)
  then have run: "\<exists>r. wait_operation failing_client Some ''op-1'' default_wait_policy (0, 1) = Some (r, 2, 3)"
    unfolding wait_operation_def max wait_attempts.simps failing_exec
    by (simp add: observed_operation_def settled_def states sleep failing_exec)
  obtain r t' k obs where waited:
    "wait_operation failing_client Some ''op-1'' default_wait_policy (0, 1) = Some (r, t', 1 + of_nat k)"
    "observations failing_client Some ''op-1'' (wp_interval default_wait_policy) k (0, 1) = Some (obs, t', 1 + of_nat k)"
    "k \<le> unat (wp_max_attempts default_wait_policy)" "faithful_verdict (last obs) r"
    using wait_operation_verdict [OF answers, of Some "''op-1''" default_wait_policy 0 1]
      \<open>wp_max_attempts default_wait_policy \<noteq> 0\<close> by (simp only: if_False) blast
  with run have "1 + of_nat k = (3 :: u64)" "t' = 2" by auto
  then have "of_nat k = (2 :: u64)" by (simp add: eq_diff_eq [symmetric] add.commute)
  then have "k = 2" using waited(3) max by (simp add: word_unat_eq_iff unat_of_nat)
  then have "last obs = Inr (failing_operation 1)"
    using waited(2) by (auto simp: numeral_2_eq_2 observations.simps failing_exec sleep observed_operation_def)
  with waited(1,4) run answers show ?thesis
    by (auto simp: faithful_verdict_def states(2) [of 0, simplified])
qed

end
