(* ===== verification/Browser_Console.thy ===== *)
theory Browser_Console
  imports Client
begin

text \<open>
  The console of the browser gateway, \<open>crates/kernmux-gateway/src/browser_console.rs\<close>: the credentials in
  the WebSocket subprotocols, the upgrade of the daemon connection and the bridge between the two.  The
  WebSocket library is a parameter; the deadline of the handshake is a choice of the environment.
\<close>

section \<open>Constants\<close>

definition CONSOLE_PROTOCOL :: string where "CONSOLE_PROTOCOL = ''kernmux-console-v1''"
definition BEARER_PROTOCOL_PREFIX :: string where "BEARER_PROTOCOL_PREFIX = ''kernmux-bearer.''"
definition MAX_CONSOLE_WIRE_BYTES :: nat where "MAX_CONSOLE_WIRE_BYTES = 64 * 1024 + 5"
definition MAX_DAEMON_HEADER_BYTES :: nat where "MAX_DAEMON_HEADER_BYTES = 32 * 1024"

record rejection =
  rj_status :: status_code
  rj_code :: string

section \<open>Credentials\<close>

definition base64url_alphabet :: string where
  "base64url_alphabet = ''ABCDEFGHIJKLMNOPQRSTUVWXYZabcdefghijklmnopqrstuvwxyz0123456789-_''"

unbundle bit_operations_syntax

definition base64url_value :: "u8 list \<Rightarrow> u32" where
  "base64url_value chunk =
     push_bit 16 (ucast (chunk ! 0)) OR
     push_bit 8 (ucast (if length chunk > 1 then chunk ! 1 else 0)) OR
     ucast (if length chunk > 2 then chunk ! 2 else 0)"

definition base64url_char :: "u32 \<Rightarrow> char" where
  "base64url_char digit = base64url_alphabet ! unat (digit AND 0x3f)"

definition base64url_chunk :: "u8 list \<Rightarrow> string" where
  "base64url_chunk chunk =
     (let value = base64url_value chunk in
      [base64url_char (drop_bit 18 value), base64url_char (drop_bit 12 value)] @
      (if length chunk > 1 then [base64url_char (drop_bit 6 value)] else []) @
      (if length chunk > 2 then [base64url_char value] else []))"

fun base64url :: "u8 list \<Rightarrow> string" where
  "base64url (a # b # c # rest) = base64url_chunk [a, b, c] @ base64url rest"
| "base64url [] = []"
| "base64url chunk = base64url_chunk chunk"

text \<open>The comparison looks at every one of the first \<open>n\<close> positions; \<open>usize\<close> has 64 bits.\<close>

definition byte_at :: "u8 list \<Rightarrow> nat \<Rightarrow> u8" where
  "byte_at bytes i = (if i < length bytes then bytes ! i else 0)"

definition constant_time_equal_upto :: "nat \<Rightarrow> u8 list \<Rightarrow> u8 list \<Rightarrow> bool" where
  "constant_time_equal_upto n left right =
     (fold (\<lambda>i difference. difference OR ucast (byte_at left i XOR byte_at right i)) [0..<n]
        ((of_nat (length left) :: u64) XOR of_nat (length right)) = 0)"

definition console_constant_time_equal :: "u8 list \<Rightarrow> u8 list \<Rightarrow> bool" where
  "console_constant_time_equal = constant_time_equal_upto 1024"

definition count_protocol :: "string \<Rightarrow> string \<Rightarrow> u8 \<times> u8 \<Rightarrow> u8 \<times> u8" where
  "count_protocol expected protocol counts =
     (case counts of (console, bearer) \<Rightarrow>
      if protocol = CONSOLE_PROTOCOL then (saturating_add console 1, bearer)
      else if starts_with protocol BEARER_PROTOCOL_PREFIX \<and>
              console_constant_time_equal (as_bytes protocol) (as_bytes expected)
      then (console, saturating_add bearer 1)
      else (console, bearer))"

definition bearer_protocol :: "string \<Rightarrow> string" where
  "bearer_protocol token = BEARER_PROTOCOL_PREFIX @ base64url (as_bytes token)"

definition valid_subprotocols :: "string \<Rightarrow> string \<Rightarrow> bool" where
  "valid_subprotocols offered bearer_token =
     (if length offered > 1024 then False
      else fold (count_protocol (bearer_protocol bearer_token)) (map trim (split_char CHR '','' offered)) (0, 0) = (1, 1))"

definition console_instance :: "http_method \<Rightarrow> string \<Rightarrow> u32 option" where
  "console_instance method path =
     (if method \<noteq> GET then None
      else (case filter (\<lambda>segment. segment \<noteq> []) (split_char CHR ''/'' path) of
          [a, v, instances, i, console] \<Rightarrow>
            if a = ''api'' \<and> v = ''1.0'' \<and> instances = ''instances'' \<and> console = ''console''
            then (case parse_word i of
                    None \<Rightarrow> None
                  | Some i \<Rightarrow> if 1 \<le> i \<and> i \<le> 511 then Some i else None)
            else None
        | _ \<Rightarrow> None))"

section \<open>The connection to the daemon\<close>

definition console_request :: "u32 \<Rightarrow> string \<Rightarrow> string" where
  "console_request i rid =
     (let nl = [CHR 0x0D, CHR 0x0A] in
      ''POST /1.0/instances/'' @ show_word i @ ''/console HTTP/1.1'' @ nl @ ''Host: localhost'' @ nl @
      ''Connection: upgrade'' @ nl @ ''Upgrade: '' @ CONSOLE_PROTOCOL @ nl @ ''X-Request-Id: '' @ rid @ nl @
      ''Content-Length: 0'' @ nl @ nl)"

text \<open>\<open>AsyncWriteExt::write_all\<close>: unlike the blocking one it does not retry.\<close>

function write_all_async :: "('c \<Rightarrow> u8 list \<Rightarrow> (io_error + nat) \<times> 'c) \<Rightarrow> 'c \<Rightarrow> u8 list \<Rightarrow> (io_error + unit) \<times> 'c" where
  "write_all_async wr c data =
     (if data = [] then (Inr (), c)
      else (case wr c data of
          (Inl e, c) \<Rightarrow> (Inl e, c)
        | (Inr n, c) \<Rightarrow> if n = 0 then (Inl (io_kind WriteZero), c) else write_all_async wr c (drop n data)))"
  by pat_completeness auto
termination
  by (relation "measure (\<lambda>(wr, c, data). length data)") auto

declare write_all_async.simps [simp del]

definition ends_blank :: "u8 list \<Rightarrow> bool" where
  "ends_blank header \<longleftrightarrow> starts_with (rev header) (rev HEADER_END)"

text \<open>The head of the answer, byte by byte, so that nothing after it is taken from the stream.\<close>

function read_handshake :: "'c reader \<Rightarrow> u8 list \<Rightarrow> 'c \<Rightarrow> u8 list option \<times> 'c" where
  "read_handshake rd header c =
     (if length header \<ge> MAX_DAEMON_HEADER_BYTES then (Some header, c)
      else (case rd c 1 of
          (Inl e, c) \<Rightarrow> (None, c)
        | (Inr bytes, c) \<Rightarrow>
            (case bytes of
               [] \<Rightarrow> (None, c)
             | b # _ \<Rightarrow>
                 if ends_blank (header @ [b]) then (Some (header @ [b]), c)
                 else read_handshake rd (header @ [b]) c)))"
  by pat_completeness auto
termination
  by (relation "measure (\<lambda>(rd, header, c). MAX_DAEMON_HEADER_BYTES - length header)") auto

declare read_handshake.simps [simp del]

definition upgrade_status :: "string \<Rightarrow> nat option" where
  "upgrade_status line =
     (case split_whitespace line of
        _ # code # _ \<Rightarrow>
          (case parse_word code :: u16 option of
             None \<Rightarrow> None
           | Some n \<Rightarrow> if 100 \<le> n \<and> n \<le> 999 then Some (unat n) else None)
      | _ \<Rightarrow> None)"

definition upgrade_header :: "string \<Rightarrow> bool \<times> bool \<Rightarrow> (bool \<times> bool) option" where
  "upgrade_header line seen =
     (case split_once CHR '':'' line of
        None \<Rightarrow> None
      | Some (name, value) \<Rightarrow>
          if eq_ignore_ascii_case name ''connection''
          then Some (list_ex (\<lambda>token. eq_ignore_ascii_case (trim token) ''upgrade'') (split_char CHR '','' value), snd seen)
          else if eq_ignore_ascii_case name ''upgrade''
          then Some (fst seen, eq_ignore_ascii_case (trim value) CONSOLE_PROTOCOL)
          else Some seen)"

fun upgrade_headers :: "string list \<Rightarrow> bool \<times> bool \<Rightarrow> (bool \<times> bool) option" where
  "upgrade_headers [] seen = Some seen"
| "upgrade_headers (line # lines) seen =
     (case upgrade_header line seen of None \<Rightarrow> None | Some seen \<Rightarrow> upgrade_headers lines seen)"

text \<open>Why the answer does not open a console, or \<open>Inr\<close>.\<close>

definition check_upgrade :: "u8 list \<Rightarrow> status_code + unit" where
  "check_upgrade header =
     (if \<not> ends_blank header \<or> \<not> utf8_valid (map unat header) then Inl 502
      else (case split_crlf (bytes_text header) of
          [] \<Rightarrow> Inl 502
        | line # lines \<Rightarrow>
            (case upgrade_status line of
               None \<Rightarrow> Inl 502
             | Some status \<Rightarrow>
                 if status \<noteq> 101 then Inl status
                 else if upgrade_headers (filter (\<lambda>l. l \<noteq> []) lines) (False, False) = Some (True, True) then Inr ()
                 else Inl 502)))"

definition connect_daemon :: "(string \<Rightarrow> io_error + 'c) \<Rightarrow> 'c stream_ops \<Rightarrow> string \<Rightarrow> u32 \<Rightarrow> string \<Rightarrow>
    (status_code + unit) \<times> 'c option" where
  "connect_daemon connect ops socket i rid =
     (case connect socket of
        Inl e \<Rightarrow> (Inl 502, None)
      | Inr c \<Rightarrow>
          (case write_all_async (so_write ops) c (as_bytes (console_request i rid)) of
             (Inl e, c) \<Rightarrow> (Inl 502, Some c)
           | (Inr _, c) \<Rightarrow>
               (case read_handshake (so_read ops) [] c of
                  (None, c) \<Rightarrow> (Inl 502, Some c)
                | (Some header, c) \<Rightarrow> (check_upgrade header, Some c))))"

text \<open>
  The upgrade up to the spawned bridge: connecting is a call on the state of the daemon's side, \<open>timed_out\<close> says
  that the deadline came before the daemon's answer, \<open>handshake\<close> is the check of the WebSocket library.  \<open>Inr\<close>
  gives the daemon connection to the bridge.
\<close>

definition console_upgrade :: "(string \<Rightarrow> 't \<Rightarrow> (io_error + 'c) \<times> 't) \<Rightarrow> 'c stream_ops \<Rightarrow> bool \<Rightarrow> bool \<Rightarrow> http_method \<Rightarrow> string \<Rightarrow>
    string option option \<Rightarrow> string \<Rightarrow> bool \<Rightarrow> string \<Rightarrow> string \<Rightarrow> 't \<Rightarrow> (rejection + u32 \<times> 'c) \<times> 't" where
  "console_upgrade connect ops timed_out handshake method path subprotocols bearer_token origin_allowed socket rid t =
     (case console_instance method path of
        None \<Rightarrow> (Inl \<lparr>rj_status = 404, rj_code = ''route_not_found''\<rparr>, t)
      | Some i \<Rightarrow>
          if \<not> origin_allowed then (Inl \<lparr>rj_status = 403, rj_code = ''origin_forbidden''\<rparr>, t)
          else (case subprotocols of
              Some (Some offered) \<Rightarrow>
                if \<not> valid_subprotocols offered bearer_token then (Inl \<lparr>rj_status = 401, rj_code = ''unauthorized''\<rparr>, t)
                else (case connect socket t of (connection, t) \<Rightarrow>
                  (if timed_out then Inl \<lparr>rj_status = 504, rj_code = ''daemon_timeout''\<rparr>
                   else (case connect_daemon (\<lambda>_. connection) ops socket i rid of
                       (Inr _, Some c) \<Rightarrow>
                         if handshake then Inr (i, c)
                         else Inl \<lparr>rj_status = 400, rj_code = ''invalid_websocket_upgrade''\<rparr>
                     | (Inl status, _) \<Rightarrow>
                         if status = 409 then Inl \<lparr>rj_status = 409, rj_code = ''console_conflict''\<rparr>
                         else Inl \<lparr>rj_status = 502, rj_code = ''daemon_unavailable''\<rparr>
                     | (Inr _, None) \<Rightarrow> Inl \<lparr>rj_status = 502, rj_code = ''daemon_unavailable''\<rparr>), t))
            | _ \<Rightarrow> (Inl \<lparr>rj_status = 401, rj_code = ''unauthorized''\<rparr>, t)))"

section \<open>The bridge\<close>

datatype ws_message = Binary "u8 list" | Text_Message string | Ping "u8 list" | Pong "u8 list" | Close "u8 list option" | Raw_Frame

text \<open>What the loop waits for: the next message of the browser (\<open>None\<close> at its end), or a read from the daemon.\<close>

datatype bridge_event = From_Browser "(unit + ws_message) option" | From_Daemon "io_error + u8 list"

text \<open>The two sending ends; \<open>True\<close> is success.\<close>

record ('b, 'd) bridge_ends =
  be_send :: "ws_message \<Rightarrow> 'b \<Rightarrow> bool \<times> 'b"
  be_write :: "u8 list \<Rightarrow> 'd \<Rightarrow> bool \<times> 'd"

definition bridge_step :: "('b, 'd) bridge_ends \<Rightarrow> bridge_event \<Rightarrow> 'b \<times> 'd \<Rightarrow> bool \<times> 'b \<times> 'd" where
  "bridge_step ends event st =
     (case st of (browser, daemon) \<Rightarrow>
      let send = (\<lambda>msg. case be_send ends msg browser of (sent, browser) \<Rightarrow> (sent, browser, daemon));
          send_last = (\<lambda>msg. case be_send ends msg browser of (_, browser) \<Rightarrow> (False, browser, daemon)) in
      case event of
        From_Browser (Some (Inr (Binary payload))) \<Rightarrow>
          if length payload \<le> MAX_CONSOLE_WIRE_BYTES
          then (case be_write ends payload daemon of (written, daemon) \<Rightarrow> (written, browser, daemon))
          else send_last (Close None)
      | From_Browser (Some (Inr (Ping payload))) \<Rightarrow> send (Pong payload)
      | From_Browser (Some (Inr (Pong _))) \<Rightarrow> (True, browser, daemon)
      | From_Browser (Some (Inr (Close frame))) \<Rightarrow> send_last (Close frame)
      | From_Browser _ \<Rightarrow> send_last (Close None)
      | From_Daemon (Inl _) \<Rightarrow> send_last (Close None)
      | From_Daemon (Inr bytes) \<Rightarrow> if bytes = [] then send_last (Close None) else send (Binary bytes))"

text \<open>The loop over the events in the order in which they come; the daemon side is shut down at its end.\<close>

fun bridge :: "('b, 'd) bridge_ends \<Rightarrow> ('d \<Rightarrow> 'd) \<Rightarrow> bridge_event list \<Rightarrow> 'b \<times> 'd \<Rightarrow> ('b \<times> 'd) \<times> bool" where
  "bridge ends shutdown [] st = (st, False)"
| "bridge ends shutdown (event # events) st =
     (case bridge_step ends event st of
        (True, st) \<Rightarrow> bridge ends shutdown events st
      | (False, browser, daemon) \<Rightarrow> ((browser, shutdown daemon), True))"

section \<open>Comparing credentials\<close>

lemma fold_or_zero: "fold (\<lambda>i d. d OR f i) xs d = (0 :: 'a::len word) \<longleftrightarrow> d = 0 \<and> (\<forall>i \<in> set xs. f i = 0)"
  by (induction xs arbitrary: d) (auto simp: or_eq_0_iff)

lemma xor_eq_0_iff_eq: "a XOR b = 0 \<longleftrightarrow> a = b" for a b :: "'a::len word"
  by (metis xor.assoc xor.right_neutral xor.left_neutral xor_self_eq)

lemma ucast_byte_zero: "(ucast x :: u64) = 0 \<longleftrightarrow> x = 0" for x :: u8
proof -
  have "unat x < 2 ^ 64" using unsigned_less [of x, where 'a = nat] by simp
  then show ?thesis by (simp add: word_eq_iff_unsigned [where 'a = nat] unsigned_ucast_eq take_bit_nat_eq_self)
qed

lemma constant_time_equal_exact:
  assumes "length left \<le> n" and "length right \<le> n" and "n < 2 ^ 64"
  shows "constant_time_equal_upto n left right \<longleftrightarrow> left = right"
proof -
  have "unat (of_nat (length left) :: u64) = length left" "unat (of_nat (length right) :: u64) = length right"
    using assms by (simp_all add: unat_of_nat)
  then have len: "(of_nat (length left) :: u64) XOR of_nat (length right) = 0 \<longleftrightarrow> length left = length right"
    unfolding xor_eq_0_iff_eq by metis
  have byte: "(ucast (a XOR b) :: u64) = 0 \<longleftrightarrow> a = b" for a b :: u8
    using ucast_byte_zero [of "a XOR b"] by (simp add: xor_eq_0_iff_eq)
  show ?thesis unfolding constant_time_equal_upto_def fold_or_zero len byte
    using assms by (auto simp: byte_at_def list_eq_iff_nth_eq)
qed

section \<open>Base64\<close>

lemma base64url_digit: "unat (drop_bit n v AND 0x3f) = unat v div 2 ^ n mod 64" for v :: u32
proof -
  have "drop_bit n v AND 0x3f = take_bit 6 (drop_bit n v)"
    by (simp add: take_bit_eq_mask mask_eq_exp_minus_1)
  moreover have "unat (take_bit 6 (drop_bit n v)) = take_bit 6 (drop_bit n (unat v))"
    by (simp only: unsigned_take_bit_eq unsigned_drop_bit_eq take_bit_word_eq_self unsigned_take_bit_eq [symmetric] order.refl)
  ultimately show ?thesis by (simp add: take_bit_eq_mod drop_bit_eq_div)
qed

lemma base64url_char_eq:
  "base64url_char (drop_bit n v) = base64url_char (drop_bit n w) \<longleftrightarrow> unat v div 2 ^ n mod 64 = unat w div 2 ^ n mod 64"
proof -
  have "distinct base64url_alphabet" "length base64url_alphabet = 64" by code_simp+
  then show ?thesis
    by (simp add: base64url_char_def base64url_digit nth_eq_iff_index_eq)
qed

lemma unat_base64url_value:
  "unat (base64url_value [a]) = unat a * 65536" "unat (base64url_value [a, b]) = unat a * 65536 + unat b * 256"
  "unat (base64url_value [a, b, c]) = unat a * 65536 + unat b * 256 + unat c"
proof -
  have joined: "unat (push_bit 16 (ucast a :: u32) OR push_bit 8 (ucast b) OR ucast c) = unat a * 65536 + unat b * 256 + unat c"
    for a b c :: u8
  proof -
    have low: "push_bit 8 (ucast b :: u32) OR ucast c = push_bit 8 (ucast b) + ucast c"
      by (rule disjunctive_add_eq_or [symmetric]) (auto simp: bit_eq_iff bit_simps dest: bit_imp_le_length)
    have high: "push_bit 16 (ucast a :: u32) OR (push_bit 8 (ucast b) OR ucast c) = push_bit 16 (ucast a) + (push_bit 8 (ucast b) OR ucast c)"
      by (rule disjunctive_add_eq_or [symmetric]) (auto simp: bit_eq_iff bit_simps dest: bit_imp_le_length)
    have "unat (ucast x :: u32) = unat x" for x :: u8
      using unsigned_less [of x, where 'a = nat] by (simp add: unsigned_ucast_eq take_bit_nat_eq_self)
    then show ?thesis
      using unsigned_less [of a, where 'a = nat] unsigned_less [of b, where 'a = nat] unsigned_less [of c, where 'a = nat]
      unfolding high unfolding low unfolding push_bit_eq_mult by (simp add: unat_word_ariths)
  qed
  show "unat (base64url_value [a]) = unat a * 65536" "unat (base64url_value [a, b]) = unat a * 65536 + unat b * 256"
    "unat (base64url_value [a, b, c]) = unat a * 65536 + unat b * 256 + unat c"
    using joined [of a 0 0] joined [of a b 0] joined [of a b c] by (simp_all add: base64url_value_def)
qed

lemma four_digits:
  fixes v :: nat
  assumes "v < 2 ^ 24"
  shows "v = (v div 2 ^ 18 mod 64) * 2 ^ 18 + (v div 2 ^ 12 mod 64) * 2 ^ 12 + (v div 2 ^ 6 mod 64) * 2 ^ 6 + v div 2 ^ 0 mod 64"
proof -
  define x y where "x = v div 64" and "y = x div 64"
  have v: "v = 64 * x + v mod 64" and x: "x = 64 * y + x mod 64" and y: "y = 64 * (y div 64) + y mod 64"
    by (simp_all add: x_def y_def)
  have "y div 64 < 64" using assms by (simp add: x_def y_def div_mult2_eq [symmetric] less_mult_imp_div_less)
  then have top: "y div 64 mod 64 = y div 64" by simp
  have powers: "(2::nat) ^ 18 = 262144" "(2::nat) ^ 12 = 4096" "(2::nat) ^ 6 = 64" by simp_all
  have sum: "v = (y div 64 mod 64) * 2 ^ 18 + (y mod 64) * 2 ^ 12 + (x mod 64) * 2 ^ 6 + v mod 64"
    using v x y unfolding top powers by linarith
  have parts: "y div 64 = v div 2 ^ 18" "y = v div 2 ^ 12" "x = v div 2 ^ 6"
    by (simp_all add: x_def y_def div_mult2_eq [symmetric])
  show ?thesis using sum [unfolded parts(1), unfolded parts(2,3)] by (simp only: power_0 div_by_1)
qed

lemma two_bytes: "p * 256 + c = p' * 256 + (c' :: nat) \<Longrightarrow> c < 256 \<Longrightarrow> c' < 256 \<Longrightarrow> p = p' \<and> c = c'"
proof -
  assume eq: "p * 256 + c = p' * 256 + c'" and less: "c < 256" "c' < 256"
  have "(q * 256 + d) div 256 = q" "(q * 256 + d) mod 256 = d" if "d < 256" for q d :: nat using that by simp_all
  with eq less show ?thesis by metis
qed

lemma three_bytes:
  fixes a b c a' b' c' :: u8
  assumes "unat a * 65536 + unat b * 256 + unat c = unat a' * 65536 + unat b' * 256 + unat c'"
  shows "a = a' \<and> b = b' \<and> c = c'"
proof -
  have bound: "unat x < 256" for x :: u8 using unsigned_less [of x, where 'a = nat] by simp
  have "(unat a * 256 + unat b) * 256 + unat c = (unat a' * 256 + unat b') * 256 + unat c'" using assms by simp
  from two_bytes [OF this bound bound] two_bytes [OF _ bound bound, of "unat a" b "unat a'" b']
  show ?thesis by (simp add: word_unat_eq_iff)
qed

lemma base64url_value_bound: "unat a * 65536 + unat b * 256 + unat c < 2 ^ 24" for a b c :: u8
  using unsigned_less [of a, where 'a = nat] unsigned_less [of b, where 'a = nat] unsigned_less [of c, where 'a = nat] by simp

lemma base64url_chunk_digits:
  assumes "base64url_chunk xs = base64url_chunk ys" and "length xs = length ys"
  shows "unat (base64url_value xs) div 2 ^ 18 mod 64 = unat (base64url_value ys) div 2 ^ 18 mod 64"
    and "unat (base64url_value xs) div 2 ^ 12 mod 64 = unat (base64url_value ys) div 2 ^ 12 mod 64"
    and "length xs > 1 \<Longrightarrow> unat (base64url_value xs) div 2 ^ 6 mod 64 = unat (base64url_value ys) div 2 ^ 6 mod 64"
    and "length xs > 2 \<Longrightarrow> unat (base64url_value xs) div 2 ^ 0 mod 64 = unat (base64url_value ys) div 2 ^ 0 mod 64"
  using assms unfolding base64url_char_eq [symmetric] by (simp_all add: base64url_chunk_def Let_def)

lemma base64url_chunk_inject:
  "base64url_chunk [a, b, c] = base64url_chunk [a', b', c'] \<Longrightarrow> [a, b, c] = [a', b', c']"
  "base64url_chunk [a, b] = base64url_chunk [a', b'] \<Longrightarrow> [a, b] = [a', b']"
  "base64url_chunk [a] = base64url_chunk [a'] \<Longrightarrow> a = a'"
proof -
  have same: "a = a' \<and> b = b' \<and> c = c'"
    if "v = unat a * 65536 + unat b * 256 + unat c" "w = unat a' * 65536 + unat b' * 256 + unat c'"
      "v div 2 ^ 18 mod 64 = w div 2 ^ 18 mod 64" "v div 2 ^ 12 mod 64 = w div 2 ^ 12 mod 64"
      "v div 2 ^ 6 mod 64 = w div 2 ^ 6 mod 64" "v div 2 ^ 0 mod 64 = w div 2 ^ 0 mod 64" 
    for v w :: nat and a b c a' b' c' :: u8
    using four_digits [OF base64url_value_bound, of a b c, folded that(1)]
      four_digits [OF base64url_value_bound, of a' b' c', folded that(2)] that(3-6)
    by (intro three_bytes) (simp only: that(1,2))
  have low: "(x * 65536 + y * 256) mod 64 = 0" "(x * 65536) div 64 mod 64 = 0" for x y :: nat
  proof -
    have "x * 65536 + y * 256 = 64 * (1024 * x + 4 * y)" "x * 65536 = 64 * (64 * (16 * x))" by simp_all
    then show "(x * 65536 + y * 256) mod 64 = 0" "(x * 65536) div 64 mod 64 = 0" by (metis mod_mult_self1_is_0 nonzero_mult_div_cancel_left zero_neq_numeral)+
  qed
  show "[a, b, c] = [a', b', c']" if "base64url_chunk [a, b, c] = base64url_chunk [a', b', c']"
    using same [OF unat_base64url_value(3) unat_base64url_value(3) base64url_chunk_digits [OF that]] by simp
  show "[a, b] = [a', b']" if "base64url_chunk [a, b] = base64url_chunk [a', b']"
    using same [of _ a b 0 _ a' b' 0, OF _ _ base64url_chunk_digits(1-3) [OF that]] by (simp add: unat_base64url_value low)
  show "a = a'" if "base64url_chunk [a] = base64url_chunk [a']"
    using same [of _ a 0 0 _ a' 0 0, OF _ _ base64url_chunk_digits(1,2) [OF that]] by (simp add: unat_base64url_value low)
qed

lemma length_base64url_chunk: "length (base64url_chunk xs) = (if length xs > 2 then 4 else if length xs > 1 then 3 else 2)"
  by (simp add: base64url_chunk_def Let_def)

lemma base64url_inject: "base64url xs = base64url ys \<Longrightarrow> xs = ys"
proof (induction xs arbitrary: ys rule: base64url.induct)
  case (1 a b c rest)
  show ?case
  proof (cases ys rule: base64url.cases)
    case (1 a' b' c' rest')
    have "base64url_chunk [a, b, c] = base64url_chunk [a', b', c']" "base64url rest = base64url rest'"
      using "1.prems" 1 by (simp_all add: append_eq_append_conv length_base64url_chunk)
    then show ?thesis using "1.IH" [of rest'] base64url_chunk_inject(1) 1 by blast
  qed (use "1.prems" in \<open>auto simp: length_base64url_chunk dest: arg_cong [where f = length]\<close>)
next
  case 2
  then show ?case
    by (cases ys rule: base64url.cases) (auto simp: length_base64url_chunk dest: arg_cong [where f = length])
next
  case "3_1"
  then show ?case
    by (cases ys rule: base64url.cases)
      (auto simp: length_base64url_chunk dest: arg_cong [where f = length] base64url_chunk_inject(3))
next
  case "3_2"
  then show ?case
    by (cases ys rule: base64url.cases)
      (auto simp: length_base64url_chunk dest: arg_cong [where f = length] base64url_chunk_inject(2))
qed

lemma length_base64url: "3 * length (base64url xs) \<le> 4 * length xs + 2"
  by (induction xs rule: base64url.induct) (auto simp: length_base64url_chunk)

lemma bearer_protocol_inject: "bearer_protocol t = bearer_protocol t' \<longleftrightarrow> t = t'"
proof
  assume "bearer_protocol t = bearer_protocol t'"
  then have "base64url (as_bytes t) = base64url (as_bytes t')" by (simp add: bearer_protocol_def)
  then have "as_bytes t = as_bytes t'" by (rule base64url_inject)
  then show "t = t'" by (metis bytes_text_as_bytes)
qed simp

lemma length_bearer_protocol: "length token \<le> 512 \<Longrightarrow> length (bearer_protocol token) \<le> 1024"
  using length_base64url [of "as_bytes token"] by (simp add: bearer_protocol_def BEARER_PROTOCOL_PREFIX_def as_bytes_def)

section \<open>Subprotocols\<close>

lemma length_trim: "length (trim s) \<le> length s"
proof -
  have start: "length (trim_start s) \<le> length s" for s
  proof (induction s rule: trim_start.induct)
    case (1 s)
    then show ?case by (subst trim_start.simps) force
  qed
  have finish: "length (trim_end s) \<le> length s" for s
  proof (induction s rule: trim_end.induct)
    case (1 s)
    then show ?case by (subst trim_end.simps) force
  qed
  show ?thesis using start [of s] finish [of "trim_start s"] by (simp add: trim_def)
qed

lemma length_split_char: "p \<in> set (split_char c s) \<Longrightarrow> length p \<le> length s"
  by (induction s arbitrary: p) (fastforce split: if_splits list.splits)+

lemma bearer_not_console: "bearer_protocol token \<noteq> CONSOLE_PROTOCOL"
  by (simp add: bearer_protocol_def BEARER_PROTOCOL_PREFIX_def CONSOLE_PROTOCOL_def)

lemma count_protocol_fold:
  assumes "length token \<le> 512" and "\<forall>p \<in> set ps. length p \<le> 1024"
  shows "unat (fst (fold (count_protocol (bearer_protocol token)) ps (a, b))) = min 255 (unat a + count_list ps CONSOLE_PROTOCOL) \<and>
    unat (snd (fold (count_protocol (bearer_protocol token)) ps (a, b))) = min 255 (unat b + count_list ps (bearer_protocol token))"
  using assms(2)
proof (induction ps arbitrary: a b)
  case Nil
  show ?case using unsigned_less [of a, where 'a = nat] unsigned_less [of b, where 'a = nat] by simp
next
  case (Cons p ps)
  have "as_bytes p = as_bytes (bearer_protocol token) \<longleftrightarrow> p = bearer_protocol token" by (metis bytes_text_as_bytes)
  then have eq: "console_constant_time_equal (as_bytes p) (as_bytes (bearer_protocol token)) \<longleftrightarrow> p = bearer_protocol token"
    unfolding console_constant_time_equal_def
    using constant_time_equal_exact [of "as_bytes p" 1024 "as_bytes (bearer_protocol token)"] Cons.prems
      length_bearer_protocol [OF assms(1)] by (simp add: as_bytes_def)
  have prefix: "starts_with (bearer_protocol token) BEARER_PROTOCOL_PREFIX" by (simp add: bearer_protocol_def)
  have step: "count_protocol (bearer_protocol token) p (a, b) =
      (if p = CONSOLE_PROTOCOL then (saturating_add a 1, b)
       else if p = bearer_protocol token then (a, saturating_add b 1) else (a, b))"
    using prefix by (auto simp: count_protocol_def eq)
  show ?case
    using Cons.IH Cons.prems bearer_not_console [of token] bearer_not_console [of token, symmetric]
    by (auto simp: step unat_saturating_add)
qed

text \<open>The offer of a browser that holds the token.\<close>

definition offers_token :: "string \<Rightarrow> string \<Rightarrow> bool" where
  "offers_token offered token \<longleftrightarrow>
     length offered \<le> 1024 \<and> count_list (map trim (split_char CHR '','' offered)) CONSOLE_PROTOCOL = 1 \<and>
     count_list (map trim (split_char CHR '','' offered)) (bearer_protocol token) = 1"

lemma valid_subprotocols_offer:
  assumes "length token \<le> 512"
  shows "valid_subprotocols offered token \<longleftrightarrow> offers_token offered token"
proof -
  let ?ps = "map trim (split_char CHR '','' offered)"
  have "fold (count_protocol (bearer_protocol token)) ?ps (0, 0) = (1, 1) \<longleftrightarrow>
      count_list ?ps CONSOLE_PROTOCOL = 1 \<and> count_list ?ps (bearer_protocol token) = 1" if "length offered \<le> 1024"
  proof -
    have "\<forall>p \<in> set ?ps. length p \<le> 1024"
      using that length_trim length_split_char by (fastforce intro: order_trans)
    from count_protocol_fold [OF assms this, of 0 0] show ?thesis
      by (cases "fold (count_protocol (bearer_protocol token)) ?ps (0, 0)") (auto simp: word_unat_eq_iff min_def)
  qed
  then show ?thesis by (auto simp: valid_subprotocols_def offers_token_def)
qed

text \<open>C31: The browser console opens only for the holder of the token: the offered subprotocols are accepted exactly
  when they are short enough and name the console protocol once and the encoded token once, and no other
  token has the same encoding.\<close>

theorem console_credentials_exact:
  assumes "length token \<le> 512"
  shows "(valid_subprotocols offered token \<longleftrightarrow>
      length offered \<le> 1024 \<and> count_list (map trim (split_char CHR '','' offered)) CONSOLE_PROTOCOL = 1 \<and>
      count_list (map trim (split_char CHR '','' offered)) (bearer_protocol token) = 1) \<and>
    (\<forall>other. bearer_protocol other = bearer_protocol token \<longrightarrow> other = token)"
  using valid_subprotocols_offer [OF assms] bearer_protocol_inject by (auto simp: offers_token_def)

section \<open>The handshake with the daemon\<close>

lemma ends_blank_iff: "ends_blank header \<longleftrightarrow> (\<exists>head. header = head @ HEADER_END)"
  unfolding ends_blank_def starts_with_iff by (metis rev_append rev_rev_ident)

lemma header_position_None: "header_position xs = None \<longleftrightarrow> (\<forall>i. \<not> starts_with (drop i xs) HEADER_END)"
proof
  assume none: "header_position xs = None"
  show "\<forall>i. \<not> starts_with (drop i xs) HEADER_END"
  proof (rule ccontr)
    assume "\<not> (\<forall>i. \<not> starts_with (drop i xs) HEADER_END)"
    then obtain i where "starts_with (drop i xs) HEADER_END" by blast
    then have "header_position xs = Some (LEAST i. starts_with (drop i xs) HEADER_END)"
      unfolding header_position_iff by (metis (mono_tags, lifting) LeastI not_less_Least)
    with none show False by simp
  qed
next
  assume "\<forall>i. \<not> starts_with (drop i xs) HEADER_END"
  then show "header_position xs = None"
    using header_position_iff [of xs] by (cases "header_position xs") auto
qed

lemma header_position_snoc:
  assumes "header_position header = None"
  shows "header_position (header @ [b]) = (if ends_blank (header @ [b]) then Some (length (header @ [b]) - 4) else None)"
proof -
  have later: "i + 4 = length (header @ [b])" if start: "starts_with (drop i (header @ [b])) HEADER_END" for i
  proof (rule ccontr)
    assume other: "i + 4 \<noteq> length (header @ [b])"
    have "length (drop i (header @ [b])) \<ge> 4" using start by (metis le_add1 length_HEADER_END length_append starts_with_iff)
    then have "i + 4 \<le> length header" using other by simp
    then have "take 4 (drop i (header @ [b])) = take 4 (drop i header)" by simp
    then have "starts_with (drop i header) HEADER_END" using start unfolding starts_with_def length_HEADER_END by metis
    then show False using assms by (simp add: header_position_None)
  qed
  show ?thesis
  proof (cases "ends_blank (header @ [b])")
    case True
    then obtain head where head: "header @ [b] = head @ HEADER_END" by (auto simp: ends_blank_iff)
    then have len: "length (header @ [b]) - 4 = length head" by (metis add_diff_cancel_right' length_HEADER_END length_append)
    have "starts_with (drop (length head) (header @ [b])) HEADER_END" unfolding head by (simp add: starts_with_def)
    moreover have "\<not> starts_with (drop i (header @ [b])) HEADER_END" if "i < length head" for i
      using later [of i] that len by auto
    ultimately have "header_position (header @ [b]) = Some (length head)" unfolding header_position_iff by blast
    then show ?thesis using True len by simp
  next
    case False
    have "\<not> starts_with (drop i (header @ [b])) HEADER_END" for i
    proof
      assume start: "starts_with (drop i (header @ [b])) HEADER_END"
      from later [OF start] have "length (drop i (header @ [b])) = 4" by simp
      with start have "drop i (header @ [b]) = HEADER_END" by (simp add: starts_with_def)
      then have "header @ [b] = take i (header @ [b]) @ HEADER_END" by (metis append_take_drop_id)
      with False show False unfolding ends_blank_iff by blast
    qed
    then have "header_position (header @ [b]) = None" unfolding header_position_None by blast
    then show ?thesis using False by (simp only: if_False)
  qed
qed

lemma read_handshake_keeps:
  assumes "faithful_reader rd contents (\<lambda>_. 0)" and "read_handshake rd header c = (Some all, c')"
    and "header_position header = None"
  shows "all @ contents c' = header @ contents c \<and> (ends_blank all \<longrightarrow> header_position all = Some (length all - 4))"
  using assms(2,3)
proof (induction "MAX_DAEMON_HEADER_BYTES - length header" arbitrary: header c rule: less_induct)
  case less
  show ?case
  proof (cases "length header \<ge> MAX_DAEMON_HEADER_BYTES")
    case True
    then have "all = header" "c' = c" using less.prems(1) by (subst (asm) read_handshake.simps, simp)+
    moreover have "\<not> ends_blank header"
    proof
      assume "ends_blank header"
      then obtain head where "header = head @ HEADER_END" by (auto simp: ends_blank_iff)
      then have "starts_with (drop (length head) header) HEADER_END" by (simp add: starts_with_def)
      with less.prems(2) show False by (simp add: header_position_None)
    qed
    ultimately show ?thesis by simp
  next
    case False
    obtain bytes c1 where rd: "rd c 1 = (Inr bytes, c1)" and bytes: "contents c = bytes @ contents c1" "length bytes \<le> 1"
      using faithful_steady [OF assms(1) zero_less_one, of c] by blast
    show ?thesis
    proof (cases bytes)
      case Nil
      then show ?thesis using less.prems(1) False rd by (subst (asm) read_handshake.simps) simp
    next
      case (Cons b more)
      then have b: "bytes = [b]" using bytes(2) by simp
      show ?thesis
      proof (cases "ends_blank (header @ [b])")
        case True
        then have "all = header @ [b]" "c' = c1"
          using less.prems(1) False rd b by (subst (asm) read_handshake.simps, simp)+
        then show ?thesis using bytes b header_position_snoc [OF less.prems(2), of b] True by simp
      next
        case no: False
        then have step: "read_handshake rd (header @ [b]) c1 = (Some all, c')"
          using less.prems(1) False rd b by (subst (asm) read_handshake.simps) simp
        have "MAX_DAEMON_HEADER_BYTES - length (header @ [b]) < MAX_DAEMON_HEADER_BYTES - length header" using False by simp
        from less.hyps [OF this step] header_position_snoc [OF less.prems(2), of b] no show ?thesis by (simp add: bytes b)
      qed
    qed
  qed
qed

lemma write_all_async_contents:
  assumes "\<And>c data. contents (snd (wr c data)) = contents c"
  shows "contents (snd (write_all_async wr c data)) = contents c"
proof (induction "length data" arbitrary: c data rule: less_induct)
  case less
  obtain r c1 where wr: "wr c data = (r, c1)" by fastforce
  have kept: "contents c1 = contents c" using assms [of c data] by (simp add: wr)
  show ?case
  proof (cases "data = [] \<or> (\<forall>n. r \<noteq> Inr n) \<or> r = Inr 0")
    case True
    then show ?thesis using kept wr by (subst write_all_async.simps) (auto split: sum.split)
  next
    case False
    then obtain n where n: "r = Inr n" "0 < n" "data \<noteq> []" by (cases r) auto
    then have "contents (snd (write_all_async wr c1 (drop n data))) = contents c1" by (intro less) simp
    then show ?thesis using n kept wr by (subst write_all_async.simps) simp
  qed
qed

text \<open>C32: The handshake with the daemon takes exactly the head of its answer from the stream: every byte after the
  first blank line is left for the console session.\<close>

theorem daemon_handshake_exact:
  assumes "faithful_reader (so_read ops) contents (\<lambda>_. 0)" and "\<And>c data. contents (snd (so_write ops c data)) = contents c"
    and "connect socket = Inr c" and "connect_daemon connect ops socket i rid = (Inr (), Some c')"
  shows "\<exists>head. contents c = head @ HEADER_END @ contents c' \<and> header_position (contents c) = Some (length head)"
proof -
  let ?req = "as_bytes (console_request i rid)"
  obtain c1 where sent: "write_all_async (so_write ops) c ?req = (Inr (), c1)"
    using assms(4) by (cases "write_all_async (so_write ops) c ?req") (auto simp: connect_daemon_def assms(3) split: sum.splits)
  obtain header where read: "read_handshake (so_read ops) [] c1 = (Some header, c')" and check: "check_upgrade header = Inr ()"
    using assms(4) by (cases "read_handshake (so_read ops) [] c1") (auto simp: connect_daemon_def assms(3) sent split: option.splits)
  have same: "contents c1 = contents c" using write_all_async_contents [of contents "so_write ops" c ?req] assms(2) sent by simp
  have blank: "ends_blank header" using check by (auto simp: check_upgrade_def split: if_splits)
  then obtain head where head: "header = head @ HEADER_END" by (auto simp: ends_blank_iff)
  have kept: "header @ contents c' = contents c" "header_position header = Some (length head)"
    using read_handshake_keeps [OF assms(1) read] blank head same by simp_all
  show ?thesis
    using kept header_position_append [OF kept(2), of "contents c'"] head by (intro exI [of _ head]) (metis append.assoc)
qed

lemma read_handshake_finds:
  assumes "faithful_reader rd contents (\<lambda>_. 0)" and "header_position (header @ contents c) = Some p"
    and "p + 4 \<le> MAX_DAEMON_HEADER_BYTES" and "header_position header = None"
  shows "\<exists>c'. read_handshake rd header c = (Some (take (p + 4) (header @ contents c)), c')"
  using assms(2,4)
proof (induction "MAX_DAEMON_HEADER_BYTES - length header" arbitrary: header c rule: less_induct)
  case less
  have short: "length header < p + 4"
  proof (rule ccontr)
    assume "\<not> length header < p + 4"
    then have "take (p + 4) header = take (p + 4) (header @ contents c)" by simp
    then show False using header_position_local [of p header "header @ contents c"] less.prems by simp
  qed
  obtain bytes c1 where rd: "rd c 1 = (Inr bytes, c1)"
    and bytes: "contents c = bytes @ contents c1" "length bytes \<le> 1" "contents c \<noteq> [] \<longrightarrow> bytes \<noteq> []"
    using faithful_steady [OF assms(1) zero_less_one, of c] by blast
  have "contents c \<noteq> []" using less.prems by auto
  then obtain b where b: "bytes = [b]" using bytes(2,3) by (cases bytes) auto
  show ?case
  proof (cases "ends_blank (header @ [b])")
    case True
    then have "header_position (header @ [b]) = Some (length (header @ [b]) - 4)"
      using header_position_snoc [OF less.prems(2), of b] by simp
    from header_position_append [OF this, of "contents c1"] less.prems(1) have p: "p = length (header @ [b]) - 4"
      by (simp add: bytes(1) b)
    have "4 \<le> length (header @ [b])" using True by (metis ends_blank_iff le_add2 length_HEADER_END length_append)
    then have "take (p + 4) (header @ contents c) = header @ [b]" by (simp add: p bytes(1) b)
    then show ?thesis using True short assms(3) rd b by (subst read_handshake.simps) simp
  next
    case False
    have pos: "header_position ((header @ [b]) @ contents c1) = Some p" using less.prems(1) by (simp add: bytes(1) b)
    have "MAX_DAEMON_HEADER_BYTES - length (header @ [b]) < MAX_DAEMON_HEADER_BYTES - length header" using short assms(3) by simp
    from less.hyps [OF this pos] header_position_snoc [OF less.prems(2), of b] False
    obtain c' where "read_handshake rd (header @ [b]) c1 = (Some (take (p + 4) ((header @ [b]) @ contents c1)), c')" by auto
    then show ?thesis using False short assms(3) rd b by (subst read_handshake.simps) (simp add: bytes(1))
  qed
qed

lemma write_all_async_total:
  assumes "\<And>c data. data \<noteq> [] \<Longrightarrow> \<exists>n c'. 0 < n \<and> wr c data = (Inr n, c')"
  shows "\<exists>c'. write_all_async wr c data = (Inr (), c')"
proof (induction "length data" arbitrary: c data rule: less_induct)
  case less
  show ?case
  proof (cases "data = []")
    case False
    then obtain n c1 where n: "0 < n" "wr c data = (Inr n, c1)" using assms by blast
    then obtain c' where "write_all_async wr c1 (drop n data) = (Inr (), c')" using less [of "drop n data" c1] False by auto
    then show ?thesis using n False by (subst write_all_async.simps) simp
  qed (simp add: write_all_async.simps)
qed

section \<open>What the bridge relays\<close>

text \<open>Ends that keep what they were given and may fail at any point: whether a message is accepted may depend on
  everything sent before, and a write that fails has passed on some first bytes of its data.\<close>

definition recording_ends :: "(ws_message list \<Rightarrow> ws_message \<Rightarrow> bool) \<Rightarrow> (u8 list \<Rightarrow> u8 list \<Rightarrow> nat option) \<Rightarrow>
    (ws_message list, u8 list) bridge_ends" where
  "recording_ends accepts stuck =
     \<lparr>be_send = \<lambda>msg sent. if accepts sent msg then (True, sent @ [msg]) else (False, sent),
      be_write = \<lambda>bytes written. case stuck written bytes of
         None \<Rightarrow> (True, written @ bytes) | Some n \<Rightarrow> (False, written @ take n bytes)\<rparr>"

text \<open>Which events keep the bridge open, and what goes to either side for them.\<close>

fun relays :: "bridge_event \<Rightarrow> bool" where
  "relays (From_Browser (Some (Inr (Binary payload)))) \<longleftrightarrow> length payload \<le> MAX_CONSOLE_WIRE_BYTES"
| "relays (From_Browser (Some (Inr (Ping payload)))) \<longleftrightarrow> True"
| "relays (From_Browser (Some (Inr (Pong payload)))) \<longleftrightarrow> True"
| "relays (From_Daemon (Inr bytes)) \<longleftrightarrow> bytes \<noteq> []"
| "relays _ \<longleftrightarrow> False"

fun to_daemon :: "bridge_event \<Rightarrow> u8 list" where
  "to_daemon (From_Browser (Some (Inr (Binary payload)))) = payload"
| "to_daemon _ = []"

fun to_browser :: "bridge_event \<Rightarrow> ws_message list" where
  "to_browser (From_Browser (Some (Inr (Ping payload)))) = [Pong payload]"
| "to_browser (From_Daemon (Inr bytes)) = [Binary bytes]"
| "to_browser _ = []"

fun closing :: "bridge_event \<Rightarrow> ws_message" where
  "closing (From_Browser (Some (Inr (Close frame)))) = Close frame"
| "closing _ = Close None"

text \<open>What happens at an event: it is relayed, the end it is relayed to fails, or it closes the bridge.\<close>

definition delivers :: "(ws_message list \<Rightarrow> ws_message \<Rightarrow> bool) \<Rightarrow> (u8 list \<Rightarrow> u8 list \<Rightarrow> nat option) \<Rightarrow> bridge_event \<Rightarrow>
    ws_message list \<Rightarrow> u8 list \<Rightarrow> bool" where
  "delivers accepts stuck event sent written \<longleftrightarrow>
     list_all (accepts sent) (to_browser event) \<and>
     (\<forall>payload. event = From_Browser (Some (Inr (Binary payload))) \<longrightarrow> stuck written payload = None)"

definition partly :: "(u8 list \<Rightarrow> u8 list \<Rightarrow> nat option) \<Rightarrow> bridge_event \<Rightarrow> u8 list \<Rightarrow> u8 list" where
  "partly stuck event written =
     (case event of
        From_Browser (Some (Inr (Binary payload))) \<Rightarrow>
          (case stuck written payload of None \<Rightarrow> payload | Some n \<Rightarrow> take n payload)
      | _ \<Rightarrow> [])"

lemma bridge_step_effect:
  "bridge_step (recording_ends accepts stuck) event (sent, written) =
     (if \<not> relays event then (False, sent @ (if accepts sent (closing event) then [closing event] else []), written)
      else if delivers accepts stuck event sent written then (True, sent @ to_browser event, written @ to_daemon event)
      else (False, sent, written @ partly stuck event written))"
  by (cases event rule: relays.cases)
    (auto simp: bridge_step_def recording_ends_def delivers_def partly_def split: option.splits)

text \<open>C33: The bridge relays console bytes unchanged, complete and in order in both directions: of the events that come,
  some first ones are relayed, where the daemon gets the binary payloads of the browser and the browser gets the
  bytes of the daemon as binary messages and a pong for every ping.  The bridge is still open if these are all
  events; otherwise the next event ends it and the daemon side is shut down.  If that event is one that ends the bridge,
  nothing more goes to the daemon and one close message goes to the browser, unless the browser no longer accepts it.  If
  it is one to be relayed, then because the end it was for failed: the daemon has got at most a first part of its
  bytes, the browser nothing more, and no close message is sent.\<close>

theorem bridge_relays:
  "\<exists>n \<le> length events.
     let relayed = take n events;
         browser = sent @ concat (map to_browser relayed);
         daemon = written @ concat (map to_daemon relayed) in
     list_all relays relayed \<and>
     bridge (recording_ends accepts stuck) shutdown events (sent, written) =
       (case drop n events of
          [] \<Rightarrow> ((browser, daemon), False)
        | event # _ \<Rightarrow>
            if relays event then ((browser, shutdown (daemon @ partly stuck event daemon)), True)
            else ((browser @ (if accepts browser (closing event) then [closing event] else []), shutdown daemon), True)) \<and>
     (case drop n events of
        [] \<Rightarrow> True
      | event # _ \<Rightarrow>
          if relays event
          then list_ex (\<lambda>msg. \<not> accepts browser msg) (to_browser event) \<or>
            (\<exists>payload k. event = From_Browser (Some (Inr (Binary payload))) \<and> stuck daemon payload = Some k \<and>
               partly stuck event daemon = take k payload)
          else True)"
  (is "\<exists>n \<le> _. ?P n events sent written")
proof (induction events arbitrary: sent written)
  case Nil
  show ?case by simp
next
  case (Cons event events)
  show ?case
  proof (cases "relays event \<and> delivers accepts stuck event sent written")
    case True
    obtain n where "n \<le> length events" "?P n events (sent @ to_browser event) (written @ to_daemon event)"
      using Cons by blast
    with True show ?thesis
      by (cases "drop n events"; cases "relays (hd (drop n events))"; intro exI [of _ "Suc n"];
          simp add: bridge_step_effect Let_def)
  next
    case False
    then show ?thesis
      by (intro exI [of _ 0])
        (auto simp: bridge_step_effect delivers_def partly_def list_all_iff list_ex_iff)
  qed
qed

text \<open>Ends that never fail relay up to the first event that ends the bridge.\<close>

lemma bridge_relays_unbroken:
  "bridge (recording_ends (\<lambda>_ _. True) (\<lambda>_ _. None)) shutdown events (sent, written) =
     (let relayed = takeWhile relays events; daemon = written @ concat (map to_daemon relayed) in
      ((sent @ concat (map to_browser relayed) @ map closing (take 1 (dropWhile relays events)),
        if relayed = events then daemon else shutdown daemon), relayed \<noteq> events))"
proof (induction events arbitrary: sent written)
  case (Cons event events)
  have "delivers (\<lambda>_ _. True) (\<lambda>_ _. None) event sent written" by (simp add: delivers_def list_all_iff)
  then show ?case by (cases "relays event") (simp_all add: Cons bridge_step_effect Let_def)
qed simp

section \<open>Witnesses\<close>

theorem console_credentials_exact_witness:
  "valid_subprotocols ''kernmux-console-v1, kernmux-bearer.YWJj'' ''abc''"
proof -
  have bytes: "as_bytes ''abc'' = [97, 98, 99]" by (simp add: as_bytes_def byte_def)
  have "base64url [97, 98, 99] = ''YWJj''"
    by (simp add: base64url_chunk_def Let_def base64url_char_def base64url_digit [of 18] base64url_digit [of 12] base64url_digit [of 6]
        base64url_digit [of 0 "base64url_value [97, 98, 99]", simplified] unat_base64url_value base64url_alphabet_def)
  then have bearer: "bearer_protocol ''abc'' = ''kernmux-bearer.YWJj''"
    by (simp add: bearer_protocol_def BEARER_PROTOCOL_PREFIX_def bytes)
  have "map trim (split_char CHR '','' ''kernmux-console-v1, kernmux-bearer.YWJj'') = [''kernmux-console-v1'', ''kernmux-bearer.YWJj'']"
    by code_simp
  then show ?thesis
    using console_credentials_exact [of "''abc''" "''kernmux-console-v1, kernmux-bearer.YWJj''"]
    by (simp add: bearer CONSOLE_PROTOCOL_def)
qed

definition sample_upgrade :: string where
  "sample_upgrade = join [CHR 0x0D, CHR 0x0A]
     [''HTTP/1.1 101 Switching'', ''connection: upgrade'', ''upgrade: kernmux-console-v1'']"

lemma sample_upgrade_ends:
  "header_position (as_bytes sample_upgrade @ HEADER_END @ body) = Some (length (as_bytes sample_upgrade))"
  by (rule header_position_text) code_simp

lemma sample_upgrade_status: "upgrade_status ''HTTP/1.1 101 Switching'' = Some 101"
proof -
  have "split_whitespace ''HTTP/1.1 101 Switching'' = [''HTTP/1.1'', ''101'', ''Switching'']" by code_simp
  then show ?thesis
    by (simp add: upgrade_status_def parse_word_def parse_unsigned_def is_ascii_digit_def byte_def)
qed

lemma sample_upgrade_checks: "check_upgrade (as_bytes sample_upgrade @ HEADER_END) = Inr ()"
proof -
  let ?text = "sample_upgrade @ [CHR 0x0D, CHR 0x0A, CHR 0x0D, CHR 0x0A]"
  have spelled: "as_bytes sample_upgrade @ HEADER_END = as_bytes ?text" by (simp add: as_bytes_def HEADER_END_def byte_def)
  have "utf8_valid (map byte ?text)"
    and "split_crlf ?text = [''HTTP/1.1 101 Switching'', ''connection: upgrade'', ''upgrade: kernmux-console-v1'', [], []]"
    and "upgrade_headers [''connection: upgrade'', ''upgrade: kernmux-console-v1''] (False, False) = Some (True, True)"
    by code_simp+
  moreover have "ends_blank (as_bytes ?text)" unfolding spelled [symmetric] ends_blank_iff by blast
  ultimately show ?thesis
    by (simp add: check_upgrade_def spelled unat_as_bytes bytes_text_as_bytes sample_upgrade_status)
qed

theorem daemon_handshake_exact_witness:
  "\<exists>c' head. connect_daemon (\<lambda>_. Inr ([], as_bytes sample_upgrade @ HEADER_END @ [1, 2])) byte_stream ''s'' 7 ''r'' = (Inr (), Some c') \<and>
     as_bytes sample_upgrade @ HEADER_END @ [1, 2] = head @ HEADER_END @ snd c'"
proof -
  let ?connect = "\<lambda>_. Inr ([], as_bytes sample_upgrade @ HEADER_END @ [1, 2])"
  have writes: "\<exists>n c'. 0 < n \<and> so_write byte_stream c data = (Inr n, c')" for c data
    by (cases c) (simp add: byte_stream_def)
  obtain c1 where sent: "write_all_async (so_write byte_stream) ([], as_bytes sample_upgrade @ HEADER_END @ [1, 2])
      (as_bytes (console_request 7 ''r'')) = (Inr (), c1)"
    using write_all_async_total [of "so_write byte_stream", OF writes] by blast
  have quiet: "snd (snd (so_write byte_stream c data)) = snd c" for c data
    by (cases c) (simp add: byte_stream_def)
  have left: "snd c1 = as_bytes sample_upgrade @ HEADER_END @ [1, 2]"
    using write_all_async_contents [of snd "so_write byte_stream", OF quiet] sent by (metis snd_conv)
  have "length (as_bytes sample_upgrade) + 4 \<le> MAX_DAEMON_HEADER_BYTES"
    by (simp add: as_bytes_def sample_upgrade_def MAX_DAEMON_HEADER_BYTES_def)
  from read_handshake_finds [OF byte_stream_faithful(2), of "[]" c1, OF _ this]
  obtain c' where "read_handshake (so_read byte_stream) [] c1 = (Some (as_bytes sample_upgrade @ HEADER_END), c')"
    by (auto simp: left sample_upgrade_ends)
  then have run: "connect_daemon ?connect byte_stream ''s'' 7 ''r'' = (Inr (), Some c')"
    by (simp add: connect_daemon_def sent sample_upgrade_checks)
  from daemon_handshake_exact [OF byte_stream_faithful(2) quiet, of ?connect, OF refl run] run show ?thesis by auto
qed

end
