(* ===== verification/Compatibility.thy ===== *)
theory Compatibility
  imports Supervision Gateway
begin

text \<open>
  Evidence about the host against the release contract: what the daemon collects when it starts
  (\<open>crates/kernmux-daemon/src/compatibility.rs\<close>) and what the client checks without a daemon
  (\<open>crates/kernmux-cli/src/diagnostics.rs\<close>).  The two parts read the same files and run the same program with
  parsers of their own.  The file system at the moment of the check, the process primitives of \<open>Supervision\<close>, the
  JSON decoder of the contract and the texts of operating system errors are parameters.  The client reaps a child it
  killed with a blocking wait, which is \<open>None\<close> where it never returns.
\<close>

section \<open>The environment\<close>

record ('w, 'c) evidence_env =
  ee_files :: file_view
  ee_is_file :: "string \<Rightarrow> bool"
  ee_is_socket :: "string \<Rightarrow> bool"
  ee_decode :: "string \<Rightarrow> string + release_compatibility_manifest"
  ee_os :: "('w, 'c) process_os"
  ee_wait :: "'c \<Rightarrow> 'w \<Rightarrow> 'w option"
  ee_io_text :: "nat \<Rightarrow> string"
  ee_read_text :: "read_error \<Rightarrow> string"
  ee_status_text :: "exit_status \<Rightarrow> string"

definition utf8_text :: "u8 list \<Rightarrow> string option" where
  "utf8_text bytes = to_str (bytes_text bytes)"

section \<open>The daemon's evidence\<close>

definition STATE_SCHEMA_VERSION :: u32 where "STATE_SCHEMA_VERSION = 1"

definition os_release_key :: "string \<Rightarrow> bool" where
  "os_release_key key \<longleftrightarrow> key \<noteq> [] \<and> list_all (\<lambda>c. is_ascii_uppercase c \<or> c = CHR ''_'') key"

definition os_release_line :: "string \<Rightarrow> string + string \<times> string" where
  "os_release_line line =
     and_then (ok_or ''os-release contains a malformed line'' (split_once CHR ''='' line)) (\<lambda>(key, raw).
     if \<not> os_release_key key then Inl ''os-release contains an invalid key''
     else map_ok (Pair key)
       (if starts_with raw [CHR 0x22]
        then ok_or ''os-release contains an unterminated quote''
          (case strip_prefix [CHR 0x22] raw of None \<Rightarrow> None | Some v \<Rightarrow> strip_suffix [CHR 0x22] v)
        else Inr raw))"

definition parse_os_release :: "string \<Rightarrow> string + (string \<rightharpoonup> string)" where
  "parse_os_release contents =
     map_ok (\<lambda>entries. fold (\<lambda>(key, v) m. m(key \<mapsto> v)) entries Map.empty)
       (traverse_list os_release_line
          (filter (\<lambda>line. line \<noteq> [] \<and> \<not> starts_with line ''#'') (map trim (str_lines contents))))"

definition required :: "(string \<rightharpoonup> string) \<Rightarrow> string \<Rightarrow> string + string" where
  "required entries key =
     ok_or (''os-release is missing '' @ key)
       (case entries key of None \<Rightarrow> None | Some v \<Rightarrow> if v = [] then None else Some v)"

definition parse_kerf_version :: "string \<Rightarrow> string + string" where
  "parse_kerf_version printed =
     (let pieces = split_whitespace printed in
      ok_or ''Kerf version output is empty'' (if pieces = [] \<or> last pieces = [] then None else Some (last pieces)))"

text \<open>The evidence from the files, the output of Kerf and the snapshot, once Kerf has run.\<close>

definition assemble_evidence ::
  "('w, 'c) evidence_env \<Rightarrow> string \<Rightarrow> host_snapshot \<Rightarrow> (string \<rightharpoonup> string) \<Rightarrow> u8 list \<Rightarrow> string + host_compatibility_evidence" where
  "assemble_evidence env root snapshot os printed =
     and_then (ok_or ''Kerf version is not UTF-8'' (utf8_text printed)) (\<lambda>version_text.
     and_then (parse_kerf_version version_text) (\<lambda>version.
     let daxfs_format = (case read_to_string (ee_files env) (path_join root ''sys/module/daxfs/parameters/format_version'') of
           Inl _ \<Rightarrow> None | Inr s \<Rightarrow> parse_word (trim s)) in
     and_then (required os ''ID'') (\<lambda>os_id.
     and_then (required os ''VERSION_ID'') (\<lambda>os_version_id.
     Inr \<lparr>he_os_id = os_id, he_os_version_id = os_version_id,
          he_architecture = ct_architecture (hs_topology snapshot), he_kernel_release = ki_release (hs_kernel snapshot),
          he_capabilities = hs_capabilities snapshot, he_kerf_version = version, he_kernmux_release = ''0.1.0'',
          he_kernmux_api_major = 1, he_daxfs_format = daxfs_format, he_state_schema = STATE_SCHEMA_VERSION\<rparr>))))"

definition compatibility_evaluate ::
  "('w, 'c) evidence_env \<Rightarrow> string \<Rightarrow> string \<Rightarrow> string \<Rightarrow> nat \<Rightarrow> u64 \<Rightarrow> host_snapshot \<Rightarrow> 'w \<Rightarrow>
     ((string + host_compatibility_report) \<times> 'w) option" where
  "compatibility_evaluate env manifest_path root kerf_executable kerf_deadline kerf_output_limit snapshot w =
     (case and_then (map_err (\<lambda>e. ''compatibility manifest is unavailable: '' @ ee_io_text env e) (fv_read (ee_files env) manifest_path))
             (\<lambda>bytes. map_err (\<lambda>e. ''compatibility manifest is invalid: '' @ e) (ee_decode env bytes)) of
        Inl e \<Rightarrow> Some (Inl e, w)
      | Inr manifest \<Rightarrow>
          (case and_then (map_err (\<lambda>e. ''os-release is unavailable: '' @ ee_read_text env e)
                   (read_to_string (ee_files env) (path_join root ''etc/os-release''))) parse_os_release of
             Inl e \<Rightarrow> Some (Inl e, w)
           | Inr os \<Rightarrow>
               map_option (\<lambda>(kerf, _, w).
                   (and_then (map_err (\<lambda>e. ''Kerf version is unavailable: '' @ kerf_run_error_message (ee_io_text env) e) kerf) (\<lambda>result.
                    if \<not> process_succeeded result then Inl ''Kerf version command failed''
                    else map_ok (evaluate manifest) (assemble_evidence env root snapshot os (kr_stdout result))), w))
                 (kerf_run_raw (ee_os env) [''--version''] (new_kerf_runner kerf_executable kerf_deadline kerf_output_limit, w))))"

section \<open>The client's diagnosis\<close>

definition MAX_VERSION_OUTPUT :: nat where "MAX_VERSION_OUTPUT = 64 * 1024"

record diagnostic_config =
  dc_sysfs_device_tree :: string
  dc_release_manifest :: string
  dc_os_release :: string
  dc_kernel_release :: string
  dc_kerf_program :: string
  dc_socket :: string
  dc_architecture :: string
  dc_timeout :: nat

definition configured_path :: "(string \<Rightarrow> string option) \<Rightarrow> string \<Rightarrow> string \<Rightarrow> string" where
  "configured_path lookup name default_path = (case lookup name of None \<Rightarrow> default_path | Some path \<Rightarrow> path)"

definition system_diagnostic :: "(string \<Rightarrow> string option) \<Rightarrow> string \<Rightarrow> string \<Rightarrow> diagnostic_config" where
  "system_diagnostic lookup architecture socket =
     \<lparr>dc_sysfs_device_tree = configured_path lookup ''KERNMUX_DIAGNOSTIC_SYSFS'' ''/sys/fs/multikernel/device_tree'',
      dc_release_manifest = configured_path lookup ''KERNMUX_DIAGNOSTIC_MANIFEST'' ''/etc/kernmux/release.json'',
      dc_os_release = configured_path lookup ''KERNMUX_DIAGNOSTIC_OS_RELEASE'' ''/etc/os-release'',
      dc_kernel_release = configured_path lookup ''KERNMUX_DIAGNOSTIC_KERNEL_RELEASE'' ''/proc/sys/kernel/osrelease'',
      dc_kerf_program = configured_path lookup ''KERNMUX_DIAGNOSTIC_KERF'' ''kerf'',
      dc_socket = socket, dc_architecture = architecture, dc_timeout = 3 * 1000000000\<rparr>"

datatype check_status = Check_Passed | Check_Failed | Check_Warning

record diagnostic_check =
  dk_name :: string
  dk_required :: bool
  dk_status :: check_status
  dk_message :: string
  dk_remediation :: string

record diagnostic_report =
  dr_schema_version :: u32
  dr_compatible :: bool
  dr_daemon_socket_available :: bool
  dr_checks :: "diagnostic_check list"

definition required_check :: "string \<Rightarrow> bool \<Rightarrow> string \<Rightarrow> string \<Rightarrow> diagnostic_check" where
  "required_check name passed message remediation =
     \<lparr>dk_name = name, dk_required = True, dk_status = (if passed then Check_Passed else Check_Failed),
      dk_message = message, dk_remediation = remediation\<rparr>"

definition read_manifest :: "('w, 'c) evidence_env \<Rightarrow> string \<Rightarrow> string + release_compatibility_manifest" where
  "read_manifest env path =
     and_then (map_err (\<lambda>e. ''failed to read '' @ to_string_lossy path @ '': '' @ ee_io_text env e) (fv_read (ee_files env) path)) (\<lambda>bytes.
     map_err (\<lambda>e. to_string_lossy path @ '' is invalid: '' @ e) (ee_decode env bytes))"

definition diagnostic_kerf_version :: "string \<Rightarrow> string + string" where
  "diagnostic_kerf_version printed =
     ok_or ''Kerf version output has an unsupported format''
       (case strip_prefix ''kerf, version '' (trim printed) of
          None \<Rightarrow> None
        | Some version \<Rightarrow> if version = [] \<or> has_whitespace version then None else Some version)"

partial_function (option) await_version :: "('w, 'c) process_os \<Rightarrow> 'c \<Rightarrow> nat \<Rightarrow> 'w \<Rightarrow> ((nat + exit_status option) \<times> 'w) option" where
  "await_version os child deadline w =
     (case os_try_wait os child w of
        (Inr (Some status), w) \<Rightarrow> Some (Inr (Some status), w)
      | (Inr None, w) \<Rightarrow>
          if os_now os w < deadline then await_version os child deadline (os_sleep os (10 * 1000000) w)
          else Some (Inr None, w)
      | (Inl e, w) \<Rightarrow> Some (Inl e, w))"

definition kerf_version :: "('w, 'c) evidence_env \<Rightarrow> string \<Rightarrow> nat \<Rightarrow> 'w \<Rightarrow> ((string + string) \<times> 'w) option" where
  "kerf_version env program timeout w =
     (case os_spawn (ee_os env) program [''--version''] w of
        (Inl e, w) \<Rightarrow> Some (Inl (''failed to execute '' @ to_string_lossy program @ '': '' @ ee_io_text env e), w)
      | (Inr child, w) \<Rightarrow>
          (case await_version (ee_os env) child (os_now (ee_os env) w + timeout) w of
             None \<Rightarrow> None
           | Some (Inl e, w) \<Rightarrow>
               map_option (Pair (Inl (''failed to wait for '' @ to_string_lossy program @ '': '' @ ee_io_text env e)))
                 (ee_wait env child (os_kill (ee_os env) child w))
           | Some (Inr None, w) \<Rightarrow>
               map_option (Pair (Inl (to_string_lossy program @ '' --version exceeded '' @ show_nat (timeout div 1000000) @ '' ms'')))
                 (ee_wait env child (os_kill (ee_os env) child w))
           | Some (Inr (Some status), w) \<Rightarrow>
               (case os_read_stdout (ee_os env) child MAX_VERSION_OUTPUT w of
                  (Inl e, w) \<Rightarrow> Some (Inl (''failed to read Kerf version: '' @ ee_io_text env e), w)
                | (Inr bytes, w) \<Rightarrow>
                    Some (if status \<noteq> Exit_Code 0 then Inl (to_string_lossy program @ '' --version exited with '' @ ee_status_text env status)
                          else and_then (ok_or ''Kerf version output is not valid UTF-8'' (utf8_text bytes)) diagnostic_kerf_version, w))))"

text \<open>\<open>trim_matches('"')\<close>\<close>

definition trim_quotes :: "string \<Rightarrow> string" where
  "trim_quotes s = rev (dropWhile (\<lambda>c. c = CHR 0x22) (rev (dropWhile (\<lambda>c. c = CHR 0x22) s)))"

fun find_os_release :: "string \<Rightarrow> string list \<Rightarrow> string option" where
  "find_os_release key [] = None"
| "find_os_release key (line # rest) =
     (case split_once CHR ''='' line of
        Some (name, v) \<Rightarrow> if name = key then Some (trim_quotes v) else find_os_release key rest
      | None \<Rightarrow> find_os_release key rest)"

definition os_release_value :: "string \<Rightarrow> string \<Rightarrow> string option" where
  "os_release_value contents key = find_os_release key (str_lines contents)"

definition release_match :: "('w, 'c) evidence_env \<Rightarrow> diagnostic_config \<Rightarrow> release_compatibility_manifest \<Rightarrow> string \<Rightarrow> string + string" where
  "release_match env config manifest reported =
     (let failed_read = (\<lambda>path e. ''failed to read '' @ to_string_lossy path @ '': '' @ ee_read_text env e) in
      and_then (map_err (failed_read (dc_os_release config)) (read_to_string (ee_files env) (dc_os_release config))) (\<lambda>os_release.
      and_then (ok_or (to_string_lossy (dc_os_release config) @ '' has no ID'') (os_release_value os_release ''ID'')) (\<lambda>os_id.
      and_then (ok_or (to_string_lossy (dc_os_release config) @ '' has no VERSION_ID'') (os_release_value os_release ''VERSION_ID'')) (\<lambda>os_version.
      and_then (map_err (failed_read (dc_kernel_release config)) (read_to_string (ee_files env) (dc_kernel_release config))) (\<lambda>kernel_release.
      let observed =
            [(''os_id'', os_id, rm_os_id manifest), (''os_version_id'', os_version, rm_os_version_id manifest),
             (''architecture'', dc_architecture config, rm_architecture manifest),
             (''kernel_release'', trim kernel_release, rm_kernel_release manifest),
             (''kerf_version'', reported, rm_kerf_version manifest)];
          mismatches = map (\<lambda>(name, actual, expected). name @ '': observed '' @ actual @ '', expected '' @ expected)
            (filter (\<lambda>(_, actual, expected). actual \<noteq> expected) observed)
      in if mismatches = [] then Inr (''host identity matches release contract '' @ rm_release_id manifest)
         else Inl (join ''; '' mismatches))))))"

text \<open>The text of a result: the message of a success or of a failure.\<close>

fun result_message :: "('a \<Rightarrow> string) \<Rightarrow> string + 'a \<Rightarrow> string" where
  "result_message f (Inl e) = e"
| "result_message f (Inr x) = f x"

text \<open>The report once Kerf has answered.\<close>

definition report_checks :: "('w, 'c) evidence_env \<Rightarrow> diagnostic_config \<Rightarrow> string + string \<Rightarrow> diagnostic_report" where
  "report_checks env config kerf =
     (let sysfs_present = ee_is_file env (dc_sysfs_device_tree config);
          manifest = read_manifest env (dc_release_manifest config);
          release_matches = (case (manifest, kerf) of
              (Inr m, Inr version) \<Rightarrow> release_match env config m version
            | _ \<Rightarrow> Inl ''release compatibility cannot be evaluated until prerequisite checks pass'');
          socket_available = ee_is_socket env (dc_socket config);
          checks =
            [required_check ''multikernel_sysfs'' sysfs_present
               (to_string_lossy (dc_sysfs_device_tree config) @ (if sysfs_present then '' is present'' else '' is missing''))
               ''Boot the supported Multikernel kernel before starting kernmuxd.'',
             required_check ''release_manifest'' (is_ok manifest)
               (result_message (\<lambda>m. ''loaded release contract '' @ rm_release_id m) manifest)
               ''Reinstall the matching Kernmux package and do not hand-edit release.json.'',
             required_check ''kerf'' (is_ok kerf) (result_message (\<lambda>version. ''Kerf reports version '' @ version) kerf)
               ''Install the Kerf version required by the packaged release contract.'',
             required_check ''release_compatibility'' (is_ok release_matches) (result_message id release_matches)
               ''Install a Kernmux package built for this OS, architecture, kernel, and Kerf release.'',
             \<lparr>dk_name = ''daemon_socket'', dk_required = False,
              dk_status = (if socket_available then Check_Passed else Check_Warning),
              dk_message = to_string_lossy (dc_socket config) @ (if socket_available then '' is available'' else '' is not available''),
              dk_remediation = ''Inspect systemctl status kernmuxd and journalctl -u kernmuxd before retrying.''\<rparr>]
      in \<lparr>dr_schema_version = 1,
          dr_compatible = list_all (\<lambda>c. dk_status c = Check_Passed) (filter dk_required checks),
          dr_daemon_socket_available = socket_available, dr_checks = checks\<rparr>)"

definition diagnose :: "('w, 'c) evidence_env \<Rightarrow> diagnostic_config \<Rightarrow> 'w \<Rightarrow> (diagnostic_report \<times> 'w) option" where
  "diagnose env config w =
     map_option (\<lambda>(kerf, w). (report_checks env config kerf, w)) (kerf_version env (dc_kerf_program config) (dc_timeout config) w)"

section \<open>The diagnosis\<close>

lemma release_match_ok:
  "is_ok (release_match env config m version) \<longleftrightarrow>
     (\<exists>os_release kernel. version = rm_kerf_version m \<and> read_to_string (ee_files env) (dc_os_release config) = Inr os_release \<and>
        os_release_value os_release ''ID'' = Some (rm_os_id m) \<and> os_release_value os_release ''VERSION_ID'' = Some (rm_os_version_id m) \<and>
        dc_architecture config = rm_architecture m \<and>
        read_to_string (ee_files env) (dc_kernel_release config) = Inr kernel \<and> trim kernel = rm_kernel_release m)"
proof (cases "read_to_string (ee_files env) (dc_os_release config)")
  case (Inr os_release)
  show ?thesis
  proof (cases "os_release_value os_release ''ID'' = None \<or> os_release_value os_release ''VERSION_ID'' = None")
    case True
    then show ?thesis using Inr
      by (cases "os_release_value os_release ''ID''") (auto simp: release_match_def Let_def)
  next
    case False
    then show ?thesis using Inr
      by (cases "read_to_string (ee_files env) (dc_kernel_release config)")
        (auto simp: release_match_def Let_def is_ok_if filter_empty_conv simp del: filter.simps)
  qed
qed (simp add: release_match_def Let_def)

lemma required_check_simps:
  "dk_required (required_check name passed message remediation)"
  "dk_status (required_check name passed message remediation) = Check_Passed \<longleftrightarrow> passed"
  by (simp_all add: required_check_def)

lemma ex_version:
  "(\<exists>m version. A m \<and> kerf = Inr version \<and> (\<exists>a b. version = f m \<and> P m a b)) \<longleftrightarrow> (\<exists>m a b. A m \<and> kerf = Inr (f m) \<and> P m a b)"
  by blast

lemma release_match_message:
  "is_ok (release_match env config m version) \<Longrightarrow>
     release_match env config m version = Inr (''host identity matches release contract '' @ rm_release_id m)"
  by (auto simp: is_ok_iff release_match_def Let_def result_iff simp del: filter.simps split: if_splits)

text \<open>The local diagnosis fails closed. It reports a compatible host exactly when the Multikernel device tree is a
  regular file, the release contract is readable and decodes, Kerf answered with a version in the supported format, and
  the operating system, its version, the architecture, the running kernel and the Kerf version all equal those of the
  contract; whether the daemon's socket exists has no influence.\<close>

theorem diagnose_compatible_iff:
  assumes "kerf_version env (dc_kerf_program config) (dc_timeout config) w = Some (kerf, w')"
  shows "\<exists>report. diagnose env config w = Some (report, w') \<and>
    (dr_compatible report \<longleftrightarrow>
      ee_is_file env (dc_sysfs_device_tree config) \<and>
      (\<exists>m os_release kernel. read_manifest env (dc_release_manifest config) = Inr m \<and> kerf = Inr (rm_kerf_version m) \<and>
        read_to_string (ee_files env) (dc_os_release config) = Inr os_release \<and>
        os_release_value os_release ''ID'' = Some (rm_os_id m) \<and> os_release_value os_release ''VERSION_ID'' = Some (rm_os_version_id m) \<and>
        dc_architecture config = rm_architecture m \<and>
        read_to_string (ee_files env) (dc_kernel_release config) = Inr kernel \<and> trim kernel = rm_kernel_release m))"
proof -
  have "is_ok (read_manifest env (dc_release_manifest config)) \<and> is_ok kerf \<and>
      is_ok (case (read_manifest env (dc_release_manifest config), kerf) of
          (Inr m, Inr version) \<Rightarrow> release_match env config m version | _ \<Rightarrow> Inl e) \<longleftrightarrow>
      (\<exists>m version. read_manifest env (dc_release_manifest config) = Inr m \<and> kerf = Inr version \<and> is_ok (release_match env config m version))"
    for e by (auto split: sum.splits)
  then have "dr_compatible (report_checks env config kerf) \<longleftrightarrow> ee_is_file env (dc_sysfs_device_tree config) \<and>
      (\<exists>m version. read_manifest env (dc_release_manifest config) = Inr m \<and> kerf = Inr version \<and> is_ok (release_match env config m version))"
    unfolding report_checks_def Let_def by (simp add: required_check_simps)
  moreover have "diagnose env config w = Some (report_checks env config kerf, w')" by (simp add: diagnose_def assms)
  ultimately show ?thesis by (intro exI [of _ "report_checks env config kerf"]) (simp only: release_match_ok ex_version simp_thms)
qed

section \<open>Canonical files\<close>

text \<open>A line of \<open>os-release\<close> as distributions write it: a key, whether the value is quoted, and the value.\<close>

type_synonym os_entry = "string \<times> bool \<times> string"

definition graphic :: "char \<Rightarrow> bool" where
  "graphic c \<longleftrightarrow> 33 \<le> byte c \<and> byte c < 127"

definition canonical_entry :: "os_entry \<Rightarrow> bool" where
  "canonical_entry = (\<lambda>(key, quoted, v). os_release_key key \<and>
     list_all (\<lambda>c. (graphic c \<or> quoted \<and> c = CHR '' '') \<and> c \<noteq> CHR 0x22) v)"

definition entry_line :: "os_entry \<Rightarrow> string" where
  "entry_line = (\<lambda>(key, quoted, v). key @ CHR ''='' # (if quoted then CHR 0x22 # v @ [CHR 0x22] else v))"

definition os_release_file :: "os_entry list \<Rightarrow> string" where
  "os_release_file entries = concat (map (\<lambda>e. entry_line e @ [CHR 0x0A]) entries)"

lemma byte_inject [simp]: "byte c = byte d \<longleftrightarrow> c = d"
  by (simp add: byte_def)

lemma leading_whitespace_graphic:
  assumes "graphic c" shows "leading_whitespace (c # s) = 0"
proof (cases "find (starts_with (map byte (c # s))) utf8_whitespace")
  case (Some w)
  then have "w \<in> set utf8_whitespace" "starts_with (map byte (c # s)) w" by (auto dest: find_SomeD)
  then have "hd w = byte c" "hd w \<in> set [9, 10, 11, 12, 13, 32, 0xC2, 0xE1, 0xE2, 0xE3]"
    using utf8_whitespace_ends [of w] starts_with_hd [of _ w] by fastforce+
  then show ?thesis using assms by (auto simp: graphic_def)
qed (simp add: leading_whitespace_def)

lemma trailing_whitespace_graphic:
  assumes "graphic c" shows "trailing_whitespace (s @ [c]) = 0"
proof (cases "find (\<lambda>w. starts_with (rev (map byte (s @ [c]))) (rev w)) utf8_whitespace")
  case (Some w)
  then have w: "w \<in> set utf8_whitespace" "starts_with (rev (map byte (s @ [c]))) (rev w)" by (auto dest: find_SomeD)
  then have "last w = byte c" "last w \<in> set [9, 10, 11, 12, 13, 32] \<or> 128 \<le> last w"
    using utf8_whitespace_ends [of w] starts_with_hd [OF w(2)] by (auto simp: hd_rev)
  then show ?thesis using assms by (auto simp: graphic_def)
qed (simp add: trailing_whitespace_def)

lemma trim_graphic:
  assumes "s \<noteq> []" "graphic (hd s)" "graphic (last s)" shows "trim s = s"
proof -
  have "leading_whitespace s = 0" using assms leading_whitespace_graphic [of "hd s" "tl s"] by simp
  moreover have "trailing_whitespace s = 0" using assms trailing_whitespace_graphic [of "last s" "butlast s"] by simp
  ultimately show ?thesis by (simp add: trim_def trim_start.simps [of s] trim_end.simps [of s])
qed

lemma key_char:
  assumes "os_release_key key" "c \<in> set key"
  shows "graphic c" "c \<noteq> CHR ''=''" "c \<noteq> CHR ''#''" "c \<noteq> CHR 0x0A"
proof -
  have "(65 \<le> byte c \<and> byte c \<le> 90) \<or> byte c = 95"
  proof -
    have "is_ascii_uppercase c \<or> c = CHR ''_''" using assms unfolding os_release_key_def list_all_iff by blast
    moreover have "byte CHR ''_'' = 95" by (simp add: byte_def)
    ultimately show ?thesis unfolding is_ascii_uppercase_def by metis
  qed
  moreover have "byte CHR ''='' = 61" "byte CHR ''#'' = 35" "byte CHR 0x0A = 10" by (simp_all add: byte_def)
  ultimately show "graphic c" "c \<noteq> CHR ''=''" "c \<noteq> CHR ''#''" "c \<noteq> CHR 0x0A"
    unfolding graphic_def by force+
qed

lemma graphic_not_break:
  assumes "graphic c" shows "c \<noteq> CHR 0x0A" "c \<noteq> CHR 0x0D"
proof -
  have "byte CHR 0x0A = 10" "byte CHR 0x0D = 13" by (simp_all add: byte_def)
  then show "c \<noteq> CHR 0x0A" "c \<noteq> CHR 0x0D" using assms unfolding graphic_def by force+
qed

lemma canonical_parts:
  assumes "canonical_entry (key, quoted, v)"
  shows "os_release_key key" "c \<in> set v \<Longrightarrow> graphic c \<or> quoted \<and> c = CHR '' ''" "CHR 0x22 \<notin> set v"
  using assms unfolding canonical_entry_def prod.case list_all_iff by blast+

lemma entry_ends:
  assumes "canonical_entry e"
  shows "entry_line e \<noteq> []" "graphic (hd (entry_line e))" "hd (entry_line e) \<noteq> CHR ''#''" "graphic (last (entry_line e))"
proof -
  obtain key quoted v where e: "e = (key, quoted, v)" by (metis prod_cases3)
  note parts = canonical_parts [OF assms [unfolded e]]
  have key: "os_release_key key" "key \<noteq> []" using parts(1) by (simp_all add: os_release_key_def)
  have "graphic (CHR ''='')" "graphic (CHR 0x22)" by (simp_all add: graphic_def byte_def)
  then show "entry_line e \<noteq> []" "graphic (hd (entry_line e))" "hd (entry_line e) \<noteq> CHR ''#''" "graphic (last (entry_line e))"
    using key_char [OF key(1), of "hd key"] key(2) parts(2) [of "last v"]
    by (auto simp: e entry_line_def hd_append)
qed

lemma entry_no_break:
  assumes "canonical_entry e" shows "CHR 0x0A \<notin> set (entry_line e)"
proof -
  obtain key quoted v where e: "e = (key, quoted, v)" by (metis prod_cases3)
  note parts = canonical_parts [OF assms [unfolded e]]
  have "CHR 0x0A \<notin> set key" using key_char(4) [OF parts(1)] by blast
  moreover have "CHR 0x0A \<notin> set v"
  proof
    assume "CHR 0x0A \<in> set v"
    from parts(2) [OF this] graphic_not_break(1) show False by auto
  qed
  ultimately show ?thesis by (auto simp: e entry_line_def)
qed

lemma chop_return_entry:
  assumes "canonical_entry e" shows "chop_return (entry_line e) = entry_line e"
proof (cases "strip_suffix [CHR 0x0D] (entry_line e)")
  case (Some r)
  then have "last (entry_line e) = CHR 0x0D" by (simp add: strip_suffix_eq_Some)
  then show ?thesis using entry_ends(4) [OF assms] graphic_not_break(2) by blast
qed (simp add: chop_return_def)

lemma file_lines:
  assumes "list_all canonical_entry entries"
  shows "str_lines (os_release_file entries) = map entry_line entries"
proof -
  have "split_char CHR 0x0A (os_release_file entries) = map entry_line entries @ [[]]"
    using assms by (induction entries) (simp_all add: os_release_file_def split_char_append_sep entry_no_break)
  moreover have "map (chop_return \<circ> entry_line) entries = map entry_line entries"
    using assms by (auto simp: list_all_iff chop_return_entry)
  ultimately show ?thesis by (simp add: str_lines_def Let_def)
qed

lemma split_entry:
  assumes "canonical_entry (key, quoted, v)"
  shows "split_once CHR ''='' (entry_line (key, quoted, v)) = Some (key, if quoted then CHR 0x22 # v @ [CHR 0x22] else v)"
proof -
  have "CHR ''='' \<notin> set key" using key_char(2) canonical_parts(1) [OF assms] by blast
  then show ?thesis by (simp add: entry_line_def split_once_eq_Some)
qed

lemma trim_quotes_value:
  assumes "CHR 0x22 \<notin> set v"
  shows "trim_quotes v = v" "trim_quotes (CHR 0x22 # v @ [CHR 0x22]) = v"
proof -
  have keep: "dropWhile (\<lambda>c. c = CHR 0x22) s = s" if "CHR 0x22 \<notin> set s" for s using that by (cases s) auto
  show "trim_quotes v = v" using assms by (simp add: trim_quotes_def keep)
  have "dropWhile (\<lambda>c. c = CHR 0x22) (v @ [CHR 0x22]) = (if v = [] then [] else v @ [CHR 0x22])"
    using assms by (cases v) auto
  then show "trim_quotes (CHR 0x22 # v @ [CHR 0x22]) = v" using assms by (simp add: trim_quotes_def keep)
qed

lemma entry_parsed:
  assumes "canonical_entry (key, quoted, v)" shows "os_release_line (entry_line (key, quoted, v)) = Inr (key, v)"
proof -
  note parts = canonical_parts [OF assms]
  have "\<not> starts_with v [CHR 0x22]" using parts(3) by (cases v) (auto simp: starts_with_def)
  moreover have "strip_suffix [CHR 0x22] (v @ [CHR 0x22]) = Some v" by (simp only: strip_suffix_eq_Some)
  moreover note parts(1)
  ultimately show ?thesis
    using strip_prefix_append [of "[CHR 0x22]" "v @ [CHR 0x22]"]
    by (simp add: os_release_line_def split_entry [OF assms] starts_with_def)
qed

definition entry_map :: "os_entry list \<Rightarrow> (string \<rightharpoonup> string)" where
  "entry_map entries = map_of (map (\<lambda>(key, quoted, v). (key, v)) entries)"

lemma fold_update_distinct:
  "distinct (map fst ps) \<Longrightarrow> fold (\<lambda>(k, v) m. m(k \<mapsto> v)) ps m = m ++ map_of ps"
  by (induction ps arbitrary: m) (auto simp: map_add_upd_left dom_map_of_conv_image_fst simp flip: fun_upd_apply)

lemma readers_agree:
  assumes canonical: "list_all canonical_entry entries" and keys: "distinct (map fst entries)"
  shows "parse_os_release (os_release_file entries) = Inr (entry_map entries)"
    "os_release_value (os_release_file entries) key = entry_map entries key"
proof -
  have "filter (\<lambda>line. line \<noteq> [] \<and> \<not> starts_with line ''#'') (map trim (map entry_line entries)) = map entry_line entries"
    using canonical by (induction entries) (auto simp: trim_graphic entry_ends dest: starts_with_hd)
  moreover have "traverse_list os_release_line (map entry_line entries) = Inr (map (\<lambda>(key, quoted, v). (key, v)) entries)"
    using canonical by (induction entries) (auto simp: entry_parsed)
  moreover have "map fst (map (\<lambda>(key, quoted, v). (key, v)) entries) = map fst entries" by auto
  ultimately show "parse_os_release (os_release_file entries) = Inr (entry_map entries)"
    using keys fold_update_distinct [of "map (\<lambda>(key, quoted, v). (key, v)) entries" Map.empty]
    unfolding parse_os_release_def file_lines [OF canonical] entry_map_def by (simp only: map_ok.simps empty_map_add)
  have "find_os_release key (map entry_line entries) = entry_map entries key"
    using canonical
    by (induction entries) (auto simp: entry_map_def split_entry trim_quotes_value canonical_parts(3))
  then show "os_release_value (os_release_file entries) key = entry_map entries key"
    unfolding os_release_value_def file_lines [OF canonical] .
qed

text \<open>The two readers of os-release agree on the files distributions ship. On lines of the form KEY=value or
  KEY="value" with distinct keys, printable values and no quote inside a value, the daemon's parser accepts the file and
  the map it returns gives, for every key, the value that the client's search finds.\<close>

theorem os_release_readers_agree:
  assumes canonical: "list_all canonical_entry entries" and keys: "distinct (map fst entries)"
  shows "\<exists>m. parse_os_release (os_release_file entries) = Inr m \<and> m = entry_map entries \<and>
    (\<forall>key. os_release_value (os_release_file entries) key = m key)"
  using readers_agree [OF assms] by blast

text \<open>With a repeated key the client sees the first value and the daemon the last.\<close>

lemma os_release_repeated_key:
  "os_release_value (''ID=a'' @ [CHR 0x0A] @ ''ID=b'' @ [CHR 0x0A]) ''ID'' = Some ''a''"
  "map_ok (\<lambda>m. m ''ID'') (parse_os_release (''ID=a'' @ [CHR 0x0A] @ ''ID=b'' @ [CHR 0x0A])) = Inr (Some ''b'')"
  by code_simp+

section \<open>The version of Kerf\<close>

definition version_line :: "string \<Rightarrow> string" where
  "version_line version = ''kerf, version '' @ version @ [CHR 0x0A]"

lemma pieces_graphic: "list_all graphic s \<Longrightarrow> whitespace_pieces acc (s @ rest) = whitespace_pieces (rev s @ acc) rest"
  by (induction s arbitrary: acc) (simp_all add: whitespace_pieces.simps [of _ "_ # _"] leading_whitespace_graphic)

lemma pieces_blank:
  assumes "byte c \<in> {10, 32}" shows "whitespace_pieces acc (c # rest) = rev acc # whitespace_pieces [] rest"
proof -
  consider "byte c = 10" | "byte c = 32" using assms by blast
  then have "leading_whitespace (c # rest) = 1"
    by cases (simp_all add: leading_whitespace_def utf8_whitespace_def starts_with_def)
  then show ?thesis by (simp add: whitespace_pieces.simps [of acc "c # rest"])
qed

lemma no_whitespace_graphic: "list_all graphic s \<Longrightarrow> \<not> has_whitespace s"
  unfolding has_whitespace_def list_ex_iff
  by (auto simp: Cons_nth_drop_Suc [symmetric] leading_whitespace_graphic list_all_length)

lemma kerf_parsers_agree:
  assumes "version \<noteq> []" "list_all graphic version"
  shows "parse_kerf_version (version_line version) = Inr version" "diagnostic_kerf_version (version_line version) = Inr version"
proof -
  have words: "list_all graphic ''kerf,''" "list_all graphic ''version''" by code_simp+
  have split: "version_line version = ''kerf,'' @ CHR '' '' # ''version'' @ CHR '' '' # version @ CHR 0x0A # []"
    by (simp add: version_line_def)
  have blanks: "byte CHR '' '' \<in> {10, 32}" "byte CHR 0x0A \<in> {10, 32}" by (simp_all add: byte_def)
  have "whitespace_pieces [] (version_line version) = [''kerf,'', ''version'', version, []]"
    unfolding split pieces_graphic [OF words(1)] pieces_graphic [OF words(2)] pieces_graphic [OF assms(2)] pieces_blank [OF blanks(1)] pieces_blank [OF blanks(2)]
    by (simp add: whitespace_pieces.simps [of _ "[]"])
  then show "parse_kerf_version (version_line version) = Inr version"
    using assms by (simp add: parse_kerf_version_def split_whitespace_def)
  let ?body = "''kerf, version '' @ version"
  have hd: "graphic (hd ?body)" by code_simp
  have last: "graphic (last ?body)" using assms by (simp add: list_all_iff)
  have "leading_whitespace (version_line version) = 0"
    using leading_whitespace_graphic [of "CHR ''k''"] by (simp add: version_line_def graphic_def byte_def)
  moreover have "trailing_whitespace (version_line version) = 1"
    by (simp add: version_line_def trailing_whitespace_def utf8_whitespace_def starts_with_def byte_def)
  moreover have "trailing_whitespace ?body = 0"
    using trailing_whitespace_graphic [OF last, of "butlast ?body"] assms by simp
  ultimately have "trim (version_line version) = ?body"
    by (simp add: trim_def trim_start.simps [of "version_line version"] trim_end.simps [of "version_line version"] trim_end.simps [of ?body])
       (simp add: version_line_def trim_end.simps)
  then show "diagnostic_kerf_version (version_line version) = Inr version"
    unfolding diagnostic_kerf_version_def using assms no_whitespace_graphic [OF assms(2)]
    by (simp only: strip_prefix_append option.case simp_thms if_False ok_or.simps)
qed


section \<open>The probe ends\<close>

lemma await_returns:
  assumes "clock_advances os"
  shows "\<exists>r. await_version os child deadline w = Some r"
proof (induction "deadline - os_now os w" arbitrary: w rule: less_induct)
  case less
  obtain r w' where wait: "os_try_wait os child w = (r, w')" by fastforce
  have later: "os_now os w \<le> os_now os w'" using assms wait unfolding clock_advances_def by (metis snd_conv)
  show ?case
  proof (cases "r = Inr None \<and> os_now os w' < deadline")
    case True
    let ?next = "os_sleep os (10 * 1000000) w'"
    have "os_now os w' + 10 * 1000000 \<le> os_now os ?next" using assms by (simp only: clock_advances_def)
    then have "deadline - os_now os ?next < deadline - os_now os w" using True later by linarith
    from less [OF this] True show ?thesis by (subst await_version.simps) (simp add: wait)
  next
    case False
    then show ?thesis by (subst await_version.simps) (auto simp: wait split: sum.split option.split)
  qed
qed

text \<open>The diagnosis ends. Whatever Kerf does, it returns a report, provided only that the clock advances and that a
  child which was killed can be reaped.\<close>

theorem diagnose_returns:
  assumes "clock_advances (ee_os env)" and "\<And>child w. \<exists>w'. ee_wait env child w = Some w'"
  shows "\<exists>report w'. diagnose env config w = Some (report, w')"
proof -
  have "\<exists>r. kerf_version env program timeout w = Some r" for program timeout
  proof (cases "os_spawn (ee_os env) program [''--version''] w")
    case (Pair spawned w1)
    show ?thesis
    proof (cases spawned)
      case (Inr child)
      obtain r w2 where "await_version (ee_os env) child (os_now (ee_os env) w1 + timeout) w1 = Some (r, w2)"
        using await_returns [OF assms(1)] by (metis surj_pair)
      moreover obtain w3 where "ee_wait env child (os_kill (ee_os env) child w2) = Some w3" using assms(2) by blast
      ultimately show ?thesis using Pair Inr
        by (cases r) (auto simp: kerf_version_def split: option.split prod.split sum.split)
    qed (simp add: kerf_version_def Pair)
  qed
  then show ?thesis by (fastforce simp: diagnose_def)
qed

section \<open>The daemon and the client agree\<close>

lemma required_Inr: "required entries key = Inr v \<longleftrightarrow> entries key = Some v \<and> v \<noteq> []"
  by (auto simp: required_def result_iff split: option.splits if_splits)

lemma evaluate_steps:
  assumes "compatibility_evaluate env manifest_path root executable deadline limit snapshot w = Some (Inr report, w')"
    and "kerf_run_raw (ee_os env) [''--version''] (new_kerf_runner executable deadline limit, w) = Some (Inr result, st)"
    and "fv_read (ee_files env) (path_join root ''etc/os-release'') = Inr contents"
  shows "\<exists>m os. read_manifest env manifest_path = Inr m \<and>
    read_to_string (ee_files env) (path_join root ''etc/os-release'') = Inr contents \<and> parse_os_release contents = Inr os \<and>
    map_ok (evaluate m) (assemble_evidence env root snapshot os (kr_stdout result)) = Inr report"
proof -
  let ?load = "and_then (map_err (\<lambda>e. ''compatibility manifest is unavailable: '' @ ee_io_text env e) (fv_read (ee_files env) manifest_path))
             (\<lambda>bytes. map_err (\<lambda>e. ''compatibility manifest is invalid: '' @ e) (ee_decode env bytes))"
  let ?parse = "and_then (map_err (\<lambda>e. ''os-release is unavailable: '' @ ee_read_text env e)
                   (read_to_string (ee_files env) (path_join root ''etc/os-release''))) parse_os_release"
  obtain m where m: "?load = Inr m"
    using assms(1) by (cases ?load) (simp_all only: compatibility_evaluate_def sum.case option.inject prod.inject sum.distinct simp_thms)
  obtain os where os: "?parse = Inr os"
    using assms(1) by (cases ?parse) (simp_all only: compatibility_evaluate_def m sum.case option.inject prod.inject sum.distinct simp_thms)
  have "map_ok (evaluate m) (assemble_evidence env root snapshot os (kr_stdout result)) = Inr report"
    using assms(1) unfolding compatibility_evaluate_def m os sum.case assms(2) by (cases st) (auto split: if_splits)
  moreover have "read_manifest env manifest_path = Inr m" using m by (auto simp: read_manifest_def result_iff)
  moreover have "read_to_string (ee_files env) (path_join root ''etc/os-release'') = Inr contents" "parse_os_release contents = Inr os"
    using os by (auto simp: result_iff read_to_string_def assms(3) to_str_def split: if_splits)
  ultimately show ?thesis by blast
qed

lemma assembled:
  assumes "assemble_evidence env root snapshot os (as_bytes (version_line version)) = Inr e" "version \<noteq> []" "list_all graphic version"
  shows "os ''ID'' = Some (he_os_id e)" "os ''VERSION_ID'' = Some (he_os_version_id e)"
    "he_architecture e = ct_architecture (hs_topology snapshot)" "he_kernel_release e = ki_release (hs_kernel snapshot)"
    "he_kerf_version e = version" "utf8_text (as_bytes (version_line version)) = Some (version_line version)"
proof -
  have "utf8_text (as_bytes (version_line version)) = Some (version_line version) \<or> utf8_text (as_bytes (version_line version)) = None"
    by (simp add: utf8_text_def bytes_text_as_bytes to_str_def)
  then show "os ''ID'' = Some (he_os_id e)" "os ''VERSION_ID'' = Some (he_os_version_id e)"
    "he_architecture e = ct_architecture (hs_topology snapshot)" "he_kernel_release e = ki_release (hs_kernel snapshot)"
    "he_kerf_version e = version" "utf8_text (as_bytes (version_line version)) = Some (version_line version)"
    using assms(1) kerf_parsers_agree(1) [OF assms(2,3)]
    unfolding assemble_evidence_def by (auto simp: Let_def result_iff required_Inr)
qed

text \<open>A run of Kerf by the client that ends in time, succeeds, and prints a line.\<close>

definition client_kerf_prints :: "('w, 'c) evidence_env \<Rightarrow> diagnostic_config \<Rightarrow> string \<Rightarrow> 'w \<Rightarrow> 'w \<Rightarrow> bool" where
  "client_kerf_prints env config line w w' \<longleftrightarrow>
     (\<exists>child w1 w2. os_spawn (ee_os env) (dc_kerf_program config) [''--version''] w = (Inr child, w1) \<and>
        await_version (ee_os env) child (os_now (ee_os env) w1 + dc_timeout config) w1 = Some (Inr (Some (Exit_Code 0)), w2) \<and>
        os_read_stdout (ee_os env) child MAX_VERSION_OUTPUT w2 = (Inr (as_bytes line), w'))"

lemma client_kerf_version:
  assumes "client_kerf_prints env config line w w'" "utf8_text (as_bytes line) = Some line"
  shows "kerf_version env (dc_kerf_program config) (dc_timeout config) w = Some (diagnostic_kerf_version line, w')"
  using assms unfolding client_kerf_prints_def kerf_version_def by (auto simp only: prod.case sum.case option.case and_then.simps ok_or.simps simp_thms if_False)

lemma matching_report:
  assumes "diagnose env config w = Some (verdict, w')" "kerf_version env (dc_kerf_program config) (dc_timeout config) w = Some (Inr version, w')"
    and "ee_is_file env (dc_sysfs_device_tree config)" "read_manifest env (dc_release_manifest config) = Inr m"
    and "release_match env config m version = Inr message"
  shows "dr_compatible verdict \<and>
    (\<exists>check \<in> set (dr_checks verdict). dk_name check = ''release_compatibility'' \<and> dk_status check = Check_Passed \<and> dk_message check = message)"
proof -
  have verdict: "verdict = report_checks env config (Inr version)" using assms(1,2) by (simp add: diagnose_def)
  show ?thesis
    unfolding verdict report_checks_def Let_def assms(4,5) prod.case sum.case
    using assms(3) by (simp add: required_check_def)
qed

text \<open>C37: What the daemon's start-up check accepts, the client's diagnosis accepts. Suppose the daemon reports the host compatible
  with the release contract, having read the line kerf, version X from Kerf. Then a diagnosis by the client reports the host
  compatible and names the same release, provided that the client reads the same contract, the same os-release, written as
  distributions write it, and the kernel release and architecture of the snapshot; that its own run of Kerf ends in time, succeeds and
  prints the same line; and that the Multikernel device tree, which the daemon's check does not look at, is a file.\<close>

theorem preflight_implies_diagnosis:
  assumes "compatibility_evaluate env manifest_path root executable deadline limit snapshot w = Some (Inr report, w')"
    and "hr_compatible report"
    and "kerf_run_raw (ee_os env) [''--version''] (new_kerf_runner executable deadline limit, w) = Some (Inr result, st)"
    and "kr_stdout result = as_bytes (version_line version)" "version \<noteq> []" "list_all graphic version"
    and "dc_os_release config = path_join root ''etc/os-release''" "dc_release_manifest config = manifest_path"
    and "fv_read (ee_files env) (path_join root ''etc/os-release'') = Inr (os_release_file entries)"
    and "list_all canonical_entry entries" "distinct (map fst entries)"
    and "dc_architecture config = ct_architecture (hs_topology snapshot)"
    and "read_to_string (ee_files env) (dc_kernel_release config) = Inr booted" "trim booted = ki_release (hs_kernel snapshot)"
    and "client_kerf_prints env config (version_line version) v v'" "ee_is_file env (dc_sysfs_device_tree config)"
  shows "\<exists>verdict. diagnose env config v = Some (verdict, v') \<and> dr_compatible verdict \<and>
    (\<exists>check \<in> set (dr_checks verdict). dk_name check = ''release_compatibility'' \<and> dk_status check = Check_Passed \<and>
       dk_message check = ''host identity matches release contract '' @ hr_release_id report)"
proof -
  obtain m os where m: "read_manifest env manifest_path = Inr m"
    and os: "read_to_string (ee_files env) (path_join root ''etc/os-release'') = Inr (os_release_file entries)"
      "parse_os_release (os_release_file entries) = Inr os"
    and evidence: "map_ok (evaluate m) (assemble_evidence env root snapshot os (as_bytes (version_line version))) = Inr report"
    using evaluate_steps [OF assms(1,3,9)] unfolding assms(4) by blast
  obtain e where report: "report = evaluate m e"
    and e: "assemble_evidence env root snapshot os (as_bytes (version_line version)) = Inr e"
    using evidence by (auto simp only: result_iff)
  note fields = assembled [OF e assms(5,6)]
  note equal = assms(2) [unfolded report evaluate_compatible_iff]
  have found: "os_release_value (os_release_file entries) key = os key" for key
    using readers_agree [OF assms(10,11)] os(2) by auto
  have "is_ok (release_match env config m version)"
    unfolding release_match_ok assms(7)
    using equal fields os(1) assms(12,13,14) by (intro exI [of _ "os_release_file entries"] exI [of _ booted]) (simp add: found)
  then have release: "release_match env config m version = Inr (''host identity matches release contract '' @ hr_release_id report)"
    using release_match_message by (auto simp: report evaluate_def Let_def)
  have kerf: "kerf_version env (dc_kerf_program config) (dc_timeout config) v = Some (Inr version, v')"
    using client_kerf_version [OF assms(15) fields(6)] unfolding kerf_parsers_agree(2) [OF assms(5,6)] .
  then obtain verdict where verdict: "diagnose env config v = Some (verdict, v')"
    by (simp add: diagnose_def)
  show ?thesis
    using verdict matching_report [OF verdict kerf assms(16) _ release] m unfolding assms(8) by blast
qed


section \<open>Witnesses\<close>

definition ready_files :: file_view where
  "ready_files =
     \<lparr>fv_read = (\<lambda>path. if path = ''/release.json'' then Inr ''contract''
          else if path = ''/etc/os-release'' then Inr (os_release_file [(''ID'', False, ''ubuntu''), (''VERSION_ID'', True, ''24.04'')])
          else if path = ''/osrelease'' then Inr (''7.0.0-mk'' @ [CHR 0x0A]) else Inl ENOENT),
      fv_read_dir = \<lambda>_. Inl ENOENT, fv_is_dir = \<lambda>_. Inl ENOENT, fv_canonicalize = \<lambda>_. Inl ENOENT, fv_exists = \<lambda>_. False,
      fv_read_link = \<lambda>_. Inl ENOENT\<rparr>"

text \<open>A Kerf that ends at once with its version; the world is the time.\<close>

definition answering_os :: "(nat, unit) process_os" where
  "answering_os =
     \<lparr>os_tempfile = Pair (Inr ()), os_try_clone = Pair (Inr ()), os_spawn = \<lambda>_ _. Pair (Inr ()),
      os_try_wait = \<lambda>_. Pair (Inr (Some (Exit_Code 0))), os_kill = \<lambda>_ w. w, os_now = \<lambda>w. w, os_sleep = \<lambda>d w. w + d,
      os_read_stdout = \<lambda>_ _. Pair (Inr (as_bytes (version_line ''0.2.0''))), os_read_stderr = \<lambda>_ _. Pair (Inr [])\<rparr>"

definition ready_manifest :: release_compatibility_manifest where
  "ready_manifest =
     \<lparr>rm_schema_version = 1, rm_release_id = ''r1'', rm_os_id = ''ubuntu'', rm_os_version_id = ''24.04'', rm_architecture = ''x86_64'',
      rm_kernel_release = ''7.0.0-mk'', rm_required_capabilities = [Cap_Multikernel], rm_kerf_version = ''0.2.0'',
      rm_kernmux_release = ''0.1.0'', rm_kernmux_api_major = 1, rm_daxfs_format = None,
      rm_state_schema = \<lparr>ss_readable_min = 1, ss_readable_max = 1, ss_writable_min = 1, ss_writable_max = 1\<rparr>\<rparr>"

definition ready_env :: "(nat, unit) evidence_env" where
  "ready_env =
     \<lparr>ee_files = ready_files, ee_is_file = \<lambda>path. path = ''/device_tree'', ee_is_socket = \<lambda>_. False, ee_decode = \<lambda>_. Inr ready_manifest,
      ee_os = answering_os, ee_wait = \<lambda>_. Some, ee_io_text = show_nat, ee_read_text = \<lambda>_. [], ee_status_text = \<lambda>_. []\<rparr>"

definition ready_config :: diagnostic_config where
  "ready_config =
     \<lparr>dc_sysfs_device_tree = ''/device_tree'', dc_release_manifest = ''/release.json'', dc_os_release = ''/etc/os-release'',
      dc_kernel_release = ''/osrelease'', dc_kerf_program = ''kerf'', dc_socket = ''/run/kernmuxd.sock'', dc_architecture = ''x86_64'',
      dc_timeout = 3\<rparr>"

lemma ready_version: "''0.2.0'' \<noteq> []" "list_all graphic ''0.2.0''"
  by code_simp+

lemma ready_os_file:
  "list_all canonical_entry [(''ID'', False, ''ubuntu''), (''VERSION_ID'', True, ''24.04'')]"
  "distinct (map fst [(''ID'', False, ''ubuntu''), (''VERSION_ID'', True, ''24.04'')])"
  by code_simp+

theorem os_release_readers_agree_witness:
  "list_all canonical_entry [(''ID'', False, ''ubuntu''), (''VERSION_ID'', True, ''24.04'')] \<and>
   (\<exists>m. parse_os_release (os_release_file [(''ID'', False, ''ubuntu''), (''VERSION_ID'', True, ''24.04'')]) = Inr m \<and> m ''VERSION_ID'' = Some ''24.04'')"
proof -
  have "entry_map [(''ID'', False, ''ubuntu''), (''VERSION_ID'', True, ''24.04'')] ''VERSION_ID'' = Some ''24.04''" by code_simp
  with os_release_readers_agree [OF ready_os_file] ready_os_file(1) show ?thesis by metis
qed

lemma ready_kerf_read: "utf8_text (as_bytes (version_line ''0.2.0'')) = Some (version_line ''0.2.0'')"
proof -
  have "utf8_valid (map byte (version_line ''0.2.0''))" by code_simp
  then show ?thesis by (simp add: utf8_text_def bytes_text_as_bytes to_str_def)
qed

lemma ready_kerf: "kerf_version ready_env ''kerf'' 3 w = Some (Inr ''0.2.0'', w)"
proof -
  have "await_version answering_os () deadline w = Some (Inr (Some (Exit_Code 0)), w)" for deadline
    by (subst await_version.simps) (simp add: answering_os_def)
  moreover have "os_spawn answering_os program args w = (Inr (), w)" "os_read_stdout answering_os c n w = (Inr (as_bytes (version_line ''0.2.0'')), w)"
    for program args c n by (simp_all add: answering_os_def)
  moreover have "ee_os ready_env = answering_os" by (simp add: ready_env_def)
  ultimately show ?thesis
    using kerf_parsers_agree(2) [OF ready_version] by (simp add: kerf_version_def ready_kerf_read)
qed

lemma ready_reads:
  "read_manifest ready_env ''/release.json'' = Inr ready_manifest"
  "read_to_string ready_files ''/etc/os-release'' = Inr (os_release_file [(''ID'', False, ''ubuntu''), (''VERSION_ID'', True, ''24.04'')])"
  "read_to_string ready_files ''/osrelease'' = Inr (''7.0.0-mk'' @ [CHR 0x0A])"
  "trim (''7.0.0-mk'' @ [CHR 0x0A]) = ''7.0.0-mk''"
proof -
  have "fv_read ready_files ''/release.json'' = Inr ''contract''" by code_simp
  then show "read_manifest ready_env ''/release.json'' = Inr ready_manifest" by (simp add: read_manifest_def ready_env_def)
qed code_simp+

theorem diagnose_compatible_iff_witness:
  "\<exists>report. diagnose ready_env ready_config 0 = Some (report, 0) \<and> dr_compatible report"
proof -
  have "kerf_version ready_env (dc_kerf_program ready_config) (dc_timeout ready_config) 0 = Some (Inr ''0.2.0'', 0)"
    using ready_kerf by (simp add: ready_config_def)
  note verdict = diagnose_compatible_iff [OF this]
  have os: "os_release_value (os_release_file [(''ID'', False, ''ubuntu''), (''VERSION_ID'', True, ''24.04'')]) ''ID'' = Some ''ubuntu''"
    "os_release_value (os_release_file [(''ID'', False, ''ubuntu''), (''VERSION_ID'', True, ''24.04'')]) ''VERSION_ID'' = Some ''24.04''"
    by code_simp+
  have "ee_is_file ready_env (dc_sysfs_device_tree ready_config)" "ee_files ready_env = ready_files"
    "dc_release_manifest ready_config = ''/release.json''" "dc_os_release ready_config = ''/etc/os-release''"
    "dc_kernel_release ready_config = ''/osrelease''" "dc_architecture ready_config = rm_architecture ready_manifest"
    "rm_kerf_version ready_manifest = ''0.2.0''" "rm_os_id ready_manifest = ''ubuntu''" "rm_os_version_id ready_manifest = ''24.04''"
    "rm_kernel_release ready_manifest = ''7.0.0-mk''"
    by (simp_all add: ready_env_def ready_config_def ready_manifest_def)
  note facts = this ready_reads os
  from verdict obtain report where report: "diagnose ready_env ready_config 0 = Some (report, 0)"
    and iff: "dr_compatible report \<longleftrightarrow> ee_is_file ready_env (dc_sysfs_device_tree ready_config) \<and>
      (\<exists>m os_release kernel. read_manifest ready_env (dc_release_manifest ready_config) = Inr m \<and> Inr ''0.2.0'' = (Inr (rm_kerf_version m) :: string + string) \<and>
        read_to_string (ee_files ready_env) (dc_os_release ready_config) = Inr os_release \<and>
        os_release_value os_release ''ID'' = Some (rm_os_id m) \<and> os_release_value os_release ''VERSION_ID'' = Some (rm_os_version_id m) \<and>
        dc_architecture ready_config = rm_architecture m \<and>
        read_to_string (ee_files ready_env) (dc_kernel_release ready_config) = Inr kernel \<and> trim kernel = rm_kernel_release m)"
    by (elim exE conjE)
  have "dr_compatible report"
    unfolding iff
    by (intro conjI exI [of _ ready_manifest] exI [of _ "os_release_file [(''ID'', False, ''ubuntu''), (''VERSION_ID'', True, ''24.04'')]"]
        exI [of _ "''7.0.0-mk'' @ [CHR 0x0A]"]) (simp_all only: facts)
  with report show ?thesis by blast
qed

definition hung_env :: "(nat \<times> bool, unit) evidence_env" where
  "hung_env =
     \<lparr>ee_files = ready_files, ee_is_file = \<lambda>_. True, ee_is_socket = \<lambda>_. False, ee_decode = \<lambda>_. Inr ready_manifest, ee_os = hung_os,
      ee_wait = \<lambda>_. Some, ee_io_text = show_nat, ee_read_text = \<lambda>_. [], ee_status_text = \<lambda>_. []\<rparr>"

theorem diagnose_returns_witness: "\<exists>report w. diagnose hung_env ready_config (0, False) = Some (report, w)"
  by (rule diagnose_returns) (simp_all add: hung_env_def hung_os_laws)

lemma ready_kerf_run:
  "kerf_run_raw answering_os [''--version''] (new_kerf_runner ''kerf'' 5 1024, w) =
     Some (Inr \<lparr>kr_termination = Exited 0, kr_stdout = as_bytes (version_line ''0.2.0''), kr_stderr = []\<rparr>, new_kerf_runner ''kerf'' 5 1024, w)"
proof -
  have "poll_child answering_os () deadline interval started w = Some (Inr (Some (Exit_Code 0)), w)" for deadline interval started
    by (subst poll_child.simps) (simp add: answering_os_def)
  then show ?thesis
    by (simp add: kerf_run_raw_def kerf_reap_pending_def new_kerf_runner_def kerf_spawn_def then_do_def fail_with_def answering_os_def
        collect_result_def read_bounded_def termination_of_def saturating_add_def version_line_def as_bytes_def)
qed

lemma ready_evidence:
  "\<exists>e. assemble_evidence ready_env ''/'' example_host (entry_map [(''ID'', False, ''ubuntu''), (''VERSION_ID'', True, ''24.04'')])
     (as_bytes (version_line ''0.2.0'')) = Inr e \<and> hr_compatible (evaluate ready_manifest e)"
proof -
  have "required (entry_map [(''ID'', False, ''ubuntu''), (''VERSION_ID'', True, ''24.04'')]) ''ID'' = Inr ''ubuntu''"
    "required (entry_map [(''ID'', False, ''ubuntu''), (''VERSION_ID'', True, ''24.04'')]) ''VERSION_ID'' = Inr ''24.04''" by code_simp+
  then show ?thesis
    unfolding assemble_evidence_def ready_kerf_read ok_or.simps and_then.simps kerf_parsers_agree(1) [OF ready_version] Let_def
    by (simp add: evaluate_compatible_iff ready_manifest_def example_host_def STATE_SCHEMA_VERSION_def)
qed

theorem preflight_implies_diagnosis_witness:
  "\<exists>report w verdict. compatibility_evaluate ready_env ''/release.json'' ''/'' ''kerf'' 5 1024 example_host 0 = Some (Inr report, w) \<and>
     hr_compatible report \<and> diagnose ready_env ready_config 7 = Some (verdict, 7) \<and> dr_compatible verdict"
proof -
  let ?entries = "[(''ID'', False, ''ubuntu''), (''VERSION_ID'', True, ''24.04'')]"
  have path: "path_join ''/'' ''etc/os-release'' = ''/etc/os-release''" by code_simp
  have env: "ee_files ready_env = ready_files" "ee_os ready_env = answering_os" "ee_decode ready_env s = Inr ready_manifest" for s
    by (simp_all add: ready_env_def)
  have files: "fv_read ready_files ''/release.json'' = Inr ''contract''" "fv_read ready_files ''/etc/os-release'' = Inr (os_release_file ?entries)"
    by code_simp+
  obtain e where e: "assemble_evidence ready_env ''/'' example_host (entry_map ?entries) (as_bytes (version_line ''0.2.0'')) = Inr e"
    and good: "hr_compatible (evaluate ready_manifest e)" using ready_evidence by blast
  have evaluated: "compatibility_evaluate ready_env ''/release.json'' ''/'' ''kerf'' 5 1024 example_host 0 = Some (Inr (evaluate ready_manifest e), 0)"
    unfolding compatibility_evaluate_def path env files ready_reads ready_kerf_run map_err.simps and_then.simps sum.case
      readers_agree(1) [OF ready_os_file]
    by (simp add: process_succeeded_def e)
  have config: "dc_os_release ready_config = path_join ''/'' ''etc/os-release''" "dc_release_manifest ready_config = ''/release.json''"
    "dc_architecture ready_config = ct_architecture (hs_topology example_host)"
    "read_to_string (ee_files ready_env) (dc_kernel_release ready_config) = Inr (''7.0.0-mk'' @ [CHR 0x0A])"
    "trim (''7.0.0-mk'' @ [CHR 0x0A]) = ki_release (hs_kernel example_host)"
    unfolding path env using ready_reads by (simp_all add: ready_config_def example_host_def)
  have read: "fv_read (ee_files ready_env) (path_join ''/'' ''etc/os-release'') = Inr (os_release_file ?entries)" unfolding path env by (rule files)
  have stdout: "kr_stdout \<lparr>kr_termination = Exited 0, kr_stdout = as_bytes (version_line ''0.2.0''), kr_stderr = []\<rparr> = as_bytes (version_line ''0.2.0'')"
    by simp
  have "await_version answering_os () limit 7 = Some (Inr (Some (Exit_Code 0)), 7)" for limit
    by (subst await_version.simps) (simp add: answering_os_def)
  moreover have "os_spawn answering_os program args w = (Inr (), w)" "os_read_stdout answering_os c n w = (Inr (as_bytes (version_line ''0.2.0'')), w)"
    for program args c n w by (simp_all add: answering_os_def)
  ultimately have prints: "client_kerf_prints ready_env ready_config (version_line ''0.2.0'') 7 7"
    unfolding client_kerf_prints_def env by blast
  have tree: "ee_is_file ready_env (dc_sysfs_device_tree ready_config)" by (simp add: ready_env_def ready_config_def)
  from preflight_implies_diagnosis [OF evaluated good ready_kerf_run [folded env(2)] stdout ready_version config(1,2) read ready_os_file
      config(3,4,5) prints tree]
  show ?thesis using evaluated good by blast
qed

end
