(* ===== verification/Service.thy ===== *)
theory Service
  imports Host_Service Compatibility
begin

text \<open>
  Configuration and start of the two services: \<open>crates/kernmux-daemon/src/service.rs\<close>, the assembly of the host API
  in \<open>crates/kernmux-daemon/src/host_api.rs\<close>, and \<open>crates/kernmux-gateway/src/main.rs\<close>.  The environment is a
  function from variable names to byte strings; the local group database and the file system are arguments.  The
  lemmas show which identities a configuration entitles and that every limit it sets is positive.
\<close>

section \<open>Values of the environment\<close>

type_synonym environment = "string \<Rightarrow> string option"

definition config_error :: "string \<Rightarrow> api_error" where
  "config_error message =
     \<lparr>err_code = InvalidRequest, err_message = message, err_retryable = False, err_current_generation = None, err_diagnostics = []\<rparr>"

definition optional_string :: "environment \<Rightarrow> string \<Rightarrow> api_error + string option" where
  "optional_string lookup name =
     traverse_option (\<lambda>v. ok_or (config_error ''configuration value must be Unicode'') (to_str v)) (lookup name)"

definition id_list :: "environment \<Rightarrow> string \<Rightarrow> api_error + u32 list" where
  "id_list lookup name =
     and_then (optional_string lookup name) (\<lambda>v. case v of
         None \<Rightarrow> Inr []
       | Some v \<Rightarrow>
           if trim v = [] then Inr []
           else traverse_list (\<lambda>part. ok_or (config_error ''identity list is invalid'') (parse_word (trim part))) (split_char CHR '','' v))"

definition name_list :: "environment \<Rightarrow> string \<Rightarrow> api_error + string list" where
  "name_list lookup name =
     and_then (optional_string lookup name) (\<lambda>v. case v of
         None \<Rightarrow> Inr []
       | Some v \<Rightarrow>
           if trim v = [] then Inr []
           else traverse_list (\<lambda>part. if part = [] \<or> CHR '':'' \<in> set part \<or> has_whitespace part
                                 then Inl (config_error ''group name list is invalid'') else Inr part)
                  (map trim (split_char CHR '','' v)))"

text \<open>The group identifier of the first line with the name, when the line has three fields.\<close>

fun find_group :: "string \<Rightarrow> string list \<Rightarrow> string option" where
  "find_group requested [] = None"
| "find_group requested (line # rest) =
     (case split_char CHR '':'' line of
        name # password # gid # _ \<Rightarrow> if name = requested then Some gid else find_group requested rest
      | _ \<Rightarrow> find_group requested rest)"

definition resolve_group :: "string \<Rightarrow> string \<Rightarrow> api_error + u32" where
  "resolve_group database requested =
     ok_or (config_error ''configured local group does not exist'')
       (case find_group requested (str_lines database) of None \<Rightarrow> None | Some gid \<Rightarrow> parse_word gid)"

definition resolve_groups :: "string \<Rightarrow> (u32 \<Rightarrow> authorization_policy \<Rightarrow> authorization_policy) \<Rightarrow> string list \<Rightarrow> authorization_policy \<Rightarrow>
    api_error + authorization_policy" where
  "resolve_groups database grant names p = map_ok (\<lambda>gids. fold grant gids p) (traverse_list (resolve_group database) names)"

definition with_named_groups :: "environment \<Rightarrow> read_error + string \<Rightarrow> authorization_policy \<Rightarrow> api_error + authorization_policy" where
  "with_named_groups lookup group_file p =
     and_then (name_list lookup ''KERNMUX_READER_GROUPS'') (\<lambda>readers.
     and_then (name_list lookup ''KERNMUX_OPERATOR_GROUPS'') (\<lambda>operators.
     and_then (name_list lookup ''KERNMUX_ADMINISTRATOR_GROUPS'') (\<lambda>administrators.
     if readers = [] \<and> operators = [] \<and> administrators = [] then Inr p
     else and_then (map_err (\<lambda>_. config_error ''local group database is unavailable'') group_file) (\<lambda>database.
     and_then (resolve_groups database with_reader_gid readers p) (\<lambda>p.
     and_then (resolve_groups database with_operator_gid operators p) (\<lambda>p.
     resolve_groups database with_administrator_gid administrators p))))))"

definition parse_bool :: "string \<Rightarrow> api_error + bool" where
  "parse_bool v =
     (if v \<in> {''1'', ''true''} then Inr True
      else if v \<in> {''0'', ''false''} then Inr False
      else Inl (config_error ''boolean configuration value is invalid''))"

definition override_u64 :: "environment \<Rightarrow> string \<Rightarrow> u64 \<Rightarrow> api_error + u64" where
  "override_u64 lookup name target =
     and_then (optional_string lookup name) (\<lambda>v. case v of
         None \<Rightarrow> Inr target
       | Some v \<Rightarrow> ok_or (config_error ''numeric limit must be greater than zero'')
           (case parse_word v of None \<Rightarrow> None | Some n \<Rightarrow> if n > 0 then Some n else None))"

definition override_usize :: "environment \<Rightarrow> string \<Rightarrow> nat \<Rightarrow> api_error + nat" where
  "override_usize lookup name target =
     and_then (optional_string lookup name) (\<lambda>v. case v of
         None \<Rightarrow> Inr target
       | Some v \<Rightarrow> ok_or (config_error ''numeric limit must be greater than zero'')
           (case (parse_word v :: u64 option) of None \<Rightarrow> None | Some n \<Rightarrow> if n > 0 then Some (unat n) else None))"

text \<open>\<open>u32::from_str_radix(value, 8)\<close>\<close>

fun octal_digits :: "nat \<Rightarrow> string \<Rightarrow> nat option" where
  "octal_digits acc [] = Some acc"
| "octal_digits acc (c # cs) = (if 48 \<le> byte c \<and> byte c \<le> 55 then octal_digits (8 * acc + (byte c - 48)) cs else None)"

definition parse_octal :: "string \<Rightarrow> u32 option" where
  "parse_octal s =
     (let ds = (case s of [] \<Rightarrow> [] | c # cs \<Rightarrow> if c = CHR ''+'' then cs else s)
      in if ds = [] then None
         else (case octal_digits 0 ds of None \<Rightarrow> None | Some n \<Rightarrow> if n < 2 ^ 32 then Some (of_nat n) else None))"

section \<open>The daemon's configuration\<close>

definition DEFAULT_OPERATION_CAPACITY :: nat where "DEFAULT_OPERATION_CAPACITY = 1024"
definition DEFAULT_EVENT_CAPACITY :: nat where "DEFAULT_EVENT_CAPACITY = 4096"
definition DEFAULT_PROBE_DEADLINE :: nat where "DEFAULT_PROBE_DEADLINE = 10 * 1000000000"
definition DEFAULT_KERF_DEADLINE :: nat where "DEFAULT_KERF_DEADLINE = 120 * 1000000000"
definition DEFAULT_KERF_OUTPUT_LIMIT :: u64 where "DEFAULT_KERF_OUTPUT_LIMIT = 4 * 1024 * 1024"

record running_host_api_config =
  rc_compatibility_manifest :: "string option"
  rc_image_roots :: "string list"
  rc_image_store_root :: string
  rc_max_image_bytes :: u64
  rc_service_limits :: service_limits
  rc_probe_deadline :: nat
  rc_kerf_deadline :: nat
  rc_kerf_output_limit :: u64
  rc_operation_capacity :: nat
  rc_event_capacity :: nat

definition system_default_host :: running_host_api_config where
  "system_default_host =
     \<lparr>rc_compatibility_manifest = None, rc_image_roots = [''/boot'', ''/var/lib/kernmux/images''],
      rc_image_store_root = ''/var/lib/kernmux/images/store'', rc_max_image_bytes = 4 * 1024 * 1024 * 1024,
      rc_service_limits = \<lparr>sl_connections = 64, sl_mutations = 4, sl_consoles = 8\<rparr>,
      rc_probe_deadline = DEFAULT_PROBE_DEADLINE, rc_kerf_deadline = DEFAULT_KERF_DEADLINE,
      rc_kerf_output_limit = DEFAULT_KERF_OUTPUT_LIMIT, rc_operation_capacity = DEFAULT_OPERATION_CAPACITY,
      rc_event_capacity = DEFAULT_EVENT_CAPACITY\<rparr>"

record daemon_config =
  dm_transport :: transport_config
  dm_host :: running_host_api_config
  dm_authorization :: authorization_policy

text \<open>An optional value and what it changes; \<open>std::env::split_paths\<close> cuts at every colon.\<close>

definition overriding :: "environment \<Rightarrow> string \<Rightarrow> (string \<Rightarrow> api_error + 'a) \<Rightarrow> 'a \<Rightarrow> api_error + 'a" where
  "overriding lookup name parse target =
     and_then (optional_string lookup name) (\<lambda>v. case v of None \<Rightarrow> Inr target | Some v \<Rightarrow> parse v)"

definition nonempty :: "string \<Rightarrow> string \<Rightarrow> api_error + string" where
  "nonempty message v = (if v = [] then Inl (config_error message) else Inr v)"

definition split_paths :: "string \<Rightarrow> api_error + string list" where
  "split_paths v =
     (let roots = split_char CHR '':'' v in
      if roots = [] then Inl (config_error ''image roots must not be empty'') else Inr roots)"

definition identities_from_lookup :: "environment \<Rightarrow> read_error + string \<Rightarrow> api_error + authorization_policy" where
  "identities_from_lookup lookup group_file =
     and_then (overriding lookup ''KERNMUX_ALLOW_UNPRIVILEGED_READS''
       (\<lambda>v. map_ok (\<lambda>b. with_unprivileged_reads b deny_by_default) (parse_bool v)) deny_by_default) (\<lambda>p.
     and_then (id_list lookup ''KERNMUX_READER_UIDS'') (\<lambda>ids.
     let p = fold with_reader_uid ids p in
     and_then (id_list lookup ''KERNMUX_READER_GIDS'') (\<lambda>ids.
     let p = fold with_reader_gid ids p in
     and_then (id_list lookup ''KERNMUX_OPERATOR_UIDS'') (\<lambda>ids.
     let p = fold with_operator_uid ids p in
     and_then (id_list lookup ''KERNMUX_OPERATOR_GIDS'') (\<lambda>ids.
     let p = fold with_operator_gid ids p in
     and_then (id_list lookup ''KERNMUX_ADMINISTRATOR_UIDS'') (\<lambda>ids.
     let p = fold with_administrator_uid ids p in
     and_then (id_list lookup ''KERNMUX_ADMINISTRATOR_GIDS'') (\<lambda>ids.
     let p = fold with_administrator_gid ids p in
     with_named_groups lookup group_file p)))))))"

definition from_lookup :: "environment \<Rightarrow> read_error + string \<Rightarrow> api_error + daemon_config" where
  "from_lookup lookup group_file =
     (let transport = system_default_transport; host = system_default_host in
      and_then (overriding lookup ''KERNMUX_SOCKET_PATH'' (nonempty ''socket path must not be empty'') (tc_socket_path transport)) (\<lambda>socket_path.
      and_then (overriding lookup ''KERNMUX_SOCKET_MODE''
        (\<lambda>v. ok_or (config_error ''socket mode must be octal'') (parse_octal v)) (tc_socket_mode transport)) (\<lambda>socket_mode.
      and_then (overriding lookup ''KERNMUX_IMAGE_ROOTS'' split_paths (rc_image_roots host)) (\<lambda>image_roots.
      and_then (overriding lookup ''KERNMUX_IMAGE_STORE_ROOT'' (nonempty ''image store root must not be empty'') (rc_image_store_root host)) (\<lambda>image_store_root.
      and_then (overriding lookup ''KERNMUX_COMPATIBILITY_MANIFEST''
        (\<lambda>v. map_ok Some (nonempty ''compatibility manifest path must not be empty'' v)) (rc_compatibility_manifest host)) (\<lambda>manifest.
      and_then (identities_from_lookup lookup group_file) (\<lambda>authorization.
      and_then (override_usize lookup ''KERNMUX_MAX_CONNECTIONS'' (sl_connections (rc_service_limits host))) (\<lambda>connections.
      and_then (override_usize lookup ''KERNMUX_MAX_MUTATIONS'' (sl_mutations (rc_service_limits host))) (\<lambda>mutations.
      and_then (override_usize lookup ''KERNMUX_MAX_CONSOLES'' (sl_consoles (rc_service_limits host))) (\<lambda>consoles.
      and_then (override_usize lookup ''KERNMUX_MAX_REQUEST_BYTES'' (tc_max_request_bytes transport)) (\<lambda>max_request_bytes.
      and_then (override_usize lookup ''KERNMUX_MAX_HEADER_BYTES'' (tc_max_header_bytes transport)) (\<lambda>max_header_bytes.
      and_then (override_u64 lookup ''KERNMUX_MAX_IMAGE_BYTES'' (rc_max_image_bytes host)) (\<lambda>max_image_bytes.
      let limits = \<lparr>sl_connections = connections, sl_mutations = mutations, sl_consoles = consoles\<rparr> in
      and_then (validate_limits limits) (\<lambda>_.
      Inr \<lparr>dm_transport = \<lparr>tc_socket_path = socket_path, tc_socket_mode = socket_mode, tc_max_request_bytes = max_request_bytes,
             tc_max_header_bytes = max_header_bytes\<rparr>,
           dm_host = host\<lparr>rc_image_roots := image_roots, rc_image_store_root := image_store_root,
             rc_compatibility_manifest := manifest, rc_service_limits := limits, rc_max_image_bytes := max_image_bytes\<rparr>,
           dm_authorization = authorization\<rparr>))))))))))))))"

section \<open>The assembly of the host API\<close>

datatype host_api_build_error =
    Build_Configuration api_error
  | Build_Registry operation_registry_error
  | Build_ImageStore image_store_error
  | Build_CurrentExecutable nat
  | Build_Compatibility string

fun build_error_message :: "(nat \<Rightarrow> string) \<Rightarrow> host_api_build_error \<Rightarrow> string" where
  "build_error_message io (Build_Configuration e) = err_message e"
| "build_error_message io (Build_Registry _) = ''operation registry configuration is invalid''"
| "build_error_message io (Build_ImageStore e) = ''image store is unavailable: '' @ store_error_message io e"
| "build_error_message io (Build_CurrentExecutable errno) = ''failed to resolve service executable: '' @ io errno"
| "build_error_message io (Build_Compatibility e) = ''host compatibility preflight failed: '' @ e"

definition isolated_inventory :: "nat + string \<Rightarrow> nat \<Rightarrow> host_api_build_error + 'c process_inventory_source inventory_service" where
  "isolated_inventory current_exe deadline =
     map_err Build_CurrentExecutable (map_ok new_inventory_service (running_inventory_source current_exe deadline))"

text \<open>What a running host is made of: the state of \<open>HostApi\<close>, whose limiter the transport shares, and what does not
  change while it runs.\<close>

record ('c, 'f) running_host =
  rh_state :: "('c process_kerf_runner, 'c process_inventory_source inventory_service, 'f) host_state"
  rh_image_roots :: "string list"
  rh_image_store :: "string \<times> u64"
  rh_report :: "(generation \<times> host_compatibility_report) option"

record ('w, 'c, 'f) build_env =
  be_evidence :: "('w, 'c) evidence_env"
  be_current_exe :: "nat + string"
  be_decode_observations :: "u8 list \<Rightarrow> host_observations option"
  be_canonicalize :: "string \<Rightarrow> string option"
  be_is_dir :: "string \<Rightarrow> bool"
  be_console_factory :: 'f

text \<open>The check of the release contract, when one is configured, on a first snapshot of the host.\<close>

definition preflight :: "('w, 'c, 'f) build_env \<Rightarrow> running_host_api_config \<Rightarrow> 'c process_inventory_source inventory_service \<Rightarrow> 'w \<Rightarrow>
    ((host_api_build_error + (generation \<times> host_compatibility_report) option \<times> 'c process_inventory_source inventory_service) \<times> 'w) option" where
  "preflight env config service w =
     (case rc_compatibility_manifest config of
        None \<Rightarrow> Some (Inr (None, service), w)
      | Some path \<Rightarrow>
          (case observe_process (ee_os (be_evidence env)) (be_decode_observations env) (is_source service, w) of
             None \<Rightarrow> None
           | Some (observed, source, w) \<Rightarrow>
               (case refresh (\<lambda>_. (observed, source)) service of
                  (Inl _, _) \<Rightarrow> Some (Inl (Build_Compatibility ''host inventory is unavailable''), w)
                | (Inr snapshot, service) \<Rightarrow>
                    map_option (\<lambda>(report, w).
                        (map_err Build_Compatibility (map_ok (\<lambda>r. (Some (hs_generation snapshot, r), service)) report), w))
                      (compatibility_evaluate (be_evidence env) path ''/'' ''kerf'' (rc_probe_deadline config)
                        (rc_kerf_output_limit config) snapshot w))))"

definition assemble_host :: "('w, 'c, 'f) build_env \<Rightarrow> running_host_api_config \<Rightarrow> service_limiter \<Rightarrow> shared \<Rightarrow>
    (generation \<times> host_compatibility_report) option \<times> 'c process_inventory_source inventory_service \<Rightarrow> store_fs \<Rightarrow>
    (host_api_build_error + ('c, 'f) running_host) \<times> store_fs" where
  "assemble_host env config limiter registry checked disk =
     (case new_image_policy (be_canonicalize env) (be_is_dir env) (rc_image_roots config) of
        Inl e \<Rightarrow> (Inl (Build_Configuration e), disk)
      | Inr roots \<Rightarrow>
          (case new_store (be_is_dir env) (rc_image_store_root config) (rc_max_image_bytes config) disk of
             (store, disk) \<Rightarrow>
               (map_ok (\<lambda>store.
                   \<lparr>rh_state = new_host registry limiter
                      \<lparr>hb_runner = system_kerf_runner (rc_kerf_deadline config) (rc_kerf_output_limit config),
                       hb_pool_runner = system_kerf_runner (rc_kerf_deadline config) (rc_kerf_output_limit config),
                       hb_inventory = snd checked, hb_catalog = new_catalog, hb_fs = disk\<rparr> (be_console_factory env),
                    rh_image_roots = roots, rh_image_store = store, rh_report = fst checked\<rparr>)
                 (map_err Build_ImageStore store), disk)))"

definition running_host :: "('w, 'c, 'f) build_env \<Rightarrow> running_host_api_config \<Rightarrow> store_fs \<Rightarrow> 'w \<Rightarrow>
    ((host_api_build_error + ('c, 'f) running_host) \<times> store_fs \<times> 'w) option" where
  "running_host env config disk w =
     (case and_then (map_err Build_Configuration (new_limiter (rc_service_limits config))) (\<lambda>limiter.
           and_then (map_err Build_Registry (new_registry (rc_operation_capacity config) (rc_event_capacity config))) (\<lambda>registry.
           and_then (isolated_inventory (be_current_exe env) (rc_probe_deadline config)) (\<lambda>service.
           Inr (limiter, registry, service)))) of
        Inl e \<Rightarrow> Some (Inl e, disk, w)
      | Inr (limiter, registry, service) \<Rightarrow>
          (case preflight env config service w of
             None \<Rightarrow> None
           | Some (Inl e, w) \<Rightarrow> Some (Inl e, disk, w)
           | Some (Inr checked, w) \<Rightarrow>
               (case assemble_host env config limiter registry checked disk of (host, disk) \<Rightarrow> Some (host, disk, w))))"

datatype start_error = Start_HostApi host_api_build_error | Start_Transport listener_error

fun start_error_message :: "(nat \<Rightarrow> string) \<Rightarrow> start_error \<Rightarrow> string" where
  "start_error_message io (Start_HostApi e) = build_error_message io e"
| "start_error_message io (Start_Transport e) = listener_error_message io e"

text \<open>The start of \<open>run\<close>, up to the loop that accepts connections.\<close>

definition start_daemon :: "('w, 'c, 'f) build_env \<Rightarrow> nat + socket_file \<Rightarrow> nat + unit \<Rightarrow> nat + unit \<Rightarrow> bool \<Rightarrow> daemon_config \<Rightarrow>
    sockets \<Rightarrow> store_fs \<Rightarrow> 'w \<Rightarrow> ((start_error + ('c, 'f) running_host \<times> bound_server) \<times> sockets \<times> store_fs \<times> 'w) option" where
  "start_daemon env bound permissions inspected removed config fs disk w =
     (case running_host env (dm_host config) disk w of
        None \<Rightarrow> None
      | Some (Inl e, disk, w) \<Rightarrow> Some (Inl (Start_HostApi e), fs, disk, w)
      | Some (Inr host, disk, w) \<Rightarrow>
          (case bind_server bound permissions inspected removed (dm_transport config) fs of
             (server, fs) \<Rightarrow> Some (map_ok (Pair host) (map_err Start_Transport server), fs, disk, w)))"

section \<open>The gateway's configuration\<close>

datatype gateway_start_error = Start_Address | Start_Token token_error | Start_Number | Start_Invalid string

text \<open>\<open>std::env::var\<close> has no value for text that is not Unicode.\<close>

definition env_var :: "environment \<Rightarrow> string \<Rightarrow> string option" where
  "env_var lookup name = (case lookup name of None \<Rightarrow> None | Some v \<Rightarrow> to_str v)"

definition env_path :: "environment \<Rightarrow> string \<Rightarrow> string \<Rightarrow> string" where
  "env_path lookup name default_path = (case lookup name of None \<Rightarrow> default_path | Some v \<Rightarrow> v)"

definition env_number :: "environment \<Rightarrow> string \<Rightarrow> u64 \<Rightarrow> gateway_start_error + u64" where
  "env_number lookup name default_number =
     (case env_var lookup name of None \<Rightarrow> Inr default_number | Some v \<Rightarrow> ok_or Start_Number (parse_word v))"

definition allowed_origins :: "(ip_addr \<times> u16 \<Rightarrow> string) \<Rightarrow> environment \<Rightarrow> ip_addr \<times> u16 \<Rightarrow> string set" where
  "allowed_origins show_address lookup bind =
     (case env_var lookup ''KERNMUX_GATEWAY_ORIGINS'' of
        Some origins \<Rightarrow> set (filter (\<lambda>s. s \<noteq> []) (map trim (split_char CHR '','' origins)))
      | None \<Rightarrow> {''http://'' @ show_address bind, ''http://localhost:'' @ show_word (snd bind)})"

text \<open>The parser and the printer of socket addresses are those of the standard library; \<open>token\<close> reads a token file.\<close>

definition config_from_environment ::
  "(string \<Rightarrow> (ip_addr \<times> u16) option) \<Rightarrow> (ip_addr \<times> u16 \<Rightarrow> string) \<Rightarrow> (string \<Rightarrow> (io_error + token_file) \<times> (io_error + string)) \<Rightarrow> environment \<Rightarrow>
     gateway_start_error + gateway_config" where
  "config_from_environment parse_address show_address token_at lookup =
     and_then (ok_or Start_Address (parse_address
       (case env_var lookup ''KERNMUX_GATEWAY_BIND'' of None \<Rightarrow> ''127.0.0.1:9443'' | Some v \<Rightarrow> v))) (\<lambda>bind.
     and_then (map_err Start_Token (case token_at (env_path lookup ''KERNMUX_GATEWAY_TOKEN_FILE'' ''/etc/kernmux/gateway.token'') of
       (metadata, contents) \<Rightarrow> read_token_file metadata contents)) (\<lambda>token.
     let config = loopback_config token (env_path lookup ''KERNMUX_GATEWAY_ASSETS'' ''/usr/share/kernmux/web'') in
     and_then (env_number lookup ''KERNMUX_GATEWAY_MAX_UPLOAD_BYTES'' (gc_max_upload_bytes config)) (\<lambda>max_upload_bytes.
     and_then (env_number lookup ''KERNMUX_GATEWAY_MAX_UPLOADS'' (of_nat (gc_max_uploads config))) (\<lambda>max_uploads.
     let config = config\<lparr>gc_bind := bind,
           gc_allow_non_loopback := (env_var lookup ''KERNMUX_GATEWAY_ALLOW_NON_LOOPBACK'' = Some ''1''),
           gc_upload_dir := env_path lookup ''KERNMUX_GATEWAY_UPLOAD_DIR'' (gc_upload_dir config),
           gc_max_upload_bytes := max_upload_bytes, gc_max_uploads := unat max_uploads,
           gc_allowed_origins := allowed_origins show_address lookup bind\<rparr> in
     and_then (map_err Start_Invalid (validate_config config)) (\<lambda>_. Inr config)))))"

text \<open>\<open>main\<close>: the process refuses to run as root, and then builds the gateway on the configured socket.\<close>

datatype gateway_exit = Refuses_Root | Invalid_Configuration gateway_start_error | Bind_Failed nat | Panics

definition start_gateway ::
  "bool \<Rightarrow> gateway_start_error + gateway_config \<Rightarrow> (ip_addr \<times> u16 \<Rightarrow> nat + unit) \<Rightarrow> environment \<Rightarrow> 't \<Rightarrow> disk \<Rightarrow>
     gateway_exit + gateway_config \<times> ('t, 'c) gateway_state" where
  "start_gateway is_root configured listen lookup transport disk =
     (if is_root then Inl Refuses_Root
      else and_then (map_err Invalid_Configuration configured) (\<lambda>config.
      and_then (map_err Bind_Failed (listen (gc_bind config))) (\<lambda>_.
      let config = config\<lparr>gc_daemon_socket := env_path lookup ''KERNMUXD_SOCKET'' ''/run/kernmux/kernmuxd.sock''\<rparr> in
      map_ok (Pair config) (map_err (\<lambda>_. Panics) (new_gateway config transport disk)))))"

section \<open>Authority\<close>

text \<open>An identity that a list names, and a group that a list of names resolves to.\<close>

definition listed :: "environment \<Rightarrow> string \<Rightarrow> u32 \<Rightarrow> bool" where
  "listed lookup name i \<longleftrightarrow>
     (\<exists>v part. lookup name = Some v \<and> part \<in> set (split_char CHR '','' v) \<and> parse_word (trim part) = Some i)"

definition grouped :: "environment \<Rightarrow> read_error + string \<Rightarrow> string \<Rightarrow> u32 \<Rightarrow> bool" where
  "grouped lookup group_file name g \<longleftrightarrow>
     (\<exists>v part database. lookup name = Some v \<and> part \<in> set (split_char CHR '','' v) \<and> trim part \<noteq> [] \<and>
        group_file = Inr database \<and> resolve_group database (trim part) = Inr g)"

definition entitled :: "environment \<Rightarrow> read_error + string \<Rightarrow> string \<Rightarrow> actor \<Rightarrow> bool" where
  "entitled lookup group_file role a \<longleftrightarrow>
     listed lookup (''KERNMUX_'' @ role @ ''_UIDS'') (actor_uid a) \<or> listed lookup (''KERNMUX_'' @ role @ ''_GIDS'') (actor_gid a) \<or>
     grouped lookup group_file (''KERNMUX_'' @ role @ ''_GROUPS'') (actor_gid a)"

lemma optional_string_Inr:
  "optional_string lookup name = Inr v \<Longrightarrow> lookup name = v"
  by (cases "lookup name") (auto simp: optional_string_def result_iff to_str_def split: if_splits)

lemma whitespace_bytes: "w \<in> set utf8_whitespace \<Longrightarrow> b \<in> set w \<Longrightarrow> b < 33 \<or> 127 \<le> b"
proof -
  have "list_all (list_all (\<lambda>b. b < 33 \<or> 127 \<le> b)) utf8_whitespace" by code_simp
  then show "w \<in> set utf8_whitespace \<Longrightarrow> b \<in> set w \<Longrightarrow> ?thesis" by (simp add: list_all_iff)
qed

lemma leading_not_graphic: "c \<in> set (take (leading_whitespace s) s) \<Longrightarrow> \<not> graphic c"
proof (cases "find (starts_with (map byte s)) utf8_whitespace")
  case (Some w)
  then have w: "w \<in> set utf8_whitespace" "map byte (take (leading_whitespace s) s) = w"
    by (auto dest!: find_SomeD simp: leading_whitespace_def starts_with_def take_map)
  assume "c \<in> set (take (leading_whitespace s) s)"
  then have "byte c \<in> set w" using w(2) by auto
  then show ?thesis using whitespace_bytes [OF w(1)] by (force simp: graphic_def)
qed (simp add: leading_whitespace_def)

lemma trailing_not_graphic: "c \<in> set (drop (length s - trailing_whitespace s) s) \<Longrightarrow> \<not> graphic c"
proof (cases "find (\<lambda>w. starts_with (rev (map byte s)) (rev w)) utf8_whitespace")
  case (Some w)
  then have w: "w \<in> set utf8_whitespace" "rev (map byte (drop (length s - trailing_whitespace s) s)) = rev w"
    using trailing_whitespace_le [of s]
    by (auto dest!: find_SomeD simp: trailing_whitespace_def starts_with_def take_rev drop_map)
  assume "c \<in> set (drop (length s - trailing_whitespace s) s)"
  then have "byte c \<in> set w" using w(2) by (metis image_eqI list.set_map rev_is_rev_conv)
  then show ?thesis using whitespace_bytes [OF w(1)] by (force simp: graphic_def)
qed (simp add: trailing_whitespace_def)

lemma trim_start_graphic: "graphic c \<Longrightarrow> c \<in> set s \<Longrightarrow> c \<in> set (trim_start s)"
proof (induction s rule: trim_start.induct)
  case (1 s)
  have "c \<in> set (drop (leading_whitespace s) s)"
    using 1(2,3) leading_not_graphic [of c s] append_take_drop_id [of "leading_whitespace s" s] by (metis Un_iff set_append)
  then show ?case using 1 by (subst trim_start.simps) simp
qed

lemma trim_end_graphic: "graphic c \<Longrightarrow> c \<in> set s \<Longrightarrow> c \<in> set (trim_end s)"
proof (induction s rule: trim_end.induct)
  case (1 s)
  have "c \<in> set (take (length s - trailing_whitespace s) s)"
    using 1(2,3) trailing_not_graphic [of c s] append_take_drop_id [of "length s - trailing_whitespace s" s] by (metis Un_iff set_append)
  then show ?case using 1 by (subst trim_end.simps) simp
qed

lemma trim_empty_split:
  assumes "trim v = []" shows "split_char CHR '','' v = [v]"
proof -
  have "graphic CHR '',''" by (simp add: graphic_def byte_def)
  then have "CHR '','' \<notin> set v" using trim_end_graphic [OF _ trim_start_graphic] assms by (fastforce simp: trim_def)
  then show ?thesis by (rule split_char_no_sep)
qed

lemma id_list_listed:
  assumes "id_list lookup name = Inr ids" shows "set ids = {i. listed lookup name i}"
proof -
  obtain v where v: "optional_string lookup name = Inr v" using assms by (auto simp: id_list_def result_iff)
  note looked = optional_string_Inr [OF v]
  show ?thesis
  proof (cases v)
    case None
    then show ?thesis using assms v looked by (auto simp: id_list_def listed_def)
  next
    case (Some s)
    show ?thesis
    proof (cases "trim s = []")
      case True
      then show ?thesis using assms v looked Some trim_empty_split [OF True]
        by (auto simp: id_list_def listed_def parse_word_def parse_unsigned_def)
    next
      case False
      then have "list_all2 (\<lambda>part i. parse_word (trim part) = Some i) (split_char CHR '','' s) ids"
        using assms v Some by (auto simp: id_list_def traverse_list_eq_Inr result_iff)
      then have "set ids = {i. \<exists>part \<in> set (split_char CHR '','' s). parse_word (trim part) = Some i}"
        by (induction rule: list_all2_induct) auto
      then show ?thesis using looked Some by (auto simp: listed_def)
    qed
  qed
qed

lemma name_list_names:
  assumes "name_list lookup name = Inr names"
  shows "set names = {n. n \<noteq> [] \<and> (\<exists>v part. lookup name = Some v \<and> part \<in> set (split_char CHR '','' v) \<and> trim part = n)}"
proof -
  obtain v where v: "optional_string lookup name = Inr v" using assms by (auto simp: name_list_def result_iff)
  note looked = optional_string_Inr [OF v]
  show ?thesis
  proof (cases v)
    case None
    then show ?thesis using assms v looked by (auto simp: name_list_def)
  next
    case (Some s)
    show ?thesis
    proof (cases "trim s = []")
      case True
      then show ?thesis using assms v looked Some trim_empty_split [OF True] by (auto simp: name_list_def)
    next
      case False
      then have "list_all2 (\<lambda>n m. n \<noteq> [] \<and> m = n) (map trim (split_char CHR '','' s)) names"
        using assms v Some by (auto simp: name_list_def traverse_list_eq_Inr elim!: list_all2_mono split: if_splits)
      then have "set names = set (map trim (split_char CHR '','' s)) \<and> [] \<notin> set names"
        by (induction rule: list_all2_induct) auto
      then show ?thesis using looked Some by (force simp: image_iff)
    qed
  qed
qed

lemma fold_grants:
  "fold with_reader_uid ids p = p\<lparr>ap_reader_uids := set ids \<union> ap_reader_uids p\<rparr>"
  "fold with_reader_gid ids p = p\<lparr>ap_reader_gids := set ids \<union> ap_reader_gids p\<rparr>"
  "fold with_operator_uid ids p = p\<lparr>ap_operator_uids := set ids \<union> ap_operator_uids p\<rparr>"
  "fold with_operator_gid ids p = p\<lparr>ap_operator_gids := set ids \<union> ap_operator_gids p\<rparr>"
  "fold with_administrator_uid ids p = p\<lparr>ap_administrator_uids := set ids \<union> ap_administrator_uids p\<rparr>"
  "fold with_administrator_gid ids p = p\<lparr>ap_administrator_gids := set ids \<union> ap_administrator_gids p\<rparr>"
  by (induction ids arbitrary: p)
    (simp_all add: with_reader_uid_def with_reader_gid_def with_operator_uid_def with_operator_gid_def
      with_administrator_uid_def with_administrator_gid_def)

lemma resolved_groups:
  assumes "traverse_list (resolve_group database) names = Inr gids" "name_list lookup name = Inr names"
  shows "set gids = {g. grouped lookup (Inr database) name g}"
proof -
  have "list_all2 (\<lambda>n g. resolve_group database n = Inr g) names gids" using assms(1) by (simp add: traverse_list_eq_Inr)
  then have "set gids = {g. \<exists>n \<in> set names. resolve_group database n = Inr g}" by (induction rule: list_all2_induct) auto
  then show ?thesis unfolding name_list_names [OF assms(2)] by (auto simp: grouped_def)
qed

lemma no_groups: "name_list lookup name = Inr [] \<Longrightarrow> \<not> grouped lookup group_file name g"
  using name_list_names [of lookup name "[]"] by (auto simp: grouped_def)

lemma named_groups_granted:
  assumes "with_named_groups lookup group_file p = Inr q"
  shows "q = p\<lparr>ap_reader_gids := {g. grouped lookup group_file ''KERNMUX_READER_GROUPS'' g} \<union> ap_reader_gids p,
    ap_operator_gids := {g. grouped lookup group_file ''KERNMUX_OPERATOR_GROUPS'' g} \<union> ap_operator_gids p,
    ap_administrator_gids := {g. grouped lookup group_file ''KERNMUX_ADMINISTRATOR_GROUPS'' g} \<union> ap_administrator_gids p\<rparr>"
proof -
  obtain readers operators administrators where names: "name_list lookup ''KERNMUX_READER_GROUPS'' = Inr readers"
    "name_list lookup ''KERNMUX_OPERATOR_GROUPS'' = Inr operators" "name_list lookup ''KERNMUX_ADMINISTRATOR_GROUPS'' = Inr administrators"
    using assms unfolding with_named_groups_def by (auto simp only: result_iff)
  note granted = assms [unfolded with_named_groups_def names and_then.simps]
  show ?thesis
  proof (cases "readers = [] \<and> operators = [] \<and> administrators = []")
    case True
    then show ?thesis using granted names by (simp add: no_groups)
  next
    case False
    obtain database r a b where database: "group_file = Inr database"
      and gids: "traverse_list (resolve_group database) readers = Inr r" "traverse_list (resolve_group database) operators = Inr a"
        "traverse_list (resolve_group database) administrators = Inr b"
      and q: "q = fold with_administrator_gid b (fold with_operator_gid a (fold with_reader_gid r p))"
      using granted unfolding if_not_P [OF False] resolve_groups_def by (auto simp only: result_iff)
    show ?thesis
      unfolding q database fold_grants resolved_groups [OF gids(1) names(1)] resolved_groups [OF gids(2) names(2)]
        resolved_groups [OF gids(3) names(3)] by simp
  qed
qed

lemma overriding_Inr:
  "overriding lookup name parse target = Inr x \<longleftrightarrow>
     (\<exists>v. optional_string lookup name = Inr v \<and> (case v of None \<Rightarrow> x = target | Some s \<Rightarrow> parse s = Inr x))"
  by (auto simp: overriding_def result_iff split: option.splits)

lemma identities_granted:
  assumes "identities_from_lookup lookup group_file = Inr p"
  shows "p = \<lparr>ap_reader_uids = {i. listed lookup ''KERNMUX_READER_UIDS'' i},
    ap_reader_gids = {i. grouped lookup group_file ''KERNMUX_READER_GROUPS'' i} \<union> {i. listed lookup ''KERNMUX_READER_GIDS'' i},
    ap_operator_uids = {i. listed lookup ''KERNMUX_OPERATOR_UIDS'' i},
    ap_operator_gids = {i. grouped lookup group_file ''KERNMUX_OPERATOR_GROUPS'' i} \<union> {i. listed lookup ''KERNMUX_OPERATOR_GIDS'' i},
    ap_administrator_uids = {i. listed lookup ''KERNMUX_ADMINISTRATOR_UIDS'' i},
    ap_administrator_gids = {i. grouped lookup group_file ''KERNMUX_ADMINISTRATOR_GROUPS'' i} \<union> {i. listed lookup ''KERNMUX_ADMINISTRATOR_GIDS'' i},
    ap_allow_unprivileged_reads = (lookup ''KERNMUX_ALLOW_UNPRIVILEGED_READS'' \<in> {Some ''1'', Some ''true''})\<rparr>"
proof -
  obtain start ru rg ou og au ag where reads: "overriding lookup ''KERNMUX_ALLOW_UNPRIVILEGED_READS''
       (\<lambda>v. map_ok (\<lambda>b. with_unprivileged_reads b deny_by_default) (parse_bool v)) deny_by_default = Inr start"
    and ids: "id_list lookup ''KERNMUX_READER_UIDS'' = Inr ru" "id_list lookup ''KERNMUX_READER_GIDS'' = Inr rg"
      "id_list lookup ''KERNMUX_OPERATOR_UIDS'' = Inr ou" "id_list lookup ''KERNMUX_OPERATOR_GIDS'' = Inr og"
      "id_list lookup ''KERNMUX_ADMINISTRATOR_UIDS'' = Inr au" "id_list lookup ''KERNMUX_ADMINISTRATOR_GIDS'' = Inr ag"
    and groups: "with_named_groups lookup group_file (fold with_administrator_gid ag (fold with_administrator_uid au
      (fold with_operator_gid og (fold with_operator_uid ou (fold with_reader_gid rg (fold with_reader_uid ru start)))))) = Inr p"
    using assms unfolding identities_from_lookup_def Let_def by (auto simp only: result_iff)
  obtain v where v: "optional_string lookup ''KERNMUX_ALLOW_UNPRIVILEGED_READS'' = Inr v"
    and parsed: "case v of None \<Rightarrow> start = deny_by_default | Some s \<Rightarrow> \<exists>b. parse_bool s = Inr b \<and> start = with_unprivileged_reads b deny_by_default"
    using reads unfolding overriding_Inr map_ok_eq_Inr by blast
  have "lookup ''KERNMUX_ALLOW_UNPRIVILEGED_READS'' = v" using optional_string_Inr [OF v] .
  moreover have "start = deny_by_default\<lparr>ap_allow_unprivileged_reads := (v \<in> {Some ''1'', Some ''true''})\<rparr>"
    using parsed by (cases v) (auto simp: deny_by_default_def with_unprivileged_reads_def parse_bool_def split: if_splits)
  ultimately have "start = deny_by_default\<lparr>ap_allow_unprivileged_reads := (lookup ''KERNMUX_ALLOW_UNPRIVILEGED_READS'' \<in> {Some ''1'', Some ''true''})\<rparr>"
    by (simp only:)
  then show ?thesis
    using named_groups_granted [OF groups] ids [THEN id_list_listed]
    unfolding fold_grants deny_by_default_def by simp
qed

lemma from_lookup_parts:
  assumes "from_lookup lookup group_file = Inr c"
  shows "identities_from_lookup lookup group_file = Inr (dm_authorization c)"
    and "\<exists>connections mutations consoles. override_usize lookup ''KERNMUX_MAX_CONNECTIONS'' 64 = Inr connections \<and>
      override_usize lookup ''KERNMUX_MAX_MUTATIONS'' 4 = Inr mutations \<and> override_usize lookup ''KERNMUX_MAX_CONSOLES'' 8 = Inr consoles \<and>
      rc_service_limits (dm_host c) = \<lparr>sl_connections = connections, sl_mutations = mutations, sl_consoles = consoles\<rparr>"
    and "override_usize lookup ''KERNMUX_MAX_REQUEST_BYTES'' DEFAULT_MAX_REQUEST_BYTES = Inr (tc_max_request_bytes (dm_transport c))"
    and "override_usize lookup ''KERNMUX_MAX_HEADER_BYTES'' (32 * 1024) = Inr (tc_max_header_bytes (dm_transport c))"
    and "override_u64 lookup ''KERNMUX_MAX_IMAGE_BYTES'' (4 * 1024 * 1024 * 1024) = Inr (rc_max_image_bytes (dm_host c))"
    and "overriding lookup ''KERNMUX_SOCKET_PATH'' (nonempty ''socket path must not be empty'') ''/run/kernmux/kernmuxd.sock'' = Inr (tc_socket_path (dm_transport c))"
    and "overriding lookup ''KERNMUX_IMAGE_ROOTS'' split_paths [''/boot'', ''/var/lib/kernmux/images''] = Inr (rc_image_roots (dm_host c))"
    and "overriding lookup ''KERNMUX_IMAGE_STORE_ROOT'' (nonempty ''image store root must not be empty'') ''/var/lib/kernmux/images/store''
      = Inr (rc_image_store_root (dm_host c))"
    and "overriding lookup ''KERNMUX_COMPATIBILITY_MANIFEST''
      (\<lambda>v. map_ok Some (nonempty ''compatibility manifest path must not be empty'' v)) None = Inr (rc_compatibility_manifest (dm_host c))"
    and "rc_operation_capacity (dm_host c) = DEFAULT_OPERATION_CAPACITY" "rc_event_capacity (dm_host c) = DEFAULT_EVENT_CAPACITY"
proof -
  obtain socket_path socket_mode image_roots image_store_root manifest authorization connections mutations consoles
      max_request_bytes max_header_bytes max_image_bytes limits where steps:
    "overriding lookup ''KERNMUX_SOCKET_PATH'' (nonempty ''socket path must not be empty'') (tc_socket_path system_default_transport) = Inr socket_path"
    "overriding lookup ''KERNMUX_IMAGE_ROOTS'' split_paths (rc_image_roots system_default_host) = Inr image_roots"
    "overriding lookup ''KERNMUX_IMAGE_STORE_ROOT'' (nonempty ''image store root must not be empty'') (rc_image_store_root system_default_host)
      = Inr image_store_root"
    "overriding lookup ''KERNMUX_COMPATIBILITY_MANIFEST''
      (\<lambda>v. map_ok Some (nonempty ''compatibility manifest path must not be empty'' v)) (rc_compatibility_manifest system_default_host)
      = Inr manifest"
    "identities_from_lookup lookup group_file = Inr authorization"
    "override_usize lookup ''KERNMUX_MAX_CONNECTIONS'' (sl_connections (rc_service_limits system_default_host)) = Inr connections"
    "override_usize lookup ''KERNMUX_MAX_MUTATIONS'' (sl_mutations (rc_service_limits system_default_host)) = Inr mutations"
    "override_usize lookup ''KERNMUX_MAX_CONSOLES'' (sl_consoles (rc_service_limits system_default_host)) = Inr consoles"
    "override_usize lookup ''KERNMUX_MAX_REQUEST_BYTES'' (tc_max_request_bytes system_default_transport) = Inr max_request_bytes"
    "override_usize lookup ''KERNMUX_MAX_HEADER_BYTES'' (tc_max_header_bytes system_default_transport) = Inr max_header_bytes"
    "override_u64 lookup ''KERNMUX_MAX_IMAGE_BYTES'' (rc_max_image_bytes system_default_host) = Inr max_image_bytes"
    and c: "c = \<lparr>dm_transport = \<lparr>tc_socket_path = socket_path, tc_socket_mode = socket_mode, tc_max_request_bytes = max_request_bytes,
             tc_max_header_bytes = max_header_bytes\<rparr>,
           dm_host = system_default_host\<lparr>rc_image_roots := image_roots, rc_image_store_root := image_store_root,
             rc_compatibility_manifest := manifest,
             rc_service_limits := \<lparr>sl_connections = connections, sl_mutations = mutations, sl_consoles = consoles\<rparr>,
             rc_max_image_bytes := max_image_bytes\<rparr>,
           dm_authorization = authorization\<rparr>"
    using assms unfolding from_lookup_def Let_def by (auto simp only: result_iff sum.inject)
  have defaults: "tc_socket_path system_default_transport = ''/run/kernmux/kernmuxd.sock''" "tc_max_request_bytes system_default_transport = DEFAULT_MAX_REQUEST_BYTES"
    "tc_max_header_bytes system_default_transport = 32 * 1024" "rc_image_roots system_default_host = [''/boot'', ''/var/lib/kernmux/images'']"
    "rc_image_store_root system_default_host = ''/var/lib/kernmux/images/store''" "rc_compatibility_manifest system_default_host = None"
    "rc_max_image_bytes system_default_host = 4 * 1024 * 1024 * 1024" "sl_connections (rc_service_limits system_default_host) = 64"
    "sl_mutations (rc_service_limits system_default_host) = 4" "sl_consoles (rc_service_limits system_default_host) = 8"
    by (simp_all add: system_default_transport_def system_default_host_def)
  note steps = steps [unfolded defaults]
  show "identities_from_lookup lookup group_file = Inr (dm_authorization c)" using steps(5) c by simp
  show "\<exists>connections mutations consoles. override_usize lookup ''KERNMUX_MAX_CONNECTIONS'' 64 = Inr connections \<and>
      override_usize lookup ''KERNMUX_MAX_MUTATIONS'' 4 = Inr mutations \<and> override_usize lookup ''KERNMUX_MAX_CONSOLES'' 8 = Inr consoles \<and>
      rc_service_limits (dm_host c) = \<lparr>sl_connections = connections, sl_mutations = mutations, sl_consoles = consoles\<rparr>"
    using steps(6,7,8) c by (intro exI [of _ connections] exI [of _ mutations] exI [of _ consoles]) simp
  have parts: "tc_max_request_bytes (dm_transport c) = max_request_bytes" "tc_max_header_bytes (dm_transport c) = max_header_bytes"
    "rc_max_image_bytes (dm_host c) = max_image_bytes" "tc_socket_path (dm_transport c) = socket_path" "rc_image_roots (dm_host c) = image_roots"
    "rc_image_store_root (dm_host c) = image_store_root" "rc_compatibility_manifest (dm_host c) = manifest"
    by (simp_all add: c)
  show "override_usize lookup ''KERNMUX_MAX_REQUEST_BYTES'' DEFAULT_MAX_REQUEST_BYTES = Inr (tc_max_request_bytes (dm_transport c))"
    "override_usize lookup ''KERNMUX_MAX_HEADER_BYTES'' (32 * 1024) = Inr (tc_max_header_bytes (dm_transport c))"
    "override_u64 lookup ''KERNMUX_MAX_IMAGE_BYTES'' (4 * 1024 * 1024 * 1024) = Inr (rc_max_image_bytes (dm_host c))"
    using steps(9,10,11) unfolding parts by (simp_all only:)
  show "overriding lookup ''KERNMUX_SOCKET_PATH'' (nonempty ''socket path must not be empty'') ''/run/kernmux/kernmuxd.sock'' = Inr (tc_socket_path (dm_transport c))"
    "overriding lookup ''KERNMUX_IMAGE_ROOTS'' split_paths [''/boot'', ''/var/lib/kernmux/images''] = Inr (rc_image_roots (dm_host c))"
    "overriding lookup ''KERNMUX_IMAGE_STORE_ROOT'' (nonempty ''image store root must not be empty'') ''/var/lib/kernmux/images/store''
      = Inr (rc_image_store_root (dm_host c))"
    "overriding lookup ''KERNMUX_COMPATIBILITY_MANIFEST''
      (\<lambda>v. map_ok Some (nonempty ''compatibility manifest path must not be empty'' v)) None = Inr (rc_compatibility_manifest (dm_host c))"
    using steps(1,2,3,4) unfolding parts by (simp_all only:)
  show "rc_operation_capacity (dm_host c) = DEFAULT_OPERATION_CAPACITY" "rc_event_capacity (dm_host c) = DEFAULT_EVENT_CAPACITY"
    by (simp_all add: c system_default_host_def)
qed

text \<open>C34: Authority comes from the configuration alone. A configured daemon gives an actor the administrator role exactly when it is
  root or its user, its group, or a named local group of its is listed for administrators, otherwise the operator role when it
  is listed for operators, otherwise the reader role when it is listed for readers, and no role when it is listed nowhere;
  reading without a role is allowed only when the variable for it says so.\<close>

theorem authority_is_configured:
  assumes "from_lookup lookup group_file = Inr c"
  shows "role_of (dm_authorization c) a =
      (if actor_uid a = 0 \<or> entitled lookup group_file ''ADMINISTRATOR'' a then Some Administrator
       else if entitled lookup group_file ''OPERATOR'' a then Some Operator
       else if entitled lookup group_file ''READER'' a then Some Reader else None) \<and>
    (ap_allow_unprivileged_reads (dm_authorization c) \<longleftrightarrow> lookup ''KERNMUX_ALLOW_UNPRIVILEGED_READS'' \<in> {Some ''1'', Some ''true''})"
proof -
  have names: "''KERNMUX_'' @ ''ADMINISTRATOR'' @ ''_UIDS'' = ''KERNMUX_ADMINISTRATOR_UIDS''" "''KERNMUX_'' @ ''ADMINISTRATOR'' @ ''_GIDS'' = ''KERNMUX_ADMINISTRATOR_GIDS''"
    "''KERNMUX_'' @ ''ADMINISTRATOR'' @ ''_GROUPS'' = ''KERNMUX_ADMINISTRATOR_GROUPS''" "''KERNMUX_'' @ ''OPERATOR'' @ ''_UIDS'' = ''KERNMUX_OPERATOR_UIDS''"
    "''KERNMUX_'' @ ''OPERATOR'' @ ''_GIDS'' = ''KERNMUX_OPERATOR_GIDS''" "''KERNMUX_'' @ ''OPERATOR'' @ ''_GROUPS'' = ''KERNMUX_OPERATOR_GROUPS''"
    "''KERNMUX_'' @ ''READER'' @ ''_UIDS'' = ''KERNMUX_READER_UIDS''" "''KERNMUX_'' @ ''READER'' @ ''_GIDS'' = ''KERNMUX_READER_GIDS''"
    "''KERNMUX_'' @ ''READER'' @ ''_GROUPS'' = ''KERNMUX_READER_GROUPS''" by simp_all
  note p = identities_granted [OF from_lookup_parts(1) [OF assms]]
  show ?thesis unfolding role_of_def entitled_def names p by (intro conjI if_cong) auto
qed

lemma override_usize_positive:
  assumes "override_usize lookup name target = Inr n" "0 < target" shows "0 < n"
proof (cases "optional_string lookup name")
  case (Inr v)
  then show ?thesis using assms
    by (cases v) (auto simp: override_usize_def result_iff word_greater_zero_iff unat_gt_0 split: option.splits if_splits)
qed (use assms in \<open>simp add: override_usize_def\<close>)

lemma override_u64_positive:
  assumes "override_u64 lookup name target = Inr n" "0 < target" shows "0 < n"
proof (cases "optional_string lookup name")
  case (Inr v)
  then show ?thesis using assms by (cases v) (auto simp: override_u64_def result_iff split: option.splits if_splits)
qed (use assms in \<open>simp add: override_u64_def\<close>)

lemma overriding_nonempty:
  assumes "overriding lookup name (nonempty message) target = Inr v" "target \<noteq> []" shows "v \<noteq> []"
  using assms by (auto simp: overriding_Inr nonempty_def split: option.splits if_splits)

lemma overriding_manifest:
  assumes "overriding lookup name (\<lambda>v. map_ok Some (nonempty message v)) None = Inr m" shows "m \<noteq> Some []"
  using assms by (auto simp: overriding_Inr nonempty_def split: option.splits if_splits)

lemma overriding_empty_roots:
  assumes "overriding lookup name split_paths target = Inr roots" "lookup name = Some []" shows "roots = [[]]"
proof -
  have "to_str [] = Some []" by code_simp
  then have "optional_string lookup name = Inr (Some [])" using assms(2) by (simp add: optional_string_def)
  moreover have "split_paths [] = Inr [[]]" by (simp add: split_paths_def Let_def)
  ultimately show ?thesis using assms(1) by (auto simp: overriding_Inr)
qed

text \<open>C36: Every limit of a configuration is positive, and the paths whose emptiness is checked are not empty. Whatever the environment
  holds, a daemon configuration that is accepted has positive limits on connections, mutations, consoles, request and header bytes
  and image size, so that the limiter can be created from it; its socket path, its image store root and, where there is one, the
  path of its release contract are not empty; and it has at least one image root. An image root itself may be empty: an empty
  variable for the image roots gives the single empty root.\<close>

theorem configuration_bounded:
  assumes "from_lookup lookup group_file = Inr c"
  shows "0 < sl_connections (rc_service_limits (dm_host c)) \<and> 0 < sl_mutations (rc_service_limits (dm_host c)) \<and>
    0 < sl_consoles (rc_service_limits (dm_host c)) \<and> 0 < tc_max_request_bytes (dm_transport c) \<and>
    0 < tc_max_header_bytes (dm_transport c) \<and> 0 < rc_max_image_bytes (dm_host c) \<and>
    (\<exists>limiter. new_limiter (rc_service_limits (dm_host c)) = Inr limiter) \<and>
    tc_socket_path (dm_transport c) \<noteq> [] \<and> rc_image_store_root (dm_host c) \<noteq> [] \<and>
    rc_compatibility_manifest (dm_host c) \<noteq> Some [] \<and> rc_image_roots (dm_host c) \<noteq> [] \<and>
    (lookup ''KERNMUX_IMAGE_ROOTS'' = Some [] \<longrightarrow> rc_image_roots (dm_host c) = [[]])"
proof -
  note parts = from_lookup_parts [OF assms]
  have positive: "0 < (4 * 1024 * 1024 * 1024 :: u64)" "0 < DEFAULT_MAX_REQUEST_BYTES" by (simp_all add: DEFAULT_MAX_REQUEST_BYTES_def)
  obtain connections mutations consoles where limits: "rc_service_limits (dm_host c) = \<lparr>sl_connections = connections, sl_mutations = mutations, sl_consoles = consoles\<rparr>"
    and "0 < connections" "0 < mutations" "0 < consoles"
    using parts(2) override_usize_positive by (metis zero_less_numeral)
  moreover have "rc_image_roots (dm_host c) \<noteq> []"
    using parts(7) by (auto simp: overriding_Inr split_paths_def Let_def split: option.splits)
  moreover have "tc_socket_path (dm_transport c) \<noteq> []" using overriding_nonempty [OF parts(6)] by simp
  moreover have "rc_image_store_root (dm_host c) \<noteq> []" using overriding_nonempty [OF parts(8)] by simp
  moreover have "rc_compatibility_manifest (dm_host c) \<noteq> Some []" by (rule overriding_manifest [OF parts(9)])
  moreover have "lookup ''KERNMUX_IMAGE_ROOTS'' = Some [] \<longrightarrow> rc_image_roots (dm_host c) = [[]]"
    using overriding_empty_roots [OF parts(7)] by blast
  moreover have "0 < tc_max_request_bytes (dm_transport c)" using override_usize_positive [OF parts(3)] positive by blast
  moreover have "0 < tc_max_header_bytes (dm_transport c)" using override_usize_positive [OF parts(4)] by simp
  moreover have "0 < rc_max_image_bytes (dm_host c)" using override_u64_positive [OF parts(5)] positive by blast
  ultimately show ?thesis by (simp add: new_limiter_def validate_limits_def)
qed

section \<open>The start of the daemon\<close>

lemma new_roots_nonempty: "new_roots canonicalize is_dir acc roots = Inr found \<Longrightarrow> found \<noteq> []"
  by (induction roots arbitrary: acc) (auto simp: result_iff split: if_splits)

lemma assembled_host:
  assumes "assemble_host env config limiter registry checked disk = (Inr host, disk')"
  shows "\<exists>b. rh_state host = new_host registry limiter b (be_console_factory env)" "rh_report host = fst checked" "rh_image_roots host \<noteq> []"
  using assms by (auto simp: assemble_host_def new_image_policy_def result_iff dest: new_roots_nonempty split: sum.splits prod.splits)

lemma preflight_report:
  assumes "preflight env config service w = Some (Inr checked, w')"
  shows "fst checked = None \<longleftrightarrow> rc_compatibility_manifest config = None"
  using assms by (auto simp: preflight_def result_iff split: option.splits prod.splits sum.splits)


section \<open>The start of the gateway\<close>

lemma validate_any_socket: "validate_config (config\<lparr>gc_daemon_socket := s\<rparr>) = validate_config config"
  by (simp add: validate_config_def)

text \<open>The gateway starts safely. Starting it from the environment never panics on its own configuration; when it starts, it does
  not run as root, its configuration is valid, and it listens beyond the loopback interface only when the variable that
  allows this is set to 1.\<close>

theorem gateway_starts_safely:
  assumes "start_gateway is_root (config_from_environment parse_address show_address token_at lookup) listen lookup transport disk = result"
  shows "result \<noteq> Inl Panics \<and>
    (\<forall>config st. result = Inr (config, st) \<longrightarrow> \<not> is_root \<and> validate_config config = Inr () \<and> new_gateway config transport disk = Inr st \<and>
       (is_loopback (fst (gc_bind config)) \<or> env_var lookup ''KERNMUX_GATEWAY_ALLOW_NON_LOOPBACK'' = Some ''1''))"
proof (cases "is_root \<or> \<not> is_ok (config_from_environment parse_address show_address token_at lookup)")
  case True
  then show ?thesis unfolding assms [symmetric] start_gateway_def
    by (cases "config_from_environment parse_address show_address token_at lookup"; cases is_root) simp_all
next
  case False
  then obtain config where config: "config_from_environment parse_address show_address token_at lookup = Inr config" by (auto simp: is_ok_iff)
  then have valid: "validate_config config = Inr ()"
    and opt: "gc_allow_non_loopback config = (env_var lookup ''KERNMUX_GATEWAY_ALLOW_NON_LOOPBACK'' = Some ''1'')"
    unfolding config_from_environment_def Let_def by (auto simp only: result_iff sum.inject) simp_all
  have "is_loopback (fst (gc_bind config)) \<or> gc_allow_non_loopback config" using valid by (auto simp: validate_config_def split: if_splits)
  then show ?thesis using False opt unfolding assms [symmetric] start_gateway_def config
    by (cases "listen (gc_bind config)") (simp_all add: Let_def new_gateway_def validate_any_socket valid)
qed

section \<open>Witnesses\<close>

definition sample_environment :: environment where
  "sample_environment = (\<lambda>name. if name = ''KERNMUX_OPERATOR_UIDS'' then Some ''7'' else if name = ''KERNMUX_READER_GROUPS'' then Some ''kernmux'' else None)"

definition sample_groups :: "read_error + string" where
  "sample_groups = Inr (''root:x:0:'' @ [CHR 0x0A] @ ''kernmux:x:4:'' @ [CHR 0x0A])"

lemma absent: "lookup name = None \<Longrightarrow> optional_string lookup name = Inr None"
  by (simp add: optional_string_def)

lemma sample_numerals: "(parse_word ''7'' :: u32 option) = Some 7" "(parse_word ''4'' :: u32 option) = Some 4"
proof -
  have "show_nat 7 = ''7''" "show_nat 4 = ''4''" by code_simp+
  then show "(parse_word ''7'' :: u32 option) = Some 7" "(parse_word ''4'' :: u32 option) = Some 4"
    using parse_word_show_word [of "7 :: u32"] parse_word_show_word [of "4 :: u32"] by (simp_all add: show_word_def)
qed

lemma sample_lists:
  "id_list sample_environment ''KERNMUX_OPERATOR_UIDS'' = Inr [7]" "name_list sample_environment ''KERNMUX_READER_GROUPS'' = Inr [''kernmux'']"
  "resolve_group (''root:x:0:'' @ [CHR 0x0A] @ ''kernmux:x:4:'' @ [CHR 0x0A]) ''kernmux'' = Inr 4"
proof -
  have "trim ''7'' = ''7''" "split_char CHR '','' ''7'' = [''7'']" "to_str ''7'' = Some ''7''" "trim ''kernmux'' = ''kernmux''"
    "split_char CHR '','' ''kernmux'' = [''kernmux'']" "to_str ''kernmux'' = Some ''kernmux''" "\<not> has_whitespace ''kernmux''"
    "find_group ''kernmux'' (str_lines (''root:x:0:'' @ [CHR 0x0A] @ ''kernmux:x:4:'' @ [CHR 0x0A])) = Some ''4''"
    by code_simp+
  note facts = this
  show "id_list sample_environment ''KERNMUX_OPERATOR_UIDS'' = Inr [7]"
    by (simp add: id_list_def optional_string_def sample_environment_def facts sample_numerals)
  show "name_list sample_environment ''KERNMUX_READER_GROUPS'' = Inr [''kernmux'']"
    by (simp add: name_list_def optional_string_def sample_environment_def facts)
  show "resolve_group (''root:x:0:'' @ [CHR 0x0A] @ ''kernmux:x:4:'' @ [CHR 0x0A]) ''kernmux'' = Inr 4"
    unfolding resolve_group_def facts(8) by (simp add: sample_numerals)
qed

lemma sample_accepted: "\<exists>c. from_lookup sample_environment sample_groups = Inr c"
proof -
  have none: "optional_string sample_environment name = Inr None"
    if "name \<noteq> ''KERNMUX_OPERATOR_UIDS'' \<and> name \<noteq> ''KERNMUX_READER_GROUPS''" for name
    using that by (intro absent) (simp add: sample_environment_def)
  have ids: "id_list sample_environment name = Inr []" "name_list sample_environment name = Inr []"
    "overriding sample_environment name parse target = Inr target" "override_usize sample_environment name n = Inr n" "override_u64 sample_environment name m = Inr m"
    if "name \<noteq> ''KERNMUX_OPERATOR_UIDS'' \<and> name \<noteq> ''KERNMUX_READER_GROUPS''" for name parse target n m
    using none [OF that] by (simp_all add: id_list_def name_list_def overriding_def override_usize_def override_u64_def)
  have "\<exists>p. identities_from_lookup sample_environment sample_groups = Inr p"
    unfolding identities_from_lookup_def with_named_groups_def sample_groups_def resolve_groups_def
    by (simp add: ids sample_lists [unfolded append.simps])
  then show ?thesis unfolding from_lookup_def by (auto simp: ids Let_def validate_limits_def system_default_host_def)
qed

theorem authority_is_configured_witness:
  "\<exists>c. from_lookup sample_environment sample_groups = Inr c \<and>
     role_of (dm_authorization c) \<lparr>actor_uid = 7, actor_gid = 9, actor_label = None\<rparr> = Some Operator \<and>
     role_of (dm_authorization c) \<lparr>actor_uid = 8, actor_gid = 4, actor_label = None\<rparr> = Some Reader"
proof -
  obtain c where c: "from_lookup sample_environment sample_groups = Inr c" using sample_accepted by blast
  have none: "\<not> listed sample_environment name i" "\<not> grouped sample_environment sample_groups name i"
    if "name \<noteq> ''KERNMUX_OPERATOR_UIDS'' \<and> name \<noteq> ''KERNMUX_READER_GROUPS''" for name i
    using that by (auto simp: listed_def grouped_def sample_environment_def)
  have operator: "listed sample_environment ''KERNMUX_OPERATOR_UIDS'' i \<longleftrightarrow> i = 7" for i
    using id_list_listed [OF sample_lists(1)] by auto
  have "traverse_list (resolve_group (''root:x:0:'' @ [CHR 0x0A] @ ''kernmux:x:4:'' @ [CHR 0x0A])) [''kernmux''] = Inr [4]"
    unfolding traverse_list.simps sample_lists(3) by simp
  from resolved_groups [OF this sample_lists(2)]
  have reader: "grouped sample_environment sample_groups ''KERNMUX_READER_GROUPS'' i \<longleftrightarrow> i = 4" for i
    unfolding sample_groups_def by auto
  have roles: "entitled sample_environment sample_groups ''ADMINISTRATOR'' a = False"
    "entitled sample_environment sample_groups ''OPERATOR'' a \<longleftrightarrow> actor_uid a = 7"
    "entitled sample_environment sample_groups ''READER'' a \<longleftrightarrow> actor_gid a = 4" for a
    by (simp_all add: entitled_def none operator reader)
  show ?thesis
    using c authority_is_configured [OF c, of "\<lparr>actor_uid = 7, actor_gid = 9, actor_label = None\<rparr>"]
      authority_is_configured [OF c, of "\<lparr>actor_uid = 8, actor_gid = 4, actor_label = None\<rparr>"] by (auto simp: roles)
qed

theorem configuration_bounded_witness:
  "\<exists>c. from_lookup sample_environment sample_groups = Inr c \<and> 0 < sl_mutations (rc_service_limits (dm_host c)) \<and>
     rc_image_roots (dm_host c) \<noteq> [] \<and> rc_image_store_root (dm_host c) \<noteq> []"
  using sample_accepted configuration_bounded by blast

definition sample_build :: "(nat, unit, unit) build_env" where
  "sample_build =
     \<lparr>be_evidence = ready_env, be_current_exe = Inr ''/usr/sbin/kernmuxd'', be_decode_observations = \<lambda>_. None,
      be_canonicalize = Some, be_is_dir = \<lambda>_. True, be_console_factory = ()\<rparr>"

definition default_daemon :: daemon_config where
  "default_daemon = \<lparr>dm_transport = system_default_transport, dm_host = system_default_host, dm_authorization = deny_by_default\<rparr>"

definition blank_store :: store_fs where
  "blank_store = \<lparr>fs_blobs = [], fs_records = \<lambda>_. [], fs_sources = \<lambda>_. None, fs_faults = []\<rparr>"

lemma blank_layout: "new_store (\<lambda>_. True) root limit blank_store = (if limit = 0 then Inl InvalidSizeLimit else Inr (root, limit), blank_store)"
  by (simp add: new_store_def lift_io_def bind_io_def prepare_layout_def attempt_ok_def attempt_def next_fault_def blank_store_def)

lemma default_starts:
  "\<exists>host server fs' rest. start_daemon sample_build (Inr \<lparr>sf_identity = (1, 2), sf_mode = 0x1ED\<rparr>) (Inr ()) (Inr ()) True default_daemon
     (\<lambda>_. None) blank_store 0 = Some (Inr (host, server), fs', rest)"
proof -
  have "validate_transport system_default_transport = Inr ()"
    by (simp add: validate_transport_def system_default_transport_def DEFAULT_MAX_REQUEST_BYTES_def)
  then have "\<exists>server fs. bind_server (Inr \<lparr>sf_identity = (1, 2), sf_mode = 0x1ED\<rparr>) (Inr ()) (Inr ()) True system_default_transport (\<lambda>_. None)
      = (Inr server, fs)"
    by (simp add: bind_server_def Let_def)
  moreover have "\<exists>host rest. running_host sample_build system_default_host blank_store 0 = Some (Inr host, rest)"
    by (simp add: running_host_def sample_build_def system_default_host_def new_limiter_def validate_limits_def new_registry_def
        DEFAULT_OPERATION_CAPACITY_def DEFAULT_EVENT_CAPACITY_def isolated_inventory_def running_inventory_source_def preflight_def
        assemble_host_def new_image_policy_def blank_layout)
  ultimately show ?thesis by (fastforce simp: start_daemon_def default_daemon_def)
qed


definition sample_token :: "string \<Rightarrow> (io_error + token_file) \<times> (io_error + string)" where
  "sample_token path = (Inr \<lparr>tf_is_file = True, tf_is_symlink = False, tf_mode = 0x180\<rparr>, Inr ''0123456789abcdef0123456789abcdef'')"

theorem gateway_starts_safely_witness:
  "\<exists>config st. start_gateway False (config_from_environment (\<lambda>_. Some (V4 127 0 0 1, 80)) (\<lambda>_. ''127.0.0.1:80'') sample_token (\<lambda>_. None))
       (\<lambda>_. Inr ()) (\<lambda>_. None) () (\<lambda>_. None) = Inr (config, st :: (unit, unit) gateway_state) \<and>
     validate_config config = Inr () \<and> is_loopback (fst (gc_bind config))"
proof -
  let ?token = "''0123456789abcdef0123456789abcdef''"
  have strong: "\<not> weak_credential ?token" unfolding weak_credential_def by (simp, code_simp)
  have "trim_line_ends ?token = ?token" "to_str ?token = Some ?token" by code_simp+
  then have token: "read_token_file (fst (sample_token path)) (snd (sample_token path)) = Inr ?token" for path
    using strong by (simp add: read_token_file_def sample_token_def)
  have "show_nat 80 = ''80''" by code_simp
  then have port: "show_word (80 :: u16) = ''80''" by (simp add: show_word_def)
  have origins: "\<not> invalid_origin ''http://127.0.0.1:80''" "\<not> invalid_origin ''http://localhost:80''" "starts_with ''/var/lib/kernmux/images/uploads'' ''/''"
    by code_simp+
  have "\<exists>config. config_from_environment (\<lambda>_. Some (V4 127 0 0 1, 80)) (\<lambda>_. ''127.0.0.1:80'') sample_token (\<lambda>_. None) = Inr config \<and>
      gc_bind config = (V4 127 0 0 1, 80)"
    using token strong origins
    by (simp add: config_from_environment_def env_var_def env_path_def env_number_def allowed_origins_def port loopback_config_def Let_def
        case_prod_beta validate_config_def GATEWAY_MAX_REQUEST_BYTES_def DEFAULT_MAX_UPLOAD_BYTES_def)
  then obtain config where config: "config_from_environment (\<lambda>_. Some (V4 127 0 0 1, 80)) (\<lambda>_. ''127.0.0.1:80'') sample_token (\<lambda>_. None) = Inr config"
    and bind: "gc_bind config = (V4 127 0 0 1, 80)" by blast
  show ?thesis
  proof (cases "start_gateway False (config_from_environment (\<lambda>_. Some (V4 127 0 0 1, 80)) (\<lambda>_. ''127.0.0.1:80'') sample_token (\<lambda>_. None))
       (\<lambda>_. Inr ()) (\<lambda>_. None) () (\<lambda>_. None) :: gateway_exit + gateway_config \<times> (unit, unit) gateway_state")
    case (Inl e)
    then show ?thesis using gateway_starts_safely [OF Inl] unfolding config start_gateway_def by (auto simp: Let_def result_iff)
  next
    case (Inr r)
    obtain c st where r: "r = (c, st)" by fastforce
    have "gc_bind c = (V4 127 0 0 1, 80)" using Inr bind unfolding config start_gateway_def r by (auto simp: Let_def result_iff)
    then show ?thesis using gateway_starts_safely [OF Inr] Inr unfolding r by (intro exI [of _ c] exI [of _ st]) simp
  qed
qed

end
