(* ===== verification/Gateway_Access.thy ===== *)
theory Gateway_Access
  imports Gateway
begin

text \<open>
  Who reaches the daemon through the gateway and with what: the credential, the allow-list, the lines of the requests
  that are sent, complete mediation of requests and consoles, and the passage of the client library's requests.
\<close>

section \<open>Credentials\<close>

lemma constant_time_equal_bounded:
  assumes "length left < 2 ^ 64" and "length right \<le> n" and "n < 2 ^ 64"
  shows "constant_time_equal_upto n left right \<longleftrightarrow> left = right"
proof (cases "length left = length right")
  case True
  then show ?thesis using assms by (intro constant_time_equal_exact) simp_all
next
  case False
  have "unat (of_nat (length left) :: u64) = length left" "unat (of_nat (length right) :: u64) = length right"
    using assms by (simp_all add: unat_of_nat)
  then have "(of_nat (length left) :: u64) XOR of_nat (length right) \<noteq> 0"
    using False unfolding xor_eq_0_iff_eq by metis
  then have "\<not> constant_time_equal_upto n left right" by (simp add: constant_time_equal_upto_def fold_or_zero)
  then show ?thesis using False by auto
qed

lemma as_bytes_eq [simp]: "as_bytes s = as_bytes t \<longleftrightarrow> s = t"
  by (metis bytes_text_as_bytes)

lemma length_as_bytes [simp]: "length (as_bytes s) = length s"
  by (simp add: as_bytes_def)

lemma authorized_exact:
  assumes "expected \<noteq> []" and "length expected \<le> 512" and "\<forall>v. header = Some v \<longrightarrow> length v < 2 ^ 64"
  shows "authorized header expected \<longleftrightarrow> header = Some (''Bearer '' @ expected)"
proof -
  define supplied where "supplied = (case header of None \<Rightarrow> [] | Some v \<Rightarrow>
      (case strip_prefix ''Bearer '' v of None \<Rightarrow> [] | Some token \<Rightarrow> token))"
  have "length supplied < 2 ^ 64"
    using assms(3) by (auto simp: supplied_def strip_prefix_eq_Some split: option.splits)
  then have "authorized header expected \<longleftrightarrow> supplied = expected"
    using assms(2) by (simp add: authorized_def gateway_constant_time_equal_def constant_time_equal_bounded
        supplied_def [symmetric])
  also have "\<dots> \<longleftrightarrow> header = Some (''Bearer '' @ expected)"
  proof
    assume "supplied = expected"
    with assms(1) obtain v where "header = Some v" "strip_prefix ''Bearer '' v = Some expected"
      by (auto simp: supplied_def split: option.splits)
    then show "header = Some (''Bearer '' @ expected)" by (simp only: strip_prefix_eq_Some)
  next
    assume "header = Some (''Bearer '' @ expected)"
    then show "supplied = expected" unfolding supplied_def by (simp only: strip_prefix_append option.case)
  qed
  finally show ?thesis .
qed

lemma strong_credential:
  assumes "validate_config config = Inr ()"
  shows "gc_bearer_token config \<noteq> []" and "length (gc_bearer_token config) \<le> 512"
proof -
  have "\<not> weak_credential (gc_bearer_token config)" using assms by (auto simp: validate_config_def split: if_splits)
  then have "32 \<le> length (gc_bearer_token config)" "length (gc_bearer_token config) \<le> 512"
    by (simp_all add: weak_credential_def)
  then show "gc_bearer_token config \<noteq> []" "length (gc_bearer_token config) \<le> 512" by auto
qed

section \<open>The allow-list\<close>

text \<open>A character that cannot end a line or a field of a request line.\<close>

definition safe_char :: "char \<Rightarrow> bool" where
  "safe_char c \<longleftrightarrow> byte c > 32 \<and> byte c < 127"

lemma token_char_safe: "token_char c \<Longrightarrow> safe_char c"
  by (auto simp: token_char_def safe_char_def is_ascii_alphanumeric_def is_ascii_digit_def is_ascii_uppercase_def
      is_ascii_lowercase_def byte_def)

lemma digit_safe: "is_ascii_digit c \<Longrightarrow> safe_char c"
  by (auto simp: safe_char_def is_ascii_digit_def)

text \<open>The words of the daemon's paths.\<close>

definition route_words :: "string set" where
  "route_words =
     {''1.0'', ''compatibility'', ''operations'', ''events'', ''storage-devices'', ''resource-pool'', ''instances'', ''images'',
      ''os-images'', ''load'', ''load-image'', ''start'', ''stop'', ''unload'', ''kernel'', ''initrd''}"

lemma route_words_safe: "s \<in> route_words \<Longrightarrow> list_all safe_char s"
  unfolding route_words_def by (elim insertE emptyE) (simp_all add: safe_char_def byte_def)

lemma one_to_four:
  assumes "case segments of [v] \<Rightarrow> P v | [v, a] \<Rightarrow> Q v a | [v, a, b] \<Rightarrow> R v a b | [v, a, b, c] \<Rightarrow> S v a b c | _ \<Rightarrow> False"
  obtains v where "segments = [v]" "P v" | v a where "segments = [v, a]" "Q v a"
    | v a b where "segments = [v, a, b]" "R v a b" | v a b c where "segments = [v, a, b, c]" "S v a b c"
  using assms by (auto split: list.splits)

lemma guarded:
  "(if P then p else if Q then q else False) \<Longrightarrow> P \<and> p \<or> Q \<and> q"
  "(if P then p else if Q then q else if R then r else False) \<Longrightarrow> P \<and> p \<or> Q \<and> q \<or> R \<and> r"
  by (auto split: if_splits)

lemma route_wordsI:
  "''1.0'' \<in> route_words" "a \<in> {''compatibility'', ''operations'', ''events'', ''storage-devices''} \<Longrightarrow> a \<in> route_words"
  "a = ''resource-pool'' \<Longrightarrow> a \<in> route_words" "a \<in> {''instances'', ''images'', ''os-images''} \<Longrightarrow> a \<in> route_words"
  "a = ''instances'' \<Longrightarrow> a \<in> route_words" "a = ''images'' \<Longrightarrow> a \<in> route_words" "a = ''os-images'' \<Longrightarrow> a \<in> route_words"
  "a = ''operations'' \<Longrightarrow> a \<in> route_words"
  "a \<in> {''load'', ''load-image'', ''start'', ''stop'', ''unload''} \<Longrightarrow> a \<in> route_words"
  "a \<in> {''kernel'', ''initrd''} \<Longrightarrow> a \<in> route_words"
  unfolding route_words_def by ((elim insertE emptyE; simp) | simp)+

definition route_part :: "string \<Rightarrow> bool" where
  "route_part s \<longleftrightarrow> s \<in> route_words \<or> valid_number s \<or> valid_token s 128"

lemma route_partI: "s \<in> route_words \<Longrightarrow> route_part s" "valid_number s \<Longrightarrow> route_part s" "valid_token s 128 \<Longrightarrow> route_part s"
  by (simp_all add: route_part_def)

lemma allowed_route_words:
  assumes "allowed_route method segments"
  shows "\<forall>s \<in> set segments. route_part s"
  using assms unfolding allowed_route_def
proof (cases rule: one_to_four)
  case (1 v)
  then show ?thesis using route_partI(1) [OF route_wordsI(1)] by simp
next
  case (2 v a)
  have "route_part a"
    using guarded(2) [OF conjunct2 [OF 2(2)]] by (elim disjE conjE) (rule route_partI, erule route_wordsI)+
  then show ?thesis using route_partI(1) [OF route_wordsI(1)] conjunct1 [OF 2(2)] unfolding 2(1) by simp
next
  case (3 v a b)
  have "route_part a \<and> route_part b"
    using guarded(2) [OF conjunct2 [OF 3(2)]]
    by (elim disjE conjE) (rule conjI, rule route_partI, erule route_wordsI, erule route_partI)+
  then show ?thesis using route_partI(1) [OF route_wordsI(1)] conjunct1 [OF 3(2)] unfolding 3(1) by simp
next
  case (4 v a b c)
  have "route_part a \<and> route_part b \<and> route_part c"
    using guarded(1) [OF conjunct2 [OF 4(2)]]
    by (elim disjE conjE) (intro conjI; (erule route_partI | rule route_partI(1), erule route_wordsI))+
  then show ?thesis using route_partI(1) [OF route_wordsI(1)] conjunct1 [OF 4(2)] unfolding 4(1) by simp
qed

lemma route_part_safe: "route_part s \<Longrightarrow> list_all safe_char s"
  using route_words_safe by (auto simp: route_part_def valid_number_def valid_token_def list_all_iff token_char_safe digit_safe)


lemma safe_slash: "safe_char CHR ''/''" and safe_mark: "safe_char CHR ''?''"
  by (simp_all add: safe_char_def byte_def)

lemma join_safe: "\<forall>s \<in> set segments. list_all safe_char s \<Longrightarrow> list_all safe_char (join ''/'' segments)"
  by (induction "''/''" segments rule: join.induct) (auto simp: safe_slash)

lemma path_safe:
  assumes "allowed_route method (split_char CHR ''/'' (dropWhile (\<lambda>c. c = CHR ''/'') path))"
  shows "list_all safe_char path"
proof -
  have "list_all safe_char (join ''/'' (split_char CHR ''/'' (dropWhile (\<lambda>c. c = CHR ''/'') path)))"
    using allowed_route_words [OF assms] route_part_safe by (intro join_safe) blast
  then have "list_all safe_char (dropWhile (\<lambda>c. c = CHR ''/'') path)" unfolding join_split_char .
  moreover have "list_all safe_char (takeWhile (\<lambda>c. c = CHR ''/'') path)"
    unfolding list_all_iff by (metis safe_slash set_takeWhileD)
  ultimately show ?thesis by (metis list_all_append takeWhile_dropWhile_id)
qed

lemma cursor_query_safe: "cursor_query query \<Longrightarrow> list_all safe_char query"
proof (cases "strip_prefix ''after='' query")
  case (Some v)
  assume "cursor_query query"
  then have "list_all safe_char v" using Some digit_safe by (simp add: cursor_query_def list_all_iff)
  moreover have "query = ''after='' @ v" using Some by (simp only: strip_prefix_eq_Some)
  ultimately show ?thesis by (simp add: safe_char_def byte_def)
qed (simp add: cursor_query_def)

lemma daemon_path_Some:
  assumes "daemon_path method uri_path query = Some p"
  obtains path where "uri_path = ''/api'' @ path" and "\<not> contains ''//'' path" and "\<not> contains ''..'' path"
    and "allowed_route method (split_char CHR ''/'' (dropWhile (\<lambda>c. c = CHR ''/'') path))"
    and "\<And>q. query = Some q \<Longrightarrow> cursor_query q" and "p = (case query of None \<Rightarrow> path | Some q \<Rightarrow> path @ ''?'' @ q)"
proof (cases "strip_prefix ''/api'' uri_path")
  case None
  then show thesis using assms unfolding daemon_path_def by (simp only: option.case option.distinct)
next
  case (Some path)
  note step = assms [unfolded daemon_path_def Some option.case]
  show thesis
  proof (rule that)
    show "uri_path = ''/api'' @ path" using Some by (simp only: strip_prefix_eq_Some)
  qed (use step in \<open>simp_all only: split: if_splits\<close>, cases query, simp_all)
qed

lemma daemon_path_safe:
  assumes "daemon_path method uri_path query = Some p"
  shows "list_all safe_char p"
  using assms
proof (rule daemon_path_Some)
  fix path
  assume "allowed_route method (split_char CHR ''/'' (dropWhile (\<lambda>c. c = CHR ''/'') path))"
    and "\<And>q. query = Some q \<Longrightarrow> cursor_query q" and "p = (case query of None \<Rightarrow> path | Some q \<Rightarrow> path @ ''?'' @ q)"
  then show ?thesis using path_safe [of _ path] cursor_query_safe by (cases query) (simp_all add: safe_mark)
qed

lemma method_nameI:
  "method = GET \<Longrightarrow> method_name method \<noteq> None" "method = POST \<Longrightarrow> method_name method \<noteq> None"
  "method \<in> {GET, PUT} \<Longrightarrow> method_name method \<noteq> None" "method \<in> {GET, POST} \<Longrightarrow> method_name method \<noteq> None"
  "method \<in> {GET, PATCH, DELETE} \<Longrightarrow> method_name method \<noteq> None" "method \<in> {GET, DELETE} \<Longrightarrow> method_name method \<noteq> None"
  by (auto simp: method_name_def)

lemma allowed_route_method:
  assumes "allowed_route method segments"
  shows "method_name method \<noteq> None"
  using assms unfolding allowed_route_def
proof (cases rule: one_to_four)
  case (1 v)
  then show ?thesis by (simp add: method_name_def)
next
  case (2 v a)
  from guarded(2) [OF conjunct2 [OF 2(2)]] show ?thesis by (elim disjE conjE) (erule method_nameI)+
next
  case (3 v a b)
  from guarded(2) [OF conjunct2 [OF 3(2)]] show ?thesis by (elim disjE conjE) (erule method_nameI)+
next
  case (4 v a b c)
  from guarded(1) [OF conjunct2 [OF 4(2)]] show ?thesis by (elim disjE conjE) (erule method_nameI)+
qed

lemma method_name_safe: "method_name verb = Some name \<Longrightarrow> list_all safe_char name"
  by (cases verb) (auto simp: method_name_def safe_char_def byte_def)

section \<open>Lines of a request\<close>

lemma split_crlf_line:
  "CHR 0x0D \<notin> set line \<Longrightarrow> split_crlf (line @ CHR 0x0D # CHR 0x0A # rest) = line # split_crlf rest"
proof (induction line)
  case (Cons c line)
  then show ?case by (cases "line @ CHR 0x0D # CHR 0x0A # rest") auto
qed simp

lemma safe_no_return: "list_all safe_char s \<Longrightarrow> CHR 0x0D \<notin> set s"
  by (auto simp: list_all_iff safe_char_def byte_def)

lemma digits_no_return: "CHR 0x0D \<notin> set (show_nat n)"
  using show_nat_digits [of n] by (auto simp: is_ascii_digit_def byte_def)

definition intended_lines :: "string \<Rightarrow> client_request \<Rightarrow> string list" where
  "intended_lines rid request =
     [cq_method request @ '' '' @ cq_path request @ '' HTTP/1.1'', ''Host: localhost'', ''Connection: close'',
      ''Accept: application/json'', ''Content-Type: application/json'',
      ''Content-Length: '' @ show_nat (length (cq_body request)), ''X-Request-Id: '' @ rid, [], []]"

lemma request_head_lines:
  assumes "list_all safe_char (cq_method request)" and "list_all safe_char (cq_path request)" and "list_all safe_char rid"
  shows "split_crlf (request_head rid request) = intended_lines rid request"
proof -
  have "request_head rid request =
     (cq_method request @ '' '' @ cq_path request @ '' HTTP/1.1'') @ CHR 0x0D # CHR 0x0A # ''Host: localhost'' @ CHR 0x0D # CHR 0x0A #
      ''Connection: close'' @ CHR 0x0D # CHR 0x0A # ''Accept: application/json'' @ CHR 0x0D # CHR 0x0A #
      ''Content-Type: application/json'' @ CHR 0x0D # CHR 0x0A #
      (''Content-Length: '' @ show_nat (length (cq_body request))) @ CHR 0x0D # CHR 0x0A #
      (''X-Request-Id: '' @ rid) @ CHR 0x0D # CHR 0x0A # [] @ CHR 0x0D # CHR 0x0A # []"
    by (simp add: request_head_def)
  also have "split_crlf \<dots> = intended_lines rid request"
    unfolding intended_lines_def
    by (subst split_crlf_line, simp add: safe_no_return [OF assms(1)] safe_no_return [OF assms(2)]
          safe_no_return [OF assms(3)] digits_no_return)+ simp
  finally show ?thesis .
qed


section \<open>Calls\<close>

lemma show_word_safe: "list_all safe_char (show_word w)"
  using show_word_digits digit_safe by (metis list_all_iff)

lemma gateway_request_id_safe: "list_all safe_char (gateway_request_id pid n)"
  by (simp add: gateway_request_id_def show_word_safe) (simp add: safe_char_def byte_def)

lemma fresh_request_id_keeps:
  assumes "fresh_request_id env st = (rid, st')"
  shows "list_all safe_char rid" and "gs_transport st' = gs_transport st" and "gs_disk st' = gs_disk st"
    and "gs_permits st' = gs_permits st" and "gs_bridges st' = gs_bridges st" and "gs_cleanups st' = gs_cleanups st"
    and "gs_upload_permits st' = gs_upload_permits st"
  using assms gateway_request_id_safe by (auto simp: fresh_request_id_def)

lemma chosen_request_id_keeps:
  assumes "chosen_request_id env request st = (rid, st')"
  shows "list_all safe_char rid" and "gs_transport st' = gs_transport st" and "gs_disk st' = gs_disk st"
    and "gs_permits st' = gs_permits st" and "gs_bridges st' = gs_bridges st" and "gs_cleanups st' = gs_cleanups st"
    and "gs_upload_permits st' = gs_upload_permits st"
  using assms fresh_request_id_keeps [of env st rid st']
  by (auto simp: chosen_request_id_def valid_request_id_def valid_token_def list_all_iff token_char_safe
      split: option.splits if_splits)

lemma forward_calls:
  assumes "forward env rid q st = (r, st')"
  shows "gs_transport st' = snd (ge_execute env rid q (gs_transport st))" and "r = fst (ge_execute env rid q (gs_transport st))"
    and "st' = st\<lparr>gs_transport := gs_transport st'\<rparr>"
  using assms by (auto simp: forward_def split: prod.splits)

text \<open>A call that the configuration permits for a request.\<close>

definition permitted_call :: "gateway_config \<Rightarrow> gateway_request \<Rightarrow> string \<Rightarrow> client_request \<Rightarrow> bool" where
  "permitted_call config request rid q \<longleftrightarrow>
     header_text request ''authorization'' = Some (''Bearer '' @ gc_bearer_token config) \<and>
     (case header_text request ''origin'' of
        None \<Rightarrow> gq_method request = GET
      | Some v \<Rightarrow> v \<in> gc_allowed_origins config) \<and>
     (gq_path request = ''/api/1.0/os-images/upload'' \<and> gq_method request = POST \<and>
        cq_method q = ''POST'' \<and> cq_path q = ''/1.0/os-images'' \<or>
      daemon_path (gq_method request) (gq_path request) (gq_query request) = Some (cq_path q) \<and>
        method_name (gq_method request) = Some (cq_method q) \<and>
        gq_body request = Some (cq_body q) \<and> length (cq_body q) \<le> gc_max_request_bytes config) \<and>
     split_crlf (request_head rid q) = intended_lines rid q"

lemma forward_api_calls:
  assumes "forward_api env config request path st = (response, st')"
    and "daemon_path (gq_method request) (gq_path request) (gq_query request) = Some path"
  shows "gs_transport st' = gs_transport st \<or>
    (\<exists>rid q. cq_path q = path \<and> method_name (gq_method request) = Some (cq_method q) \<and>
       gq_body request = Some (cq_body q) \<and> length (cq_body q) \<le> gc_max_request_bytes config \<and>
       split_crlf (request_head rid q) = intended_lines rid q \<and>
       gs_transport st' = snd (ge_execute env rid q (gs_transport st)))"
proof -
  obtain rid st1 where chosen: "chosen_request_id env request st = (rid, st1)" by fastforce
  note keeps = chosen_request_id_keeps [OF chosen]
  show ?thesis
  proof (cases "collect_limited (gc_max_request_bytes config) request")
    case None
    then show ?thesis using assms(1) keeps(2) by (auto simp: forward_api_def chosen split: if_splits)
  next
    case (Some body)
    then have body: "gq_body request = Some body" "length body \<le> gc_max_request_bytes config"
      by (auto simp: collect_limited_def split: option.splits if_splits)
    show ?thesis
    proof (cases "method_name (gq_method request)")
      case None
      then show ?thesis using assms(1) keeps(2) Some by (auto simp: forward_api_def chosen split: if_splits)
    next
      case (Some verb)
      let ?q = "\<lparr>cq_method = verb, cq_path = path, cq_body = body\<rparr>"
      obtain r st2 where call: "forward env rid ?q st1 = (r, st2)" by fastforce
      have "gs_transport st' = gs_transport st \<or> gs_transport st' = gs_transport st2"
        using assms(1) keeps(2) Some \<open>collect_limited _ _ = _\<close> call
        by (auto simp: forward_api_def chosen split: if_splits option.splits sum.splits)
      moreover have "split_crlf (request_head rid ?q) = intended_lines rid ?q"
        using method_name_safe [OF Some] daemon_path_safe [OF assms(2)] keeps(1) by (intro request_head_lines) simp_all
      ultimately show ?thesis
        using forward_calls(1) [OF call] keeps(2) body Some by (auto intro!: exI [of _ rid] exI [of _ ?q])
    qed
  qed
qed


lemma submit_upload_calls:
  assumes "submit_upload env rid ready mutation st = (response, st')"
  shows "gs_transport st' = gs_transport st \<or>
    (\<exists>q. cq_method q = ''POST'' \<and> cq_path q = ''/1.0/os-images'' \<and>
       gs_transport st' = snd (ge_execute env rid q (gs_transport st)))"
proof (cases "ge_encode_import env mutation")
  case None
  then show ?thesis using assms by (auto simp: submit_upload_def)
next
  case (Some body)
  let ?q = "\<lparr>cq_method = ''POST'', cq_path = ''/1.0/os-images'', cq_body = body\<rparr>"
  obtain r st1 where call: "forward env rid ?q st = (r, st1)" by fastforce
  have "gs_transport st' = gs_transport st1"
    using assms by (auto simp: submit_upload_def Some call Let_def split: option.splits sum.splits if_splits)
  then show ?thesis using forward_calls(1) [OF call] by (intro disjI2 exI [of _ ?q]) simp
qed

lemma upload_head_lines:
  assumes "list_all safe_char rid" and "cq_method q = ''POST''" and "cq_path q = ''/1.0/os-images''"
  shows "split_crlf (request_head rid q) = intended_lines rid q"
  using assms by (intro request_head_lines) (simp_all add: safe_char_def byte_def)

lemma store_upload_calls:
  assumes "store_upload env config parts st = (response, st')"
  shows "gs_transport st' = gs_transport st \<or>
    (\<exists>rid q. cq_method q = ''POST'' \<and> cq_path q = ''/1.0/os-images'' \<and> split_crlf (request_head rid q) = intended_lines rid q \<and>
       gs_transport st' = snd (ge_execute env rid q (gs_transport st)))"
proof -
  obtain rid st1 where fresh: "fresh_request_id env st = (rid, st1)" by fastforce
  note keeps = fresh_request_id_keeps [OF fresh]
  consider "gs_transport st' = gs_transport st1"
    | ready mutation st2 where "submit_upload env rid ready mutation st2 = (response, st')" "gs_transport st2 = gs_transport st1"
    using assms unfolding store_upload_def fresh Let_def prod.case
    by (auto split: prod.splits sum.splits option.splits if_splits)
  then show ?thesis
  proof cases
    case 1
    then show ?thesis using keeps(2) by simp
  next
    case 2
    then show ?thesis using submit_upload_calls [OF 2(1)] upload_head_lines [OF keeps(1)] keeps(2) by metis
  qed
qed

lemma handle_os_image_upload_calls:
  assumes "handle_os_image_upload env config request st = (response, st')"
  shows "gs_transport st' = gs_transport st \<or>
    (\<exists>rid q. cq_method q = ''POST'' \<and> cq_path q = ''/1.0/os-images'' \<and> split_crlf (request_head rid q) = intended_lines rid q \<and>
       gs_transport st' = snd (ge_execute env rid q (gs_transport st)))"
proof -
  have "st' = st \<or> (\<exists>parts. store_upload env config parts st = (response, st'))"
    using assms unfolding handle_os_image_upload_def Let_def by (auto split: option.splits if_splits)
  then show ?thesis using store_upload_calls by blast
qed

lemma origin_accepted:
  "\<not> origin_refused config request \<Longrightarrow>
   (case header_text request ''origin'' of None \<Rightarrow> gq_method request = GET | Some v \<Rightarrow> v \<in> gc_allowed_origins config)"
  by (auto simp: origin_refused_def split: option.splits)

lemma permits_keep [simp]:
  "gs_transport (release_permit st) = gs_transport st" "gs_transport (release_upload st) = gs_transport st"
  "gs_bridges (release_permit st) = gs_bridges st" "gs_bridges (release_upload st) = gs_bridges st"
  by (simp_all add: release_permit_def release_upload_def)

lemma try_acquire_keeps:
  "try_acquire st = Some held \<Longrightarrow> gs_transport held = gs_transport st \<and> gs_bridges held = gs_bridges st"
  "try_acquire_upload st = Some held' \<Longrightarrow> gs_transport held' = gs_transport st \<and> gs_bridges held' = gs_bridges st"
  by (auto simp: try_acquire_def try_acquire_upload_def split: if_splits)

lemma plan_api_permits:
  assumes "\<And>r. plan_api env config request \<noteq> Api_Answer r" and "validate_config config = Inr ()"
    and "\<forall>v. header_text request ''authorization'' = Some v \<longrightarrow> length v < 2 ^ 64"
  shows "header_text request ''authorization'' = Some (''Bearer '' @ gc_bearer_token config)"
    and "case header_text request ''origin'' of None \<Rightarrow> gq_method request = GET | Some v \<Rightarrow> v \<in> gc_allowed_origins config"
proof -
  have "\<exists>r. plan_api env config request = Api_Answer r"
    if "\<not> authorized (header_text request ''authorization'') (gc_bearer_token config) \<or> origin_refused config request"
    using that by (auto simp: plan_api_def)
  then have "authorized (header_text request ''authorization'') (gc_bearer_token config)" "\<not> origin_refused config request"
    using assms(1) by blast+
  then show "header_text request ''authorization'' = Some (''Bearer '' @ gc_bearer_token config)"
    "case header_text request ''origin'' of None \<Rightarrow> gq_method request = GET | Some v \<Rightarrow> v \<in> gc_allowed_origins config"
    using authorized_exact strong_credential [OF assms(2)] assms(3) origin_accepted by blast+
qed

lemma plan_api_routes:
  "plan_api env config request = Api_Upload \<Longrightarrow> gq_path request = ''/api/1.0/os-images/upload'' \<and> gq_method request = POST"
  "plan_api env config request = Api_Forward path \<Longrightarrow> daemon_path (gq_method request) (gq_path request) (gq_query request) = Some path"
  by (auto simp only: plan_api_def api_plan.distinct api_plan.inject split: if_splits option.splits)

lemma handle_api_calls:
  assumes "handle_api env config request st = (response, st')" and "validate_config config = Inr ()"
    and "\<forall>v. header_text request ''authorization'' = Some v \<longrightarrow> length v < 2 ^ 64"
  shows "gs_transport st' = gs_transport st \<or>
    (\<exists>rid q. permitted_call config request rid q \<and> gs_transport st' = snd (ge_execute env rid q (gs_transport st)))"
proof (cases "plan_api env config request")
  case (Api_Answer r)
  then show ?thesis using assms(1) by (simp add: handle_api_def)
next
  case Api_Upload
  have checked: "header_text request ''authorization'' = Some (''Bearer '' @ gc_bearer_token config)"
    "case header_text request ''origin'' of None \<Rightarrow> gq_method request = GET | Some v \<Rightarrow> v \<in> gc_allowed_origins config"
    by (rule plan_api_permits [OF _ assms(2,3), of env], simp add: Api_Upload)+
  show ?thesis
  proof (cases "try_acquire_upload st")
    case None
    then show ?thesis using assms(1) Api_Upload by (simp add: handle_api_def)
  next
    case (Some held)
    obtain st1 where "handle_os_image_upload env config request held = (response, st1)" "gs_transport st' = gs_transport st1"
      using assms(1) Api_Upload Some by (auto simp: handle_api_def apsnd_def map_prod_def split: prod.splits)
    then show ?thesis
      using handle_os_image_upload_calls [of env config request held response st1] try_acquire_keeps(2) [OF Some] checked
        plan_api_routes(1) [OF Api_Upload] unfolding permitted_call_def by fastforce
  qed
next
  case (Api_Forward path)
  have checked: "header_text request ''authorization'' = Some (''Bearer '' @ gc_bearer_token config)"
    "case header_text request ''origin'' of None \<Rightarrow> gq_method request = GET | Some v \<Rightarrow> v \<in> gc_allowed_origins config"
    by (rule plan_api_permits [OF _ assms(2,3), of env], simp add: Api_Forward)+
  note path = plan_api_routes(2) [OF Api_Forward]
  have "forward_api env config request path st = (response, st')" using assms(1) Api_Forward by (simp add: handle_api_def)
  from forward_api_calls [OF this path] show ?thesis using checked path unfolding permitted_call_def by metis
qed

section \<open>Resources\<close>

text \<open>The three resources that the handlers hand out.\<close>

definition resources :: "('t, 'c) gateway_state \<Rightarrow> nat \<times> nat \<times> (u32 \<times> 'c) list" where
  "resources st = (gs_permits st, gs_upload_permits st, gs_bridges st)"

lemma fresh_resources: "fresh_request_id env st = (rid, st') \<Longrightarrow> resources st' = resources st"
  by (auto simp: fresh_request_id_def resources_def)

lemma chosen_resources: "chosen_request_id env request st = (rid, st') \<Longrightarrow> resources st' = resources st"
  using chosen_request_id_keeps(4,5,7) [of env request st rid st'] by (simp add: resources_def)

lemma forward_resources: "forward env rid q st = (r, st') \<Longrightarrow> resources st' = resources st"
  by (auto simp: forward_def resources_def split: prod.splits)

lemma submit_upload_resources:
  assumes "submit_upload env rid ready mutation st = (response, st')"
  shows "resources st' = resources st"
proof (cases "ge_encode_import env mutation")
  case None
  then show ?thesis using assms by (auto simp: submit_upload_def resources_def)
next
  case (Some body)
  obtain r st1 where call: "forward env rid \<lparr>cq_method = ''POST'', cq_path = ''/1.0/os-images'', cq_body = body\<rparr> st = (r, st1)" by fastforce
  have "resources st' = resources st1"
    using assms by (auto simp: submit_upload_def Let_def Some call resources_def split: option.splits sum.splits if_splits)
  then show ?thesis using forward_resources [OF call] by simp
qed

lemma disk_resources: "resources (st\<lparr>gs_disk := disk\<rparr>) = resources st"
  by (simp add: resources_def)

lemma store_upload_resources:
  assumes "store_upload env config parts st = (response, st')"
  shows "resources st' = resources st"
proof -
  obtain rid st1 where fresh: "fresh_request_id env st = (rid, st1)" by fastforce
  have "resources st' = resources st1"
    using assms unfolding store_upload_def fresh Let_def prod.case
    by (auto simp: disk_resources dest!: submit_upload_resources split: prod.splits sum.splits option.splits if_splits)
  then show ?thesis using fresh_resources [OF fresh] by simp
qed

lemma upload_resources:
  assumes "handle_os_image_upload env config request st = (response, st')"
  shows "resources st' = resources st"
proof -
  have "st' = st \<or> (\<exists>parts. store_upload env config parts st = (response, st'))"
    using assms unfolding handle_os_image_upload_def Let_def by (auto split: option.splits if_splits)
  then show ?thesis using store_upload_resources by blast
qed

lemma forward_api_resources:
  assumes "forward_api env config request path st = (response, st')"
  shows "resources st' = resources st"
proof -
  obtain rid st1 where chosen: "chosen_request_id env request st = (rid, st1)" by fastforce
  have "st' = st \<or> st' = st1 \<or> (\<exists>q r. forward env rid q st1 = (r, st'))"
    using assms unfolding forward_api_def chosen prod.case
    by (auto simp only: prod.inject split: option.splits if_splits prod.splits sum.splits)
  then show ?thesis using chosen_resources [OF chosen] forward_resources by metis
qed

lemma handle_api_resources:
  assumes "handle_api env config request st = (response, st')"
  shows "resources st' = resources st"
proof (cases "plan_api env config request")
  case Api_Upload
  show ?thesis
  proof (cases "try_acquire_upload st")
    case (Some held)
    obtain st1 where up: "handle_os_image_upload env config request held = (response, st1)" "st' = release_upload st1"
      using assms Api_Upload Some by (auto simp: handle_api_def apsnd_def map_prod_def split: prod.splits)
    have "resources held = (gs_permits st, gs_upload_permits st - 1, gs_bridges st)" "gs_upload_permits st \<noteq> 0"
      using Some by (auto simp: try_acquire_upload_def resources_def split: if_splits)
    then show ?thesis using upload_resources [OF up(1)] up(2) by (simp add: resources_def release_upload_def)
  qed (use assms Api_Upload in \<open>simp add: handle_api_def\<close>)
qed (use assms forward_api_resources in \<open>auto simp: handle_api_def\<close>)

section \<open>Consoles\<close>

text \<open>A console that the configuration permits for a request: the method and the path name an instance, the origin is an
  allowed one, and the offered subprotocols carry the token.\<close>

definition permitted_console :: "gateway_config \<Rightarrow> gateway_request \<Rightarrow> u32 \<Rightarrow> bool" where
  "permitted_console config request i \<longleftrightarrow>
     console_instance (gq_method request) (gq_path request) = Some i \<and>
     (\<exists>v. header_text request ''origin'' = Some v \<and> v \<in> gc_allowed_origins config) \<and>
     (\<exists>offered. gq_header request ''sec-websocket-protocol'' = Some (Some offered) \<and>
        offers_token offered (gc_bearer_token config))"

definition console_lines :: "u32 \<Rightarrow> string \<Rightarrow> string list" where
  "console_lines i rid =
     [''POST /1.0/instances/'' @ show_word i @ ''/console HTTP/1.1'', ''Host: localhost'', ''Connection: upgrade'',
      ''Upgrade: '' @ CONSOLE_PROTOCOL, ''X-Request-Id: '' @ rid, ''Content-Length: 0'', [], []]"

lemma console_request_lines:
  assumes "list_all safe_char rid"
  shows "split_crlf (console_request i rid) = console_lines i rid"
proof -
  have protocol: "CHR 0x0D \<notin> set CONSOLE_PROTOCOL" by (simp add: CONSOLE_PROTOCOL_def)
  have "console_request i rid =
     (''POST /1.0/instances/'' @ show_word i @ ''/console HTTP/1.1'') @ CHR 0x0D # CHR 0x0A # ''Host: localhost'' @ CHR 0x0D # CHR 0x0A #
      ''Connection: upgrade'' @ CHR 0x0D # CHR 0x0A # (''Upgrade: '' @ CONSOLE_PROTOCOL) @ CHR 0x0D # CHR 0x0A #
      (''X-Request-Id: '' @ rid) @ CHR 0x0D # CHR 0x0A # ''Content-Length: 0'' @ CHR 0x0D # CHR 0x0A # [] @ CHR 0x0D # CHR 0x0A # []"
    by (simp add: console_request_def Let_def)
  also have "split_crlf \<dots> = console_lines i rid"
    unfolding console_lines_def
    by (subst split_crlf_line, simp add: safe_no_return [OF assms] safe_no_return [OF show_word_safe] protocol)+ simp
  finally show ?thesis .
qed

text \<open>The one way to the daemon that a console request has, and what comes of it.\<close>

definition console_call :: "('v, 't, 'c) gateway_env \<Rightarrow> gateway_config \<Rightarrow> gateway_request \<Rightarrow> u32 \<Rightarrow> 't \<Rightarrow> 't \<Rightarrow> bool" where
  "console_call env config request i t t' \<longleftrightarrow>
     permitted_console config request i \<and> t' = snd (ge_connect env (gc_daemon_socket config) t)"

definition console_opened :: "('v, 't, 'c) gateway_env \<Rightarrow> gateway_config \<Rightarrow> u32 \<Rightarrow> 't \<Rightarrow> 'c \<Rightarrow> bool" where
  "console_opened env config i t c \<longleftrightarrow>
     (\<exists>rid. split_crlf (console_request i rid) = console_lines i rid \<and>
        connect_daemon (\<lambda>_. fst (ge_connect env (gc_daemon_socket config) t)) (ge_stream env) (gc_daemon_socket config) i rid
          = (Inr (), Some c))"

lemma console_upgrade_mediates:
  assumes "console_upgrade connect ops timed_out handshake verb path subprotocols token origin_allowed socket rid t = (r, t')"
  shows "(\<exists>e. r = Inl e) \<and> t' = t \<or>
    (\<exists>i offered. console_instance verb path = Some i \<and> origin_allowed \<and> subprotocols = Some (Some offered) \<and>
       valid_subprotocols offered token \<and> t' = snd (connect socket t) \<and>
       (\<forall>session. r = Inr session \<longrightarrow> fst session = i \<and>
          connect_daemon (\<lambda>_. fst (connect socket t)) ops socket i rid = (Inr (), Some (snd session))))"
proof (cases "console_instance verb path")
  case None
  then show ?thesis using assms by (auto simp: console_upgrade_def)
next
  case (Some i)
  show ?thesis
  proof (cases "\<exists>offered. origin_allowed \<and> subprotocols = Some (Some offered) \<and> valid_subprotocols offered token")
    case False
    then show ?thesis using assms Some by (auto simp: console_upgrade_def split: option.splits if_splits)
  next
    case True
    then obtain offered where offered: "origin_allowed" "subprotocols = Some (Some offered)" "valid_subprotocols offered token" by blast
    obtain connection t1 where connected: "connect socket t = (connection, t1)" by fastforce
    obtain answer stream where made: "connect_daemon (\<lambda>_. connection) ops socket i rid = (answer, stream)" by fastforce
    have "t' = t1" "\<forall>session. r = Inr session \<longrightarrow> fst session = i \<and> answer = Inr () \<and> stream = Some (snd session)"
      using assms Some offered by (auto simp: console_upgrade_def connected made split: if_splits sum.splits option.splits)
    then show ?thesis using Some offered by (auto simp: connected made)
  qed
qed

lemma handle_console_mediates:
  assumes "handle_console env config request st = (r, st')" and "validate_config config = Inr ()"
  shows "(\<exists>e. r = Inl e) \<and> gs_transport st' = gs_transport st \<or>
    (\<exists>i. console_call env config request i (gs_transport st) (gs_transport st') \<and>
       (\<forall>session. r = Inr session \<longrightarrow> fst session = i \<and> console_opened env config i (gs_transport st) (snd session)))"
proof -
  obtain rid st1 where chosen: "chosen_request_id env request st = (rid, st1)" by fastforce
  note keeps = chosen_request_id_keeps [OF chosen]
  let ?origin = "is_some_and (\<lambda>v. v \<in> gc_allowed_origins config) (header_text request ''origin'')"
  obtain t where run: "console_upgrade (ge_connect env) (ge_stream env) (ge_timed_out env) (ge_websocket env request) (gq_method request)
      (gq_path request) (gq_header request ''sec-websocket-protocol'') (gc_bearer_token config) ?origin
      (gc_daemon_socket config) rid (gs_transport st) = (r, t)" and st': "gs_transport st' = t"
    using assms(1) unfolding handle_console_def Let_def chosen prod.case keeps(2) by (auto split: prod.splits)
  have origin: "?origin \<longleftrightarrow> (\<exists>v. header_text request ''origin'' = Some v \<and> v \<in> gc_allowed_origins config)"
    by (cases "header_text request ''origin''") simp_all
  from console_upgrade_mediates [OF run] show ?thesis
  proof (elim disjE exE conjE)
    fix e assume "r = Inl e" "t = gs_transport st"
    then show ?thesis using st' by simp
  next
    fix i offered
    assume i: "console_instance (gq_method request) (gq_path request) = Some i" and "?origin"
      and offered: "gq_header request ''sec-websocket-protocol'' = Some (Some offered)"
      and "valid_subprotocols offered (gc_bearer_token config)"
      and t: "t = snd (ge_connect env (gc_daemon_socket config) (gs_transport st))"
      and opened: "\<forall>session. r = Inr session \<longrightarrow> fst session = i \<and>
        connect_daemon (\<lambda>_. fst (ge_connect env (gc_daemon_socket config) (gs_transport st))) (ge_stream env) (gc_daemon_socket config) i rid
          = (Inr (), Some (snd session))"
    then have "offers_token offered (gc_bearer_token config)"
      using valid_subprotocols_offer [OF strong_credential(2) [OF assms(2)]] by simp
    then have "console_call env config request i (gs_transport st) (gs_transport st')"
      unfolding console_call_def permitted_console_def using i offered \<open>?origin\<close> [unfolded origin] t st' by simp
    moreover have "fst session = i \<and> console_opened env config i (gs_transport st) (snd session)" if "r = Inr session" for session
      unfolding console_opened_def using opened that console_request_lines [OF keeps(1)] by (auto intro: exI [of _ rid])
    ultimately show ?thesis by blast
  qed
qed

lemma handle_console_resources:
  assumes "handle_console env config request st = (r, st')"
  shows "resources st' = resources st"
proof -
  obtain rid st1 where chosen: "chosen_request_id env request st = (rid, st1)" by fastforce
  have "resources st' = resources st1"
    using assms unfolding handle_console_def Let_def chosen prod.case by (auto simp: resources_def split: prod.splits)
  then show ?thesis using chosen_resources [OF chosen] by simp
qed

lemma handle_admitted_cases:
  assumes "handle_admitted env config request st = (h, st')"
  obtains (quiet) response where "h = Served response" "st' = st"
  | (console) r where "handle_console env config request st = (r, st')"
      "case r of Inl e \<Rightarrow> h = Served (gateway_error env (rj_status e) (rj_code e)) | Inr session \<Rightarrow> h = Switched session"
  | (api) response where "handle_api env config request st = (response, st')" "h = Served response"
      "\<not> is_health request" "\<not> is_console request" "starts_with (gq_path request) ''/api/''"
proof -
  consider "is_health request" | "\<not> is_health request" "is_console request"
    | "\<not> is_health request" "\<not> is_console request" "starts_with (gq_path request) ''/api/''"
    | "\<not> is_health request" "\<not> is_console request" "\<not> starts_with (gq_path request) ''/api/''" by blast
  then show thesis
  proof cases
    case 2
    obtain r st1 where run: "handle_console env config request st = (r, st1)" by fastforce
    then show ?thesis using assms 2 by (cases r) (auto simp: handle_admitted_def intro: console)
  next
    case 3
    obtain response st1 where run: "handle_api env config request st = (response, st1)" by fastforce
    then show ?thesis using assms 3 api by (simp add: handle_admitted_def)
  qed (use assms quiet in \<open>auto simp: handle_admitted_def\<close>)
qed

lemma handle_admitted_resources:
  assumes "handle_admitted env config request st = (h, st')"
  shows "resources st' = resources st"
  using assms by (cases rule: handle_admitted_cases) (use handle_console_resources handle_api_resources in blast)+

section \<open>Mediation\<close>

text \<open>C23: The gateway is a complete mediator. Under a valid configuration, a request makes at most one call to the
  daemon. It is either a request sent with the exact bearer credential, from an allowed origin (which every method but GET must
  name), on an allow-listed route or as an image upload, with a body within the limit passed on unchanged; or the connection for a
  console, made for a GET on the path of an instance, from an allowed origin that is named, with subprotocols that carry the
  console protocol and the token exactly once each. A bridge between browser and daemon is set up only for such a console, at
  most one, and only after the daemon has accepted it. The head of the request that a call sends, and the request for a console,
  consist of exactly the intended lines, so neither a path nor a request identifier can smuggle a header or a second
  request.\<close>

theorem gateway_mediates:
  assumes "gateway_handle env config request st = (response, st')" and "validate_config config = Inr ()"
    and "\<forall>v. header_text request ''authorization'' = Some v \<longrightarrow> length v < 2 ^ 64"
  shows "(gs_transport st' = gs_transport st \<or>
      (\<exists>rid q. permitted_call config request rid q \<and> gs_transport st' = snd (ge_execute env rid q (gs_transport st))) \<or>
      (\<exists>i. permitted_console config request i \<and>
         gs_transport st' = snd (ge_connect env (gc_daemon_socket config) (gs_transport st)))) \<and>
    (gs_bridges st' = gs_bridges st \<or>
      (\<exists>i rid c. gs_bridges st' = gs_bridges st @ [(i, c)] \<and> permitted_console config request i \<and>
         split_crlf (console_request i rid) = console_lines i rid \<and>
         connect_daemon (\<lambda>_. fst (ge_connect env (gc_daemon_socket config) (gs_transport st))) (ge_stream env)
           (gc_daemon_socket config) i rid = (Inr (), Some c)))"
proof (cases "try_acquire st")
  case None
  then show ?thesis using assms(1) by (simp add: gateway_handle_def)
next
  case (Some held)
  note held = try_acquire_keeps(1) [OF Some]
  obtain h st1 where run: "handle_admitted env config request held = (h, st1)" by fastforce
  then have concluded: "conclude h st1 = (response, st')" using assms(1) Some by (simp add: gateway_handle_def)
  have bridges: "gs_bridges st1 = gs_bridges st" using handle_admitted_resources [OF run] held by (simp add: resources_def)
  have same: "gs_transport st' = gs_transport st1" using concluded by (cases h) auto
  have served: "gs_bridges st' = gs_bridges st" if "h = Served r" for r using concluded bridges that by auto
  from run show ?thesis
  proof (cases rule: handle_admitted_cases)
    case (quiet r)
    then show ?thesis using same held served by simp
  next
    case (console r)
    from handle_console_mediates [OF console(1) assms(2)] consider
        e where "r = Inl e" "gs_transport st1 = gs_transport st"
      | i where "permitted_console config request i" "gs_transport st1 = snd (ge_connect env (gc_daemon_socket config) (gs_transport st))"
          "\<forall>session. r = Inr session \<longrightarrow> fst session = i \<and> console_opened env config i (gs_transport st) (snd session)"
      unfolding console_call_def using held by metis
    then show ?thesis
    proof cases
      case 1
      then show ?thesis using console(2) same served by simp
    next
      case 2
      show ?thesis
      proof (cases r)
        case (Inl e)
        then show ?thesis using console(2) same served 2 by auto
      next
        case (Inr session)
        then have "h = Switched session" using console(2) by simp
        then have "gs_bridges st' = gs_bridges st @ [session]" using concluded bridges by auto
        moreover obtain c where "session = (i, c)" "console_opened env config i (gs_transport st) c"
          using 2(3) Inr by (cases session) auto
        ultimately show ?thesis using 2(1,2) same unfolding console_opened_def by auto
      qed
    qed
  next
    case (api r)
    then show ?thesis using handle_api_calls [OF api(1) assms(2,3)] same served held by auto
  qed
qed

section \<open>Requests of the client through the gateway\<close>

lemma contains_Cons: "contains p (x # xs) \<longleftrightarrow> starts_with (x # xs) p \<or> contains p xs"
proof -
  have "[0..<Suc n] = 0 # map Suc [0..<n]" for n by (simp add: map_Suc_upt upt_conv_Cons del: upt_Suc)
  from this [of "length (x # xs)"] show ?thesis unfolding contains_def length_Cons
    by (simp add: list_ex_iff del: upt_Suc map_Suc_upt set_upt)
qed

lemma contains_pair_append:
  "contains [c, d] (xs @ ys) \<longleftrightarrow>
     contains [c, d] xs \<or> contains [c, d] ys \<or> xs \<noteq> [] \<and> ys \<noteq> [] \<and> last xs = c \<and> hd ys = d"
proof (induction xs)
  case Nil
  then show ?case by (simp add: contains_def starts_with_def)
next
  case (Cons x xs)
  have "starts_with (x # xs @ ys) [c, d] \<longleftrightarrow>
      starts_with (x # xs) [c, d] \<or> xs = [] \<and> ys \<noteq> [] \<and> x = c \<and> hd ys = d"
    by (cases xs; cases ys) (simp_all add: starts_with_def)
  then show ?case using Cons by (auto simp: contains_Cons)
qed

lemma contains_pair_absent: "c \<notin> set s \<Longrightarrow> \<not> contains [c, d] s"
  by (auto simp: contains_def list_ex_iff starts_with_def dest: in_set_takeD in_set_dropD)
    (metis in_set_dropD in_set_takeD list.set_intros(1))

lemma length_show_nat: "n < 10 ^ k \<Longrightarrow> 0 < k \<Longrightarrow> length (show_nat n) \<le> k"
proof (induction n arbitrary: k rule: show_nat.induct)
  case (1 n)
  show ?case
  proof (cases "n < 10")
    case True
    then show ?thesis using 1(3) by (simp add: show_nat.simps)
  next
    case False
    then have "1 < k" using 1(2) by (cases "k = 1") (use 1(3) in auto)
    then obtain j where k: "k = Suc j" "0 < j" by (cases k) auto
    then have "n div 10 < 10 ^ j" using 1(2) by (simp add: div_less_iff_less_mult mult.commute)
    then show ?thesis using 1(1) [OF False _ k(2)] False k by (subst show_nat.simps) simp
  qed
qed

lemma valid_number_show: "valid_number (show_word i)" for i :: u32
proof -
  have "unat i < 10 ^ 10" using unsigned_less [of i, where 'a = nat] by simp
  then have "length (show_word i) \<le> 10" unfolding show_word_def by (rule length_show_nat) simp
  then show ?thesis using show_word_digits [of _ i] by (auto simp: valid_number_def list_all_iff)
qed

lemma daemon_pathI:
  assumes "path = ''/1.0'' @ rest" and "\<not> contains ''//'' path" and "\<not> contains ''..'' path"
    and "allowed_route method (split_char CHR ''/'' (tl path))"
  shows "daemon_path method (''/api'' @ path) None = Some path"
proof -
  have "dropWhile (\<lambda>c. c = CHR ''/'') path = tl path" unfolding assms(1) by simp
  moreover have "starts_with path ''/1.0''" unfolding assms(1) by (rule starts_with_append)
  ultimately show ?thesis using assms(2-4)
    unfolding daemon_path_def strip_prefix_append option.case is_some_and_simps by simp
qed


text \<open>An identifier that the gateway lets pass.\<close>

definition gateway_id :: "string \<Rightarrow> bool" where
  "gateway_id i \<longleftrightarrow> valid_token i 128 \<and> \<not> contains ''..'' i"

lemma gateway_id_segment: "gateway_id i \<Longrightarrow> segment_id i"
  by (auto simp: gateway_id_def segment_id_def valid_token_def list_all_iff token_char_def is_ascii_alphanumeric_def
      is_ascii_digit_def is_ascii_uppercase_def is_ascii_lowercase_def byte_def)

definition plain_segment :: "string \<Rightarrow> bool" where
  "plain_segment s \<longleftrightarrow> s \<noteq> [] \<and> CHR ''/'' \<notin> set s \<and> \<not> contains ''..'' s"

definition segments_path :: "string list \<Rightarrow> string" where
  "segments_path segments = concat (map (Cons CHR ''/'') segments)"

lemma segments_path_plain:
  assumes "list_all plain_segment segments"
  shows "\<not> contains ''//'' (segments_path segments) \<and> \<not> contains ''..'' (segments_path segments) \<and>
    (segments \<noteq> [] \<longrightarrow> split_char CHR ''/'' (tl (segments_path segments)) = segments) \<and>
    (segments_path segments = [] \<or> hd (segments_path segments) = CHR ''/'')"
  using assms
proof (induction segments)
  case Nil
  have "\<not> contains ''//'' []" "\<not> contains ''..'' []" by code_simp+
  then show ?case by (simp add: segments_path_def)
next
  case (Cons s segments)
  let ?rest = "segments_path segments"
  have s: "s \<noteq> []" "CHR ''/'' \<notin> set s" "\<not> contains ''..'' s" using Cons.prems by (simp_all add: plain_segment_def)
  then have ends: "hd s \<noteq> CHR ''/''" "last s \<noteq> CHR ''/''" by (metis hd_in_set last_in_set)+
  have path: "segments_path (s # segments) = ''/'' @ s @ ?rest" by (simp add: segments_path_def)
  have slash: "\<not> contains ''//'' ''/''" "\<not> contains ''..'' ''/''" by code_simp+
  have "\<not> contains ''//'' s" using s(2) by (rule contains_pair_absent)
  moreover have "split_char CHR ''/'' (s @ ?rest) = s # segments"
  proof (cases segments)
    case Nil
    then show ?thesis using split_char_no_sep [OF s(2)] by (simp add: segments_path_def)
  next
    case (Cons t ts)
    then have "?rest = CHR ''/'' # tl ?rest" by (simp add: segments_path_def)
    then show ?thesis using split_char_append_sep [OF s(2), of "tl ?rest"] Cons.IH Cons.prems Cons by simp
  qed
  ultimately show ?case
    using Cons.IH Cons.prems s ends slash unfolding path contains_pair_append by auto
qed

lemma segments_path_passes:
  assumes "list_all plain_segment segments" and "segments = ''1.0'' # rest" and "allowed_route method segments"
  shows "daemon_path method (''/api'' @ segments_path segments) None = Some (segments_path segments)"
proof (rule daemon_pathI)
  note plain = segments_path_plain [OF assms(1)]
  show "segments_path segments = ''/1.0'' @ segments_path rest" unfolding assms(2) segments_path_def by simp
  show "allowed_route method (split_char CHR ''/'' (tl (segments_path segments)))"
    using assms(2,3) plain by simp
  show "\<not> contains ''//'' (segments_path segments)" "\<not> contains ''..'' (segments_path segments)" using plain by simp_all
qed


lemma plain_words:
  "plain_segment ''1.0''" "plain_segment ''instances''" "plain_segment ''operations''" "plain_segment ''os-images''"
  "plain_segment ''load''" "plain_segment ''load-image''" "plain_segment ''start''" "plain_segment ''stop''" "plain_segment ''unload''"
  by code_simp+

lemma plain_number: "plain_segment (show_word i)"
proof -
  have "CHR ''.'' \<notin> set (show_word i)" using show_word_digits [of "CHR ''.''" i] by (auto simp: is_ascii_digit_def byte_def)
  then show ?thesis using show_word_no_slash [of i] by (simp add: plain_segment_def contains_pair_absent)
qed

lemma plain_id: "gateway_id i \<Longrightarrow> plain_segment i"
  using gateway_id_segment [of i] by (simp add: plain_segment_def segment_id_def gateway_id_def)

lemma split_char_append: "split_char c (s @ c # t) = split_char c s @ split_char c t"
proof (induction s)
  case (Cons x s)
  then show ?case by (cases "split_char c s") auto
qed simp

lemma console_segment:
  assumes "strip_suffix ''/console'' (r @ CHR ''/'' # i) \<noteq> None" and "CHR ''/'' \<notin> set i"
  shows "i = ''console''"
proof -
  obtain q where "r @ CHR ''/'' # i = q @ CHR ''/'' # ''console''"
    using assms(1) by (auto simp: strip_suffix_eq_Some)
  then have "split_char CHR ''/'' r @ split_char CHR ''/'' i = split_char CHR ''/'' q @ split_char CHR ''/'' ''console''"
    unfolding split_char_append [symmetric] by (simp only:)
  then have "last (split_char CHR ''/'' i) = last (split_char CHR ''/'' ''console'')"
    by (metis last_appendR split_char_not_Nil)
  moreover have "split_char CHR ''/'' ''console'' = [''console'']" by code_simp
  ultimately show ?thesis using split_char_no_sep [OF assms(2)] by simp
qed

text \<open>A path of the API that is not one of the gateway's own.\<close>

definition ordinary :: "string \<Rightarrow> bool" where
  "ordinary path \<longleftrightarrow> strip_suffix ''/console'' path = None \<and> path \<noteq> ''/api/1.0/os-images/upload'' \<and> starts_with path ''/api/''"

lemma segments_path_ordinary:
  assumes "list_all plain_segment segments" and "segments = ''1.0'' # rest"
    and "last segments \<noteq> ''console''" and "segments \<noteq> [''1.0'', ''os-images'', ''upload'']"
  shows "ordinary (''/api'' @ segments_path segments)"
proof -
  have path: "segments_path segments = segments_path (butlast segments) @ CHR ''/'' # last segments"
    unfolding assms(2) segments_path_def by (cases rest rule: rev_cases) simp_all
  have "CHR ''/'' \<notin> set (last segments)"
    using assms(1,2) by (metis last_in_set list.distinct(1) list_all_iff plain_segment_def)
  then have "strip_suffix ''/console'' ((''/api'' @ segments_path (butlast segments)) @ CHR ''/'' # last segments) = None"
    using console_segment assms(3) by blast
  then have "strip_suffix ''/console'' (''/api'' @ segments_path segments) = None" by (simp only: path append_assoc)
  moreover have "segments_path segments \<noteq> ''/1.0/os-images/upload''"
  proof
    assume "segments_path segments = ''/1.0/os-images/upload''"
    moreover have "split_char CHR ''/'' (tl (segments_path segments)) = segments"
      using segments_path_plain [OF assms(1)] assms(2) by blast
    moreover have "split_char CHR ''/'' (tl ''/1.0/os-images/upload'') = [''1.0'', ''os-images'', ''upload'']" by code_simp
    ultimately show False using assms(4) by simp
  qed
  then have "''/api'' @ segments_path segments \<noteq> ''/api'' @ ''/1.0/os-images/upload''" by (simp only: same_append_eq simp_thms)
  moreover have "starts_with (''/api'' @ segments_path segments) ''/api/''" unfolding assms(2) segments_path_def by (simp add: starts_with_def)
  ultimately show ?thesis by (simp add: ordinary_def)
qed

text \<open>A target is on the allow-list under its own name.\<close>

definition passes :: "string \<Rightarrow> string \<Rightarrow> bool" where
  "passes method target \<longleftrightarrow>
     daemon_path (http_method_of method) (''/api'' @ fst (uri_split target)) (snd (uri_split target)) = Some target \<and>
     ordinary (''/api'' @ fst (uri_split target))"

lemma segments_passes:
  assumes "list_all plain_segment segments" and "segments = ''1.0'' # rest" and "allowed_route (http_method_of method) segments"
    and "target = segments_path segments" and "CHR ''?'' \<notin> set target"
    and "last segments \<noteq> ''console''" and "segments \<noteq> [''1.0'', ''os-images'', ''upload'']"
  shows "passes method target"
  using segments_path_passes [OF assms(1-3)] segments_path_ordinary [OF assms(1,2,6,7)]
  unfolding passes_def uri_split_plain [OF assms(5)] fst_conv snd_conv by (simp only: assms(4) simp_thms)

lemma fixed_pass:
  "list_all (passes ''GET'') [''/1.0'', ''/1.0/compatibility'', ''/1.0/resource-pool'', ''/1.0/instances'', ''/1.0/images'', ''/1.0/os-images'',
     ''/1.0/storage-devices'', ''/1.0/operations'']"
  "passes ''PUT'' ''/1.0/resource-pool''" "list_all (passes ''POST'') [''/1.0/os-images'', ''/1.0/instances'', ''/1.0/images'']"
  by code_simp+

lemma instance_passes:
  assumes "method \<in> {''GET'', ''PATCH'', ''DELETE''} \<and> suffix = [] \<or>
    method = ''POST'' \<and> suffix \<in> {''/load'', ''/load-image'', ''/start'', ''/stop'', ''/unload''}"
  shows "passes method (instance_request_path i suffix)"
proof -
  have "\<not> valid_number ''console''" by code_simp
  then have number: "show_word i \<noteq> ''console''" using valid_number_show [of i] by metis
  have mark: "CHR ''?'' \<notin> set (instance_request_path i suffix)"
    using assms show_word_no_mark [of i] by (auto simp: instance_request_path_def)
  show ?thesis
  proof (cases "suffix = []")
    case True
    then show ?thesis using assms valid_number_show [of i] mark
      by (intro segments_passes [of "[''1.0'', ''instances'', show_word i]"])
        (auto simp: plain_words plain_number segments_path_def instance_request_path_def allowed_route_def number)
  next
    case False
    then have "method = ''POST''" "suffix \<in> {''/load'', ''/load-image'', ''/start'', ''/stop'', ''/unload''}" using assms by auto
    then show ?thesis using valid_number_show [of i] mark plain_words
      by (intro segments_passes [of "[''1.0'', ''instances'', show_word i, tl suffix]"])
        (auto simp: plain_number segments_path_def instance_request_path_def allowed_route_def)
  qed
qed

lemma identified_passes:
  assumes "gateway_id i" and "i \<noteq> ''console''"
  shows "passes ''GET'' (''/1.0/operations/'' @ i)" and "passes ''DELETE'' (''/1.0/operations/'' @ i)"
    and "i \<noteq> ''upload'' \<Longrightarrow> passes ''GET'' (''/1.0/os-images/'' @ i)"
proof -
  have i: "valid_token i 128" "CHR ''?'' \<notin> set i" using assms gateway_id_segment [OF assms(1)] by (simp_all add: gateway_id_def segment_id_def)
  show "passes ''GET'' (''/1.0/operations/'' @ i)" "passes ''DELETE'' (''/1.0/operations/'' @ i)"
    by (rule segments_passes [of "[''1.0'', ''operations'', i]"];
        simp add: plain_words plain_id assms segments_path_def allowed_route_def i)+
  show "passes ''GET'' (''/1.0/os-images/'' @ i)" if "i \<noteq> ''upload''"
    by (rule segments_passes [of "[''1.0'', ''os-images'', i]"];
        simp add: plain_words plain_id assms segments_path_def allowed_route_def i that)
qed

lemma events_pass: "passes ''GET'' (''/1.0/events?after='' @ show_word cursor)"
proof -
  have split: "uri_split (''/1.0/events?after='' @ show_word cursor) = (''/1.0/events'', Some (''after='' @ show_word cursor))"
    using uri_split_query [of "''/1.0/events''" "''after='' @ show_word cursor"] by simp
  have "cursor_query (''after='' @ show_word cursor)"
    using show_word_digits [of _ cursor] unfolding cursor_query_def strip_prefix_append is_some_and_simps by (auto simp: list_all_iff)
  moreover have "\<not> contains ''//'' ''/1.0/events'' \<and> \<not> contains ''..'' ''/1.0/events''" "ordinary (''/api'' @ ''/1.0/events'')" by code_simp+
  ultimately show ?thesis unfolding passes_def split fst_conv snd_conv daemon_path_def strip_prefix_append option.case
    by (simp add: starts_with_def allowed_route_def)
qed

text \<open>Identifiers with which a request passes: two words are paths of the gateway itself.\<close>

definition gateway_read :: "client_read \<Rightarrow> bool" where
  "gateway_read query =
     (case query of
        Get_Operation i \<Rightarrow> gateway_id i \<and> i \<noteq> ''console''
      | Get_OsImage i \<Rightarrow> gateway_id i \<and> i \<noteq> ''console'' \<and> i \<noteq> ''upload''
      | _ \<Rightarrow> True)"

definition gateway_mutation :: "client_mutation \<Rightarrow> bool" where
  "gateway_mutation mut = (case mut of Cancel_Operation i \<Rightarrow> gateway_id i \<and> i \<noteq> ''console'' | _ \<Rightarrow> True)"

lemma read_passes: "gateway_read query \<Longrightarrow> passes ''GET'' (cq_path (read_request query))"
  using fixed_pass(1) instance_passes [of "''GET''" "[]"] identified_passes events_pass
  by (cases query) (simp_all add: gateway_read_def request_get_def instance_request_path_def)

lemma mutation_passes:
  assumes "gateway_mutation mut" and "mutation_request codec mut = Inr req"
  shows "passes (cq_method req) (cq_path req)"
proof -
  have req: "passes (cq_method req) (cq_path req)" if "request_json verb path body = Inr req" "passes verb path" for verb path body
    using that request_json_path [OF that(1)] by simp
  note fixed = fixed_pass(2,3) [simplified]
  show ?thesis
    using assms fixed by (cases mut) (auto simp: lifecycle_call_def gateway_mutation_def identified_passes(2) [simplified] intro!: instance_passes elim!: req)
qed

text \<open>A request of the client library, and the same request made by a browser below the prefix of the API.\<close>

definition client_request_of :: "mutation_codec \<Rightarrow> client_request \<Rightarrow> bool" where
  "client_request_of codec req \<longleftrightarrow>
     (\<exists>query. gateway_read query \<and> req = read_request query) \<or>
     (\<exists>mut. gateway_mutation mut \<and> mutation_request codec mut = Inr req)"

definition presents :: "gateway_request \<Rightarrow> client_request \<Rightarrow> bool" where
  "presents request req \<longleftrightarrow>
     gq_method request = http_method_of (cq_method req) \<and> gq_path request = ''/api'' @ fst (uri_split (cq_path req)) \<and>
     gq_query request = snd (uri_split (cq_path req)) \<and> gq_body request = Some (cq_body req)"

text \<open>What the gateway asks of a request besides its route: the credential, the origin, no upgrade, and a body within
  the limit that is declared as JSON.\<close>

definition acceptable :: "gateway_config \<Rightarrow> gateway_request \<Rightarrow> bool" where
  "acceptable config request \<longleftrightarrow>
     header_text request ''authorization'' = Some (''Bearer '' @ gc_bearer_token config) \<and>
     (\<exists>v. header_text request ''origin'' = Some v \<and> v \<in> gc_allowed_origins config) \<and>
     gq_header request ''upgrade'' = None \<and>
     (\<forall>n :: u64. Option.bind (header_text request ''content-length'') parse_word = Some n \<longrightarrow>
        unat n \<le> gc_max_request_bytes config) \<and>
     (\<forall>body. gq_body request = Some body \<longrightarrow>
        length body \<le> gc_max_request_bytes config \<and> (body = [] \<or> json_content request))"

text \<open>What the browser gets for the outcome of the call to the daemon.\<close>

fun relayed :: "('v, 't, 'c) gateway_env \<Rightarrow> (client_error + 'v raw_response) option \<Rightarrow> gateway_response" where
  "relayed env (Some (Inr response)) = json_bytes_response env (rw_status response) (rw_value response)"
| "relayed env (Some (Inl _)) = gateway_error env 502 ''daemon_unavailable''"
| "relayed env None = gateway_error env 502 ''gateway_failure''"

lemma presented_forward:
  assumes "passes (cq_method req) (cq_path req)" and "presents request req" and "acceptable config request"
    and "validate_config config = Inr ()"
  shows "\<not> is_health request" and "\<not> is_console request" and "starts_with (gq_path request) ''/api/''"
    and "plan_api env config request = Api_Forward (cq_path req)"
proof -
  have path: "gq_path request = ''/api'' @ fst (uri_split (cq_path req))" and rest: "gq_query request = snd (uri_split (cq_path req))"
    "gq_method request = http_method_of (cq_method req)" using assms(2) by (simp_all only: presents_def)
  have own: "strip_suffix ''/console'' (gq_path request) = None" "gq_path request \<noteq> ''/api/1.0/os-images/upload''"
    "starts_with (gq_path request) ''/api/''"
    using assms(1) unfolding path passes_def ordinary_def by (simp_all only: simp_thms)
  have to: "daemon_path (gq_method request) (gq_path request) (gq_query request) = Some (cq_path req)"
    using assms(1) unfolding path rest passes_def by (simp only: simp_thms)
  show "\<not> is_health request" using own(3) by (auto simp: is_health_def starts_with_def)
  show "\<not> is_console request" "starts_with (gq_path request) ''/api/''" using own by (simp_all only: is_console_def simp_thms)
  have header: "header_text request ''authorization'' = Some (''Bearer '' @ gc_bearer_token config)"
    using assms(3) by (simp only: acceptable_def)
  have "length (''Bearer '' @ gc_bearer_token config) < 2 ^ 64" using strong_credential(2) [OF assms(4)] by simp
  then have short: "\<forall>v. Some (''Bearer '' @ gc_bearer_token config) = Some v \<longrightarrow> length v < 2 ^ 64"
    by (simp only: option.inject simp_thms)
  have "authorized (header_text request ''authorization'') (gc_bearer_token config)"
    unfolding header by (rule iffD2 [OF authorized_exact [OF strong_credential [OF assms(4)] short] refl])
  moreover have "\<not> origin_refused config request" "gq_header request ''upgrade'' = None"
    using assms(3) by (auto simp: acceptable_def origin_refused_def)
  ultimately show "plan_api env config request = Api_Forward (cq_path req)"
    using own(2) to by (simp add: plan_api_def)
qed

lemma forward_api_relays:
  assumes "presents request req" and "acceptable config request" and "method_name (gq_method request) = Some (cq_method req)"
    and "gq_method request = GET \<Longrightarrow> cq_body req = []"
  shows "\<exists>st'. forward_api env config request (cq_path req) st =
      (relayed env (fst (ge_execute env (fst (chosen_request_id env request st)) req (gs_transport st))), st') \<and>
    gs_transport st' = snd (ge_execute env (fst (chosen_request_id env request st)) req (gs_transport st))"
proof -
  obtain rid st1 where chosen: "chosen_request_id env request st = (rid, st1)" by fastforce
  obtain r t where call: "ge_execute env rid req (gs_transport st) = (r, t)" by fastforce
  have body: "gq_body request = Some (cq_body req)" using assms(1) by (simp add: presents_def)
  then have collected: "collect_limited (gc_max_request_bytes config) request = Some (cq_body req)"
    and json: "cq_body req = [] \<or> json_content request"
    using assms(2) by (auto simp: acceptable_def collect_limited_def)
  have small: "\<not> is_some_and (\<lambda>length. unat length > gc_max_request_bytes config)
      (Option.bind (header_text request ''content-length'') (parse_word :: string \<Rightarrow> u64 option))"
    using assms(2) by (cases "Option.bind (header_text request ''content-length'') (parse_word :: string \<Rightarrow> u64 option)")
      (auto simp: acceptable_def not_less)
  have req: "\<lparr>cq_method = cq_method req, cq_path = cq_path req, cq_body = cq_body req\<rparr> = req" by simp
  have get: "\<not> (cq_body req \<noteq> [] \<and> gq_method request = GET)" and media: "\<not> (cq_body req \<noteq> [] \<and> \<not> json_content request)"
    using assms(4) json by blast+
  have forwarded: "forward env rid req st1 = (r, st1\<lparr>gs_transport := t\<rparr>)"
    using call chosen_request_id_keeps(2) [OF chosen] by (simp add: forward_def)
  show ?thesis
    unfolding forward_api_def chosen fst_conv call snd_conv
    by (simp only: small if_False prod.case collected option.case get media assms(3) req forwarded)
      (cases "(env, r)" rule: relayed.cases; simp)
qed

lemma client_methods:
  assumes "client_request_of codec req"
  shows "passes (cq_method req) (cq_path req)" and "method_name (http_method_of (cq_method req)) = Some (cq_method req)"
    and "http_method_of (cq_method req) = GET \<Longrightarrow> cq_body req = []"
proof -
  have reads: "cq_method (read_request query) = ''GET''" "cq_body (read_request query) = []" for query
    by (cases query; simp add: request_get_def)+
  have verbs: "cq_method req' \<in> {''PUT'', ''POST'', ''PATCH'', ''DELETE''}" if "mutation_request codec mut = Inr req'" for mut req'
  proof -
    have verb: "cq_method req' = verb" if "request_json verb path body = Inr req'" for verb path body
      using request_json_path [OF that] by simp
    show ?thesis using that by (cases mut) (auto simp: lifecycle_call_def dest!: verb)
  qed
  from assms show "passes (cq_method req) (cq_path req)"
    unfolding client_request_of_def using read_passes mutation_passes reads(1) by metis
  from assms have "cq_method req \<in> {''PUT'', ''POST'', ''PATCH'', ''DELETE''} \<or> cq_method req = ''GET'' \<and> cq_body req = []"
    unfolding client_request_of_def using reads verbs by blast
  then show "method_name (http_method_of (cq_method req)) = Some (cq_method req)" "http_method_of (cq_method req) = GET \<Longrightarrow> cq_body req = []"
    by (auto simp: method_name_def)
qed

lemma forwarded_alone:
  assumes "client_request_of codec req" and "presents request req" and "acceptable config request"
    and "validate_config config = Inr ()" and "gs_permits st \<noteq> 0"
  shows "\<exists>st'. gateway_handle env config request st =
      (relayed env (fst (ge_execute env (fst (chosen_request_id env request st)) req (gs_transport st))), st') \<and>
    gs_transport st' = snd (ge_execute env (fst (chosen_request_id env request st)) req (gs_transport st))"
proof -
  let ?held = "st\<lparr>gs_permits := gs_permits st - 1\<rparr>"
  note client = client_methods [OF assms(1)]
  note plan = presented_forward [OF client(1) assms(2,3,4)]
  have verb: "gq_method request = http_method_of (cq_method req)" using assms(2) by (simp add: presents_def)
  have rid: "fst (chosen_request_id env request ?held) = fst (chosen_request_id env request st)"
    by (simp add: chosen_request_id_def fresh_request_id_def split: option.split)
  have "\<exists>st'. forward_api env config request (cq_path req) ?held =
      (relayed env (fst (ge_execute env (fst (chosen_request_id env request ?held)) req (gs_transport ?held))), st') \<and>
    gs_transport st' = snd (ge_execute env (fst (chosen_request_id env request ?held)) req (gs_transport ?held))"
    by (rule forward_api_relays [OF assms(2,3)]) (use client(2,3) verb in simp_all)
  then show ?thesis
    using plan(1-3) plan(4) [of env] assms(5) unfolding rid
    by (auto simp: gateway_handle_def try_acquire_def handle_admitted_def handle_api_def)
qed

text \<open>C27: Whatever the client library can ask, a browser can ask through the gateway. A request of a typed method, made
  to the gateway below its API prefix with the credential, from an allowed origin, without an upgrade and with a body within the limit that
  is declared as JSON, is forwarded when a permit is free: the daemon gets exactly the client's request, with the same method, path, query
  and body, under the identifier of the browser's request or a fresh one, and the browser gets the daemon's answer with its
  status, or status 502. The identifiers in paths have to be tokens that the gateway accepts, and are not console for an operation
  and not console or upload for an operating system image, whose paths the gateway takes for its own.\<close>

theorem client_passes_gateway:
  assumes "client_request_of codec req" and "presents request req" and "acceptable config request"
    and "validate_config config = Inr ()" and "gs_permits st \<noteq> 0"
  shows "\<exists>st'. gateway_handle env config request st =
      (relayed env (fst (ge_execute env (fst (chosen_request_id env request st)) req (gs_transport st))), st') \<and>
    gs_transport st' = snd (ge_execute env (fst (chosen_request_id env request st)) req (gs_transport st))"
  by (rule forwarded_alone [OF assms])

section \<open>Witnesses\<close>

lemma sample_config_valid: "validate_config sample_config = Inr ()"
proof -
  have "\<not> weak_credential ''0123456789abcdef0123456789abcdef''" unfolding weak_credential_def by (simp, code_simp)
  moreover have "\<not> invalid_origin ''http://localhost:9443''" "starts_with ''/up'' ''/''" by code_simp+
  ultimately show ?thesis by (simp add: validate_config_def sample_config_def)
qed

text \<open>A sample request: starting instance 3.\<close>

definition sample_start :: client_request where
  "sample_start = \<lparr>cq_method = ''POST'', cq_path = ''/1.0/instances/3/start'', cq_body = [123, 125]\<rparr>"

definition sample_codec :: mutation_codec where
  "sample_codec = \<lparr>mc_resource_pool = \<lambda>_. None, mc_os_image = \<lambda>_. None, mc_create = \<lambda>_. None, mc_update = \<lambda>_. None,
     mc_load = \<lambda>_. None, mc_load_image = \<lambda>_. None, mc_lifecycle = \<lambda>_. Some [123, 125], mc_stop = \<lambda>_. None, mc_image = \<lambda>_. None\<rparr>"

lemma sample_start_client: "client_request_of sample_codec sample_start"
proof -
  have three: "show_nat 3 = ''3''" by code_simp
  have "mutation_request sample_codec (Start_Instance 3 \<lparr>ilm_expected_generation = 1\<rparr>) = Inr sample_start"
    by (simp add: lifecycle_call_def request_json_def instance_request_path_def show_word_def three sample_codec_def sample_start_def)
  moreover have "gateway_mutation (Start_Instance 3 \<lparr>ilm_expected_generation = 1\<rparr>)" by (simp add: gateway_mutation_def)
  ultimately show ?thesis unfolding client_request_of_def by blast
qed

lemma sample_accepted_request: "presents sample_request sample_start" "acceptable sample_config sample_request"
proof -
  show "presents sample_request sample_start" by code_simp
  have "header_text sample_request ''authorization'' = Some (''Bearer '' @ gc_bearer_token sample_config)"
    "header_text sample_request ''origin'' = Some ''http://localhost:9443''" "gq_header sample_request ''upgrade'' = None"
    "header_text sample_request ''content-length'' = None" "json_content sample_request" by code_simp+
  moreover have "gc_allowed_origins sample_config = {''http://localhost:9443''}" "gc_max_request_bytes sample_config = 8"
    "gq_body sample_request = Some [123, 125]" by (simp_all add: sample_config_def sample_request_def)
  ultimately show "acceptable sample_config sample_request" unfolding acceptable_def by simp
qed

theorem client_passes_gateway_witness:
  "gs_transport (snd (gateway_handle recording_env sample_config sample_request sample_state)) = [(''r-1'', sample_start)]"
proof -
  have "fst (chosen_request_id recording_env sample_request sample_state) = ''r-1''" by code_simp
  with client_passes_gateway [OF sample_start_client sample_accepted_request sample_config_valid, of sample_state recording_env]
  show ?thesis by (auto simp: sample_state_def recording_env_def)
qed

text \<open>For the mediation of this request.\<close>

theorem gateway_mediates_witness:
  "\<exists>rid q. permitted_call sample_config sample_request rid q \<and>
     gs_transport (snd (gateway_handle recording_env sample_config sample_request sample_state)) = [(rid, q)]"
proof -
  let ?out = "gateway_handle recording_env sample_config sample_request sample_state"
  have rid: "fst (chosen_request_id recording_env sample_request sample_state) = ''r-1''" by code_simp
  have "gs_transport (snd ?out) = [(''r-1'', sample_start)]"
    using forwarded_alone [OF sample_start_client sample_accepted_request sample_config_valid, of sample_state recording_env] rid
    by (auto simp: sample_state_def recording_env_def)
  moreover have "\<forall>v. header_text sample_request ''authorization'' = Some v \<longrightarrow> length v < 2 ^ 64"
  proof -
    have "header_text sample_request ''authorization'' = Some ''Bearer 0123456789abcdef0123456789abcdef''" by code_simp
    then show ?thesis by simp
  qed
  note gateway_mediates [OF prod.collapse [symmetric] sample_config_valid this, of recording_env sample_state]
  ultimately show ?thesis by (auto simp: sample_state_def recording_env_def)
qed

end
