(* ===== verification/Gateway_State.thy ===== *)
theory Gateway_State
  imports Gateway_Access
begin

text \<open>
  What the gateway keeps: the files of uploads, the static files that it serves, and its permits, with any number of
  requests in flight as a step relation.
\<close>

section \<open>Stored uploads\<close>

definition chunk_bytes :: "(unit + u8 list) list \<Rightarrow> u8 list" where
  "chunk_bytes chunks = concat (map (case_sum (\<lambda>_. []) id) chunks)"

text \<open>The bytes that the parts named \<open>file\<close> carry.\<close>

definition uploaded_bytes :: "(unit + upload_field) list \<Rightarrow> u8 list" where
  "uploaded_bytes parts =
     concat (map (case_sum (\<lambda>_. []) (\<lambda>field. if fl_name field = Some ''file'' then chunk_bytes (fl_chunks field) else [])) parts)"

text \<open>A chunk in memory is shorter than \<open>2 ^ 64\<close> bytes.\<close>

definition in_memory :: "(unit + upload_field) list \<Rightarrow> bool" where
  "in_memory parts \<longleftrightarrow> (\<forall>field chunk. Inr field \<in> set parts \<longrightarrow> Inr chunk \<in> set (fl_chunks field) \<longrightarrow> length chunk < 2 ^ 64)"

lemma write_chunks_exact:
  assumes "write_chunks env bound path chunks written disk = (r, disk')" and "disk path = Some old" and "written \<le> bound"
    and "\<forall>chunk. Inr chunk \<in> set chunks \<longrightarrow> length chunk < 2 ^ 64"
  shows "\<exists>new. disk' = disk(path := Some new) \<and>
    (\<forall>w. r = Inr w \<longrightarrow> new = old @ chunk_bytes chunks \<and> unat w = unat written + length (chunk_bytes chunks) \<and> w \<le> bound)"
  using assms
proof (induction env bound path chunks written disk arbitrary: old rule: write_chunks.induct)
  case (1 env bound path written disk)
  then show ?case by (auto simp: chunk_bytes_def fun_upd_idem intro!: exI [of _ old])
next
  case (2 env bound path e chunks written disk)
  then show ?case by (auto simp: fun_upd_idem intro!: exI [of _ old])
next
  case (3 env bound path chunk chunks written disk)
  note prems = 3(2-5)
  show ?case
  proof (cases "checked_add written (of_nat (length chunk))")
    case None
    then show ?thesis using prems by (auto simp: fun_upd_idem intro!: exI [of _ old])
  next
    case (Some total)
    have total: "unat total = unat written + length chunk"
      using unat_checked_add [OF Some] prems(4) by (simp add: unat_of_nat)
    obtain okay disk1 where app: "append_file env path chunk disk = (okay, disk1)" by fastforce
    then obtain part where disk1: "disk1 = disk(path := Some (old @ part))" and part: "okay \<Longrightarrow> part = chunk"
      using prems(2) by (auto simp: append_file_def contents_at_def Let_def split: if_splits)
    show ?thesis
    proof (cases "total \<le> bound \<and> okay")
      case True
      then have go: "write_chunks env bound path chunks total disk1 = (r, disk')"
        using prems(1) by (simp add: Some app leD)
      have "\<exists>new. disk' = disk1(path := Some new) \<and> (\<forall>w. r = Inr w \<longrightarrow>
          new = (old @ chunk) @ chunk_bytes chunks \<and> unat w = unat total + length (chunk_bytes chunks) \<and> w \<le> bound)"
        by (rule 3(1) [OF Some _ app [symmetric] _ go]) (use True disk1 part prems(4) in auto)
      then show ?thesis unfolding disk1 using total by (auto simp: chunk_bytes_def)
    next
      case False
      show ?thesis
      proof (cases "bound < total")
        case True
        then have "r = Inl ''upload_too_large''" "disk' = disk" using prems(1) by (simp_all add: Some)
        then show ?thesis using prems(2) by (auto simp: fun_upd_idem intro!: exI [of _ old])
      next
        case fits: False
        then have "\<not> okay" using False by simp
        then have "r = Inl ''upload_storage_unavailable''" "disk' = disk1" using prems(1) fits by (simp_all add: Some app)
        then show ?thesis using disk1 by auto
      qed
    qed
  qed
qed


lemma receive_file_exact:
  assumes "receive_file env bound path field disk = (r, disk')" and "disk path = None"
    and "\<forall>chunk. Inr chunk \<in> set (fl_chunks field) \<longrightarrow> length chunk < 2 ^ 64"
  shows "\<exists>v. disk' = disk(path := v) \<and>
    (r = Inr () \<longrightarrow> v = Some (chunk_bytes (fl_chunks field)) \<and> chunk_bytes (fl_chunks field) \<noteq> [] \<and>
       length (chunk_bytes (fl_chunks field)) \<le> unat bound)"
proof (cases "create_new env path disk")
  case None
  then show ?thesis using assms(1,2) by (auto simp: receive_file_def fun_upd_idem intro!: exI [of _ None])
next
  case (Some disk1)
  then have disk1: "disk1 = disk(path := Some [])" by (auto simp: create_new_def split: if_splits)
  obtain w disk2 where chunks: "write_chunks env bound path (fl_chunks field) 0 disk1 = (w, disk2)" by fastforce
  obtain new where new: "disk2 = disk1(path := Some new)"
    "\<forall>n. w = Inr n \<longrightarrow> new = [] @ chunk_bytes (fl_chunks field) \<and> unat n = unat (0 :: u64) + length (chunk_bytes (fl_chunks field)) \<and> n \<le> bound"
    using write_chunks_exact [OF chunks _ _ assms(3), of "[]"] by (auto simp: disk1)
  have "disk' = disk2" and "r = Inr () \<Longrightarrow> \<exists>n. w = Inr n \<and> n \<noteq> 0"
    using assms(1) Some chunks by (auto simp: receive_file_def split: sum.splits if_splits)
  then show ?thesis using new by (auto simp: disk1 word_le_nat_alt unat_eq_0 intro!: exI [of _ "Some new"])
qed

lemma receive_field_exact:
  assumes "receive_field env bound path field form disk = (r, disk')"
    and "\<forall>chunk. Inr chunk \<in> set (fl_chunks field) \<longrightarrow> length chunk < 2 ^ 64"
    and "\<not> uf_uploaded form \<Longrightarrow> disk path = None"
  shows "\<exists>v. disk' = disk(path := v) \<and>
    (\<forall>form'. r = Inr form' \<longrightarrow>
       (if fl_name field = Some ''file''
        then \<not> uf_uploaded form \<and> uf_uploaded form' \<and> v = Some (chunk_bytes (fl_chunks field)) \<and>
             chunk_bytes (fl_chunks field) \<noteq> [] \<and> length (chunk_bytes (fl_chunks field)) \<le> unat bound
        else uf_uploaded form' = uf_uploaded form \<and> v = disk path))"
proof (cases "fl_name field = Some ''file'' \<and> \<not> uf_uploaded form")
  case True
  obtain q disk1 where got: "receive_file env bound path field disk = (q, disk1)" by fastforce
  have "r = map_ok (\<lambda>_. form\<lparr>uf_uploaded := True\<rparr>) q" "disk' = disk1"
    using assms(1) True by (auto simp: receive_field_def got)
  then show ?thesis using receive_file_exact [OF got _ assms(2)] assms(3) True by (auto simp: result_iff)
next
  case False
  then have "disk' = disk \<and> (\<forall>form'. r = Inr form' \<longrightarrow> fl_name field \<noteq> Some ''file'' \<and> uf_uploaded form' = uf_uploaded form)"
    using assms(1) by (auto simp: receive_field_def result_iff split: option.splits if_splits)
  then show ?thesis by (auto simp: fun_upd_idem intro!: exI [of _ "disk path"])
qed


lemma uploaded_bytes_simps:
  "uploaded_bytes [] = []"
  "uploaded_bytes (Inr field # parts) = (if fl_name field = Some ''file'' then chunk_bytes (fl_chunks field) else []) @ uploaded_bytes parts"
  by (simp_all add: uploaded_bytes_def)

text \<open>What the part file holds when the fields have been received: nothing, or the bytes that were uploaded.\<close>

definition received :: "u64 \<Rightarrow> bool \<Rightarrow> u8 list \<Rightarrow> u8 list option \<Rightarrow> bool" where
  "received bound uploaded bytes v \<longleftrightarrow>
     (if uploaded then v = Some bytes \<and> bytes \<noteq> [] \<and> length bytes \<le> unat bound else v = None \<and> bytes = [])"

lemma receive_fields_exact:
  assumes "receive_fields env bound path parts form disk = (r, disk')" and "in_memory parts"
    and "received bound (uf_uploaded form) earlier (disk path)"
  shows "\<exists>v. disk' = disk(path := v) \<and>
    (\<forall>form'. r = Inr form' \<longrightarrow> received bound (uf_uploaded form') (earlier @ uploaded_bytes parts) v)"
  using assms
proof (induction env bound path parts form disk arbitrary: earlier rule: receive_fields.induct)
  case (1 env bound path form disk)
  then show ?case by (auto simp: uploaded_bytes_simps fun_upd_idem intro!: exI [of _ "disk path"])
next
  case (2 env bound path e parts form disk)
  then show ?case by (auto simp: fun_upd_idem intro!: exI [of _ "disk path"])
next
  case (3 env bound path field parts form disk)
  obtain q disk1 where got: "receive_field env bound path field form disk = (q, disk1)" by fastforce
  have mem: "\<forall>chunk. Inr chunk \<in> set (fl_chunks field) \<longrightarrow> length chunk < 2 ^ 64" "in_memory parts"
    using 3(3) by (auto simp: in_memory_def)
  have absent: "disk path = None" if "\<not> uf_uploaded form" using 3(4) that by (simp add: received_def)
  obtain v where v: "disk1 = disk(path := v)"
    "\<And>form'. q = Inr form' \<Longrightarrow> (if fl_name field = Some ''file''
        then \<not> uf_uploaded form \<and> uf_uploaded form' \<and> v = Some (chunk_bytes (fl_chunks field)) \<and>
             chunk_bytes (fl_chunks field) \<noteq> [] \<and> length (chunk_bytes (fl_chunks field)) \<le> unat bound
        else uf_uploaded form' = uf_uploaded form \<and> v = disk path)"
    using receive_field_exact [OF got mem(1) absent] by blast
  show ?case
  proof (cases q)
    case (Inl e)
    then show ?thesis using 3(2) got v(1) by (auto intro!: exI [of _ v])
  next
    case (Inr form1)
    then have go: "receive_fields env bound path parts form1 disk1 = (r, disk')" using 3(2) got by simp
    let ?bytes = "if fl_name field = Some ''file'' then chunk_bytes (fl_chunks field) else []"
    have "received bound (uf_uploaded form1) (earlier @ ?bytes) (disk1 path)"
      using v(2) [OF Inr] 3(4) by (auto simp: received_def v(1) split: if_splits)
    from 3(1) [OF got [symmetric] Inr go mem(2) this] show ?thesis unfolding v(1) uploaded_bytes_simps fun_upd_upd append_assoc .
  qed
qed


definition upload_file :: "gateway_config \<Rightarrow> string \<Rightarrow> string \<Rightarrow> string" where
  "upload_file config rid suffix = path_join (gc_upload_dir config) (rid @ suffix)"

lemma part_not_ready: "upload_file config rid ''.part'' \<noteq> upload_file config rid ''.ready''"
  by (simp add: upload_file_def path_join_def)

lemma submit_upload_exact:
  assumes "submit_upload env rid ready mutation st = (response, st')"
    and "\<And>path disk. \<not> ge_disk_error env (Remove_File path) disk"
  shows "gs_disk st' = (gs_disk st)(ready := None) \<and> gs_cleanups st' = gs_cleanups st \<or>
    (\<exists>body answer. ge_encode_import env mutation = Some body \<and>
       fst (ge_execute env rid \<lparr>cq_method = ''POST'', cq_path = ''/1.0/os-images'', cq_body = body\<rparr> (gs_transport st)) =
         Some (Inr answer) \<and>
       rw_status answer = 202 \<and> gs_disk st' = gs_disk st \<and>
       gs_cleanups st' = gs_cleanups st @
         (case ge_operation_id env (rw_value answer) of None \<Rightarrow> [] | Some i \<Rightarrow> [(ready, i)]))"
proof (cases "ge_encode_import env mutation")
  case None
  then show ?thesis using assms by (auto simp: submit_upload_def remove_file_def)
next
  case (Some body)
  let ?q = "\<lparr>cq_method = ''POST'', cq_path = ''/1.0/os-images'', cq_body = body\<rparr>"
  obtain r st1 where call: "forward env rid ?q st = (r, st1)" by fastforce
  note made = forward_calls [OF call]
  have same: "gs_disk st1 = gs_disk st" "gs_cleanups st1 = gs_cleanups st"
    using made(3) by (cases st; cases st1; simp)+
  note step = assms(1) [unfolded submit_upload_def Let_def Some option.case call prod.case]
  show ?thesis
  proof (cases "\<exists>answer. r = Some (Inr answer) \<and> rw_status answer = 202")
    case True
    then obtain answer where answer: "r = Some (Inr answer)" "rw_status answer = 202" by blast
    have "gs_disk st' = gs_disk st1"
      "gs_cleanups st' = gs_cleanups st1 @ (case ge_operation_id env (rw_value answer) of None \<Rightarrow> [] | Some i \<Rightarrow> [(ready, i)])"
      using step answer by (auto split: option.splits)
    then show ?thesis using same answer made(2) Some by auto
  next
    case False
    then have "gs_disk st' = (gs_disk st1)(ready := None)" "gs_cleanups st' = gs_cleanups st1"
      using step assms(2) by (auto simp: remove_file_def split: option.splits sum.splits if_splits)
    then show ?thesis using same by simp
  qed
qed

text \<open>The upload of these parts was accepted: the stored file is complete, the daemon answered 202 to an import of
  exactly this file, and the removal of the file is scheduled under the operation that the answer names, if it names one.\<close>

definition upload_accepted :: "('v, 't, 'c) gateway_env \<Rightarrow> gateway_config \<Rightarrow> string \<Rightarrow> (unit + upload_field) list \<Rightarrow>
    ('t, 'c) gateway_state \<Rightarrow> ('t, 'c) gateway_state \<Rightarrow> bool" where
  "upload_accepted env config rid parts st st' \<longleftrightarrow>
     (let ready = upload_file config rid ''.ready''; bytes = uploaded_bytes parts in
      bytes \<noteq> [] \<and> length bytes \<le> unat (gc_max_upload_bytes config) \<and>
      gs_disk st' = (gs_disk st)(ready := Some bytes) \<and>
      (\<exists>mutation body answer. upm_source_path mutation = to_string_lossy ready \<and> ge_encode_import env mutation = Some body \<and>
         fst (ge_execute env rid \<lparr>cq_method = ''POST'', cq_path = ''/1.0/os-images'', cq_body = body\<rparr> (gs_transport st)) =
           Some (Inr answer) \<and>
         rw_status answer = 202 \<and>
         gs_cleanups st' = gs_cleanups st @
           (case ge_operation_id env (rw_value answer) of None \<Rightarrow> [] | Some i \<Rightarrow> [(ready, i)])))"

lemma upload_acceptedD:
  assumes "upload_accepted env config rid parts st st'"
  shows "\<exists>mutation body answer. uploaded_bytes parts \<noteq> [] \<and> length (uploaded_bytes parts) \<le> unat (gc_max_upload_bytes config) \<and>
    gs_disk st' = (gs_disk st)(upload_file config rid ''.ready'' := Some (uploaded_bytes parts)) \<and>
    upm_source_path mutation = to_string_lossy (upload_file config rid ''.ready'') \<and> ge_encode_import env mutation = Some body \<and>
    fst (ge_execute env rid \<lparr>cq_method = ''POST'', cq_path = ''/1.0/os-images'', cq_body = body\<rparr> (gs_transport st)) =
      Some (Inr answer) \<and> rw_status answer = 202 \<and>
    gs_cleanups st' = (case ge_operation_id env (rw_value answer) of
        Some i \<Rightarrow> gs_cleanups st @ [(upload_file config rid ''.ready'', i)] | None \<Rightarrow> gs_cleanups st)"
proof -
  have cleanups: "xs @ (case v of None \<Rightarrow> [] | Some i \<Rightarrow> [(path, i)]) = (case v of Some i \<Rightarrow> xs @ [(path, i)] | None \<Rightarrow> xs)"
    for xs path and v :: "string option" by (cases v) simp_all
  show ?thesis using assms unfolding upload_accepted_def Let_def cleanups by blast
qed

lemma import_source: "upm_source_path (import_mutation generation ready label form) = to_string_lossy ready"
  by (simp add: import_mutation_def)

lemma store_upload_exact:
  assumes "store_upload env config parts st = (response, st')" and "in_memory parts"
    and remove: "\<And>path disk. \<not> ge_disk_error env (Remove_File path) disk"
    and rid: "rid = gateway_request_id (ge_process_id env) (gs_sequence st)"
    and free: "gs_disk st (upload_file config rid ''.part'') = None" "gs_disk st (upload_file config rid ''.ready'') = None"
  shows "gs_disk st' = gs_disk st \<and> gs_cleanups st' = gs_cleanups st \<or> upload_accepted env config rid parts st st'"
proof -
  let ?part = "upload_file config rid ''.part''" and ?ready = "upload_file config rid ''.ready''"
  obtain st1 where fresh: "fresh_request_id env st = (rid, st1)" by (simp add: fresh_request_id_def rid)
  note keeps = fresh_request_id_keeps [OF fresh]
  obtain r disk where got: "receive_fields env (gc_max_upload_bytes config) ?part parts empty_form (gs_disk st1) = (r, disk)" by fastforce
  have "received (gc_max_upload_bytes config) (uf_uploaded empty_form) [] (gs_disk st1 ?part)"
    using free(1) by (simp add: received_def empty_form_def keeps)
  from receive_fields_exact [OF got assms(2) this]
  obtain v where v: "disk = (gs_disk st)(?part := v)"
    "\<And>form. r = Inr form \<Longrightarrow> received (gc_max_upload_bytes config) (uf_uploaded form) (uploaded_bytes parts) v"
    by (auto simp: keeps)
  note step = assms(1) [unfolded store_upload_def fresh prod.case Let_def upload_file_def [symmetric] got]
  let ?moved = "st1\<lparr>gs_disk := disk(?part := None, ?ready := disk ?part)\<rparr>"
  have cleared: "disk(?part := None) = gs_disk st" using v(1) free(1) by (simp add: fun_upd_idem)
  consider "gs_disk st' = gs_disk st \<and> gs_cleanups st' = gs_cleanups st1"
    | form mutation where "r = Inr form" "uf_uploaded form" "upm_source_path mutation = to_string_lossy ?ready"
        "submit_upload env rid ?ready mutation (st1\<lparr>gs_disk := disk, gs_disk := disk(?part := None, ?ready := disk ?part)\<rparr>) = (response, st')"
    using step remove cleared unfolding remove_file_def
    by (fastforce simp: import_source split: sum.splits option.splits if_splits)
  then show ?thesis
  proof cases
    case 2
    then have sub: "submit_upload env rid ?ready mutation ?moved = (response, st')" by simp
    have got: "received (gc_max_upload_bytes config) True (uploaded_bytes parts) v" using v(2) [OF 2(1)] 2(2) by simp
    have moved: "gs_disk ?moved = (gs_disk st)(?ready := v)" using cleared v(1) by simp
    then have "(gs_disk ?moved)(?ready := None) = gs_disk st" using free(2) by (simp add: fun_upd_idem)
    with submit_upload_exact [OF sub remove] show ?thesis
      unfolding upload_accepted_def Let_def using got 2(3) moved keeps by (auto simp: received_def)
  qed (simp add: keeps(6))
qed


text \<open>C24: An upload leaves behind either nothing or a complete file. With working removals and unused names, a request
  to upload an image ends with the disk and the scheduled removals as they were, or with one new file whose bytes are exactly the
  uploaded ones, not empty and within the limit, for which the daemon has accepted an import of this very path with status
  202. In the second case exactly one removal is scheduled, of this file under the operation identifier in the daemon's answer; if
  the answer has no operation identifier, no removal is scheduled at all, and the file stays until it is stale.\<close>

theorem upload_all_or_nothing:
  assumes "handle_os_image_upload env config request st = (response, st')"
    and "\<And>boundary constraints. in_memory (ge_multipart env boundary constraints (gq_body request))"
    and "\<And>path disk. \<not> ge_disk_error env (Remove_File path) disk"
    and "rid = gateway_request_id (ge_process_id env) (gs_sequence st)"
    and "gs_disk st (upload_file config rid ''.part'') = None" and "gs_disk st (upload_file config rid ''.ready'') = None"
  shows "gs_disk st' = gs_disk st \<and> gs_cleanups st' = gs_cleanups st \<or>
    (\<exists>boundary parts bytes mutation body answer.
       Option.bind (header_text request ''content-type'') (ge_parse_boundary env) = Some boundary \<and>
       parts = ge_multipart env boundary (multipart_constraints config (saturating_add (gc_max_upload_bytes config) (64 * 1024)))
         (gq_body request) \<and>
       bytes = uploaded_bytes parts \<and> bytes \<noteq> [] \<and> length bytes \<le> unat (gc_max_upload_bytes config) \<and>
       gs_disk st' = (gs_disk st)(upload_file config rid ''.ready'' := Some bytes) \<and>
       upm_source_path mutation = to_string_lossy (upload_file config rid ''.ready'') \<and> ge_encode_import env mutation = Some body \<and>
       fst (ge_execute env rid \<lparr>cq_method = ''POST'', cq_path = ''/1.0/os-images'', cq_body = body\<rparr> (gs_transport st)) =
         Some (Inr answer) \<and> rw_status answer = 202 \<and>
       gs_cleanups st' = (case ge_operation_id env (rw_value answer) of
           Some i \<Rightarrow> gs_cleanups st @ [(upload_file config rid ''.ready'', i)]
         | None \<Rightarrow> gs_cleanups st))"
proof -
  consider "st' = st"
    | boundary where "Option.bind (header_text request ''content-type'') (ge_parse_boundary env) = Some boundary"
        "store_upload env config (ge_multipart env boundary
           (multipart_constraints config (saturating_add (gc_max_upload_bytes config) (64 * 1024))) (gq_body request)) st = (response, st')"
    using assms(1) unfolding handle_os_image_upload_def Let_def by (auto simp only: prod.inject split: option.splits if_splits)
  then show ?thesis
  proof cases
    case 1
    then show ?thesis by simp
  next
    case 2
    from store_upload_exact [OF 2(2) assms(2-6)] show ?thesis
    proof
      assume "upload_accepted env config rid (ge_multipart env boundary
        (multipart_constraints config (saturating_add (gc_max_upload_bytes config) (64 * 1024))) (gq_body request)) st st'"
      from upload_acceptedD [OF this] show ?thesis using 2(1) by blast
    qed blast
  qed
qed


section \<open>Static files\<close>

lemma path_components_join:
  "path_components (path_join root relative) = path_components root @ path_components relative"
proof (cases "root = [] \<or> last root = CHR ''/''")
  case True
  then show ?thesis
  proof (cases root rule: rev_cases)
    case (snoc base c)
    then show ?thesis using True
      by (simp add: path_join_def path_components_def split_char_append)
  qed (simp add: path_join_def path_components_def)
next
  case False
  then show ?thesis by (simp add: path_join_def path_components_def split_char_append)
qed

text \<open>C25: A static file never comes from outside the assets directory. Whatever the path of a request, an answer with
  status 200 carries a regular file, at most 32 MiB long, below the canonical assets directory: its bytes, or none for
  HEAD.\<close>

theorem static_confined:
  assumes "gp_status (handle_static env config request) = 200"
  shows "\<exists>root path len. ge_canonicalize env (gc_assets_dir config) = Some root \<and> path_starts_with path root \<and>
    ge_metadata env path = Some (True, len) \<and> len \<le> DEFAULT_MAX_STATIC_BYTES \<and>
    (if gq_method request = GET
     then ge_read_file env path = Some (gp_body (handle_static env config request)) \<and>
          length (gp_body (handle_static env config request)) = unat len
     else gq_method request = Other_Method ''HEAD'' \<and> gp_body (handle_static env config request) = [])"
proof -
  have failed: "gp_status (gateway_error env status code) = status" for status code
    by (simp add: gateway_error_def secure_response_def)
  have served: "gp_status (secure_response status bytes kind) = status" "gp_body (secure_response status bytes kind) = bytes" for status bytes kind
    by (simp_all add: secure_response_def)
  obtain relative path where rel: "static_relative_path (gq_path request) = Some relative" "static_file env config relative = Some path"
    and verb: "gq_method request = GET \<or> gq_method request = Other_Method ''HEAD''"
    using assms unfolding handle_static_def by (auto simp: failed split: if_splits option.splits)
  obtain root where root: "ge_canonicalize env (gc_assets_dir config) = Some root" "path_starts_with path root"
    using rel(2) unfolding static_file_def
    by (auto simp: path_starts_with_def path_components_join split: option.splits if_splits)
  obtain len where meta: "ge_metadata env path = Some (True, len)" "len \<le> DEFAULT_MAX_STATIC_BYTES"
    using assms rel verb unfolding handle_static_def
    by (auto simp: failed not_less split: if_splits option.splits prod.splits bool.splits)
  show ?thesis
    using assms root meta rel verb unfolding handle_static_def
    by (intro exI [of _ root] exI [of _ path] exI [of _ len])
      (auto simp: failed served not_less split: if_splits option.splits)
qed


section \<open>Requests in flight\<close>

text \<open>
  How far a request in flight has come.  It holds a permit in every phase, and an upload permit while it uploads.  The
  handler has returned in \<open>Uploaded\<close>, with the upload permit still held, and in \<open>Handled\<close>.  (The code drops the upload
  permit after the call to the daemon and before the last removal of a file; here the whole handler comes before.)
\<close>

datatype 'c phase = Admitted | Uploading | Uploaded gateway_response | Handled "'c handled"

fun uploading :: "'c phase \<Rightarrow> bool" where
  "uploading Uploading \<longleftrightarrow> True"
| "uploading (Uploaded _) \<longleftrightarrow> True"
| "uploading _ \<longleftrightarrow> False"

fun in_progress :: "'c phase \<Rightarrow> bool" where
  "in_progress (Handled _) \<longleftrightarrow> False"
| "in_progress _ \<longleftrightarrow> True"

definition is_upload :: "('v, 't, 'c) gateway_env \<Rightarrow> gateway_config \<Rightarrow> gateway_request \<Rightarrow> bool" where
  "is_upload env config request \<longleftrightarrow>
     \<not> is_health request \<and> \<not> is_console request \<and> starts_with (gq_path request) ''/api/'' \<and>
     plan_api env config request = Api_Upload"

text \<open>
  The steps of the running gateway, where any requests are in flight at the same time: a request is admitted with a permit,
  handled, and answered, which gives the permit back or hands it to a console session; an upload acquires its own permit
  before it is handled and releases it afterwards; a request whose connection breaks is dropped with its permits; a session
  ends; the cleanup of an upload runs.  Each handler works under one of the given environments.  A dropped request is one
  whose handler has not begun or has returned: what a handler leaves behind that is dropped halfway is not described.
\<close>

inductive gateway_step :: "('v, 't, 'c) gateway_env set \<Rightarrow> gateway_config \<Rightarrow>
    ('t, 'c) gateway_state \<times> (gateway_request \<times> 'c phase) list \<Rightarrow> ('t, 'c) gateway_state \<times> (gateway_request \<times> 'c phase) list \<Rightarrow> bool"
  for envs config where
  step_admit: "try_acquire st = Some held \<Longrightarrow> gateway_step envs config (st, fl) (held, fl @ [(request, Admitted)])"
| step_handle: "env \<in> envs \<Longrightarrow> \<not> is_upload env config request \<Longrightarrow> handle_admitted env config request st = (h, st') \<Longrightarrow>
    gateway_step envs config (st, xs @ (request, Admitted) # ys) (st', xs @ (request, Handled h) # ys)"
| step_upload_busy: "env \<in> envs \<Longrightarrow> is_upload env config request \<Longrightarrow> try_acquire_upload st = None \<Longrightarrow>
    gateway_step envs config (st, xs @ (request, Admitted) # ys)
      (st, xs @ (request, Handled (Served (gateway_error env 503 ''upload_busy''))) # ys)"
| step_upload_begin: "env \<in> envs \<Longrightarrow> is_upload env config request \<Longrightarrow> try_acquire_upload st = Some held \<Longrightarrow>
    gateway_step envs config (st, xs @ (request, Admitted) # ys) (held, xs @ (request, Uploading) # ys)"
| step_upload_work: "env \<in> envs \<Longrightarrow> handle_os_image_upload env config request st = (response, st') \<Longrightarrow>
    gateway_step envs config (st, xs @ (request, Uploading) # ys) (st', xs @ (request, Uploaded response) # ys)"
| step_upload_end: "gateway_step envs config (st, xs @ (request, Uploaded response) # ys)
    (release_upload st, xs @ (request, Handled (Served response)) # ys)"
| step_respond: "conclude h st = (response, st') \<Longrightarrow> gateway_step envs config (st, xs @ (request, Handled h) # ys) (st', xs @ ys)"
| step_drop: "in_progress phase \<Longrightarrow> gateway_step envs config (st, xs @ (request, phase) # ys)
    (release_permit (if uploading phase then release_upload st else st), xs @ ys)"
| step_bridge_end: "session \<in> set (gs_bridges st) \<Longrightarrow> gateway_step envs config (st, fl) (end_bridge session st, fl)"
| step_cleanup: "env \<in> envs \<Longrightarrow> task \<in> set (gs_cleanups st) \<Longrightarrow>
    gateway_step envs config (st, fl) (cleanup_after_operation env task st, fl)"

inductive gateway_reachable :: "('v, 't, 'c) gateway_env set \<Rightarrow> gateway_config \<Rightarrow>
    ('t, 'c) gateway_state \<times> (gateway_request \<times> 'c phase) list \<Rightarrow> bool" for envs config where
  reach_start: "new_gateway config transport disk = Inr st \<Longrightarrow> gateway_reachable envs config (st, [])"
| reach_step: "gateway_reachable envs config sys \<Longrightarrow> gateway_step envs config sys sys' \<Longrightarrow> gateway_reachable envs config sys'"

text \<open>A request that no other step interferes with is handled as \<open>gateway_handle\<close> says.\<close>

lemma admitted_alone:
  assumes "env \<in> envs" and "handle_admitted env config request st = (h, st')"
  shows "(gateway_step envs config)\<^sup>*\<^sup>* (st, xs @ (request, Admitted) # ys) (st', xs @ (request, Handled h) # ys)"
proof (cases "is_upload env config request")
  case False
  with assms show ?thesis by (blast intro: step_handle)
next
  case True
  show ?thesis
  proof (cases "try_acquire_upload st")
    case None
    then have "h = Served (gateway_error env 503 ''upload_busy'')" "st' = st"
      using True assms(2) by (auto simp: is_upload_def handle_admitted_def handle_api_def)
    then show ?thesis using step_upload_busy [OF assms(1) True None] by blast
  next
    case (Some held)
    obtain response st1 where work: "handle_os_image_upload env config request held = (response, st1)" by fastforce
    have result: "h = Served response" "st' = release_upload st1"
      using True assms(2) Some work by (auto simp: is_upload_def handle_admitted_def handle_api_def)
    have "(gateway_step envs config)\<^sup>*\<^sup>* (st, xs @ (request, Admitted) # ys) (held, xs @ (request, Uploading) # ys)"
      by (rule r_into_rtranclp, rule step_upload_begin [OF assms(1) True Some])
    also have "gateway_step envs config (held, xs @ (request, Uploading) # ys) (st1, xs @ (request, Uploaded response) # ys)"
      by (rule step_upload_work [OF assms(1) work])
    also have "gateway_step envs config (st1, xs @ (request, Uploaded response) # ys) (st', xs @ (request, Handled h) # ys)"
      unfolding result by (rule step_upload_end)
    finally show ?thesis .
  qed
qed

lemma gateway_handle_steps:
  assumes "env \<in> envs" and "try_acquire st \<noteq> None" and "gateway_handle env config request st = (response, st')"
  shows "(gateway_step envs config)\<^sup>*\<^sup>* (st, fl) (st', fl)"
proof -
  obtain held where held: "try_acquire st = Some held" using assms(2) by blast
  obtain h st1 where run: "handle_admitted env config request held = (h, st1)" by fastforce
  have fin: "conclude h st1 = (response, st')" using assms(3) by (simp add: gateway_handle_def held run)
  have "gateway_step envs config (st, fl) (held, fl @ [(request, Admitted)])" by (rule step_admit [OF held])
  also have "(gateway_step envs config)\<^sup>*\<^sup>* (held, fl @ [(request, Admitted)]) (st1, fl @ [(request, Handled h)])"
    by (rule admitted_alone [OF assms(1) run])
  also have "gateway_step envs config (st1, fl @ [(request, Handled h)]) (st', fl)"
    using step_respond [OF fin, where ys = "[]"] by simp
  finally show ?thesis .
qed

section \<open>Permits\<close>

lemma cleanup_attempts_resources: "resources (cleanup_attempts env path i n st) = resources st"
proof (induction n arbitrary: st)
  case (Suc n)
  obtain rid st1 where fresh: "fresh_request_id env st = (rid, st1)" by fastforce
  obtain r st2 where call: "forward env rid (request_get (''/1.0/operations/'' @ i)) st1 = (r, st2)" by fastforce
  have "resources (cleanup_attempts env path i (Suc n) st) = resources st2"
    unfolding cleanup_attempts.simps fresh prod.case call
    by (auto simp: Suc.IH disk_resources split: option.splits sum.splits)
  then show ?case using fresh_resources [OF fresh] forward_resources [OF call] by simp
qed simp

text \<open>Every permit is free, held by a request in flight, or held by a session; every upload permit is free or held by an
  upload in flight.\<close>

definition conserved :: "gateway_config \<Rightarrow> ('t, 'c) gateway_state \<times> (gateway_request \<times> 'c phase) list \<Rightarrow> bool" where
  "conserved config sys \<longleftrightarrow>
     gs_permits (fst sys) + length (snd sys) + length (gs_bridges (fst sys)) = gc_max_connections config \<and>
     gs_upload_permits (fst sys) + length (filter (\<lambda>f. uploading (snd f)) (snd sys)) = gc_max_uploads config"

lemma conserved_resources:
  assumes "resources st' = resources st" and "uploading phase' = uploading phase"
  shows "conserved config (st', xs @ (request, phase') # ys) = conserved config (st, xs @ (request, phase) # ys)"
    and "conserved config (st', fl) = conserved config (st, fl)"
  using assms by (simp_all add: conserved_def resources_def)

lemma gateway_step_conserves:
  assumes "gateway_step envs config sys sys'" and "conserved config sys"
  shows "conserved config sys'"
  using assms
proof (induction rule: gateway_step.induct)
  case (step_admit st held fl request)
  then show ?case by (auto simp: conserved_def try_acquire_def split: if_splits)
next
  case (step_handle env request st h st' xs ys)
  then show ?case
    using conserved_resources(1) [OF handle_admitted_resources [OF step_handle.hyps(3)], of "Handled h" Admitted] by simp
next
  case (step_upload_begin env request st held xs ys)
  then show ?case by (auto simp: conserved_def try_acquire_upload_def split: if_splits)
next
  case (step_upload_work env request st response st' xs ys)
  then show ?case
    using conserved_resources(1) [OF upload_resources [OF step_upload_work.hyps(2)], of "Uploaded response" Uploading] by simp
next
  case (step_upload_end st xs request response ys)
  then show ?case by (simp add: conserved_def release_upload_def)
next
  case (step_respond h st response st' xs request ys)
  then show ?case by (cases h) (auto simp: conserved_def release_permit_def)
next
  case (step_drop phase st xs request ys)
  then show ?case by (cases phase) (auto simp: conserved_def release_permit_def release_upload_def)
next
  case (step_bridge_end session st fl)
  then have "Suc (length (remove1 session (gs_bridges st))) = length (gs_bridges st)"
    using length_pos_if_in_set [of session "gs_bridges st"] by (simp add: length_remove1)
  then show ?case using step_bridge_end by (simp add: conserved_def end_bridge_def release_permit_def)
next
  case (step_cleanup env task st fl)
  have "resources (cleanup_after_operation env task st) = resources st"
    unfolding cleanup_after_operation_def cleanup_attempts_resources by (simp add: resources_def)
  then show ?case using conserved_resources(2) step_cleanup.prems by blast
qed (simp add: conserved_def)

lemma gateway_reachable_conserved: "gateway_reachable envs config sys \<Longrightarrow> conserved config sys"
proof (induction rule: gateway_reachable.induct)
  case (reach_start transport disk st)
  then show ?case by (auto simp: conserved_def new_gateway_def result_iff)
qed (rule gateway_step_conserves)

text \<open>C26: No permit is lost or made up. In every state that a started gateway can reach, with any requests in flight at the same
  time, each admitted, being handled, uploading, answered or dropped in any order, and with any ends of console sessions and
  cleanups, the free permits, the requests in flight and the open sessions together are the configured number of connections,
  and the free upload permits and the uploads in flight together are the configured number of uploads. So a new request is
  refused as busy exactly when requests in flight and sessions hold all permits, an upload exactly when that many uploads are in
  flight; and when nothing is in flight, all upload permits are free.\<close>

theorem permits_conserved:
  assumes "gateway_reachable envs config (st, flights)"
  shows "gs_permits st + length flights + length (gs_bridges st) = gc_max_connections config \<and>
    gs_upload_permits st + length (filter (\<lambda>f. uploading (snd f)) flights) = gc_max_uploads config \<and>
    (try_acquire st = None \<longleftrightarrow> length flights + length (gs_bridges st) = gc_max_connections config) \<and>
    (try_acquire_upload st = None \<longleftrightarrow> length (filter (\<lambda>f. uploading (snd f)) flights) = gc_max_uploads config) \<and>
    (length flights + length (gs_bridges st) = gc_max_connections config \<longrightarrow>
       gateway_handle env config request st = (gateway_error env 503 ''gateway_busy'', st)) \<and>
    (flights = [] \<longrightarrow> gs_upload_permits st = gc_max_uploads config)"
  using gateway_reachable_conserved [OF assms]
  by (auto simp: conserved_def try_acquire_def try_acquire_upload_def gateway_handle_def)

section \<open>Witnesses\<close>

definition sample_upload :: gateway_request where
  "sample_upload = \<lparr>gq_method = POST, gq_path = ''/api/1.0/os-images/upload'', gq_query = None,
     gq_header = \<lambda>name. map_option Some (map_of [(''content-length'', ''9''), (''content-type'', ''b'')] name), gq_body = None\<rparr>"

lemma small_numerals: "(parse_word ''9'' :: u64 option) = Some 9" "(parse_word ''5'' :: u64 option) = Some 5"
proof -
  have "show_nat 9 = ''9''" "show_nat 5 = ''5''" by code_simp+
  then have "show_word (9 :: u64) = ''9''" "show_word (5 :: u64) = ''5''" by (simp_all add: show_word_def)
  then show "(parse_word ''9'' :: u64 option) = Some 9" "(parse_word ''5'' :: u64 option) = Some 5"
    by (metis parse_word_show_word)+
qed

lemma sample_upload_stored:
  "gs_disk (snd (handle_os_image_upload recording_env sample_config sample_upload sample_state)) ''/up/gateway-7-1.ready'' = Some [1, 2, 3]"
proof -
  have one: "show_nat 7 = ''7''" "show_nat 1 = ''1''" by code_simp+
  have rid: "gateway_request_id 7 1 = ''gateway-7-1''" using one by (simp add: gateway_request_id_def show_word_def)
  have paths: "path_join ''/up'' ''gateway-7-1.part'' = ''/up/gateway-7-1.part''" "path_join ''/up'' ''gateway-7-1.ready'' = ''/up/gateway-7-1.ready''"
    by code_simp+
  have "header_text sample_upload ''content-length'' = Some ''9''" "header_text sample_upload ''content-type'' = Some ''b''" by code_simp+
  then show ?thesis
    by (simp add: handle_os_image_upload_def small_numerals sample_config_def saturating_add_def store_upload_def
        fresh_request_id_def sample_state_def rid paths recording_env_def receive_field_def receive_file_def create_new_def
        checked_add_def append_file_def contents_at_def field_value_def empty_form_def non_empty_def submit_upload_def
        forward_def import_mutation_def json_bytes_response_def Let_def)
qed

theorem upload_all_or_nothing_witness:
  "gs_cleanups (snd (handle_os_image_upload recording_env sample_config sample_upload sample_state)) =
     [(upload_file sample_config (gateway_request_id 7 1) ''.ready'', ''op-1'')]"
proof -
  let ?out = "handle_os_image_upload recording_env sample_config sample_upload sample_state"
  have mem: "in_memory (ge_multipart recording_env boundary constraints (gq_body sample_upload))" for boundary constraints
    by (auto simp: in_memory_def recording_env_def)
  have env: "\<not> ge_disk_error recording_env (Remove_File path) disk" "ge_operation_id recording_env v = Some ''op-1''"
    "gateway_request_id 7 1 = gateway_request_id (ge_process_id recording_env) (gs_sequence sample_state)"
    "gs_disk sample_state path = None" "gs_cleanups sample_state = []" for path disk v
    by (simp_all add: recording_env_def sample_state_def)
  have "gs_disk (snd ?out) \<noteq> gs_disk sample_state" using sample_upload_stored env(4) by auto
  with upload_all_or_nothing [OF prod.collapse [symmetric] mem env(1,3,4,4)]
  show ?thesis unfolding env(2,5) by auto
qed

theorem static_confined_witness:
  "gp_body (handle_static recording_env sample_config (sample_request\<lparr>gq_method := GET, gq_path := ''/''\<rparr>)) = [104, 105] \<and>
   (\<exists>root path. ge_canonicalize recording_env ''/srv/web'' = Some root \<and> path_starts_with path root \<and>
     ge_read_file recording_env path = Some [104, 105])"
proof -
  let ?request = "sample_request\<lparr>gq_method := GET, gq_path := ''/''\<rparr>"
  let ?got = "handle_static recording_env sample_config ?request"
  have found: "static_file recording_env sample_config ''index.html'' = Some ''/srv/web/index.html''" by code_simp
  have "static_relative_path ''/'' = Some ''index.html''" by code_simp
  then have got: "?got = secure_response 200 [104, 105] (static_content_type ''/srv/web/index.html'')"
    by (simp add: handle_static_def found) (simp add: recording_env_def DEFAULT_MAX_STATIC_BYTES_def)
  then have "gp_status ?got = 200" and body: "gp_body ?got = [104, 105]" by (simp_all add: secure_response_def)
  from static_confined [OF this(1)] show ?thesis unfolding body by (auto simp: sample_config_def)
qed

text \<open>An upload in flight beside another request, on a gateway with two permits and one upload permit.\<close>

definition upload_in_flight :: gateway_request where
  "upload_in_flight = sample_request\<lparr>gq_path := ''/api/1.0/os-images/upload''\<rparr>"

lemma sample_upload_planned: "is_upload recording_env sample_config upload_in_flight"
proof -
  have header: "header_text upload_in_flight ''authorization'' = Some (''Bearer '' @ gc_bearer_token sample_config)" by code_simp
  have "length (''Bearer '' @ gc_bearer_token sample_config) < 2 ^ 64" by (simp add: sample_config_def)
  then have short: "\<forall>v. Some (''Bearer '' @ gc_bearer_token sample_config) = Some v \<longrightarrow> length v < 2 ^ 64"
    by (simp only: option.inject simp_thms)
  have "authorized (header_text upload_in_flight ''authorization'') (gc_bearer_token sample_config)"
    unfolding header by (rule iffD2 [OF authorized_exact [OF strong_credential [OF sample_config_valid] short] refl])
  moreover have "\<not> origin_refused sample_config upload_in_flight" "gq_header upload_in_flight ''upgrade'' = None"
    "gq_path upload_in_flight = ''/api/1.0/os-images/upload''" "gq_method upload_in_flight = POST"
    "\<not> is_health upload_in_flight" "\<not> is_console upload_in_flight" "starts_with (gq_path upload_in_flight) ''/api/''"
    by code_simp+
  ultimately show ?thesis by (simp add: is_upload_def plan_api_def)
qed

definition busy_state :: "((string \<times> client_request) list, u8 list \<times> u8 list) gateway_state" where
  "busy_state = sample_state\<lparr>gs_permits := 0, gs_upload_permits := 0\<rparr>"

lemma busy_reachable:
  "gateway_reachable {recording_env} sample_config (busy_state, [(upload_in_flight, Uploading), (sample_request, Admitted)])"
proof -
  let ?one = "sample_state\<lparr>gs_permits := 1\<rparr>" and ?up = "sample_state\<lparr>gs_permits := 1, gs_upload_permits := 0\<rparr>"
  have "new_gateway sample_config [] (\<lambda>_. None) = Inr sample_state"
    by (simp add: new_gateway_def sample_config_valid sample_state_def) (simp add: sample_config_def)
  then have "gateway_reachable {recording_env} sample_config (sample_state, [])" by (rule reach_start)
  moreover have "gateway_step {recording_env} sample_config (sample_state, []) (?one, [] @ [(upload_in_flight, Admitted)])"
    by (rule step_admit) (simp add: try_acquire_def sample_state_def)
  ultimately have "gateway_reachable {recording_env} sample_config (?one, [] @ [(upload_in_flight, Admitted)])" by (rule reach_step)
  moreover have "gateway_step {recording_env} sample_config (?one, [] @ (upload_in_flight, Admitted) # []) (?up, [] @ (upload_in_flight, Uploading) # [])"
    by (rule step_upload_begin [OF _ sample_upload_planned]) (simp_all add: try_acquire_upload_def sample_state_def)
  ultimately have "gateway_reachable {recording_env} sample_config (?up, [] @ (upload_in_flight, Uploading) # [])" by (rule reach_step)
  moreover have "gateway_step {recording_env} sample_config (?up, [] @ (upload_in_flight, Uploading) # [])
      (busy_state, ([] @ (upload_in_flight, Uploading) # []) @ [(sample_request, Admitted)])"
    by (rule step_admit) (simp add: try_acquire_def busy_state_def sample_state_def)
  ultimately show ?thesis using reach_step by fastforce
qed

theorem permits_conserved_witness:
  "gs_permits busy_state = 0 \<and> gs_upload_permits busy_state = 0 \<and> gs_bridges busy_state = [] \<and>
   2 = gc_max_connections sample_config \<and> 1 = gc_max_uploads sample_config \<and>
   gateway_handle recording_env sample_config sample_request busy_state = (gateway_error recording_env 503 ''gateway_busy'', busy_state)"
proof -
  have "gs_permits busy_state = 0" "gs_upload_permits busy_state = 0" "gs_bridges busy_state = []"
    by (simp_all add: busy_state_def sample_state_def)
  with permits_conserved [OF busy_reachable, of recording_env sample_request] show ?thesis by simp
qed

end
