(* ===== verification/Cli.thy ===== *)
theory Cli
  imports Client Host_Probe
begin

text \<open>
  The command line client, \<open>crates/kernmux-cli/src/lib.rs\<close>: global options, the commands and their options, the
  requests that they stand for, the exit codes, and one whole invocation.  JSON is a library: a value is of type
  \<open>'v\<close>, read through the accessors of \<open>cli_env\<close>.  The transport is the one of the management client.
\<close>

section \<open>Exit codes and errors\<close>

datatype exit_code = Exit_Success | Exit_Usage | Exit_Transport | Exit_Protocol | Exit_RequestRejected | Exit_Authorization | Exit_Service

fun exit_value :: "exit_code \<Rightarrow> u8" where
  "exit_value Exit_Success = 0"
| "exit_value Exit_Usage = 2"
| "exit_value Exit_Transport = 3"
| "exit_value Exit_Protocol = 4"
| "exit_value Exit_RequestRejected = 5"
| "exit_value Exit_Authorization = 6"
| "exit_value Exit_Service = 7"

record cli_error =
  ce_code :: exit_code
  ce_message :: string

definition DEFAULT_SOCKET :: string where "DEFAULT_SOCKET = ''/run/kernmux/kernmuxd.sock''"

definition usage :: string where
  "usage =
     join [CHR 0x0A]
       [''Kernmux automation client'',
        [],
        ''Usage: kernmuxctl [--socket PATH] [--pretty] [--request-id ID] RESOURCE ACTION [OPTIONS]'',
        [],
        ''Resources:'',
        ''  host show'',
        ''  host preflight'',
        ''  host diagnose'',
        ''  pool show'',
        ''  pool set --generation N --cpus LIST --memory SIZE'',
        ''  pool release --generation N'',
        ''  instance list'',
        ''  instance show ID'',
        ''  instance create --generation N --id ID --name NAME --cpus LIST --memory SIZE'',
        ''  instance update ID --generation N [--cpus LIST] [--memory SIZE] [--devices BDF[,BDF]] [--dry-run]'',
        ''  instance load ID --generation N --kernel PATH [--initrd PATH] [--cmdline TEXT]'',
        ''  instance load-image ID --generation N --kernel ID [--initrd ID] [--cmdline TEXT]'',
        ''  instance start ID --generation N'',
        ''  instance stop ID --generation N [--force]'',
        ''  instance unload ID --generation N'',
        ''  instance delete ID --generation N'',
        ''  image list'',
        ''  image show KIND ID'',
        ''  image import --generation N --kind KIND --source PATH [--expected-id ID]'',
        ''  os-image list'',
        ''  os-image show ID'',
        ''  os-image import --generation N --source PATH --label NAME [--architecture ARCH] [--expected-id ID]'',
        ''  storage list'',
        ''  operation list'',
        ''  operation show ID'',
        ''  operation cancel ID'',
        ''  events [--after SEQUENCE]'',
        [],
        ''All mutations require --generation. Memory accepts bytes, KiB, MiB, GiB, or TiB.'',
        [],
        ''Exit status:'',
        ''  0 success                 2 invalid command'',
        ''  3 transport failure       4 protocol failure'',
        ''  5 request rejected        6 authorization failure'',
        ''  7 service failure'',
        [],
        ''API error envelopes are written to stdout unchanged. Local errors are written to stderr.'',
        ''Default socket: '' @ DEFAULT_SOCKET]"

definition cli_usage :: "string \<Rightarrow> cli_error" where
  "cli_usage message = \<lparr>ce_code = Exit_Usage, ce_message = message @ [CHR 0x0A, CHR 0x0A] @ usage\<rparr>"

definition cli_transport :: "string \<Rightarrow> cli_error" where
  "cli_transport message = \<lparr>ce_code = Exit_Transport, ce_message = message\<rparr>"

definition cli_protocol :: "string \<Rightarrow> cli_error" where
  "cli_protocol message = \<lparr>ce_code = Exit_Protocol, ce_message = message\<rparr>"

datatype 'v cli_output = Help_Output string | Response_Output 'v bool exit_code

text \<open>A request has the fields of the client's: method, path and body.\<close>

type_synonym api_request = client_request

record cli_invocation =
  ci_socket :: string
  ci_pretty :: bool
  ci_request_id :: string
  ci_request :: api_request

section \<open>Values\<close>

definition log_safe_token :: "string \<Rightarrow> bool" where
  "log_safe_token v \<longleftrightarrow> v \<noteq> [] \<and> length v \<le> 128 \<and>
     list_all (\<lambda>c. is_ascii_alphanumeric c \<or> c \<in> {CHR ''.'', CHR ''_'', CHR ''-''}) v"

definition cli_validate_request_id :: "string \<Rightarrow> cli_error + unit" where
  "cli_validate_request_id v =
     (if log_safe_token v then Inr () else Inl (cli_usage ''request ID must be a 1-128 byte log-safe token''))"

definition cli_request_id :: "u32 \<Rightarrow> u64 \<Rightarrow> string" where
  "cli_request_id pid seq = ''kernmuxctl-'' @ show_word pid @ ''-'' @ show_word seq"

definition number_u64 :: "string \<Rightarrow> string \<Rightarrow> cli_error + u64" where
  "number_u64 v label = ok_or (cli_usage (label @ '' must be an unsigned integer'')) (parse_word v)"

definition cli_number :: "string \<Rightarrow> string \<Rightarrow> cli_error + u32" where
  "cli_number v label =
     (case parse_word v of
        Some n \<Rightarrow> if n > 0 then Inr n else Inl (cli_usage (label @ '' must be a positive integer''))
      | None \<Rightarrow> Inl (cli_usage (label @ '' must be a positive integer'')))"

definition cli_generation :: "string \<Rightarrow> cli_error + generation" where
  "cli_generation v = number_u64 v ''generation''"

text \<open>The numbers of one range, inserted one by one; the set is kept in the order of insertion until the end.\<close>

fun insert_cpus :: "nat list \<Rightarrow> u32 list \<Rightarrow> cli_error + u32 list" where
  "insert_cpus [] cpus = Inr cpus"
| "insert_cpus (cpu # rest) cpus =
     (if cpu \<ge> 2 ^ 32 then Inl (cli_usage ''CPU ID exceeds u32'')
      else if of_nat cpu \<in> set cpus then Inl (cli_usage ''CPU list contains duplicates'')
      else insert_cpus rest (cpus @ [of_nat cpu]))"

definition cpu_part :: "string \<Rightarrow> u32 list \<Rightarrow> cli_error + u32 list" where
  "cpu_part part cpus =
     (case (case split_once CHR ''-'' part of None \<Rightarrow> (part, part) | Some (lower, upper) \<Rightarrow> (lower, upper)) of (lower, upper) \<Rightarrow>
      and_then (number_u64 lower ''CPU ID'') (\<lambda>lower.
      and_then (number_u64 upper ''CPU ID'') (\<lambda>upper.
      if lower > 0xFFFFFFFF \<or> upper > 0xFFFFFFFF \<or> lower > upper \<or> upper - lower > 4096
      then Inl (cli_usage ''CPU range is invalid or too large'')
      else insert_cpus [unat lower..<Suc (unat upper)] cpus)))"

fun cpu_parts :: "string list \<Rightarrow> u32 list \<Rightarrow> cli_error + u32 list" where
  "cpu_parts [] cpus = Inr cpus"
| "cpu_parts (part # parts) cpus = and_then (cpu_part part cpus) (cpu_parts parts)"

definition cli_cpu_list :: "string \<Rightarrow> cli_error + u32 list" where
  "cli_cpu_list v =
     (if v = [] then Inl (cli_usage ''CPU list must not be empty'')
      else map_ok btree_set (cpu_parts (split_char CHR '','' v) []))"

definition string_list :: "string \<Rightarrow> cli_error + string list" where
  "string_list v =
     (if v = [] then Inl (cli_usage ''device list must not be empty'')
      else traverse_list (\<lambda>item. let item = trim item in
             if item = [] then Inl (cli_usage ''device list contains an empty item'') else Inr item)
             (split_char CHR '','' v))"

definition size_suffixes :: "(string \<times> u64) list" where
  "size_suffixes = [(''KiB'', 1024), (''MiB'', 1024 ^ 2), (''GiB'', 1024 ^ 3), (''TiB'', 1024 ^ 4)]"

fun size_digits :: "string \<Rightarrow> (string \<times> u64) list \<Rightarrow> string \<times> u64" where
  "size_digits v [] = (v, 1)"
| "size_digits v ((suffix, multiplier) # rest) =
     (case strip_suffix suffix v of Some digits \<Rightarrow> (digits, multiplier) | None \<Rightarrow> size_digits v rest)"

definition byte_size :: "string \<Rightarrow> cli_error + u64" where
  "byte_size v =
     (case size_digits v size_suffixes of (digits, multiplier) \<Rightarrow>
      and_then (number_u64 digits ''memory size'') (\<lambda>n.
      and_then (ok_or (cli_usage ''memory size overflows u64'') (checked_mul n multiplier)) (\<lambda>bytes.
      if bytes = 0 then Inl (cli_usage ''memory size must be greater than zero'') else Inr bytes)))"

definition cli_image_kind :: "string \<Rightarrow> cli_error + image_kind \<times> string" where
  "cli_image_kind v =
     (if v = ''kernel'' then Inr (Kernel_Image, ''kernel'')
      else if v = ''initrd'' then Inr (Initrd_Image, ''initrd'')
      else Inl (cli_usage ''image kind must be kernel or initrd''))"

definition cli_artifact_id :: "string \<Rightarrow> cli_error + string" where
  "cli_artifact_id v =
     (if is_some_and (\<lambda>digest. length digest = 64 \<and> list_all (\<lambda>c. is_ascii_digit c \<or> 97 \<le> byte c \<and> byte c \<le> 102) digest)
           (strip_prefix ''sha256:'' v)
      then Inr v else Inl (cli_usage ''image ID must be canonical sha256:<64 lowercase hex digits>''))"

definition only_token :: "string list \<Rightarrow> string \<Rightarrow> cli_error + string" where
  "only_token args label =
     (case args of
        [v] \<Rightarrow> if log_safe_token v then Inr v else Inl (cli_usage (''exactly one valid '' @ label @ '' is required''))
      | _ \<Rightarrow> Inl (cli_usage (''exactly one valid '' @ label @ '' is required'')))"

definition only_id :: "string list \<Rightarrow> cli_error + u32" where
  "only_id args = and_then (only_token args ''instance ID'') (\<lambda>v. cli_number v ''instance ID'')"

section \<open>Options\<close>

record cli_options =
  op_positionals :: "string list"
  op_values :: "(string \<times> string) list"
  op_flags :: "string list"

definition missing_value :: "string \<Rightarrow> cli_error" where
  "missing_value name = cli_usage (''--'' @ name @ '' requires a value'')"

definition repeated_option :: "string \<Rightarrow> cli_error" where
  "repeated_option name = cli_usage (''--'' @ name @ '' was specified more than once'')"

fun options_from :: "string list \<Rightarrow> string list \<Rightarrow> string list \<Rightarrow> cli_options \<Rightarrow> cli_error + cli_options" where
  "options_from value_names flag_names [] opts = Inr opts"
| "options_from value_names flag_names (argument # rest) opts =
     (case strip_prefix ''--'' argument of
        None \<Rightarrow> options_from value_names flag_names rest (opts\<lparr>op_positionals := op_positionals opts @ [argument]\<rparr>)
      | Some name \<Rightarrow>
          if name \<in> set value_names then
            (case rest of
               [] \<Rightarrow> Inl (missing_value name)
             | v # rest \<Rightarrow>
                 if v = [] then Inl (missing_value name)
                 else if map_of (op_values opts) name \<noteq> None then Inl (repeated_option name)
                 else options_from value_names flag_names rest (opts\<lparr>op_values := (name, v) # op_values opts\<rparr>))
          else if name \<in> set flag_names then
            (if name \<in> set (op_flags opts) then Inl (repeated_option name)
             else options_from value_names flag_names rest (opts\<lparr>op_flags := name # op_flags opts\<rparr>))
          else Inl (cli_usage (''unknown option --'' @ name)))"

definition options_parse :: "string list \<Rightarrow> string list \<Rightarrow> string list \<Rightarrow> cli_error + cli_options" where
  "options_parse args value_names flag_names =
     options_from value_names flag_names args \<lparr>op_positionals = [], op_values = [], op_flags = []\<rparr>"

definition op_value :: "cli_options \<Rightarrow> string \<Rightarrow> string option" where
  "op_value opts name = map_of (op_values opts) name"

definition op_required :: "cli_options \<Rightarrow> string \<Rightarrow> cli_error + string" where
  "op_required opts name = ok_or (cli_usage (''--'' @ name @ '' is required'')) (op_value opts name)"

definition op_flag :: "cli_options \<Rightarrow> string \<Rightarrow> bool" where
  "op_flag opts name \<longleftrightarrow> name \<in> set (op_flags opts)"

definition no_positionals :: "cli_options \<Rightarrow> cli_error + unit" where
  "no_positionals opts =
     (if op_positionals opts = [] then Inr () else Inl (cli_usage ''unexpected positional argument''))"

definition one_positional :: "cli_options \<Rightarrow> string \<Rightarrow> cli_error + string" where
  "one_positional opts label =
     (case op_positionals opts of
        [v] \<Rightarrow> Inr v
      | _ \<Rightarrow> Inl (cli_usage (''exactly one '' @ label @ '' is required'')))"

section \<open>Commands\<close>

definition cli_json_request :: "string \<Rightarrow> string \<Rightarrow> u8 list option \<Rightarrow> cli_error + api_request" where
  "cli_json_request method path body =
     map_ok (\<lambda>body. \<lparr>cq_method = method, cq_path = path, cq_body = body\<rparr>)
       (ok_or (cli_protocol ''request serialization failed'') body)"

definition parse_host :: "string list \<Rightarrow> cli_error + api_request" where
  "parse_host args =
     (if args = [''show''] then Inr (request_get ''/1.0'')
      else if args = [''preflight''] then Inr (request_get ''/1.0/compatibility'')
      else Inl (cli_usage ''host action must be show or preflight''))"

definition parse_storage :: "string list \<Rightarrow> cli_error + api_request" where
  "parse_storage args =
     (if args = [''list''] then Inr (request_get ''/1.0/storage-devices'') else Inl (cli_usage ''storage list is required''))"

definition parse_pool :: "mutation_codec \<Rightarrow> string list \<Rightarrow> cli_error + api_request" where
  "parse_pool codec args =
     (case args of
        [] \<Rightarrow> Inl (cli_usage ''pool action is required'')
      | action # tail \<Rightarrow>
          if action = ''show'' \<and> tail = [] then Inr (request_get ''/1.0/resource-pool'')
          else if action = ''set'' then
            and_then (options_parse tail [''generation'', ''cpus'', ''memory''] []) (\<lambda>options.
            and_then (no_positionals options) (\<lambda>_.
            and_then (and_then (op_required options ''generation'') cli_generation) (\<lambda>g.
            and_then (and_then (op_required options ''cpus'') cli_cpu_list) (\<lambda>cpus.
            and_then (and_then (op_required options ''memory'') byte_size) (\<lambda>memory.
            cli_json_request ''PUT'' ''/1.0/resource-pool'' (mc_resource_pool codec
              \<lparr>rpm_expected_generation = g, rpm_cpu_hardware_ids = cpus, rpm_memory_bytes = memory\<rparr>))))))
          else if action = ''release'' then
            and_then (options_parse tail [''generation''] []) (\<lambda>options.
            and_then (no_positionals options) (\<lambda>_.
            and_then (and_then (op_required options ''generation'') cli_generation) (\<lambda>g.
            cli_json_request ''PUT'' ''/1.0/resource-pool'' (mc_resource_pool codec
              \<lparr>rpm_expected_generation = g, rpm_cpu_hardware_ids = [], rpm_memory_bytes = 0\<rparr>))))
          else Inl (cli_usage ''unknown pool action''))"

definition parse_instance_load :: "mutation_codec \<Rightarrow> string \<Rightarrow> string list \<Rightarrow> cli_error + api_request" where
  "parse_instance_load codec action args =
     and_then (options_parse args [''generation'', ''kernel'', ''initrd'', ''cmdline''] []) (\<lambda>options.
     and_then (and_then (one_positional options ''instance ID'') (\<lambda>v. cli_number v ''instance ID'')) (\<lambda>i.
     and_then (and_then (op_required options ''generation'') cli_generation) (\<lambda>g.
     if action = ''load'' then
       and_then (op_required options ''kernel'') (\<lambda>kernel_path.
       cli_json_request ''POST'' (instance_request_path i ''/load'') (mc_load codec
         \<lparr>lim_expected_generation = g, lim_kernel_path = kernel_path, lim_initrd_path = op_value options ''initrd'',
          lim_command_line = op_value options ''cmdline''\<rparr>))
     else
       and_then (and_then (op_required options ''kernel'') cli_artifact_id) (\<lambda>kernel_id.
       and_then (traverse_option cli_artifact_id (op_value options ''initrd'')) (\<lambda>initrd_id.
       cli_json_request ''POST'' (instance_request_path i ''/load-image'') (mc_load_image codec
         \<lparr>lmm_expected_generation = g, lmm_kernel_id = kernel_id, lmm_initrd_id = initrd_id,
          lmm_command_line = op_value options ''cmdline''\<rparr>))))))"

definition parse_instance_create :: "mutation_codec \<Rightarrow> string list \<Rightarrow> cli_error + api_request" where
  "parse_instance_create codec tail =
     and_then (options_parse tail [''generation'', ''id'', ''name'', ''cpus'', ''memory''] []) (\<lambda>options.
     and_then (no_positionals options) (\<lambda>_.
     and_then (and_then (op_required options ''generation'') cli_generation) (\<lambda>g.
     and_then (and_then (op_required options ''id'') (\<lambda>v. cli_number v ''instance ID'')) (\<lambda>i.
     and_then (op_required options ''name'') (\<lambda>name.
     and_then (and_then (op_required options ''cpus'') cli_cpu_list) (\<lambda>cpus.
     and_then (and_then (op_required options ''memory'') byte_size) (\<lambda>memory.
     cli_json_request ''POST'' ''/1.0/instances'' (mc_create codec
       \<lparr>cim_expected_generation = g, cim_id = i, cim_name = name, cim_cpu_hardware_ids = cpus, cim_memory_bytes = memory\<rparr>))))))))"

definition parse_instance_update :: "mutation_codec \<Rightarrow> string list \<Rightarrow> cli_error + api_request" where
  "parse_instance_update codec tail =
     and_then (options_parse tail [''generation'', ''cpus'', ''memory'', ''devices''] [''dry-run'']) (\<lambda>options.
     and_then (one_positional options ''instance ID'') (\<lambda>v.
     and_then (traverse_option cli_cpu_list (op_value options ''cpus'')) (\<lambda>cpus.
     and_then (traverse_option byte_size (op_value options ''memory'')) (\<lambda>memory.
     and_then (traverse_option string_list (op_value options ''devices'')) (\<lambda>devices.
     if cpus = None \<and> memory = None \<and> devices = None
     then Inl (cli_usage ''instance update requires --cpus, --memory, or --devices'')
     else
       and_then (cli_number v ''instance ID'') (\<lambda>i.
       and_then (and_then (op_required options ''generation'') cli_generation) (\<lambda>g.
       cli_json_request ''PATCH'' (instance_request_path i []) (mc_update codec
         \<lparr>uim_expected_generation = g, uim_cpu_hardware_ids = cpus, uim_memory_bytes = memory, uim_device_ids = devices,
          uim_dry_run = op_flag options ''dry-run''\<rparr>))))))))"

definition parse_instance_lifecycle :: "mutation_codec \<Rightarrow> string \<Rightarrow> string list \<Rightarrow> cli_error + api_request" where
  "parse_instance_lifecycle codec action tail =
     and_then (options_parse tail [''generation''] []) (\<lambda>options.
     and_then (and_then (one_positional options ''instance ID'') (\<lambda>v. cli_number v ''instance ID'')) (\<lambda>i.
     and_then (and_then (op_required options ''generation'') cli_generation) (\<lambda>g.
     case (if action = ''start'' then (''POST'', ''/start'') else if action = ''unload'' then (''POST'', ''/unload'') else (''DELETE'', [])) of
       (method, suffix) \<Rightarrow>
     cli_json_request method (instance_request_path i suffix) (mc_lifecycle codec \<lparr>ilm_expected_generation = g\<rparr>))))"

definition parse_instance_stop :: "mutation_codec \<Rightarrow> string list \<Rightarrow> cli_error + api_request" where
  "parse_instance_stop codec tail =
     and_then (options_parse tail [''generation''] [''force'']) (\<lambda>options.
     and_then (and_then (one_positional options ''instance ID'') (\<lambda>v. cli_number v ''instance ID'')) (\<lambda>i.
     and_then (and_then (op_required options ''generation'') cli_generation) (\<lambda>g.
     cli_json_request ''POST'' (instance_request_path i ''/stop'') (mc_stop codec
       \<lparr>sim_expected_generation = g, sim_force = op_flag options ''force''\<rparr>))))"

definition parse_instance :: "mutation_codec \<Rightarrow> string list \<Rightarrow> cli_error + api_request" where
  "parse_instance codec args =
     (case args of
        [] \<Rightarrow> Inl (cli_usage ''instance action is required'')
      | action # tail \<Rightarrow>
          if action = ''list'' \<and> tail = [] then Inr (request_get ''/1.0/instances'')
          else if action = ''show'' then map_ok (\<lambda>i. request_get (''/1.0/instances/'' @ show_word i)) (only_id tail)
          else if action = ''create'' then parse_instance_create codec tail
          else if action = ''update'' then parse_instance_update codec tail
          else if action = ''load'' \<or> action = ''load-image'' then parse_instance_load codec action tail
          else if action = ''start'' \<or> action = ''unload'' \<or> action = ''delete'' then parse_instance_lifecycle codec action tail
          else if action = ''stop'' then parse_instance_stop codec tail
          else Inl (cli_usage ''unknown instance action''))"

definition parse_image :: "mutation_codec \<Rightarrow> string list \<Rightarrow> cli_error + api_request" where
  "parse_image codec args =
     (case args of
        [] \<Rightarrow> Inl (cli_usage ''image action is required'')
      | action # tail \<Rightarrow>
          if action = ''list'' \<and> tail = [] then Inr (request_get ''/1.0/images'')
          else if action = ''show'' then
            (case tail of
               [kind, i] \<Rightarrow>
                 and_then (cli_image_kind kind) (\<lambda>(_, kind_path).
                 and_then (cli_artifact_id i) (\<lambda>i. Inr (request_get (''/1.0/images/'' @ kind_path @ ''/'' @ i))))
             | _ \<Rightarrow> Inl (cli_usage ''image show requires KIND and ID''))
          else if action = ''import'' then
            and_then (options_parse tail [''generation'', ''kind'', ''source'', ''expected-id''] []) (\<lambda>options.
            and_then (no_positionals options) (\<lambda>_.
            and_then (and_then (op_required options ''kind'') cli_image_kind) (\<lambda>(kind, _).
            and_then (traverse_option cli_artifact_id (op_value options ''expected-id'')) (\<lambda>expected_id.
            and_then (and_then (op_required options ''generation'') cli_generation) (\<lambda>g.
            and_then (op_required options ''source'') (\<lambda>source_path.
            cli_json_request ''POST'' ''/1.0/images'' (mc_image codec
              \<lparr>iim_expected_generation = g, iim_kind = kind, iim_source_path = source_path, iim_expected_id = expected_id\<rparr>)))))))
          else Inl (cli_usage ''unknown image action''))"

definition parse_os_image :: "mutation_codec \<Rightarrow> string list \<Rightarrow> cli_error + api_request" where
  "parse_os_image codec args =
     (case args of
        [] \<Rightarrow> Inl (cli_usage ''os-image action is required'')
      | action # tail \<Rightarrow>
          if action = ''list'' \<and> tail = [] then Inr (request_get ''/1.0/os-images'')
          else if action = ''show'' then
            (case tail of
               [i] \<Rightarrow> map_ok (\<lambda>i. request_get (''/1.0/os-images/'' @ i)) (cli_artifact_id i)
             | _ \<Rightarrow> Inl (cli_usage ''exactly one OS image ID is required''))
          else if action = ''import'' then
            and_then (options_parse tail [''generation'', ''source'', ''label'', ''architecture'', ''expected-id''] []) (\<lambda>options.
            and_then (no_positionals options) (\<lambda>_.
            and_then (and_then (op_required options ''generation'') cli_generation) (\<lambda>g.
            and_then (op_required options ''source'') (\<lambda>source_path.
            and_then (op_required options ''label'') (\<lambda>label.
            and_then (traverse_option cli_artifact_id (op_value options ''expected-id'')) (\<lambda>expected_id.
            cli_json_request ''POST'' ''/1.0/os-images'' (mc_os_image codec
              \<lparr>iom_expected_generation = g, iom_source_path = source_path, iom_label = label,
               iom_architecture = op_value options ''architecture'', iom_expected_id = expected_id\<rparr>)))))))
          else Inl (cli_usage ''unknown os-image action''))"

definition parse_operation :: "string list \<Rightarrow> cli_error + api_request" where
  "parse_operation args =
     (case args of
        [] \<Rightarrow> Inl (cli_usage ''operation action is required'')
      | action # tail \<Rightarrow>
          if action = ''list'' \<and> tail = [] then Inr (request_get ''/1.0/operations'')
          else if action = ''show'' then map_ok (\<lambda>i. request_get (''/1.0/operations/'' @ i)) (only_token tail ''operation ID'')
          else if action = ''cancel'' then
            map_ok (\<lambda>i. \<lparr>cq_method = ''DELETE'', cq_path = ''/1.0/operations/'' @ i, cq_body = []\<rparr>) (only_token tail ''operation ID'')
          else Inl (cli_usage ''unknown operation action''))"

definition parse_events :: "string list \<Rightarrow> cli_error + api_request" where
  "parse_events args =
     and_then (options_parse args [''after''] []) (\<lambda>options.
     and_then (no_positionals options) (\<lambda>_.
     and_then (case op_value options ''after'' of None \<Rightarrow> Inr 0 | Some v \<Rightarrow> number_u64 v ''event cursor'') (\<lambda>after.
     Inr (request_get (''/1.0/events?after='' @ show_word after)))))"

definition parse_command :: "mutation_codec \<Rightarrow> string list \<Rightarrow> cli_error + api_request" where
  "parse_command codec args =
     (case args of
        [] \<Rightarrow> Inl (cli_usage ''a command is required'')
      | resource # tail \<Rightarrow>
          if resource = ''host'' then parse_host tail
          else if resource = ''pool'' then parse_pool codec tail
          else if resource = ''instance'' then parse_instance codec tail
          else if resource = ''image'' then parse_image codec tail
          else if resource = ''os-image'' then parse_os_image codec tail
          else if resource = ''storage'' then parse_storage tail
          else if resource = ''operation'' then parse_operation tail
          else if resource = ''events'' then parse_events tail
          else Inl (cli_usage (''unknown resource '' @ resource)))"

section \<open>An invocation\<close>

text \<open>The global options before a local diagnosis; \<open>None\<close> when another option is met.\<close>

fun local_options :: "string list \<Rightarrow> string \<times> bool \<Rightarrow> cli_error + (string \<times> bool \<times> string list) option" where
  "local_options [] (socket, pretty) = Inr (Some (socket, pretty, []))"
| "local_options (argument # rest) (socket, pretty) =
     (if argument = ''--socket'' then
        (case rest of
           [] \<Rightarrow> Inl (cli_usage ''--socket requires a path'')
         | v # rest \<Rightarrow> if v = [] then Inl (cli_usage ''--socket requires a path'') else local_options rest (v, pretty))
      else if argument = ''--pretty'' then local_options rest (socket, True)
      else if argument = ''--request-id'' then
        (case rest of
           [] \<Rightarrow> Inl (cli_usage ''--request-id requires a value'')
         | v # rest \<Rightarrow> and_then (cli_validate_request_id v) (\<lambda>_. local_options rest (socket, pretty)))
      else if starts_with argument ''-'' then Inr None
      else Inr (Some (socket, pretty, argument # rest)))"

definition parse_local_diagnostic :: "string list \<Rightarrow> cli_error + (string \<times> bool) option" where
  "parse_local_diagnostic args =
     map_ok (\<lambda>r. case r of
         Some (socket, pretty, rest) \<Rightarrow> if rest = [''host'', ''diagnose''] then Some (socket, pretty) else None
       | None \<Rightarrow> None)
       (local_options args (DEFAULT_SOCKET, False))"

fun global_options :: "string list \<Rightarrow> string \<times> bool \<times> string option \<Rightarrow> cli_error + (string \<times> bool \<times> string option) \<times> string list" where
  "global_options [] st = Inr (st, [])"
| "global_options (argument # rest) (socket, pretty, rid) =
     (if argument = ''--socket'' then
        (case rest of
           [] \<Rightarrow> Inl (cli_usage ''--socket requires a path'')
         | v # rest \<Rightarrow> if v = [] then Inl (cli_usage ''--socket requires a path'') else global_options rest (v, pretty, rid))
      else if argument = ''--pretty'' then global_options rest (socket, True, rid)
      else if argument = ''--request-id'' then
        (case rest of
           [] \<Rightarrow> Inl (cli_usage ''--request-id requires a value'')
         | v # rest \<Rightarrow> and_then (cli_validate_request_id v) (\<lambda>_. global_options rest (socket, pretty, Some v)))
      else if starts_with argument ''-'' then Inl (cli_usage (''unknown global option '' @ argument))
      else Inr ((socket, pretty, rid), argument # rest))"

definition parse_invocation :: "mutation_codec \<Rightarrow> string \<Rightarrow> string list \<Rightarrow> cli_error + cli_invocation" where
  "parse_invocation codec generated args =
     and_then (global_options args (DEFAULT_SOCKET, False, None)) (\<lambda>((socket, pretty, rid), rest).
     and_then (parse_command codec rest) (\<lambda>request.
     Inr \<lparr>ci_socket = socket, ci_pretty = pretty, ci_request_id = (case rid of None \<Rightarrow> generated | Some v \<Rightarrow> v), ci_request = request\<rparr>))"

text \<open>
  The environment of an invocation: the transport, the local diagnosis (whether the host is compatible, and the
  report as a value), the accessors of JSON values, the text of a value (\<open>None\<close> when it cannot be encoded), and the two
  output streams: \<open>None\<close> when a text is written, or how many characters were when the write failed.
\<close>

record 'v cli_env =
  cv_codec :: mutation_codec
  cv_process_id :: u32
  cv_sequence :: u64
  cv_send :: "string \<Rightarrow> string \<Rightarrow> client_request \<Rightarrow> client_error + 'v raw_response"
  cv_diagnose :: "string \<Rightarrow> bool \<times> 'v option"
  cv_kind :: "'v \<Rightarrow> string option"
  cv_error_code :: "'v \<Rightarrow> string option"
  cv_compatible :: "'v \<Rightarrow> bool option"
  cv_write :: "bool \<Rightarrow> 'v \<Rightarrow> string option"
  cv_stdout :: "string \<Rightarrow> nat option"
  cv_stderr :: "string \<Rightarrow> nat option"

definition send_request :: "'v cli_env \<Rightarrow> string \<Rightarrow> string \<Rightarrow> api_request \<Rightarrow> cli_error + 'v raw_response" where
  "send_request env socket rid request =
     map_err (\<lambda>e. if cle_kind e = Kind_Transport then cli_transport (cle_message e) else cli_protocol (cle_message e))
       (cv_send env socket rid request)"

definition error_exit_code :: "string option \<Rightarrow> cli_error + exit_code" where
  "error_exit_code code =
     (case code of
        Some c \<Rightarrow>
          if c \<in> {''unauthorized'', ''forbidden''} then Inr Exit_Authorization
          else if c \<in> {''invalid_request'', ''not_found'', ''conflict'', ''precondition_failed'', ''unsupported''} then Inr Exit_RequestRejected
          else if c \<in> {''backend_unavailable'', ''timeout'', ''internal'', ''unknown''} then Inr Exit_Service
          else Inl (cli_protocol ''response error code is invalid'')
      | None \<Rightarrow> Inl (cli_protocol ''response error code is invalid''))"

definition response_exit_code :: "'v cli_env \<Rightarrow> u16 \<Rightarrow> 'v \<Rightarrow> cli_error + exit_code" where
  "response_exit_code env status v =
     and_then (ok_or (cli_protocol ''response envelope has no valid kind'') (cv_kind env v)) (\<lambda>kind.
     if kind \<in> {''result'', ''accepted''} \<and> 200 \<le> status \<and> status < 300 then Inr Exit_Success
     else if kind = ''error'' \<and> status \<ge> 400 then error_exit_code (cv_error_code env v)
     else Inl (cli_protocol ''HTTP status and response envelope disagree''))"

definition version_text :: string where
  "version_text = ''kernmuxctl 0.1.0 (API v1)''"

definition cli_execute :: "'v cli_env \<Rightarrow> string list \<Rightarrow> cli_error + 'v cli_output" where
  "cli_execute env arguments =
     and_then (traverse_list (\<lambda>a. ok_or (cli_usage ''arguments must be valid Unicode'') (to_str a)) arguments) (\<lambda>args.
     case args of
       [] \<Rightarrow> Inr (Help_Output usage)
     | _ # program_args \<Rightarrow>
         if program_args = [] \<or> program_args = [''--help''] \<or> program_args = [''-h''] then Inr (Help_Output usage)
         else if program_args = [''--version''] \<or> program_args = [''-V''] then Inr (Help_Output version_text)
         else
           and_then (parse_local_diagnostic program_args) (\<lambda>local_run.
           case local_run of
             Some (socket, pretty) \<Rightarrow>
               (case cv_diagnose env socket of (compatible, report) \<Rightarrow>
                and_then (ok_or (cli_protocol ''diagnostic serialization failed'') report) (\<lambda>v.
                Inr (Response_Output v pretty (if compatible then Exit_Success else Exit_RequestRejected))))
           | None \<Rightarrow>
               and_then (parse_invocation (cv_codec env) (cli_request_id (cv_process_id env) (cv_sequence env)) program_args) (\<lambda>i.
               and_then (send_request env (ci_socket i) (ci_request_id i) (ci_request i)) (\<lambda>response.
               and_then (response_exit_code env (rw_status response) (rw_value response)) (\<lambda>code.
               Inr (Response_Output (rw_value response) (ci_pretty i)
                 (if cq_path (ci_request i) = ''/1.0/compatibility'' \<and> cv_compatible env (rw_value response) = Some False
                  then Exit_RequestRejected else code)))))))"

text \<open>\<open>writeln!\<close>: what reaches the stream, and whether the write succeeded.\<close>

definition write_line :: "(string \<Rightarrow> nat option) \<Rightarrow> string \<Rightarrow> string \<times> bool" where
  "write_line stream s =
     (let line = s @ [CHR 0x0A] in
      case stream line of None \<Rightarrow> (line, True) | Some n \<Rightarrow> (take n line, False))"

text \<open>The exit code with what reaches the standard output and the standard error.  The results of writing the help text and the
  messages are discarded.\<close>

definition cli_run :: "'v cli_env \<Rightarrow> string list \<Rightarrow> exit_code \<times> string \<times> string" where
  "cli_run env arguments =
     (case cli_execute env arguments of
        Inr (Help_Output s) \<Rightarrow> (Exit_Success, fst (write_line (cv_stdout env) s), [])
      | Inr (Response_Output v pretty code) \<Rightarrow>
          (case map_option (write_line (cv_stdout env)) (cv_write env pretty v) of
             Some (out, True) \<Rightarrow> (code, out, [])
           | Some (out, False) \<Rightarrow> (Exit_Protocol, out, fst (write_line (cv_stderr env) ''failed to write command output''))
           | None \<Rightarrow> (Exit_Protocol, [], fst (write_line (cv_stderr env) ''failed to write command output'')))
      | Inl e \<Rightarrow> (ce_code e, [], fst (write_line (cv_stderr env) (ce_message e))))"

section \<open>Values that are read back\<close>

lemma insert_cpus_exact:
  assumes "\<forall>c \<in> set cs. c < 2 ^ 32" and "distinct cs" and "of_nat ` set cs \<inter> set cpus = {}"
  shows "insert_cpus cs cpus = Inr (cpus @ map of_nat cs)"
  using assms
proof (induction cs arbitrary: cpus)
  case (Cons c cs)
  have inj: "(of_nat c :: u32) \<noteq> of_nat d" if "d \<in> set cs" for d
  proof -
    have "c < 2 ^ 32" "d < 2 ^ 32" "c \<noteq> d" using Cons.prems that by auto
    then have "unat (of_nat c :: u32) \<noteq> unat (of_nat d :: u32)" by (simp add: unat_of_nat)
    then show ?thesis by metis
  qed
  have "of_nat ` set cs \<inter> set (cpus @ [of_nat c]) = {}" using Cons.prems(3) inj by fastforce
  then show ?case using Cons.prems Cons.IH [of "cpus @ [of_nat c]"] by auto
qed simp

lemma split_show_range:
  "(case split_once CHR ''-'' (show_range (a, b)) of None \<Rightarrow> (show_range (a, b), show_range (a, b)) | Some (l, u) \<Rightarrow> (l, u)) =
     (show_word a, show_word b)"
proof (cases "a = b")
  case True
  then have "split_once CHR ''-'' (show_range (a, b)) = None"
    using show_word_no_dash [of a] by (cases "split_once CHR ''-'' (show_range (a, b))") (auto simp: split_once_eq_Some)
  then show ?thesis using True by simp
next
  case False
  then have "split_once CHR ''-'' (show_range (a, b)) = Some (show_word a, show_word b)"
    by (simp add: split_once_eq_Some show_word_no_dash)
  then show ?thesis by simp
qed

lemma unat_widen: "unat (ucast w :: u64) = unat w" for w :: u32
proof -
  have "unat w < 2 ^ 64" using unsigned_less [of w, where 'a = nat] by simp
  then show ?thesis by (simp add: unsigned_ucast_eq take_bit_nat_eq_self_iff)
qed

lemma number_u64_show: "number_u64 (show_word w) label = Inr (ucast w)" for w :: u32
proof -
  have "show_word w = show_word (ucast w :: u64)" by (simp add: show_word_def unat_widen)
  then show ?thesis by (simp add: number_u64_def parse_word_show_word)
qed

lemma cpu_part_range:
  assumes "a \<le> b" and "unat b - unat a \<le> 4096" and "{a..b} \<inter> set cpus = {}"
  shows "cpu_part (show_range (a, b)) cpus = Inr (cpus @ inclusive_range a b)"
proof -
  have wide: "unat (ucast a :: u64) = unat a" "unat (ucast b :: u64) = unat b" by (simp_all add: unat_widen)
  have bound: "unat a < 2 ^ 32" "unat b < 2 ^ 32" using unsigned_less [of a, where 'a = nat] unsigned_less [of b, where 'a = nat] by simp_all
  have le: "(ucast a :: u64) \<le> ucast b" using assms(1) by (simp add: word_le_nat_alt wide)
  have "\<not> (ucast b :: u64) - ucast a > 4096"
    using assms(2) le by (simp add: word_less_nat_alt unat_sub wide not_less)
  moreover have "\<not> (ucast a :: u64) > 0xFFFFFFFF" "\<not> (ucast b :: u64) > 0xFFFFFFFF" using bound by (simp_all add: word_less_nat_alt wide not_less)
  ultimately have "cpu_part (show_range (a, b)) cpus = insert_cpus [unat a..<Suc (unat b)] cpus"
    using le unfolding cpu_part_def split_show_range prod.case number_u64_show and_then.simps wide by (simp add: not_less del: upt_Suc)
  also have "\<dots> = Inr (cpus @ map of_nat [unat a..<Suc (unat b)])"
  proof (rule insert_cpus_exact)
    have "of_nat ` set [unat a..<Suc (unat b)] = {a..b}"
      using set_inclusive_range [of a b] unfolding inclusive_range_def set_map .
    then show "of_nat ` set [unat a..<Suc (unat b)] \<inter> set cpus = {}" using assms(3) by simp
  qed (use bound in auto)
  finally show ?thesis by (simp add: inclusive_range_def del: upt_Suc)
qed

definition range_set :: "(u32 \<times> u32) list \<Rightarrow> u32 set" where
  "range_set rs = (\<Union>(a, b) \<in> set rs. {a..b})"

fun disjoint_ranges :: "(u32 \<times> u32) list \<Rightarrow> bool" where
  "disjoint_ranges [] \<longleftrightarrow> True"
| "disjoint_ranges ((a, b) # rs) \<longleftrightarrow> a \<le> b \<and> unat b - unat a \<le> 4096 \<and> {a..b} \<inter> range_set rs = {} \<and> disjoint_ranges rs"

lemma cpu_parts_ranges:
  assumes "disjoint_ranges rs" and "range_set rs \<inter> set cpus = {}"
  shows "\<exists>more. cpu_parts (map show_range rs) cpus = Inr (cpus @ more) \<and> set more = range_set rs"
  using assms
proof (induction rs arbitrary: cpus)
  case (Cons r rs)
  obtain a b where r: "r = (a, b)" by fastforce
  have range: "cpu_part (show_range r) cpus = Inr (cpus @ inclusive_range a b)"
    using Cons.prems unfolding r by (intro cpu_part_range) (auto simp: range_set_def)
  have "range_set rs \<inter> set (cpus @ inclusive_range a b) = {}"
    using Cons.prems by (auto simp: r range_set_def set_inclusive_range)
  then obtain more where "cpu_parts (map show_range rs) (cpus @ inclusive_range a b) = Inr ((cpus @ inclusive_range a b) @ more)"
    "set more = range_set rs" using Cons.IH [of "cpus @ inclusive_range a b"] Cons.prems(1) by (auto simp: r)
  then show ?case using range
    by (intro exI [of _ "inclusive_range a b @ more"]) (simp add: r range_set_def set_inclusive_range del: show_range.simps)
qed (simp add: range_set_def)

text \<open>C40: The CPU lists of the command line have the syntax and the meaning of the kernel's. A comma-separated list of
  single numbers and ranges that do not overlap, none wider than 4097, is accepted and gives the same sorted CPUs as the reader
  of the kernel's own lists.\<close>

theorem cli_cpu_list_agrees:
  assumes "disjoint_ranges rs" and "rs \<noteq> []"
  shows "\<exists>cpus. cli_cpu_list (join '','' (map show_range rs)) = Inr cpus \<and> parse_cpu_list (join '','' (map show_range rs)) = Inr cpus \<and>
    sorted cpus \<and> distinct cpus \<and> set cpus = range_set rs"
proof -
  let ?text = "join '','' (map show_range rs)"
  have split: "split_char CHR '','' ?text = map show_range rs"
    using assms(2) by (intro split_char_join) (auto simp: show_range_text simp del: show_range.simps)
  obtain more where parts: "cpu_parts (map show_range rs) [] = Inr more" and more: "set more = range_set rs"
    using cpu_parts_ranges [OF assms(1), of "[]"] by auto
  have "?text \<noteq> []"
  proof
    assume "?text = []"
    then have "map show_range rs = [[]]" using split by simp
    then show False using show_range_text(1) by (auto simp del: show_range.simps)
  qed
  then have cli: "cli_cpu_list ?text = Inr (btree_set more)" by (simp add: cli_cpu_list_def split parts)
  have "\<forall>(a, b) \<in> set rs. a \<le> b" using assms(1) by (induction rs rule: disjoint_ranges.induct) auto
  then obtain cpus where cpus: "parse_cpu_list ?text = Inr cpus" "sorted cpus" "distinct cpus" "set cpus = range_set rs"
    using cpu_ranges_round_trip [of rs] unfolding range_set_def by blast
  then have "btree_set more = cpus"
    using more by (intro sorted_distinct_set_unique) simp_all
  then show ?thesis using cli cpus by blast
qed

lemma size_digits_split:
  assumes "size_digits v table = (digits, multiplier)"
  shows "\<exists>suffix. v = digits @ suffix \<and> (suffix, multiplier) \<in> set (table @ [([], 1)])"
  using assms
proof (induction v table rule: size_digits.induct)
  case (2 v suffix unit rest)
  show ?case
  proof (cases "strip_suffix suffix v")
    case None
    with 2(2) have "size_digits v rest = (digits, multiplier)" by simp
    from 2(1) [OF None this] show ?thesis by auto
  next
    case (Some stem)
    with 2(2) have "stem = digits" "unit = multiplier" by simp_all
    moreover have "v = stem @ suffix" using Some by (simp only: strip_suffix_eq_Some)
    ultimately show ?thesis by (intro exI [of _ suffix]) simp
  qed
qed simp

text \<open>A memory size is read without wrapping around. An accepted size is a number with at most one of the binary
  suffixes, and the bytes are exactly the product of the number and the unit, more than zero.\<close>

theorem byte_size_exact:
  assumes "byte_size v = Inr bytes"
  shows "\<exists>digits suffix multiplier (n :: u64). v = digits @ suffix \<and> (suffix, multiplier) \<in> set (size_suffixes @ [([], 1)]) \<and>
    parse_word digits = Some n \<and> unat bytes = unat n * unat multiplier \<and> 0 < unat bytes"
proof -
  obtain digits multiplier where parts: "size_digits v size_suffixes = (digits, multiplier)" by fastforce
  obtain suffix where "v = digits @ suffix" "(suffix, multiplier) \<in> set (size_suffixes @ [([], 1)])"
    using size_digits_split [OF parts] by blast
  moreover obtain n where "parse_word digits = Some n" "checked_mul n multiplier = Some bytes" "bytes \<noteq> 0"
    using assms unfolding byte_size_def parts prod.case number_u64_def by (auto simp: result_iff split: if_splits)
  ultimately show ?thesis using unat_checked_mul [of n multiplier bytes] unat_eq_0 [of bytes] by blast
qed

section \<open>Commands are requests of the client\<close>

text \<open>What the command line can ask: the requests of the client library, and one stored image.\<close>

definition typed_request :: "mutation_codec \<Rightarrow> api_request \<Rightarrow> bool" where
  "typed_request codec req \<longleftrightarrow>
     (\<exists>query. wellformed_read query \<and> req = read_request query) \<or>
     (\<exists>mut. wellformed_mutation mut \<and> mutation_request codec mut = Inr req) \<or>
     (\<exists>kind i. kind \<in> {''kernel'', ''initrd''} \<and> parse_artifact_id i = Inr i \<and> req = request_get (''/1.0/images/'' @ kind @ ''/'' @ i))"

lemma cli_json_request_agrees:
  "cli_json_request verb path body = Inr req \<longleftrightarrow> request_json verb path body = Inr req"
  by (auto simp: cli_json_request_def request_json_def result_iff)

lemma typed_read: "wellformed_read query \<Longrightarrow> typed_request codec (read_request query)"
  by (auto simp: typed_request_def)

lemma typed_mutation: "wellformed_mutation mut \<Longrightarrow> mutation_request codec mut = Inr req \<Longrightarrow> typed_request codec req"
  by (auto simp: typed_request_def)

lemma typed_json:
  "cli_json_request ''PUT'' ''/1.0/resource-pool'' (mc_resource_pool codec m1) = Inr req \<Longrightarrow> typed_request codec req"
  "cli_json_request ''POST'' ''/1.0/os-images'' (mc_os_image codec m2) = Inr req \<Longrightarrow> typed_request codec req"
  "cli_json_request ''POST'' ''/1.0/instances'' (mc_create codec m3) = Inr req \<Longrightarrow> typed_request codec req"
  "cli_json_request ''PATCH'' (instance_request_path i []) (mc_update codec m4) = Inr req \<Longrightarrow> typed_request codec req"
  "cli_json_request ''POST'' (instance_request_path i ''/load'') (mc_load codec m5) = Inr req \<Longrightarrow> typed_request codec req"
  "cli_json_request ''POST'' (instance_request_path i ''/load-image'') (mc_load_image codec m6) = Inr req \<Longrightarrow> typed_request codec req"
  "cli_json_request ''POST'' (instance_request_path i ''/start'') (mc_lifecycle codec m7) = Inr req \<Longrightarrow> typed_request codec req"
  "cli_json_request ''POST'' (instance_request_path i ''/unload'') (mc_lifecycle codec m7) = Inr req \<Longrightarrow> typed_request codec req"
  "cli_json_request ''DELETE'' (instance_request_path i []) (mc_lifecycle codec m7) = Inr req \<Longrightarrow> typed_request codec req"
  "cli_json_request ''POST'' (instance_request_path i ''/stop'') (mc_stop codec m8) = Inr req \<Longrightarrow> typed_request codec req"
  "cli_json_request ''POST'' ''/1.0/images'' (mc_image codec m9) = Inr req \<Longrightarrow> typed_request codec req"
  unfolding cli_json_request_agrees
  by (rule typed_mutation [of "Set_ResourcePool m1"] typed_mutation [of "Import_OsImage m2"] typed_mutation [of "Create_Instance m3"]
      typed_mutation [of "Update_Instance i m4"] typed_mutation [of "Load_Instance i m5"] typed_mutation [of "Load_ManagedImage i m6"]
      typed_mutation [of "Start_Instance i m7"] typed_mutation [of "Unload_Instance i m7"] typed_mutation [of "Delete_Instance i m7"]
      typed_mutation [of "Stop_Instance i m8"] typed_mutation [of "Import_Image m9"];
      simp add: wellformed_mutation_def lifecycle_call_def; fail)+

lemma log_safe_segment: "log_safe_token i \<Longrightarrow> segment_id i"
  by (auto simp: log_safe_token_def segment_id_def list_all_iff is_ascii_alphanumeric_def is_ascii_digit_def
      is_ascii_uppercase_def is_ascii_lowercase_def byte_def)

lemma artifact_id_canonical: "cli_artifact_id v = Inr i \<Longrightarrow> i = v \<and> parse_artifact_id v = Inr v"
proof -
  assume ok: "cli_artifact_id v = Inr i"
  obtain digest where digest: "strip_prefix ''sha256:'' v = Some digest" "length digest = 64"
    "list_all (\<lambda>c. is_ascii_digit c \<or> 97 \<le> byte c \<and> byte c \<le> 102) digest" and i: "i = v"
    using ok by (cases "strip_prefix ''sha256:'' v") (auto simp: cli_artifact_id_def split: if_splits)
  have "sha256_prefix = ''sha256:''" by (simp add: sha256_prefix_def)
  then show ?thesis using digest i by (simp add: parse_artifact_id_def canonical_digest_def is_lower_hex_def list_all_iff)
qed

lemma host_typed: "parse_host args = Inr req \<Longrightarrow> typed_request codec req"
  using typed_read [of Get_Host] typed_read [of Get_Compatibility]
  by (auto simp: parse_host_def wellformed_read_def split: if_splits)

lemma storage_typed: "parse_storage args = Inr req \<Longrightarrow> typed_request codec req"
  using typed_read [of Get_StorageDevices] by (auto simp: parse_storage_def wellformed_read_def split: if_splits)

lemma pool_typed: "parse_pool codec args = Inr req \<Longrightarrow> typed_request codec req"
  using typed_read [of Get_ResourcePool]
  by (auto simp: parse_pool_def wellformed_read_def result_iff split: list.splits if_splits dest: typed_json(1))

lemma create_typed: "parse_instance_create codec args = Inr req \<Longrightarrow> typed_request codec req"
  by (auto simp: parse_instance_create_def result_iff dest: typed_json(3))

lemma update_typed: "parse_instance_update codec args = Inr req \<Longrightarrow> typed_request codec req"
  by (auto simp: parse_instance_update_def result_iff split: if_splits dest: typed_json(4))

lemma load_typed: "parse_instance_load codec action args = Inr req \<Longrightarrow> typed_request codec req"
  by (auto simp: parse_instance_load_def result_iff split: if_splits dest: typed_json(5,6))

lemma lifecycle_typed: "parse_instance_lifecycle codec action args = Inr req \<Longrightarrow> typed_request codec req"
  by (auto simp: parse_instance_lifecycle_def result_iff split: if_splits dest: typed_json(7-9))

lemma stop_typed: "parse_instance_stop codec args = Inr req \<Longrightarrow> typed_request codec req"
  by (auto simp: parse_instance_stop_def result_iff dest: typed_json(10))

lemma artifact_segment:
  assumes "parse_artifact_id i = Inr i"
  shows "segment_id i"
proof -
  obtain digest where "i = sha256_prefix @ digest" "canonical_digest digest"
    using assms by (auto simp: parse_artifact_id_def strip_prefix_eq_Some split: option.splits if_splits)
  then show ?thesis
    by (auto simp: segment_id_def sha256_prefix_def canonical_digest_def list_all_iff is_lower_hex_def is_ascii_digit_def byte_def)
qed

lemma typed_ifE: "(if P then A else B) = Inr req \<Longrightarrow> (A = Inr req \<Longrightarrow> T) \<Longrightarrow> (B = Inr req \<Longrightarrow> T) \<Longrightarrow> T"
  by (simp split: if_splits)

lemma typed_mapE: "map_ok f r = Inr req \<Longrightarrow> (\<And>x. r = Inr x \<Longrightarrow> typed_request codec (f x)) \<Longrightarrow> typed_request codec req"
  by (auto simp: result_iff)

lemma typed_reads:
  fixes i :: u32
  shows "typed_request codec (request_get ''/1.0/instances'')" "typed_request codec (request_get (''/1.0/instances/'' @ show_word i))"
  "typed_request codec (request_get ''/1.0/images'')" "typed_request codec (request_get ''/1.0/os-images'')"
  "typed_request codec (request_get ''/1.0/operations'')"
  using typed_read [of Get_Instances codec] typed_read [of "Get_Instance i" codec] typed_read [of Get_Images codec]
    typed_read [of Get_OsImages codec] typed_read [of Get_Operations codec]
  by (simp_all add: wellformed_read_def)

lemma typed_InrE: "Inr r = Inr req \<Longrightarrow> typed_request codec r \<Longrightarrow> typed_request codec req"
  by simp

lemma typed_InlE: "Inl e = Inr req \<Longrightarrow> T"
  by simp

lemma instance_typed:
  assumes "parse_instance codec args = Inr req"
  shows "typed_request codec req"
proof (cases args)
  case (Cons action tail)
  from assms show ?thesis unfolding parse_instance_def Cons list.case
    by (elim typed_ifE)
      (erule create_typed update_typed load_typed lifecycle_typed stop_typed typed_InrE typed_mapE typed_InlE | rule typed_reads)+
qed (use assms in \<open>simp add: parse_instance_def\<close>)

lemma image_show_typed:
  assumes "cli_image_kind k = Inr x" and "cli_artifact_id v = Inr i"
  shows "typed_request codec (request_get (''/1.0/images/'' @ snd x @ ''/'' @ i))"
proof -
  have "snd x \<in> {''kernel'', ''initrd''}" using assms(1) by (auto simp: cli_image_kind_def split: if_splits)
  then show ?thesis using artifact_id_canonical [OF assms(2)] unfolding typed_request_def by blast
qed

lemma image_typed:
  assumes "parse_image codec args = Inr req"
  shows "typed_request codec req"
proof (cases args)
  case (Cons action tail)
  have show_image: "typed_request codec req" if tail_ok: "(case tail of [kind, i] \<Rightarrow>
        and_then (cli_image_kind kind) (\<lambda>(_, kind_path).
        and_then (cli_artifact_id i) (\<lambda>i. Inr (request_get (''/1.0/images/'' @ kind_path @ ''/'' @ i))))
      | _ \<Rightarrow> Inl (cli_usage ''image show requires KIND and ID'')) = Inr req"
  proof -
    obtain kind v where "tail = [kind, v]" using tail_ok by (auto split: list.splits)
    then obtain x i where "cli_image_kind kind = Inr x" "cli_artifact_id v = Inr i"
      "Inr (request_get (''/1.0/images/'' @ snd x @ ''/'' @ i)) = (Inr req :: cli_error + api_request)"
      using tail_ok unfolding case_prod_beta list.case by (auto simp only: result_iff list.case)
    then show ?thesis using image_show_typed [of kind x v i codec] by simp
  qed
  from assms show ?thesis unfolding parse_image_def Cons list.case
  proof (elim typed_ifE)
    assume "Inr (request_get ''/1.0/images'') = Inr req"
    then show ?thesis using typed_reads(3) by (rule typed_InrE)
  qed (erule show_image, auto simp only: result_iff case_prod_beta dest: typed_json(11))
qed (use assms in \<open>simp add: parse_image_def\<close>)

lemma os_image_typed:
  assumes "parse_os_image codec args = Inr req"
  shows "typed_request codec req"
proof (cases args)
  case (Cons action tail)
  have show_image: "typed_request codec req" if tail_ok: "(case tail of
        [i] \<Rightarrow> map_ok (\<lambda>i. request_get (''/1.0/os-images/'' @ i)) (cli_artifact_id i)
      | _ \<Rightarrow> Inl (cli_usage ''exactly one OS image ID is required'')) = Inr req"
  proof -
    obtain v where "tail = [v]" using tail_ok by (auto split: list.splits)
    then obtain i where i: "cli_artifact_id v = Inr i" and req: "req = request_get (''/1.0/os-images/'' @ i)"
      using tail_ok by (auto simp only: list.case result_iff)
    have "segment_id i" using artifact_segment artifact_id_canonical [OF i] by blast
    then show ?thesis using typed_read [of "Get_OsImage i" codec] artifact_id_canonical [OF i] unfolding req
      by (simp add: wellformed_read_def)
  qed
  from assms show ?thesis unfolding parse_os_image_def Cons list.case
  proof (elim typed_ifE)
    assume "Inr (request_get ''/1.0/os-images'') = Inr req"
    then show ?thesis using typed_reads(4) by (rule typed_InrE)
  qed (erule show_image, auto simp only: result_iff dest: typed_json(2))
qed (use assms in \<open>simp add: parse_os_image_def\<close>)

lemma operation_typed:
  assumes "parse_operation args = Inr req"
  shows "typed_request codec req"
proof (cases args)
  case (Cons action tail)
  have token: "segment_id i" if "only_token tail label = Inr i" for label i
    using that log_safe_segment by (auto simp: only_token_def split: list.splits if_splits)
  have shown: "typed_request codec (request_get (''/1.0/operations/'' @ i))" if "segment_id i" for i
    using that typed_read [of "Get_Operation i" codec] by (simp add: wellformed_read_def)
  have cancelled: "typed_request codec \<lparr>cq_method = ''DELETE'', cq_path = ''/1.0/operations/'' @ i, cq_body = []\<rparr>" if "segment_id i" for i
    using that by (intro typed_mutation [of "Cancel_Operation i"]) (simp_all add: wellformed_mutation_def)
  from assms show ?thesis unfolding parse_operation_def Cons list.case
    by (elim typed_ifE) (erule typed_InrE typed_mapE typed_InlE | rule typed_reads | (rule shown, erule token) | (rule cancelled, erule token))+
qed (use assms in \<open>simp add: parse_operation_def\<close>)

lemma events_typed: "parse_events args = Inr req \<Longrightarrow> typed_request codec req"
  using typed_read [of "Get_Events n" for n]
  by (auto simp: parse_events_def wellformed_read_def result_iff)

lemma command_typed:
  assumes "parse_command codec args = Inr req"
  shows "typed_request codec req"
proof (cases args)
  case (Cons resource tail)
  from assms show ?thesis unfolding parse_command_def Cons list.case
    by (elim typed_ifE)
      (erule host_typed pool_typed instance_typed image_typed os_image_typed storage_typed operation_typed events_typed typed_InlE)+
qed (use assms in \<open>simp add: parse_command_def\<close>)

lemma image_show_routed:
  assumes "kind \<in> {''kernel'', ''initrd''}" and "parse_artifact_id i = Inr i"
  shows "route_for GET (fst (uri_split (''/1.0/images/'' @ kind @ ''/'' @ i))) = Some read_route"
proof -
  have i: "CHR ''/'' \<notin> set i" "CHR ''?'' \<notin> set i" using artifact_segment [OF assms(2)] by (simp_all add: segment_id_def)
  have kind: "CHR ''/'' \<notin> set kind" "CHR ''?'' \<notin> set kind" using assms(1) by auto
  have "split_char CHR ''/'' (kind @ ''/'' @ i) = [kind, i]"
    using split_char_append_sep [OF kind(1), of i] split_char_no_sep [OF i(1)] by simp
  then have "image_resource (''/1.0/images/'' @ kind @ ''/'' @ i) \<noteq> None"
    using assms unfolding image_resource_def strip_prefix_append option.case by auto
  then have "route_for GET (''/1.0/images/'' @ kind @ ''/'' @ i) = Some read_route" unfolding route_for_def by (simp split: if_splits)
  moreover have "uri_split (''/1.0/images/'' @ kind @ ''/'' @ i) = (''/1.0/images/'' @ kind @ ''/'' @ i, None)"
    using i kind by (intro uri_split_plain) simp
  ultimately show ?thesis by (simp only: fst_conv)
qed

lemma typed_routed:
  assumes "typed_request codec req"
  shows "\<exists>security. route_for (http_method_of (cq_method req)) (fst (uri_split (cq_path req))) = Some security \<and> sec_class security \<noteq> Console"
proof -
  have read: "sec_class read_route \<noteq> Console" by (simp add: read_route_def)
  consider query where "wellformed_read query" "req = read_request query"
    | mut where "wellformed_mutation mut" "mutation_request codec mut = Inr req"
    | kind i where "kind \<in> {''kernel'', ''initrd''}" "parse_artifact_id i = Inr i" "req = request_get (''/1.0/images/'' @ kind @ ''/'' @ i)"
    using assms unfolding typed_request_def by blast
  then show ?thesis
  proof cases
    case 1
    then show ?thesis using read_routed [OF 1(1)] read by blast
  next
    case 2
    have "sec_class (mutation_security mut) \<noteq> Console" by (simp add: mutation_security_def split: client_mutation.splits)
    then show ?thesis using mutation_routed [OF 2(2,1)] by blast
  next
    case 3
    show ?thesis using image_show_routed [OF 3(1,2)] read unfolding 3(3) request_get_def client_request.simps http_methods by blast
  qed
qed

text \<open>C38: The command line asks nothing that the daemon does not offer. Every command that is accepted becomes a request
  of the typed client, or the reading of one stored image, and the daemon has a route for it, which is never the console.\<close>

theorem cli_commands_routed:
  assumes "parse_command codec args = Inr req"
  shows "typed_request codec req \<and>
    (\<exists>security. route_for (http_method_of (cq_method req)) (fst (uri_split (cq_path req))) = Some security \<and> sec_class security \<noteq> Console)"
  using command_typed [OF assms] typed_routed by blast

section \<open>Exit codes\<close>

text \<open>An error never carries the code of success.\<close>

definition failing :: "cli_error + 'a \<Rightarrow> bool" where
  "failing r \<longleftrightarrow> (\<forall>e. r = Inl e \<longrightarrow> ce_code e \<noteq> Exit_Success)"

lemma failing_base:
  "failing (Inr x)" "failing (Inl (cli_usage message))" "failing (Inl (cli_protocol message))" "failing (Inl (cli_transport message))"
  "failing (ok_or (cli_usage message) v)" "failing (ok_or (cli_protocol message) v)"
  "failing (Inl (missing_value name))" "failing (Inl (repeated_option name))"
  by (auto simp: failing_def result_iff cli_usage_def cli_protocol_def cli_transport_def missing_value_def repeated_option_def)

lemma failing_compose:
  "failing r \<Longrightarrow> (\<And>x. failing (f x)) \<Longrightarrow> failing (and_then r f)"
  "failing r \<Longrightarrow> failing (map_ok g r)"
  "failing a \<Longrightarrow> failing b \<Longrightarrow> failing (if P then a else b)"
  "failing a \<Longrightarrow> (\<And>x xs. failing (c x xs)) \<Longrightarrow> failing (case l of [] \<Rightarrow> a | x # xs \<Rightarrow> c x xs)"
  "failing a \<Longrightarrow> (\<And>x. failing (f x)) \<Longrightarrow> failing (case opt of None \<Rightarrow> a | Some x \<Rightarrow> f x)"
  "(\<And>x y. failing (h x y)) \<Longrightarrow> failing (case p of (x, y) \<Rightarrow> h x y)"
  by (auto simp: failing_def result_iff split: list.splits option.splits prod.splits)

lemma failing_traverse:
  "(\<And>x. failing (f x)) \<Longrightarrow> failing (traverse_option f opt)" "(\<And>x. failing (f x)) \<Longrightarrow> failing (traverse_list f xs)"
proof -
  assume each: "\<And>x. failing (f x)"
  show "failing (traverse_option f opt)" using each by (cases opt) (auto intro!: failing_base failing_compose)
  show "failing (traverse_list f xs)" using each by (induction xs) (auto intro!: failing_base failing_compose)
qed

lemmas failing_rules = failing_base failing_compose failing_traverse

lemma failing_values:
  "failing (number_u64 v label)" "failing (cli_number v label)" "failing (cli_generation v)" "failing (cli_artifact_id v)"
  "failing (cli_image_kind v)" "failing (only_token args label)" "failing (only_id args)" "failing (byte_size v)" "failing (string_list v)"
  "failing (cli_validate_request_id v)" "failing (op_required opts name)" "failing (no_positionals opts)" "failing (one_positional opts label)"
  "failing (cli_json_request verb path body)"
  unfolding number_u64_def cli_number_def cli_generation_def cli_artifact_id_def cli_image_kind_def only_token_def only_id_def
    byte_size_def string_list_def cli_validate_request_id_def op_required_def no_positionals_def one_positional_def cli_json_request_def Let_def
  by (intro failing_rules)+

lemma failing_cpu_list: "failing (cli_cpu_list v)"
proof -
  have insert: "failing (insert_cpus cs cpus)" for cs cpus by (induction cs cpus rule: insert_cpus.induct) (auto intro!: failing_rules)
  have part: "failing (cpu_part part cpus)" for part cpus
    unfolding cpu_part_def by (intro failing_rules failing_values insert)
  have "failing (cpu_parts parts cpus)" for parts cpus by (induction parts arbitrary: cpus) (auto intro!: failing_rules part)
  then show ?thesis unfolding cli_cpu_list_def by (intro failing_rules)
qed

lemma failing_options: "failing (options_parse args value_names flag_names)"
proof -
  have "failing (options_from value_names flag_names args opts)" for opts
  proof (induction value_names flag_names args opts rule: options_from.induct)
    case (2 value_names flag_names argument rest opts)
    then show ?case by (auto intro!: failing_base split: option.splits list.splits)
  qed (simp add: failing_base)
  then show ?thesis by (simp add: options_parse_def)
qed

lemma failing_command: "failing (parse_command codec args)"
  unfolding parse_command_def parse_host_def parse_pool_def parse_instance_def parse_image_def parse_os_image_def parse_storage_def
    parse_operation_def parse_events_def parse_instance_create_def parse_instance_update_def parse_instance_load_def
    parse_instance_lifecycle_def parse_instance_stop_def
  by (intro failing_rules failing_values failing_cpu_list failing_options)

lemma failing_globals: "failing (local_options args st)" "failing (global_options args gst)"
proof -
  show "failing (local_options args st)"
    by (induction args st rule: local_options.induct) (auto intro!: failing_rules failing_values split: list.splits)
  show "failing (global_options args gst)"
    by (induction args gst rule: global_options.induct) (auto intro!: failing_rules failing_values split: list.splits)
qed

lemma failing_invocation: "failing (parse_invocation codec generated args)"
  unfolding parse_invocation_def case_prod_beta by (intro failing_rules failing_command failing_globals)

lemma failing_execute: "failing (cli_execute env arguments)"
proof -
  have sent: "failing (send_request env socket rid request)" for socket rid request
    by (auto simp: failing_def send_request_def result_iff cli_transport_def cli_protocol_def)
  have "failing (error_exit_code code)" for code unfolding error_exit_code_def by (intro failing_rules)
  then have codes: "failing (response_exit_code env status v)" for status v
    unfolding response_exit_code_def by (intro failing_rules)
  show ?thesis
    unfolding cli_execute_def parse_local_diagnostic_def
    by (intro failing_rules failing_invocation failing_globals sent codes)
qed

lemma response_success:
  assumes "response_exit_code env status v = Inr Exit_Success"
  shows "200 \<le> status \<and> status < 300 \<and> cv_kind env v \<in> {Some ''result'', Some ''accepted''}"
proof -
  have "error_exit_code code \<noteq> Inr Exit_Success" for code unfolding error_exit_code_def by (auto split: option.splits)
  then show ?thesis using assms unfolding response_exit_code_def by (auto simp: result_iff split: if_splits)
qed

lemma unicode_arguments:
  "traverse_list (\<lambda>a. ok_or e (to_str a)) xs = Inr ys \<Longrightarrow> ys = xs"
  by (induction xs arbitrary: ys) (auto simp: result_iff to_str_def split: if_splits)

lemma and_then_first: "and_then r f = Inr y \<Longrightarrow> \<exists>x. r = Inr x"
  by (cases r) simp_all

text \<open>Which arguments ask for a text of the client, and which text.\<close>

definition informational :: "string list \<Rightarrow> string \<Rightarrow> bool" where
  "informational args s \<longleftrightarrow>
     (args = [] \<or> args = [''--help''] \<or> args = [''-h'']) \<and> s = usage \<or>
     (args = [''--version''] \<or> args = [''-V'']) \<and> s = version_text"

lemma cli_execute_cases:
  assumes "cli_execute env arguments = Inr reply"
  obtains (informed) s where "reply = Help_Output s" "informational (tl arguments) s"
  | (diagnosis) socket pretty compatible v where "parse_local_diagnostic (tl arguments) = Inr (Some (socket, pretty))"
      "cv_diagnose env socket = (compatible, Some v)"
      "reply = Response_Output v pretty (if compatible then Exit_Success else Exit_RequestRejected)"
  | (answered) i response code where
      "parse_invocation (cv_codec env) (cli_request_id (cv_process_id env) (cv_sequence env)) (tl arguments) = Inr i"
      "cv_send env (ci_socket i) (ci_request_id i) (ci_request i) = Inr response"
      "response_exit_code env (rw_status response) (rw_value response) = Inr code"
      "reply = Response_Output (rw_value response) (ci_pretty i)
         (if cq_path (ci_request i) = ''/1.0/compatibility'' \<and> cv_compatible env (rw_value response) = Some False
          then Exit_RequestRejected else code)"
proof -
  obtain args where "traverse_list (\<lambda>a. ok_or (cli_usage ''arguments must be valid Unicode'') (to_str a)) arguments = Inr args"
    using and_then_first [OF assms [unfolded cli_execute_def]] by (elim exE)
  then have unicode: "traverse_list (\<lambda>a. ok_or (cli_usage ''arguments must be valid Unicode'') (to_str a)) arguments = Inr arguments"
    using unicode_arguments [of "cli_usage ''arguments must be valid Unicode''" arguments args] by simp
  note step = assms [unfolded cli_execute_def unicode and_then.simps]
  show ?thesis
  proof (cases arguments)
    case Nil
    then show ?thesis using step by (intro informed [of usage]) (simp_all add: informational_def)
  next
    case (Cons program args)
    show ?thesis
    proof (cases "args = [] \<or> args = [''--help''] \<or> args = [''-h''] \<or> args = [''--version''] \<or> args = [''-V'']")
      case True
      show ?thesis
      proof (cases "args = [] \<or> args = [''--help''] \<or> args = [''-h'']")
        case True
        then have "reply = Help_Output usage" using step unfolding Cons list.case by (simp only: if_True sum.inject)
        then show ?thesis by (rule informed) (use \<open>args = [] \<or> args = [''--help''] \<or> args = [''-h'']\<close> in
          \<open>simp only: informational_def Cons list.sel simp_thms\<close>)
      next
        case False
        then have version: "args = [''--version''] \<or> args = [''-V'']" using True by blast
        with False have "reply = Help_Output version_text" using step unfolding Cons list.case by (simp only: if_True if_False sum.inject)
        then show ?thesis by (rule informed) (use version in \<open>simp only: informational_def Cons list.sel simp_thms\<close>)
      qed
    next
      case False
      then have run: "and_then (parse_local_diagnostic args) (\<lambda>local_run. case local_run of
             Some (socket, pretty) \<Rightarrow>
               (case cv_diagnose env socket of (compatible, report) \<Rightarrow>
                and_then (ok_or (cli_protocol ''diagnostic serialization failed'') report) (\<lambda>v.
                Inr (Response_Output v pretty (if compatible then Exit_Success else Exit_RequestRejected))))
           | None \<Rightarrow>
               and_then (parse_invocation (cv_codec env) (cli_request_id (cv_process_id env) (cv_sequence env)) args) (\<lambda>i.
               and_then (send_request env (ci_socket i) (ci_request_id i) (ci_request i)) (\<lambda>response.
               and_then (response_exit_code env (rw_status response) (rw_value response)) (\<lambda>code.
               Inr (Response_Output (rw_value response) (ci_pretty i)
                 (if cq_path (ci_request i) = ''/1.0/compatibility'' \<and> cv_compatible env (rw_value response) = Some False
                  then Exit_RequestRejected else code)))))) = Inr reply"
        using step unfolding Cons list.case by (simp only: de_Morgan_disj if_False simp_thms)
      then obtain local_run where parsed: "parse_local_diagnostic args = Inr local_run" by (blast dest: and_then_first)
      note run = run [unfolded parsed and_then.simps]
      show ?thesis
      proof (cases local_run)
        case None
        obtain i response code where i: "parse_invocation (cv_codec env) (cli_request_id (cv_process_id env) (cv_sequence env)) args = Inr i"
          "cv_send env (ci_socket i) (ci_request_id i) (ci_request i) = Inr response"
          "response_exit_code env (rw_status response) (rw_value response) = Inr code"
          "reply = Response_Output (rw_value response) (ci_pretty i)
             (if cq_path (ci_request i) = ''/1.0/compatibility'' \<and> cv_compatible env (rw_value response) = Some False
              then Exit_RequestRejected else code)"
          using run unfolding send_request_def None by (auto simp only: option.case result_iff sum.inject)
        then show ?thesis using answered [of i response code] unfolding Cons list.sel by blast
      next
        case (Some target)
        obtain socket pretty where target: "target = (socket, pretty)" by fastforce
        obtain compatible report where found: "cv_diagnose env socket = (compatible, report)" by fastforce
        then obtain v where "report = Some v"
          "Inr (Response_Output v pretty (if compatible then Exit_Success else Exit_RequestRejected)) = (Inr reply :: cli_error + _)"
          using run unfolding Some target option.case prod.case found by (auto simp only: result_iff)
        then show ?thesis using parsed found by (intro diagnosis [of socket pretty compatible v]) (simp_all add: Cons Some target)
      qed
    qed
  qed
qed

text \<open>C39: Exit status zero is truthful. The client exits with success only if it was asked for its help or version, if a local
  diagnosis found the host compatible, or if the daemon answered the parsed command with a 2xx status and a result
  or an accepted operation, which for the compatibility check does not say that the host is incompatible; the report or the answer
  is then complete on the standard output, and nothing on the standard error. The result of writing the help or version text is
  not looked at: a success there means that the standard output has the text, or a first part of it, possibly empty, when the write failed.\<close>

theorem exit_success_truthful:
  assumes "cli_run env arguments = (Exit_Success, out, err)"
  shows "err = [] \<and>
    ((\<exists>s. informational (tl arguments) s \<and>
        (case cv_stdout env (s @ [CHR 0x0A]) of None \<Rightarrow> out = s @ [CHR 0x0A] | Some n \<Rightarrow> out = take n (s @ [CHR 0x0A]))) \<or>
     (\<exists>socket pretty v text. parse_local_diagnostic (tl arguments) = Inr (Some (socket, pretty)) \<and>
        cv_diagnose env socket = (True, Some v) \<and> cv_write env pretty v = Some text \<and>
        cv_stdout env (text @ [CHR 0x0A]) = None \<and> out = text @ [CHR 0x0A]) \<or>
     (\<exists>i response text. parse_invocation (cv_codec env) (cli_request_id (cv_process_id env) (cv_sequence env)) (tl arguments) = Inr i \<and>
        cv_send env (ci_socket i) (ci_request_id i) (ci_request i) = Inr response \<and>
        200 \<le> rw_status response \<and> rw_status response < 300 \<and>
        cv_kind env (rw_value response) \<in> {Some ''result'', Some ''accepted''} \<and>
        \<not> (cq_path (ci_request i) = ''/1.0/compatibility'' \<and> cv_compatible env (rw_value response) = Some False) \<and>
        cv_write env (ci_pretty i) (rw_value response) = Some text \<and>
        cv_stdout env (text @ [CHR 0x0A]) = None \<and> out = text @ [CHR 0x0A]))"
proof -
  have no_error: "cli_execute env arguments \<noteq> Inl e" if "ce_code e = Exit_Success" for e
    using failing_execute [of env arguments] that by (auto simp: failing_def)
  obtain reply where reply: "cli_execute env arguments = Inr reply"
    using assms no_error by (cases "cli_execute env arguments") (auto simp: cli_run_def)
  have written: "\<exists>s. cv_write env pretty v = Some s \<and> code = Exit_Success \<and> cv_stdout env (s @ [CHR 0x0A]) = None \<and>
      out = s @ [CHR 0x0A] \<and> err = []"
    if "reply = Response_Output v pretty code" for v pretty code
    using assms that
    by (cases "cv_write env pretty v") (auto simp: cli_run_def reply write_line_def Let_def split: option.splits)
  from reply show ?thesis
  proof (cases rule: cli_execute_cases)
    case (informed s)
    have "err = []" "case cv_stdout env (s @ [CHR 0x0A]) of None \<Rightarrow> out = s @ [CHR 0x0A] | Some n \<Rightarrow> out = take n (s @ [CHR 0x0A])"
      using assms by (auto simp: cli_run_def reply informed(1) write_line_def Let_def split: option.splits)
    then show ?thesis using informed(2) by blast
  next
    case (diagnosis socket pretty compatible v)
    then show ?thesis using written [OF diagnosis(3)] by (cases compatible) auto
  next
    case (answered i response code)
    obtain s where s: "cv_write env (ci_pretty i) (rw_value response) = Some s" "cv_stdout env (s @ [CHR 0x0A]) = None"
        "out = s @ [CHR 0x0A]" "err = []"
      and path: "\<not> (cq_path (ci_request i) = ''/1.0/compatibility'' \<and> cv_compatible env (rw_value response) = Some False)"
      and code: "code = Exit_Success"
      using written [OF answered(4)] by (metis exit_code.distinct(7))
    show ?thesis using answered(1,2) response_success [OF answered(3) [unfolded code]] s path by blast
  qed
qed

section \<open>Witnesses\<close>

theorem cli_cpu_list_agrees_witness:
  "\<exists>cpus. cli_cpu_list ''0-2,4'' = Inr cpus \<and> parse_cpu_list ''0-2,4'' = Inr cpus \<and> set cpus = range_set [(0, 2), (4, 4)]"
proof -
  have listing: "join '','' (map show_range [(0, 2), (4, 4)]) = ''0-2,4''" by code_simp
  have "disjoint_ranges [(0, 2), (4, 4)]" by (auto simp: range_set_def word_le_nat_alt)
  from cli_cpu_list_agrees [OF this] show ?thesis unfolding listing by auto
qed

lemma two_gibibytes: "byte_size ''2GiB'' = Inr 2147483648"
proof -
  have "show_nat 2 = ''2''" by code_simp
  then have "(parse_word ''2'' :: u64 option) = Some 2" using parse_word_show_word [of "2 :: u64"] by (simp add: show_word_def)
  moreover have "size_digits ''2GiB'' size_suffixes = (''2'', 1024 ^ 3)"
    by (simp add: size_suffixes_def strip_suffix_def strip_prefix_def starts_with_def)
  ultimately show ?thesis by (simp add: byte_size_def number_u64_def checked_mul_def)
qed

theorem byte_size_exact_witness:
  "\<exists>digits suffix multiplier (n :: u64). ''2GiB'' = digits @ suffix \<and> (suffix, multiplier) \<in> set (size_suffixes @ [([], 1)]) \<and>
     parse_word digits = Some n \<and> unat (2147483648 :: u64) = unat n * unat multiplier"
  using byte_size_exact [OF two_gibibytes] by blast

definition sample_cli :: "string cli_env" where
  "sample_cli =
     \<lparr>cv_codec = \<lparr>mc_resource_pool = \<lambda>_. None, mc_os_image = \<lambda>_. None, mc_create = \<lambda>_. None, mc_update = \<lambda>_. None,
        mc_load = \<lambda>_. None, mc_load_image = \<lambda>_. None, mc_lifecycle = \<lambda>_. None, mc_stop = \<lambda>_. None, mc_image = \<lambda>_. None\<rparr>,
      cv_process_id = 7, cv_sequence = 1,
      cv_send = \<lambda>_ _ q. Inr \<lparr>rw_status = 200, rw_value = cq_path q\<rparr>, cv_diagnose = \<lambda>_. (False, None),
      cv_kind = \<lambda>_. Some ''result'', cv_error_code = \<lambda>_. None, cv_compatible = \<lambda>_. None, cv_write = \<lambda>_ v. Some v,
      cv_stdout = \<lambda>_. None, cv_stderr = \<lambda>_. None\<rparr>"

theorem cli_commands_routed_witness:
  "typed_request (cv_codec sample_cli) \<lparr>cq_method = ''DELETE'', cq_path = ''/1.0/operations/op-1'', cq_body = []\<rparr>"
proof -
  have "only_token [''op-1''] ''operation ID'' = Inr ''op-1''" unfolding only_token_def list.case by (subst if_P) code_simp+
  then have "parse_command (cv_codec sample_cli) [''operation'', ''cancel'', ''op-1''] =
      Inr \<lparr>cq_method = ''DELETE'', cq_path = ''/1.0/operations/op-1'', cq_body = []\<rparr>"
    by (simp add: parse_command_def parse_operation_def)
  from cli_commands_routed [OF this] show ?thesis by (rule conjunct1)
qed

lemma storage_listing:
  "parse_invocation (cv_codec sample_cli) generated [''storage'', ''list''] =
     Inr \<lparr>ci_socket = DEFAULT_SOCKET, ci_pretty = False, ci_request_id = generated,
          ci_request = \<lparr>cq_method = ''GET'', cq_path = ''/1.0/storage-devices'', cq_body = []\<rparr>\<rparr>"
  by (simp add: parse_invocation_def parse_command_def parse_storage_def starts_with_def request_get_def)

lemma storage_not_local: "parse_local_diagnostic [''storage'', ''list''] = Inr None"
  by (simp add: parse_local_diagnostic_def starts_with_def)

lemma storage_executed:
  "cli_execute sample_cli [''kernmuxctl'', ''storage'', ''list''] = Inr (Response_Output ''/1.0/storage-devices'' False Exit_Success)"
proof -
  have "to_str ''kernmuxctl'' = Some ''kernmuxctl''" "to_str ''storage'' = Some ''storage''" "to_str ''list'' = Some ''list''"
    by code_simp+
  then show ?thesis
    by (simp add: cli_execute_def storage_not_local storage_listing send_request_def response_exit_code_def)
       (simp add: sample_cli_def)
qed

theorem exit_success_truthful_witness:
  "cli_run sample_cli [''kernmuxctl'', ''storage'', ''list''] = (Exit_Success, ''/1.0/storage-devices'' @ [CHR 0x0A], []) \<and>
   (\<exists>i response. parse_invocation (cv_codec sample_cli) (cli_request_id 7 1) [''storage'', ''list''] = Inr i \<and>
      cv_send sample_cli (ci_socket i) (ci_request_id i) (ci_request i) = Inr response \<and> rw_status response < 300)"
proof -
  have run: "cli_run sample_cli [''kernmuxctl'', ''storage'', ''list''] = (Exit_Success, ''/1.0/storage-devices'' @ [CHR 0x0A], [])"
    unfolding cli_run_def storage_executed by (simp add: sample_cli_def write_line_def)
  have other: "\<not> informational [''storage'', ''list''] s" for s by (simp add: informational_def)
  have ids: "cv_process_id sample_cli = 7" "cv_sequence sample_cli = 1" by (simp_all add: sample_cli_def)
  from exit_success_truthful [OF run] other show ?thesis
    unfolding list.sel storage_not_local ids using run by blast
qed

end
