(* ===== verification/Messages.thy ===== *)
theory Messages
  imports Supervision Image_Store
begin

text \<open>
  The texts of the errors of the lifecycle planner (\<open>crates/kernmux-daemon/src/lifecycle.rs\<close>) and of the isolated
  inventory probe (\<open>crates/kernmux-daemon/src/inventory.rs\<close>), which reach operators through operations and logs.
  Addresses are printed in hexadecimal; the last lemma shows that the printed address identifies the word.
\<close>

section \<open>Hexadecimal\<close>

text \<open>The format \<open>{:#x}\<close>.\<close>

function show_hex_digits :: "nat \<Rightarrow> string" where
  "show_hex_digits n = (if n < 16 then [hex_digit n] else show_hex_digits (n div 16) @ [hex_digit (n mod 16)])"
  by pat_completeness auto
termination
  by (relation "measure id") auto

declare show_hex_digits.simps [simp del]

definition show_hex :: "'a::len word \<Rightarrow> string" where
  "show_hex w = ''0x'' @ show_hex_digits (unat w)"

section \<open>The lifecycle planner\<close>

fun device_placement_message :: "device_placement_error \<Rightarrow> string" where
  "device_placement_message EmptySelection =
     ''an empty device replacement is unsupported; delete the owner or request a non-empty replacement''"
| "device_placement_message (InvalidPciId v) =
     ''PCI device ID '' @ [CHR 0x27] @ v @ [CHR 0x27] @ '' is not a canonical lowercase domain:bus:slot.function address''"
| "device_placement_message Duplicate = ''device replacement contains duplicate PCI IDs''"
| "device_placement_message (NotManaged pci_id) = ''PCI device '' @ pci_id @ '' is not managed by the Multikernel pool''"
| "device_placement_message (Unavailable pci_id) = ''PCI device '' @ pci_id @ '' is not available to this instance''"
| "device_placement_message (OwnedByPeer pci_id peer_name) =
     ''PCI device '' @ pci_id @ '' is owned by instance '' @ [CHR 0x27] @ peer_name @ [CHR 0x27]"
| "device_placement_message (MissingIommuGroup pci_id) = ''PCI device '' @ pci_id @ '' has no authoritative IOMMU group''"
| "device_placement_message (IncompleteIommuGroup pci_id number missing) =
     ''PCI device '' @ pci_id @ '' requires every member of IOMMU group '' @ show_word number @ ''; missing '' @ join '','' missing"

fun memory_placement_message :: "memory_placement_error \<Rightarrow> string" where
  "memory_placement_message (InsufficientAvailable requested available) =
     ''requested '' @ show_word requested @ '' bytes, but only '' @ show_word available @ '' pool bytes are unassigned''"
| "memory_placement_message (NoContiguousPoolChunk requested) =
     ''requested '' @ show_word requested @ '' bytes do not fit in one contiguous pool chunk''"
| "memory_placement_message (MissingInstanceBase i) =
     ''instance '' @ show_word i @ '' has no authoritative memory base; refresh inventory before growing it''"
| "memory_placement_message (LeavesPoolChunk base requested) =
     ''memory range at '' @ show_hex base @ '' with '' @ show_word requested @ '' bytes leaves its current pool chunk''"
| "memory_placement_message (OverlapsInstance peer_name) =
     ''requested memory range overlaps instance '' @ [CHR 0x27] @ peer_name @ [CHR 0x27]"
| "memory_placement_message AddressOverflow = ''memory placement address or capacity overflows u64''"

text \<open>The derived \<open>Debug\<close> of a state.\<close>

fun instance_state_debug :: "instance_state \<Rightarrow> string" where
  "instance_state_debug Absent = ''Absent''"
| "instance_state_debug Ready = ''Ready''"
| "instance_state_debug Loaded = ''Loaded''"
| "instance_state_debug Active = ''Active''"
| "instance_state_debug Unknown_State = ''Unknown''"

fun plan_error_message :: "lifecycle_plan_error \<Rightarrow> string" where
  "plan_error_message (StaleGeneration expected actual) =
     ''snapshot generation changed from '' @ show_word expected @ '' to '' @ show_word actual"
| "plan_error_message (Invalid_Request message) = message"
| "plan_error_message (CpuPlacement e) = ''CPU placement was rejected: '' @ cpu_placement_message e"
| "plan_error_message (MemoryPlacement e) = ''memory placement was rejected: '' @ memory_placement_message e"
| "plan_error_message (DevicePlacement e) = ''device placement was rejected: '' @ device_placement_message e"
| "plan_error_message Not_Found = ''instance was not found''"
| "plan_error_message AlreadyExists = ''instance ID or name already exists''"
| "plan_error_message (InvalidState expected actual) =
     ''instance must be '' @ instance_state_debug expected @ '', but is '' @ instance_state_debug actual"

section \<open>The inventory probe\<close>

text \<open>The texts of operating system errors, exit statuses, decoder errors and durations are those of libraries.\<close>

fun process_inventory_message ::
  "(nat \<Rightarrow> string) \<Rightarrow> (exit_status \<Rightarrow> string) \<Rightarrow> string \<Rightarrow> (nat \<Rightarrow> string) \<Rightarrow> process_inventory_error \<Rightarrow> string" where
  "process_inventory_message io status json duration (Probe_Spawn e) = ''failed to start inventory probe: '' @ io e"
| "process_inventory_message io status json duration (Probe_Wait e) = ''failed to inspect inventory probe: '' @ io e"
| "process_inventory_message io status json duration (Probe_TemporaryFile e) = ''failed to prepare inventory probe output: '' @ io e"
| "process_inventory_message io status json duration (Probe_Output e) = ''failed to read inventory probe output: '' @ io e"
| "process_inventory_message io status json duration (Probe_Failed s detail) =
     ''inventory probe exited with '' @ status s @ '': '' @ detail"
| "process_inventory_message io status json duration Probe_InvalidOutput = ''inventory probe returned invalid data: '' @ json"
| "process_inventory_message io status json duration Probe_OutputTooLarge = ''inventory probe output exceeded its limit''"
| "process_inventory_message io status json duration (Probe_TimedOut deadline) = ''inventory probe exceeded '' @ duration deadline"
| "process_inventory_message io status json duration Probe_PreviousProbeHung = ''previous inventory probe is still blocked''"

section \<open>Addresses are told apart\<close>

lemma hex_digit_inject: "a < 16 \<Longrightarrow> b < 16 \<Longrightarrow> hex_digit a = hex_digit b \<longleftrightarrow> a = b"
  by (auto simp: hex_digit_def dest!: arg_cong [of _ _ "of_char :: char \<Rightarrow> nat"] split: if_splits)

lemma show_hex_digits_not_Nil [simp]: "show_hex_digits n \<noteq> []"
  by (subst show_hex_digits.simps) simp

lemma show_hex_digits_inject: "show_hex_digits m = show_hex_digits n \<longleftrightarrow> m = n"
proof (induction m arbitrary: n rule: less_induct)
  case (less m)
  have last: "last (show_hex_digits k) = hex_digit (k mod 16)" for k by (subst show_hex_digits.simps) simp
  have butlast: "butlast (show_hex_digits k) = (if k < 16 then [] else show_hex_digits (k div 16))" for k
    by (subst show_hex_digits.simps) simp
  show ?case
  proof
    assume same: "show_hex_digits m = show_hex_digits n"
    then have "m mod 16 = n mod 16" using last [of m] last [of n] hex_digit_inject [of "m mod 16" "n mod 16"] by simp
    moreover have "m div 16 = n div 16"
      using same butlast [of m] butlast [of n] less [of "m div 16" "n div 16"] show_hex_digits_not_Nil
      by (metis div_less less_nat_zero_code div_less_dividend one_less_numeral_iff semiring_norm(76) bot_nat_0.not_eq_extremum)
    ultimately show "m = n" by (metis div_mult_mod_eq)
  qed simp
qed

lemma show_hex_inject:
  "show_hex a = show_hex b \<longleftrightarrow> a = b"
  by (simp add: show_hex_def show_hex_digits_inject word_unat_eq_iff)

end
