(* ===== verification/Spec2Isabelle.thy ===== *)
theory Spec2Isabelle
  imports Service Gateway_State Cli Messages
begin

text \<open>
  Verification of Kernmux, a manager for Linux hosts that run several kernels side by side (Multikernel).

  \<^bold>\<open>The program.\<close>  A privileged daemon, \<open>kernmuxd\<close>, observes the host, accepts requests on a local socket, and changes the
  host only by running the external program Kerf.  Clients are the command line program \<open>kernmuxctl\<close>, the library it shares
  with others, and a web gateway that runs without privileges and forwards what a browser may ask.  A request passes
  through these parts, in this order: the transport (peer identity, authorization, request limits, audit), the host API
  (routing, decoding, generation preconditions), the operation registry and the scheduler (one worker per mutation, one
  mutation of the host at a time), the planners and executors (a plan is made against a fresh snapshot, Kerf is run, and
  the outcome is judged by observing the host again), and the inventory that produces the snapshots.  Consoles leave this
  path after authorization: the connection is upgraded and carries frames between the client and the device.

  \<^bold>\<open>Theories and sources\<close> (paths below \<open>src/crates\<close>).

  \<^item> \<open>Kernmux_Prelude\<close>: result values, checked and saturating words, strings, decimal numerals; the collections \<open>result_iff\<close>
    and \<open>word_checked\<close>.  \<open>Host_Files\<close>: white space, lines, UTF-8, paths and a view of the file system.  \<open>Admission\<close>: the
    contract of bounded admission.
  \<^item> \<open>Api_V1\<close>: the types of \<open>kernmux-api/src/v1.rs\<close> and the evaluation of the release contract.
  \<^item> \<open>Placement\<close>, \<open>Lifecycle\<close>, \<open>Executor\<close>, \<open>Resource_Pool\<close>: \<open>placement.rs\<close>, \<open>lifecycle.rs\<close>, \<open>lifecycle_executor.rs\<close> and
    \<open>resource_pool.rs\<close> of \<open>kernmux-daemon\<close>.  A planner is a function from a request and a snapshot to an invocation or an
    error; an executor threads the state of the snapshot source and of the runner.
  \<^item> \<open>Inventory\<close>, \<open>Host_Probe\<close>, \<open>Multikernel_Probe\<close>, \<open>Storage_Inventory\<close>, \<open>Supervision\<close>: \<open>inventory.rs\<close>, \<open>host.rs\<close> and
    \<open>multikernel.rs\<close> of \<open>kernmux-core\<close>, \<open>storage_inventory.rs\<close>, and the two supervisors of child processes.
  \<^item> \<open>Operations\<close>, \<open>Scheduler\<close>: \<open>operations.rs\<close> and \<open>scheduler.rs\<close>.  Each method is one atomic step on the state behind its
    mutex; worker threads are programs of atomic actions, and interleavings are step relations.
  \<^item> \<open>Security\<close>, \<open>Transport\<close>, \<open>Routes\<close>, \<open>Console\<close>, \<open>Image_Store\<close>, \<open>Host_Api\<close>, \<open>Host_Service\<close>: \<open>security.rs\<close>, \<open>transport.rs\<close>,
    \<open>console.rs\<close>, \<open>image_store.rs\<close> and \<open>host_api.rs\<close>; \<open>Host_Service\<close> composes them into the running daemon.
  \<^item> \<open>Client\<close>, \<open>Cli\<close>, \<open>Compatibility\<close>: \<open>kernmux-client/src/lib.rs\<close>, \<open>kernmux-cli/src/lib.rs\<close>, and the two checks of the release
    contract, \<open>compatibility.rs\<close> of the daemon and \<open>diagnostics.rs\<close> of the command line.
  \<^item> \<open>Browser_Console\<close>, \<open>Gateway\<close>, \<open>Gateway_Access\<close>, \<open>Gateway_State\<close>: \<open>kernmux-gateway/src\<close>; the model of the gateway is in
    \<open>Gateway\<close>, what it lets through in \<open>Gateway_Access\<close>, and its files and permits in \<open>Gateway_State\<close>.
  \<^item> \<open>Service\<close>: configuration and start of both services (\<open>service.rs\<close>, the assembly in \<open>host_api.rs\<close>, the gateway's
    \<open>main.rs\<close>).  \<open>Messages\<close>: the texts of the errors of the planner and the probe.

  Structures are records, enumerations are datatypes with the constructors of the source, words keep their width, errors are
  left values of a sum, and a handler is a function of the state that returns the new state on every path.

  \<^bold>\<open>What is shown.\<close>

  \<^item> Isolation: an accepted update keeps the memory of instances disjoint and inside one chunk of the pool, takes
    only devices that are free or the instance's own, and never splits an IOMMU group; a pool request never drops what an instance uses; a disk offered for passthrough is unused.  The
    arguments of Kerf are safe and say what was requested.
  \<^item> Honest outcomes: Kerf runs only on a fresh, healthy snapshot of the expected generation; an operation succeeds only if
    the expected state was observed, which refines an abstract life cycle of instances.  Generations stand for states and
    do not go back.
  \<^item> Operations: histories of operations are legal and what was dropped never comes back, events refine an append-only log,
    no accepted operation is orphaned, a draining scheduler settles, and a worker's outcome is recorded with its exact
    error.
  \<^item> Mediation: every request is authorized and audited before it reaches a handler, readers change nothing, and slots for
    mutations and consoles are exact in every reachable state of the daemon.  The role of an actor is what the
    configuration says, and a daemon that starts is in an initial state of that model with its configured limits, its socket in place with the
    configured mode.
  \<^item> Images: an import round-trips, unless it is an operating system image stored without its metadata, and keeps what is
    stored.  Consoles: frames round-trip, and
    serving ends with the lease returned.
  \<^item> Clients: every request of the client library, given identifiers in the form of the daemon's, and of the command line is
    one that the daemon routes; responses are framed exactly; waiting for an operation ends with exactly what was observed
    last; exit status zero means success, up to a failing write of the help text; CPU lists of the command line mean what
    the kernel's lists mean; what the daemon's start-up check accepts the local diagnosis accepts.
  \<^item> Gateway: neither a request nor a console reaches the daemon without the credential, an allowed origin and an allowed
    route; the client library's requests are forwarded unchanged; uploads are complete or absent; static files stay below
    their root; permits are conserved with any requests in flight; the console handshake is exact, and the bridge relays
    everything in order until an end fails or closes.
  \<^item> Processes: at most one Kerf runs at a time, and every run and probe returns.

  \<^bold>\<open>Interfaces.\<close>  \<open>bounded_admission\<close> is interpreted on the service limits and on the console leases; \<open>snapshot_source\<close>, on
  which the executors rely, on the inventory; \<open>operation_store\<close> on the registry; \<open>mutation_task\<close> on the workers for
  life cycle and pool; \<open>local_service\<close>, what the transport asks of the API behind it, on the host API; \<open>disk_order\<close> on the
  orders of the image store's disk.

  \<^bold>\<open>Hypotheses, bounds and fuel.\<close>  Code that is not in the repository is a parameter: the file system, processes and the
  clock, SHA-256, JSON codecs, the flattened device tree parser, HTTP and WebSocket parsing.  Where a theorem needs
  something of it, the hypothesis is named: the clock advances and a sleep lasts (\<open>clock_advances\<close>), a child that was
  reaped is gone (\<open>tracks_children\<close>), a decoder inverts its encoder (\<open>json_faithful\<close>).  The client library does
  not validate identifiers, so what is shown of its requests names the identifiers it is about.  Kerf may do anything, except
  that the comparison of the two checks of the release contract is about hosts where it prints its version line to both.  Loops that
  wait on the world are partial functions into an option, and their return is proved; loops over data are structural or
  have a measure; no fuel is used to cut off a computation.  The loops that the code itself bounds (the attempts of the
  client and of the gateway's clean-up) keep the bounds of the code.

  \<^bold>\<open>Not modelled.\<close>  The entry points of the daemon and the command line, which only set up tracing and the asynchronous
  runtime; implementations of \<open>Debug\<close> and \<open>Error::source\<close>; serialization attributes, since JSON enters as codecs; the
  asynchronous runtime below the gateway's and the transport's handlers, whose interleaving is modelled at the level of
  whole handlers and worker actions, and for the permits of the gateway as admission, upload permit, handler and answer (a
  handler that is dropped before its answer gives its permits back; what it had done by then is not described); the web interface, packaging and scripts, which are in other languages.
\<close>

end
